(* ===== verification/Prelude.thy ===== *)
theory Prelude
  imports Main "HOL-Library.Char_ord" "HOL-Library.List_Lexorder"
begin

text \<open>
  What every component shares: the shape of a service method (a state transformer that
  returns a value or throws), the rules that push a relation between states through such
  methods, the string operations of JavaScript the code uses, and list lemmas.

  An \<open>async\<close> method of the server is a \<open>('s, 'e, 'a) prog\<close>: it takes the state
  (database tables, clock and randomness counters) and gives \<open>Inl e\<close> when it throws or
  \<open>Inr x\<close> when it resolves, together with the state it leaves behind. A throw keeps the
  writes that were made before it, as the autocommitted statements of the database do.
\<close>

section \<open>Methods that may throw\<close>

type_synonym ('s, 'e, 'a) prog = "'s \<Rightarrow> ('e + 'a) \<times> 's"

definition ret :: "'a \<Rightarrow> ('s, 'e, 'a) prog" where
  "ret x = (\<lambda>s. (Inr x, s))"

definition throw :: "'e \<Rightarrow> ('s, 'e, 'a) prog" where
  "throw e = (\<lambda>s. (Inl e, s))"

definition seq :: "('s, 'e, 'a) prog \<Rightarrow> ('a \<Rightarrow> ('s, 'e, 'b) prog) \<Rightarrow> ('s, 'e, 'b) prog" where
  "seq m f = (\<lambda>s. case m s of (Inl e, s') \<Rightarrow> (Inl e, s') | (Inr x, s') \<Rightarrow> f x s')"

definition reads :: "('s \<Rightarrow> 'a) \<Rightarrow> ('s, 'e, 'a) prog" where
  "reads f = (\<lambda>s. (Inr (f s), s))"

definition writes :: "('s \<Rightarrow> 's) \<Rightarrow> ('s, 'e, unit) prog" where
  "writes f = (\<lambda>s. (Inr (), f s))"

text \<open>A synchronous helper that returns or throws.\<close>

definition outcome :: "'e + 'a \<Rightarrow> ('s, 'e, 'a) prog" where
  "outcome x = (\<lambda>s. (x, s))"

definition throw_when :: "bool \<Rightarrow> 'e \<Rightarrow> ('s, 'e, unit) prog" where
  "throw_when c e = (if c then throw e else ret ())"

definition need :: "'a option \<Rightarrow> 'e \<Rightarrow> ('s, 'e, 'a) prog" where
  "need v e = (case v of None \<Rightarrow> throw e | Some x \<Rightarrow> ret x)"

text \<open>\<open>try { ... } catch\<close>.\<close>

definition catch :: "('s, 'e, 'a) prog \<Rightarrow> ('e \<Rightarrow> ('s, 'e, 'a) prog) \<Rightarrow> ('s, 'e, 'a) prog" where
  "catch m h = (\<lambda>s. case m s of (Inl e, s') \<Rightarrow> h e s' | (Inr x, s') \<Rightarrow> (Inr x, s'))"

text \<open>A string parameter that must be there: JavaScript's \<open>!p\<close> also rejects \<open>""\<close>.\<close>

definition need_text :: "string option \<Rightarrow> 'e \<Rightarrow> ('s, 'e, string) prog" where
  "need_text v e = (case v of None \<Rightarrow> throw e | Some x \<Rightarrow> if x = [] then throw e else ret x)"

fun each :: "('a \<Rightarrow> ('s, 'e, unit) prog) \<Rightarrow> 'a list \<Rightarrow> ('s, 'e, unit) prog" where
  "each f [] = ret ()"
| "each f (x # xs) = seq (f x) (\<lambda>_. each f xs)"

named_theorems prog_simps \<open>running methods forward\<close>
named_theorems prog_inv \<open>inverting a run that ended with a given outcome\<close>

lemma run_simps [simp, prog_simps]:
  "ret x s = (Inr x, s)"
  "throw e s = (Inl e, s)"
  "reads f s = (Inr (f s), s)"
  "writes g s = (Inr (), g s)"
  by (simp_all add: ret_def throw_def reads_def writes_def)

lemma run_throw_when [simp, prog_simps]:
  "throw_when c e s = (if c then (Inl e, s) else (Inr (), s))"
  by (simp add: throw_when_def)

lemma run_need [simp, prog_simps]:
  "need None e s = (Inl e, s)"
  "need (Some x) e s = (Inr x, s)"
  "need_text None e s = (Inl e, s)"
  "need_text (Some t) e s = (if t = [] then (Inl e, s) else (Inr t, s))"
  by (simp_all add: need_def need_text_def)

lemma run_seq [prog_simps]:
  "seq m f s = (case m s of (Inl e, s') \<Rightarrow> (Inl e, s') | (Inr x, s') \<Rightarrow> f x s')"
  by (simp add: seq_def)

lemma seq_ret [simp]: "seq (ret x) f = f x"
  by (simp add: seq_def ret_def)

lemma seq_throw [simp]: "seq (throw e) f = throw e"
  by (simp add: seq_def throw_def)

lemma seq_reads [simp]: "seq (reads g) f s = f (g s) s"
  by (simp add: seq_def reads_def)

lemma seq_reads_fun: "seq (reads g) f = (\<lambda>s. f (g s) s)"
  by (simp add: fun_eq_iff)

lemma seq_writes [simp]: "seq (writes g) f s = f () (g s)"
  by (simp add: seq_def writes_def)

text \<open>As a congruence rule: a method is run from its first call on.\<close>

lemma seq_cong_first: "m = m' \<Longrightarrow> seq m f = seq m' f"
  by simp

lemma seq_assoc: "seq (seq m f) g = seq m (\<lambda>x. seq (f x) g)"
  by (rule ext) (simp add: seq_def split: sum.splits prod.splits)

lemma seq_Inr [prog_inv]:
  "seq m f s = (Inr y, t) \<longleftrightarrow> (\<exists>x s'. m s = (Inr x, s') \<and> f x s' = (Inr y, t))"
  by (auto simp: seq_def split: sum.splits prod.splits)

lemma seq_Inl [prog_inv]:
  "seq m f s = (Inl e, t) \<longleftrightarrow>
     m s = (Inl e, t) \<or> (\<exists>x s'. m s = (Inr x, s') \<and> f x s' = (Inl e, t))"
  by (auto simp: seq_def split: sum.splits prod.splits)

lemma catch_Inr [prog_inv]:
  "catch m h s = (Inr x, t) \<longleftrightarrow> m s = (Inr x, t) \<or> (\<exists>e s'. m s = (Inl e, s') \<and> h e s' = (Inr x, t))"
  by (auto simp: catch_def split: sum.splits prod.splits)

lemma catch_Inl [prog_inv]:
  "catch m h s = (Inl e, t) \<longleftrightarrow> (\<exists>e' s'. m s = (Inl e', s') \<and> h e' s' = (Inl e, t))"
  by (auto simp: catch_def split: sum.splits prod.splits)

lemma need_Inr [prog_inv]:
  "need v e s = (Inr x, t) \<longleftrightarrow> v = Some x \<and> t = s"
  by (auto simp: need_def split: option.splits)

lemma need_text_Inr [prog_inv]:
  "need_text v e s = (Inr x, t) \<longleftrightarrow> v = Some x \<and> x \<noteq> [] \<and> t = s"
  by (auto simp: need_text_def split: option.splits)

lemma outcome_run [prog_inv, simp]: "outcome x s = (r, t) \<longleftrightarrow> r = x \<and> t = s"
  by (auto simp: outcome_def)

lemma throw_when_Inr [prog_inv]:
  "throw_when c e s = (Inr u, t) \<longleftrightarrow> \<not> c \<and> t = s"
  by auto

section \<open>What a method may throw\<close>

text \<open>\<open>raises P m\<close>: whatever \<open>m\<close> throws, from whatever state, satisfies \<open>P\<close>.\<close>

definition raises :: "('e \<Rightarrow> bool) \<Rightarrow> ('s, 'e, 'a) prog \<Rightarrow> bool" where
  "raises P m \<longleftrightarrow> (\<forall>s e t. m s = (Inl e, t) \<longrightarrow> P e)"

named_theorems raise \<open>what the statements may throw\<close>

lemma raisesD: "raises P m \<Longrightarrow> m s = (Inl e, t) \<Longrightarrow> P e"
  unfolding raises_def by blast

lemma raises_quiet [raise]: "raises P (ret x)" "raises P (reads f)" "raises P (writes g)"
  by (simp_all add: raises_def)

lemma raises_seq [raise]: "raises P m \<Longrightarrow> (\<And>x. raises P (f x)) \<Longrightarrow> raises P (seq m f)"
  unfolding raises_def seq_Inl by blast

lemma raises_throws [raise]:
  "P e \<Longrightarrow> raises P (throw e)" "P e \<Longrightarrow> raises P (throw_when c e)"
  "P e \<Longrightarrow> raises P (need v e)" "P e \<Longrightarrow> raises P (need_text txt e)"
  by (auto simp: raises_def throw_when_def need_def need_text_def split: option.splits if_splits)

lemma raises_outcome: "(\<And>e. x = Inl e \<Longrightarrow> P e) \<Longrightarrow> raises P (outcome x)"
  unfolding raises_def outcome_run by blast

section \<open>Relations that methods respect\<close>

text \<open>
  \<open>evolves R m\<close>: however \<open>m\<close> ends, the state it leaves is related to the one it found.
  For a reflexive and transitive \<open>R\<close> this is closed under sequencing, so one lemma per
  statement of the program gives it for every method built from those statements. Frame
  conditions (\<open>R\<close> an equality of tables), invariants (\<open>R s t = (I s \<longrightarrow> I t)\<close>) and one-way
  changes (a used code stays used) are all of this form.
\<close>

definition evolves :: "('s \<Rightarrow> 's \<Rightarrow> bool) \<Rightarrow> ('s, 'e, 'a) prog \<Rightarrow> bool" where
  "evolves R m \<longleftrightarrow> (\<forall>s. R s (snd (m s)))"

named_theorems evolve \<open>statements respect a relation\<close>

lemma evolvesD: "evolves R m \<Longrightarrow> m s = (r, t) \<Longrightarrow> R s t"
  by (metis evolves_def snd_conv)

lemma evolvesI: "(\<And>s r t. m s = (r, t) \<Longrightarrow> R s t) \<Longrightarrow> evolves R m"
  by (metis evolves_def prod.collapse)

locale evolution =
  fixes R :: "'s \<Rightarrow> 's \<Rightarrow> bool"
  assumes refl: "R s s"
    and trans: "R s t \<Longrightarrow> R t u \<Longrightarrow> R s u"
begin

lemma keeps [intro, simp]:
  "evolves R (ret x)" "evolves R (throw e)" "evolves R (reads f)"
  "evolves R (throw_when c e)" "evolves R (need v e)" "evolves R (need_text w e)" "evolves R (outcome y)"
  by (auto simp: evolves_def refl need_def need_text_def outcome_def split: option.splits)

lemma writes: "(\<And>s. R s (g s)) \<Longrightarrow> evolves R (writes g)"
  by (simp add: evolves_def)

text \<open>The rest of a sequence may use what is known of the value it is given.\<close>

lemma seq_value:
  assumes "evolves R m" and "\<And>s x t. m s = (Inr x, t) \<Longrightarrow> evolves R (f x)"
  shows "evolves R (seq m f)"
proof (rule evolvesI)
  fix s r u
  assume run: "seq m f s = (r, u)"
  show "R s u"
  proof (cases r)
    case (Inl e)
    with run have "m s = (Inl e, u) \<or> (\<exists>x t. m s = (Inr x, t) \<and> f x t = (Inl e, u))"
      by (simp add: seq_Inl)
    then show ?thesis
      using assms by (blast dest: evolvesD intro: trans)
  next
    case (Inr y)
    with run obtain x t where "m s = (Inr x, t)" "f x t = (Inr y, u)"
      by (auto simp: seq_Inr)
    then show ?thesis
      using assms by (blast dest: evolvesD intro: trans)
  qed
qed

lemma seq: "evolves R m \<Longrightarrow> (\<And>x. evolves R (f x)) \<Longrightarrow> evolves R (seq m f)"
  by (rule seq_value)

lemma each: "(\<And>x. evolves R (f x)) \<Longrightarrow> evolves R (each f xs)"
  by (induction xs) (auto intro: seq)

lemma branch:
  "(c \<Longrightarrow> evolves R m) \<Longrightarrow> (\<not> c \<Longrightarrow> evolves R n) \<Longrightarrow> evolves R (if c then m else n)"
  by simp

lemma branch_option:
  "evolves R m \<Longrightarrow> (\<And>x. evolves R (f x)) \<Longrightarrow>
   evolves R (case v of None \<Rightarrow> m | Some x \<Rightarrow> f x)"
  by (simp split: option.splits)

lemma branch_pair: "(\<And>a b. evolves R (f a b)) \<Longrightarrow> evolves R (case p of (a, b) \<Rightarrow> f a b)"
  by (simp split: prod.split)

lemma branch_sum:
  "(\<And>a. evolves R (f a)) \<Longrightarrow> (\<And>b. evolves R (g b)) \<Longrightarrow> evolves R (case v of Inl a \<Rightarrow> f a | Inr b \<Rightarrow> g b)"
  by (simp split: sum.split)

lemmas rules = keeps writes seq each branch branch_option branch_pair branch_sum

end

text \<open>
  Relations built from an observation of the state (its value is unchanged) or from a
  property (it is not lost) are evolutions.
\<close>

lemma evolution_unchanged: "evolution (\<lambda>s t. f t = f s)"
  by unfold_locales auto

lemma evolution_invariant: "evolution (\<lambda>s t. I s \<longrightarrow> I t)"
  by unfold_locales auto

section \<open>Single-use rows\<close>

text \<open>
  Authorization codes, refresh tokens and passkey exchange tokens are spent by a
  conditional \<open>UPDATE ... WHERE id = ? AND <spent column> IS NULL\<close> whose number of changed
  rows tells the caller whether it won. The contract of such a statement is the locale
  \<open>single_winner\<close>; the bound on winners it gives is proved here once, for histories in which
  any number of callers' statements are interleaved with any other steps that never
  make a spent row live again (\<open>valid\<close> is what a provider needs of its tables, such as unique keys).
\<close>

inductive history ::
  "('id \<Rightarrow> 'now \<Rightarrow> 's \<Rightarrow> bool \<times> 's) \<Rightarrow> ('s \<Rightarrow> 's \<Rightarrow> bool) \<Rightarrow> 's \<Rightarrow> ('id \<times> bool) list \<Rightarrow> 's \<Rightarrow> bool"
  for consume other s where
  start: "history consume other s [] s"
| shot: "history consume other s h t \<Longrightarrow> consume i n t = (b, u) \<Longrightarrow>
    history consume other s ((i, b) # h) u"
| other: "history consume other s h t \<Longrightarrow> other t u \<Longrightarrow> history consume other s h u"

locale single_winner =
  fixes consume :: "'id \<Rightarrow> 'now \<Rightarrow> 's \<Rightarrow> bool \<times> 's"
    and spent :: "'id \<Rightarrow> 's \<Rightarrow> bool"
    and valid :: "'s \<Rightarrow> bool"
  assumes win: "valid s \<Longrightarrow> consume i n s = (True, t) \<Longrightarrow> \<not> spent i s \<and> spent i t"
    and keep: "consume i n s = (b, t) \<Longrightarrow> spent j s \<Longrightarrow> spent j t"
    and stays: "consume i n s = (b, t) \<Longrightarrow> valid s \<Longrightarrow> valid t"
begin

lemma at_most_one_winner:
  assumes run: "history consume other s h t" and "valid s"
    and other: "\<And>s t. other s t \<Longrightarrow> spent i s \<Longrightarrow> spent i t" "\<And>s t. other s t \<Longrightarrow> valid s \<Longrightarrow> valid t"
  shows "valid t \<and> count_list h (i, True) \<le> 1 \<and> (count_list h (i, True) = 1 \<longrightarrow> spent i t)"
  using run
proof (induction rule: history.induct)
  case start
  show ?case using assms(2) by simp
next
  case (shot h t j n b u)
  note valid = stays [OF shot.hyps(2)]
  show ?case
  proof (cases "(j, b) = (i, True)")
    case True
    with shot win have "\<not> spent i t" "spent i u" by blast+
    with shot.IH True valid show ?thesis by (cases "count_list h (i, True)") auto
  next
    case False
    then have "count_list ((j, b) # h) (i, True) = count_list h (i, True)" by auto
    with shot.IH keep [OF shot.hyps(2)] valid show ?thesis by auto
  qed
next
  case (other h t u)
  then show ?case using assms(3,4) by blast
qed

text \<open>Once a row is spent nobody wins it, whatever happens in between.\<close>

lemma spent_for_good:
  assumes run: "history consume other s h t" and "valid s" and "spent i s"
    and other: "\<And>s t. other s t \<Longrightarrow> spent i s \<Longrightarrow> spent i t" "\<And>s t. other s t \<Longrightarrow> valid s \<Longrightarrow> valid t"
  shows "valid t \<and> spent i t \<and> (i, True) \<notin> set h"
  using run
proof (induction rule: history.induct)
  case start
  show ?case using assms(2,3) by simp
next
  case (shot h t j n b u)
  with stays [OF shot.hyps(2)] keep [OF shot.hyps(2)] win [of t j n u] show ?case by auto
next
  case (other h t u)
  then show ?case using assms(4,5) by blast
qed

end

text \<open>Where nothing but being spent makes an attempt lose, the loser changes nothing.\<close>

locale one_shot = single_winner consume spent "\<lambda>_. True"
  for consume :: "'id \<Rightarrow> 'now \<Rightarrow> 's \<Rightarrow> bool \<times> 's" and spent +
  assumes lose: "consume i n s = (False, t) \<Longrightarrow> t = s \<and> spent i s"
begin

lemma winner_iff: "consume i n s = (b, t) \<Longrightarrow> b \<longleftrightarrow> \<not> spent i s"
  by (cases b) (auto dest: win [OF TrueI] lose)

lemma second_attempt_loses:
  assumes "consume i n s = (b, t)" and "consume i m t = (c, u)"
  shows "\<not> c"
proof -
  have "spent i t" using assms(1) by (cases b) (auto dest: win [OF TrueI] lose)
  with assms(2) show ?thesis by (auto dest: winner_iff)
qed

end

section \<open>JavaScript strings\<close>

text \<open>
  A string is its list of UTF-16 code units; the model has the code units below 256
  (\<open>char\<close>). White space, trimming and lower-casing are those of ECMAScript on that range,
  and \<open><\<close>, \<open>\<le>\<close> on strings are the code unit order JavaScript compares strings by.
\<close>

definition js_space :: "char \<Rightarrow> bool" where
  "js_space c \<longleftrightarrow> (let n = (of_char c :: nat) in 9 \<le> n \<and> n \<le> 13 \<or> n = 32 \<or> n = 160)"

definition js_trim :: "string \<Rightarrow> string" where
  "js_trim s = rev (dropWhile js_space (rev (dropWhile js_space s)))"

text \<open>\<open>v?.trim() || null\<close>\<close>

definition nonblank :: "string option \<Rightarrow> string option" where
  "nonblank v = (case v of None \<Rightarrow> None | Some s \<Rightarrow> if js_trim s = [] then None else Some (js_trim s))"

definition js_lower_char :: "char \<Rightarrow> char" where
  "js_lower_char c =
     (let n = (of_char c :: nat)
      in if 65 \<le> n \<and> n \<le> 90 \<or> 192 \<le> n \<and> n \<le> 222 \<and> n \<noteq> 215 then char_of (n + 32) else c)"

definition js_lower :: "string \<Rightarrow> string" where
  "js_lower s = List.map js_lower_char s"

text \<open>\<open>s.split(/\s+/)\<close>: a leading or trailing run of white space gives an empty part.\<close>

function split_spaces :: "string \<Rightarrow> string list" where
  "split_spaces s =
     (case dropWhile (\<lambda>c. \<not> js_space c) s of
        [] \<Rightarrow> [s]
      | r # rs \<Rightarrow> takeWhile (\<lambda>c. \<not> js_space c) s # split_spaces (dropWhile js_space rs))"
  by pat_completeness auto
termination
proof (relation "measure length")
  fix s r rs
  assume "dropWhile (\<lambda>c. \<not> js_space c) s = r # rs"
  then have "length (r # rs) \<le> length s" by (metis length_dropWhile_le)
  moreover have "length (dropWhile js_space rs) \<le> length rs" by (rule length_dropWhile_le)
  ultimately show "(dropWhile js_space rs, s) \<in> measure length" by simp
qed simp

declare split_spaces.simps [simp del]

text \<open>\<open>s.split(c)\<close> for a one-character separator.\<close>

fun split_on :: "char \<Rightarrow> string \<Rightarrow> string list" where
  "split_on c [] = [[]]"
| "split_on c (x # xs) =
     (if x = c then [] # split_on c xs
      else (case split_on c xs of [] \<Rightarrow> [[x]] | p # ps \<Rightarrow> (x # p) # ps))"

fun join_with :: "string \<Rightarrow> string list \<Rightarrow> string" where
  "join_with sep [] = []"
| "join_with sep [p] = p"
| "join_with sep (p # q # ps) = p @ sep @ join_with sep (q # ps)"

text \<open>\<open>Array.from(new Set(xs))\<close>: duplicates dropped, first occurrences kept in order.\<close>

fun uniq :: "'a list \<Rightarrow> 'a list" where
  "uniq [] = []"
| "uniq (x # xs) = x # filter (\<lambda>y. y \<noteq> x) (uniq xs)"

lemma set_uniq [simp]: "set (uniq xs) = set xs"
  by (induction xs) auto

lemma distinct_uniq [simp]: "distinct (uniq xs)"
  by (induction xs) auto

lemma uniq_distinct [simp]: "distinct xs \<Longrightarrow> uniq xs = xs"
proof (induction xs)
  case (Cons x xs)
  then have "filter (\<lambda>y. y \<noteq> x) xs = xs" by (auto simp: filter_id_conv)
  with Cons show ?case by simp
qed simp

lemma js_trim_idem: "js_trim (js_trim s) = js_trim s"
proof -
  let ?P = js_space
  define u where "u = dropWhile ?P s"
  define v where "v = dropWhile ?P (rev u)"
  have v: "dropWhile ?P v = v" unfolding v_def by (rule dropWhile_idem)
  have "dropWhile ?P (rev v) = rev v"
  proof (cases v)
    case (Cons x xs)
    have "\<exists>n. v = drop n (rev u)" unfolding v_def by (metis dropWhile_eq_drop)
    then obtain n where "v = drop n (rev u)" by blast
    then have pre: "rev v = take (length u - n) u" by (simp add: rev_drop)
    have "rev v \<noteq> []" using Cons by simp
    with pre have "take (length u - n) u \<noteq> []" by (rule subst)
    then have "u \<noteq> []" "0 < length u - n" by auto
    with pre have "hd (rev v) = hd u" by simp
    moreover have "u \<noteq> [] \<Longrightarrow> \<not> ?P (hd u)" unfolding u_def by (rule hd_dropWhile)
    moreover obtain c cs where "rev v = c # cs" using \<open>rev v \<noteq> []\<close> by (metis neq_Nil_conv)
    ultimately show ?thesis using \<open>u \<noteq> []\<close> by simp
  qed simp
  with v show ?thesis by (simp add: js_trim_def u_def [symmetric] v_def [symmetric])
qed

lemma find_in_set: "find P xs = Some x \<Longrightarrow> x \<in> set xs \<and> P x"
  by (auto simp: find_Some_iff)

lemma find_append:
  "find P (xs @ ys) = (case find P xs of None \<Rightarrow> find P ys | Some x \<Rightarrow> Some x)"
  by (induction xs) simp_all

lemma find_none_key: "k \<notin> set (List.map f xs) \<Longrightarrow> find (\<lambda>x. f x = k) xs = None"
  by (auto simp: find_None_iff)

lemma split_on_not_Nil [simp]: "split_on c s \<noteq> []"
  by (cases s) (auto split: list.splits)

lemma split_on_free: "c \<notin> set s \<Longrightarrow> split_on c s = [s]"
  by (induction s) auto

lemma split_on_append: "c \<notin> set p \<Longrightarrow> split_on c (p @ c # s) = p # split_on c s"
  by (induction p) auto

lemma split_on_join:
  "ps \<noteq> [] \<Longrightarrow> \<forall>p \<in> set ps. c \<notin> set p \<Longrightarrow> split_on c (join_with [c] ps) = ps"
  by (induction "[c]" ps rule: join_with.induct) (auto simp: split_on_free split_on_append)

lemma split_on_parts: "p \<in> set (split_on c s) \<Longrightarrow> c \<notin> set p"
  by (induction s arbitrary: p) (auto split: if_splits list.splits)

end
