(* ===== verification/IsoTime.thy ===== *)
theory IsoTime
  imports Prelude
begin

text \<open>
  Every expiry check of the server compares two ISO timestamps as strings
  (\<open>row.expiresAt <= new Date().toISOString()\<close>), in TypeScript and in SQL. This theory
  defines \<open>Date.prototype.toISOString\<close> on milliseconds since the epoch, the way ECMAScript
  does (the year is the largest one that does not start after the day), and proves that
  for every instant before the year 10000 the string order is the order of time. That is
  the fact all the expiry theorems of the other components rest on.
\<close>

section \<open>Calendar\<close>

definition ms_per_day :: nat where "ms_per_day = 86400000"

text \<open>Days between 1970-01-01 and the first day of year \<open>y\<close> (ECMAScript's \<open>DayFromYear\<close>).\<close>

definition leaps_before :: "nat \<Rightarrow> nat" where
  "leaps_before y = (y - 1) div 4 - (y - 1) div 100 + (y - 1) div 400"

definition year_start :: "nat \<Rightarrow> nat" where
  "year_start y = 365 * (y - 1970) + leaps_before y - leaps_before 1970"

definition leap_year :: "nat \<Rightarrow> bool" where
  "leap_year y \<longleftrightarrow> y mod 4 = 0 \<and> (y mod 100 \<noteq> 0 \<or> y mod 400 = 0)"

lemma leaps_before_Suc:
  assumes "0 < y"
  shows "leaps_before (Suc y) = leaps_before y + (if leap_year y then 1 else 0)"
proof -
  from assms obtain n where y: "y = Suc n" by (cases y) auto
  have le: "n div 100 \<le> n div 4" by (rule div_le_mono2) simp_all
  have "y mod 400 = 0 \<longrightarrow> y mod 100 = 0" and "y mod 100 = 0 \<longrightarrow> y mod 4 = 0"
    by (auto simp: mod_eq_0_iff_dvd elim: dvd_trans [rotated])
  with le show ?thesis
    unfolding leaps_before_def leap_year_def y by (auto simp: div_Suc)
qed

lemma leaps_before_mono: "leaps_before y \<le> leaps_before (Suc y)"
proof (cases "y = 0")
  case True
  then show ?thesis by (simp add: leaps_before_def)
next
  case False
  then show ?thesis using leaps_before_Suc [of y] by auto
qed

lemma leaps_before_1970: "1970 \<le> y \<Longrightarrow> leaps_before 1970 \<le> leaps_before y"
  by (induction y rule: dec_induct) (auto intro: order_trans leaps_before_mono)

lemma year_start_Suc: "1970 \<le> y \<Longrightarrow> year_start y + 365 \<le> year_start (Suc y)"
  using leaps_before_1970 [of y] leaps_before_mono [of y]
  by (simp add: year_start_def)

lemma year_start_ge: "1970 \<le> y \<Longrightarrow> year_start y \<le> year_start (y + k)"
proof (induction k)
  case (Suc k)
  then show ?case using year_start_Suc [of "y + k"] by simp
qed simp

function year_from :: "nat \<Rightarrow> nat \<Rightarrow> nat" where
  "year_from y d =
     (if 1970 \<le> y \<and> year_start (Suc y) \<le> d then year_from (Suc y) d else y)"
  by pat_completeness auto
termination
  by (relation "measure (\<lambda>(y, d). d - year_start y)") (auto dest: year_start_Suc)

declare year_from.simps [simp del]

definition year_of_day :: "nat \<Rightarrow> nat" where
  "year_of_day d = year_from (1970 + d div 366) d"

lemma year_from_ge: "y \<le> year_from y d"
  by (induction y d rule: year_from.induct)
     (metis Suc_leD order_refl year_from.simps)

lemma year_from_upper: "1970 \<le> y \<Longrightarrow> d < year_start (Suc (year_from y d))"
proof (induction y d rule: year_from.induct)
  case (1 y d)
  then show ?case
    by (cases "year_start (Suc y) \<le> d") (simp_all add: year_from.simps [of y d])
qed

lemma year_from_lower:
  "1970 \<le> y \<Longrightarrow> year_start y \<le> d \<Longrightarrow> year_start (year_from y d) \<le> d"
proof (induction y d rule: year_from.induct)
  case (1 y d)
  then show ?case
    by (cases "year_start (Suc y) \<le> d") (simp_all add: year_from.simps [of y d])
qed

lemma year_start_upper: "year_start (1970 + k) \<le> 366 * k"
proof (induction k)
  case 0
  then show ?case by (simp add: year_start_def)
next
  case (Suc k)
  have "leaps_before (Suc (1970 + k)) \<le> Suc (leaps_before (1970 + k))"
    by (subst leaps_before_Suc) simp_all
  then have "year_start (Suc (1970 + k)) \<le> year_start (1970 + k) + 366"
    using leaps_before_1970 [of "1970 + k"] by (simp add: year_start_def)
  with Suc show ?case by simp
qed

lemma year_of_day_bounds:
  "1970 \<le> year_of_day d" "year_start (year_of_day d) \<le> d" "d < year_start (Suc (year_of_day d))"
proof -
  have "366 * (d div 366) \<le> d" by simp
  then have start: "year_start (1970 + d div 366) \<le> d"
    using year_start_upper [of "d div 366"] by linarith
  show "1970 \<le> year_of_day d"
    unfolding year_of_day_def using year_from_ge [of "1970 + d div 366" d] by linarith
  show "year_start (year_of_day d) \<le> d"
    unfolding year_of_day_def using start by (intro year_from_lower) auto
  show "d < year_start (Suc (year_of_day d))"
    unfolding year_of_day_def by (intro year_from_upper) simp
qed

lemma year_of_day_mono: "d \<le> d' \<Longrightarrow> year_of_day d \<le> year_of_day d'"
proof (rule ccontr)
  assume le: "d \<le> d'" and "\<not> year_of_day d \<le> year_of_day d'"
  then obtain k where k: "year_of_day d = Suc (year_of_day d') + k"
    by (metis less_eq_Suc_le not_le le_Suc_ex)
  have "year_start (Suc (year_of_day d')) \<le> year_start (year_of_day d)"
    unfolding k using year_of_day_bounds(1) [of d'] by (intro year_start_ge) simp
  with year_of_day_bounds(2) [of d] year_of_day_bounds(3) [of d'] le show False by linarith
qed

text \<open>Splitting a day of the year into month and day of the month, both counted from 1.\<close>

definition month_lengths :: "bool \<Rightarrow> nat list" where
  "month_lengths leap =
     [31, if leap then 29 else 28, 31, 30, 31, 30, 31, 31, 30, 31, 30, 31]"

fun month_day :: "nat list \<Rightarrow> nat \<Rightarrow> nat \<Rightarrow> nat \<times> nat" where
  "month_day [] m d = (m, d + 1)"
| "month_day (l # ls) m d = (if d < l then (m, d + 1) else month_day ls (Suc m) (d - l))"

definition lex_less :: "nat \<times> nat \<Rightarrow> nat \<times> nat \<Rightarrow> bool" where
  "lex_less p q \<longleftrightarrow> fst p < fst q \<or> fst p = fst q \<and> snd p < snd q"

lemma month_day_ge: "m \<le> fst (month_day ls m d)"
  by (induction ls m d rule: month_day.induct) auto

lemma month_day_mono: "d < d' \<Longrightarrow> lex_less (month_day ls m d) (month_day ls m d')"
proof (induction ls m d arbitrary: d' rule: month_day.induct)
  case (1 m d)
  then show ?case by (simp add: lex_less_def)
next
  case (2 l ls m d)
  have "Suc m \<le> fst (month_day ls (Suc m) (d' - l))" by (rule month_day_ge)
  with 2 show ?case by (auto simp: lex_less_def)
qed

lemma month_day_bounds:
  "d < sum_list ls \<Longrightarrow> \<forall>l \<in> set ls. l < 99 \<Longrightarrow>
   fst (month_day ls m d) < m + length ls \<and> snd (month_day ls m d) < 100"
proof (induction ls m d rule: month_day.induct)
  case (2 l ls m d)
  then show ?case by (cases "d < l") auto
qed simp

lemma month_day_year:
  assumes "d < (if leap then 366 else 365)"
  shows "fst (month_day (month_lengths leap) 1 d) < 100"
    and "snd (month_day (month_lengths leap) 1 d) < 100"
proof -
  have "d < sum_list (month_lengths leap)" and "\<forall>l \<in> set (month_lengths leap). l < 99"
    using assms by (auto simp: month_lengths_def split: if_splits)
  then have "fst (month_day (month_lengths leap) 1 d) < 1 + length (month_lengths leap)
      \<and> snd (month_day (month_lengths leap) 1 d) < 100"
    by (rule month_day_bounds)
  then show "fst (month_day (month_lengths leap) 1 d) < 100"
    and "snd (month_day (month_lengths leap) 1 d) < 100"
    by (simp_all add: month_lengths_def)
qed

lemma year_length:
  assumes "1970 \<le> y"
  shows "year_start (Suc y) = year_start y + (if leap_year y then 366 else 365)"
proof -
  from assms obtain k where y: "y = 1970 + k" by (metis le_Suc_ex)
  show ?thesis
    using leaps_before_1970 [OF assms] leaps_before_Suc [of y] unfolding year_start_def y
    by (cases "leap_year (1970 + k)"; simp; arith)
qed

section \<open>Printing\<close>

definition digit :: "nat \<Rightarrow> char" where
  "digit n = char_of (48 + n)"

text \<open>\<open>String(x).padStart(n, "0")\<close> for \<open>x < 10 ^ n\<close>.\<close>

fun pad :: "nat \<Rightarrow> nat \<Rightarrow> string" where
  "pad 0 x = []"
| "pad (Suc n) x = pad n (x div 10) @ [digit (x mod 10)]"

text \<open>A number in a template string.\<close>

fun show_decimal :: "nat \<Rightarrow> string" where
  "show_decimal n = (if n < 10 then [digit n] else show_decimal (n div 10) @ [digit (n mod 10)])"

declare show_decimal.simps [simp del]

definition show_int :: "int \<Rightarrow> string" where
  "show_int n = (if n < 0 then CHR ''-'' # show_decimal (nat (- n)) else show_decimal (nat n))"

definition iso_date :: "nat \<Rightarrow> string" where
  "iso_date d =
     (let y = year_of_day d;
          md = month_day (month_lengths (leap_year y)) 1 (d - year_start y)
      in (if y < 10000 then pad 4 y else CHR ''+'' # pad 6 y)
         @ ''-'' @ pad 2 (fst md) @ ''-'' @ pad 2 (snd md))"

definition iso_time :: "nat \<Rightarrow> string" where
  "iso_time ms =
     pad 2 (ms div 3600000) @ '':'' @ pad 2 (ms div 60000 mod 60) @ '':''
     @ pad 2 (ms div 1000 mod 60) @ ''.'' @ pad 3 (ms mod 1000)"

definition toISOString :: "nat \<Rightarrow> string" where
  "toISOString ms = iso_date (ms div ms_per_day) @ ''T'' @ iso_time (ms mod ms_per_day) @ ''Z''"

lemma length_pad [simp]: "length (pad n x) = n"
  by (induction n arbitrary: x) auto

section \<open>String order is time order\<close>

lemma append_less_left: "length a = length b \<Longrightarrow> a < b \<Longrightarrow> a @ x < b @ y" for a b :: string
  by (induction a b rule: list_induct2) auto

lemma append_less_right: "x < y \<Longrightarrow> a @ x < a @ y" for a :: string
  by (induction a) auto

lemma digit_less: "x < y \<Longrightarrow> y < 10 \<Longrightarrow> digit x < digit y"
  by (simp add: digit_def less_char_def)

lemma pad_mono: "x < y \<Longrightarrow> y < 10 ^ n \<Longrightarrow> pad n x < pad n y"
proof (induction n arbitrary: x y)
  case 0
  then show ?case by simp
next
  case (Suc n)
  have q: "y div 10 < 10 ^ n" using Suc.prems(2) by (simp add: less_mult_imp_div_less)
  show ?case
  proof (cases "x div 10 = y div 10")
    case True
    with Suc.prems(1) have "x mod 10 < y mod 10"
      by (metis div_mult_mod_eq nat_add_left_cancel_less)
    then have "digit (x mod 10) < digit (y mod 10)" by (intro digit_less) auto
    then have "[digit (x mod 10)] < [digit (y mod 10)]" by simp
    with True show ?thesis by (simp add: append_less_right)
  next
    case False
    with Suc.prems(1) have "x div 10 < y div 10"
      by (metis div_le_mono le_neq_implies_less less_imp_le)
    then have "pad n (x div 10) < pad n (y div 10)" using q by (rule Suc.IH)
    then show ?thesis by (simp add: append_less_left)
  qed
qed

lemma pad_pair_mono:
  assumes less: "lex_less (x, u) (y, v)" and "y < 10 ^ n" and "v < 10 ^ m"
  shows "pad n x @ s @ pad m u < pad n y @ s @ pad m v"
proof (cases "x < y")
  case True
  with assms(2) have "pad n x < pad n y" by (simp add: pad_mono)
  then show ?thesis by (simp add: append_less_left)
next
  case False
  with less have "x = y" "u < v" by (auto simp: lex_less_def)
  with assms(3) show ?thesis by (simp add: pad_mono append_less_right)
qed

lemma iso_date_length: "year_of_day d < 10000 \<Longrightarrow> length (iso_date d) = 10"
  by (simp add: iso_date_def Let_def)

lemma iso_date_mono:
  assumes "d < d'" and year: "year_of_day d' < 10000"
  shows "iso_date d < iso_date d'"
proof -
  let ?y = "year_of_day d" and ?y' = "year_of_day d'"
  have le: "?y \<le> ?y'" using assms(1) by (simp add: year_of_day_mono)
  show ?thesis
  proof (cases "?y = ?y'")
    case True
    let ?md = "month_day (month_lengths (leap_year ?y')) 1"
    let ?k = "d - year_start ?y'" and ?k' = "d' - year_start ?y'"
    have "?k < ?k'" using year_of_day_bounds(2) [of d] True assms(1) by simp
    then have less: "lex_less (?md ?k) (?md ?k')" by (rule month_day_mono)
    have "?k' < (if leap_year ?y' then 366 else 365)"
      using year_of_day_bounds [of d'] by (simp add: year_length)
    then have "fst (?md ?k') < 10 ^ 2" and "snd (?md ?k') < 10 ^ 2"
      using month_day_year [of ?k' "leap_year ?y'"] by simp_all
    with less have "pad 2 (fst (?md ?k)) @ ''-'' @ pad 2 (snd (?md ?k))
        < pad 2 (fst (?md ?k')) @ ''-'' @ pad 2 (snd (?md ?k'))"
      by (intro pad_pair_mono) (simp_all only: prod.collapse)
    then show ?thesis using True year by (simp add: iso_date_def Let_def append_less_right)
  next
    case False
    with le year have "pad 4 ?y < pad 4 ?y'" by (intro pad_mono) simp_all
    then show ?thesis using le year by (simp add: iso_date_def Let_def append_less_left)
  qed
qed

lemma div_step_less:
  fixes t t' k :: nat
  assumes "t < t'" shows "lex_less (t div k, t mod k) (t' div k, t' mod k)"
proof (cases "t div k = t' div k")
  case True
  with assms have "t mod k < t' mod k" by (metis div_mult_mod_eq nat_add_left_cancel_less)
  with True show ?thesis by (simp add: lex_less_def)
next
  case False
  with assms show ?thesis by (simp add: lex_less_def div_le_mono le_neq_implies_less)
qed

lemma seconds_mono:
  assumes "lex_less (a, b) (a', b')" and "a' < 60" and "b' < 1000"
  shows "pad 2 a @ ''.'' @ pad 3 b < pad 2 a' @ ''.'' @ pad 3 b'"
  using assms by (intro pad_pair_mono) simp_all

lemma iso_time_mono:
  assumes "t < t'" and "t' < ms_per_day"
  shows "iso_time t < iso_time t'"
proof -
  let ?sec = "\<lambda>t. pad 2 (t div 1000 mod 60) @ ''.'' @ pad 3 (t mod 1000)"
  have split: "iso_time t = pad 2 (t div 60000 div 60) @ '':''
      @ pad 2 (t div 60000 mod 60) @ '':'' @ ?sec t" for t
    by (simp add: iso_time_def flip: div_mult2_eq)
  have bound: "t' div 60000 div 60 < 10 ^ 2"
    using assms(2) by (simp add: ms_per_day_def flip: div_mult2_eq)
  from div_step_less [OF assms(1), of 60000]
  consider (minute) "t div 60000 < t' div 60000"
    | (second) "t div 60000 = t' div 60000" "t mod 60000 < t' mod 60000"
    by (auto simp: lex_less_def)
  then show ?thesis
  proof cases
    case minute
    then have "pad 2 (t div 60000 div 60) @ '':'' @ pad 2 (t div 60000 mod 60)
        < pad 2 (t' div 60000 div 60) @ '':'' @ pad 2 (t' div 60000 mod 60)"
      using bound by (intro pad_pair_mono div_step_less) simp_all
    from append_less_left [OF _ this, of "'':'' @ ?sec t" "'':'' @ ?sec t'"]
    show ?thesis by (simp add: split)
  next
    case second
    have parts: "u mod 60000 div 1000 = u div 1000 mod 60" "u mod 60000 mod 1000 = u mod 1000"
      for u :: nat
    proof -
      have "u mod 60000 = 1000 * (u div 1000 mod 60) + u mod 1000"
        using mod_mult2_eq [of u 1000 60] by simp
      then show "u mod 60000 div 1000 = u div 1000 mod 60" by simp
    qed (rule mod_mod_cancel, simp)
    have "?sec t < ?sec t'"
    proof (rule seconds_mono)
      show "lex_less (t div 1000 mod 60, t mod 1000) (t' div 1000 mod 60, t' mod 1000)"
        using div_step_less [OF second(2), of 1000] by (simp only: parts)
    qed simp_all
    then show ?thesis by (simp add: split second(1) append_less_right)
  qed
qed

lemma length_iso_time [simp]: "length (iso_time t) = 12"
  by (simp add: iso_time_def)

lemma toISOString_mono:
  assumes "t < t'" and year: "year_of_day (t' div ms_per_day) < 10000"
  shows "toISOString t < toISOString t'"
proof -
  from div_step_less [OF assms(1), of ms_per_day]
  consider (day) "t div ms_per_day < t' div ms_per_day"
    | (time) "t div ms_per_day = t' div ms_per_day" "t mod ms_per_day < t' mod ms_per_day"
    by (auto simp: lex_less_def)
  then show ?thesis
  proof cases
    case day
    have "year_of_day (t div ms_per_day) < 10000"
      using year_of_day_mono [of "t div ms_per_day" "t' div ms_per_day"] day year by simp
    then show ?thesis
      using iso_date_mono [OF day year] year
      by (simp add: toISOString_def iso_date_length append_less_left)
  next
    case time
    then have "iso_time (t mod ms_per_day) < iso_time (t' mod ms_per_day)"
      by (intro iso_time_mono) (simp_all add: ms_per_day_def)
    then show ?thesis
      by (simp add: toISOString_def time(1) append_less_right append_less_left)
  qed
qed

text \<open>
  The last instant whose year has four digits. From it on ISO strings start with a sign
  and the string order is no longer the order of time.
\<close>

definition y10k :: nat where "y10k = 253402300800000"

lemma y10k_year: "t < y10k \<Longrightarrow> year_of_day (t div ms_per_day) < 10000"
proof (rule ccontr)
  assume "t < y10k" and "\<not> year_of_day (t div ms_per_day) < 10000"
  then obtain k where "year_of_day (t div ms_per_day) = 10000 + k"
    by (metis le_Suc_ex not_less)
  then have "year_start 10000 \<le> t div ms_per_day"
    using year_start_ge [of 10000 k] year_of_day_bounds(2) [of "t div ms_per_day"] by simp
  then show False
    using \<open>t < y10k\<close> by (simp add: year_start_def leaps_before_def y10k_def ms_per_day_def)
qed

lemma iso_less_iff:
  assumes "s < y10k" and "t < y10k"
  shows "toISOString s < toISOString t \<longleftrightarrow> s < t"
proof
  assume less: "toISOString s < toISOString t"
  show "s < t"
  proof (rule ccontr)
    assume "\<not> s < t"
    then consider "s = t" | "t < s" by linarith
    then show False
    proof cases
      case 2
      with toISOString_mono [OF 2 y10k_year [OF assms(1)]] less show False by simp
    qed (use less in simp)
  qed
qed (use assms in \<open>simp add: toISOString_mono y10k_year\<close>)

lemma iso_le_iff: "s < y10k \<Longrightarrow> t < y10k \<Longrightarrow> toISOString s \<le> toISOString t \<longleftrightarrow> s \<le> t"
  by (simp add: iso_less_iff flip: not_less)

end
