(* ===== verification/Schema.thy ===== *)
theory Schema
  imports Prelude IsoTime "HOL-Library.Word"
begin

text \<open>
  The data every component works on: the rows of the database tables (\<open>db/schema.sql\<close> and
  the row types of \<open>lib/repositories\<close>), the state of the server (\<open>world\<close>: the tables and
  how often the clock and the random source were read), the errors the services throw, and
  \<open>cfg\<close>, the platform the code calls but does not define (clock, randomness, SHA-256,
  HMAC, JWT signing, URL parsing, environment variables, the object store).

  Tables are lists of rows in insertion order. Timestamps are the ISO strings the columns
  hold. A nullable column is an \<open>option\<close>.
\<close>

section \<open>Errors\<close>

datatype oauth_error_code =
    Invalid_request | Invalid_client | Invalid_grant | Invalid_scope | Unauthorized_client
  | Unsupported_grant_type | Unsupported_response_type | Access_denied | Invalid_target
  | Server_error

text \<open>
  What a method can throw: the typed OAuth error with its HTTP status (and, for authorize
  errors that may be reported to the client, the redirect target and state), an error of
  the database driver (a violated constraint), or any other \<open>Error\<close>.
\<close>

datatype failure =
    OAuthServiceError oauth_error_code string nat "string option" "string option"
  | D1Error string
  | JsError string

abbreviation oauth :: "oauth_error_code \<Rightarrow> string \<Rightarrow> nat \<Rightarrow> failure" where
  "oauth c m s \<equiv> OAuthServiceError c m s None None"

section \<open>Rows\<close>

record environment_row =
  env_id :: string
  env_name :: string
  env_display_name :: "string option"

record user_row =
  us_id :: string
  us_username :: string
  us_name :: "string option"
  us_email :: "string option"
  us_email_verified_at :: "string option"
  us_avatar_key :: "string option"
  us_password_hash :: string
  us_password_updated_at :: "string option"
  us_is_admin :: bool
  us_is_test_user :: bool

record user_environment_row =
  ue_id :: string
  ue_user_id :: string
  ue_environment_id :: string

record client_row =
  cl_id :: string
  cl_client_id :: string
  cl_client_secret :: string
  cl_environment_id :: string
  cl_created_by :: "string option"
  cl_expires_at :: "string option"
  cl_name :: "string option"
  cl_token_endpoint_auth_method :: string
  cl_is_dynamic :: bool
  cl_is_test :: bool
  cl_home_url :: "string option"
  cl_home_display_name :: "string option"
  cl_show_on_home :: bool

record redirect_uri_row =
  ru_id :: string
  ru_client_id :: string
  ru_redirect_uri :: string

record scope_row =
  sc_id :: string
  sc_scope_name :: string
  sc_display_name :: "string option"
  sc_description :: "string option"

record client_scope_row =
  cs_id :: string
  cs_client_id :: string
  cs_scope_id :: string

record client_claim_row =
  cc_id :: string
  cc_client_id :: string
  cc_claim_name :: string
  cc_claim_value :: string
  cc_value_type :: string

record api_key_row =
  ak_id :: string
  ak_key_id :: string
  ak_key_hash :: string
  ak_client_id :: string
  ak_user_id :: string
  ak_name :: "string option"
  ak_created_by :: "string option"
  ak_created_at :: string
  ak_expires_at :: "string option"
  ak_revoked_at :: "string option"
  ak_last_used_at :: "string option"

record consent_row =
  co_id :: string
  co_user_id :: string
  co_client_id :: string
  co_scopes :: string
  co_created_at :: string
  co_updated_at :: string

text \<open>
  A row of \<open>token_scopes\<close>, \<open>authorization_code_scopes\<close>, \<open>refresh_token_scopes\<close> or
  \<open>api_key_scopes\<close>: it ties its owner to one of the client's granted scopes.
\<close>

record scope_link =
  lk_id :: string
  lk_owner :: string
  lk_client_scope_id :: string

record token_row =
  at_id :: string
  at_token_id :: string
  at_client_id :: string
  at_expires_at :: string
  at_resource :: "string option"
  at_api_key_id :: "string option"

record code_row =
  ac_id :: string
  ac_code_id :: string
  ac_client_id :: string
  ac_redirect_uri :: string
  ac_code_challenge :: string
  ac_code_challenge_method :: string
  ac_subject :: string
  ac_nonce :: "string option"
  ac_auth_time :: "string option"
  ac_expires_at :: string
  ac_used_at :: "string option"
  ac_created_at :: string
  ac_resource :: "string option"

record refresh_row =
  rt_id :: string
  rt_refresh_token_id :: string
  rt_client_id :: string
  rt_subject :: "string option"
  rt_access_token_id :: "string option"
  rt_expires_at :: string
  rt_revoked_at :: "string option"
  rt_rotated_from_id :: "string option"
  rt_created_at :: string
  rt_resource :: "string option"

text \<open>The JSON object an audit entry keeps as text; the model keeps the object.\<close>

datatype detail =
    DText string | DNull | DFlag bool | DCount nat | DTexts "string list"
  | DObject "(string \<times> detail) list"

definition dtext :: "string option \<Rightarrow> detail" where
  "dtext v = (case v of None \<Rightarrow> DNull | Some s \<Rightarrow> DText s)"

record audit_row =
  al_id :: string
  al_actor_user_id :: "string option"
  al_action :: string
  al_resource_type :: string
  al_resource_id :: "string option"
  al_details :: "(string \<times> detail) list option"
  al_created_at :: string

datatype challenge_kind = Mfa_otp | Password_reset | Email_verification

record challenge_row =
  ch_id :: string
  ch_user_id :: string
  ch_kind :: challenge_kind
  ch_code_hash :: "string option"
  ch_expires_at :: string
  ch_created_at :: string
  ch_consumed_at :: "string option"
  ch_otp_failed_attempts :: nat

record totp_row =
  tp_user_id :: string
  tp_secret_enc :: string
  tp_confirmed_at :: "string option"
  tp_created_at :: string
  tp_last_used_at :: "string option"

record dcr_rate_row =
  dr_ip :: string
  dr_day :: string
  dr_count :: nat

record site_settings_row =
  st_site_title :: "string option"
  st_site_url :: "string option"
  st_cdn_url :: "string option"
  st_logo_key :: "string option"
  st_mfa_enabled :: bool
  st_admin_password_policy_id :: "string option"

record policy_row =
  pp_id :: string
  pp_name :: string
  pp_enabled :: bool
  pp_min_length :: int
  pp_max_length :: "int option"
  pp_min_uppercase :: int
  pp_min_lowercase :: int
  pp_min_number :: int
  pp_min_special :: int
  pp_reject_contains_identifier :: bool
  pp_max_password_age_days :: int
  pp_created_at :: string
  pp_updated_at :: string

record policy_environment_row =
  pe_id :: string
  pe_policy_id :: string
  pe_environment_id :: string

datatype passkey_kind = Registration | Authentication

record passkey_challenge_row =
  pc_id :: string
  pc_user_id :: "string option"
  pc_challenge :: string
  pc_kind :: passkey_kind
  pc_expires_at :: string

record passkey_row =
  pk_id :: string
  pk_user_id :: string
  pk_credential_id :: string
  pk_public_key :: string
  pk_counter :: nat
  pk_device_type :: string
  pk_backed_up :: bool
  pk_transports :: "string option"
  pk_name :: "string option"
  pk_last_used_at :: "string option"
  pk_created_at :: string

record exchange_token_row =
  ex_id :: string
  ex_user_id :: string
  ex_expires_at :: string
  ex_used_at :: "string option"

record activity_row =
  ta_id :: string
  ta_ip_address :: "string option"
  ta_request_type :: string
  ta_succeeded :: bool
  ta_environment_name :: "string option"
  ta_duration_ms :: "nat option"
  ta_created_at :: string

text \<open>An object of the asset bucket; which keys hold one is a map.\<close>

record asset =
  as_content_type :: "string option"
  as_bytes :: "8 word list"

section \<open>State\<close>

record world =
  environments :: "environment_row list"
  users :: "user_row list"
  users_environments :: "user_environment_row list"
  clients :: "client_row list"
  redirect_uris :: "redirect_uri_row list"
  scopes :: "scope_row list"
  client_scopes :: "client_scope_row list"
  client_claims :: "client_claim_row list"
  api_keys :: "api_key_row list"
  api_key_scopes :: "scope_link list"
  user_consents :: "consent_row list"
  tokens :: "token_row list"
  token_scopes :: "scope_link list"
  authorization_codes :: "code_row list"
  authorization_code_scopes :: "scope_link list"
  refresh_tokens :: "refresh_row list"
  refresh_token_scopes :: "scope_link list"
  admin_audit_log :: "audit_row list"
  site_settings :: "site_settings_row option"
  user_challenges :: "challenge_row list"
  user_totp :: "totp_row list"
  dcr_rate_limit :: "dcr_rate_row list"
  password_policies :: "policy_row list"
  password_policy_environments :: "policy_environment_row list"
  site_admin_api_clients :: "string list"
  passkey_challenges :: "passkey_challenge_row list"
  user_passkeys :: "passkey_row list"
  passkey_exchange_tokens :: "exchange_token_row list"
  token_activity_log :: "activity_row list"
  assets :: "string \<rightharpoonup> asset"
  ticks :: nat
  draws :: nat

type_synonym 'a m = "(world, failure, 'a) prog"

section \<open>Platform\<close>

datatype json = JString string | JInt int | JBool bool | JOther string

type_synonym claims = "string \<rightharpoonup> json"

record jwk =
  jwk_kid :: "string option"
  jwk_material :: string

record jwt_header =
  hd_alg :: string
  hd_kid :: string
  hd_typ :: "string option"

text \<open>What the object store answers: no object, an object whose body is JSON with these keys, or a body that is not JSON.\<close>

datatype r2_answer = R2_missing | R2_jwks "jwk list" | R2_not_json

record url =
  url_protocol :: string
  url_hostname :: string
  url_hash :: string

text \<open>What the mail about a new API key says; \<open>mailer\<close> renders and sends it, or answers with an error message.\<close>

record key_notice =
  kn_to :: string
  kn_title :: string
  kn_siteUrl :: string
  kn_client :: string
  kn_keyId :: string
  kn_name :: "string option"
  kn_scopes :: "string list"
  kn_expiresAt :: "string option"

text \<open>The mails about one-time codes and password resets, by what they say.\<close>

datatype notice =
    CodeNotice challenge_kind string string string string
  | ResetNotice string string string string string

text \<open>
  The body of the cookie that carries a pending authorization, as \<open>JSON.parse\<close> gives it: not an
  object, or one with these \<open>exp\<close> (a number, rounded up) and \<open>params\<close>.
\<close>

datatype pending_json = Pending_other | Pending "int option" "string \<rightharpoonup> json"

text \<open>
  What the WebAuthn library is asked to check besides the browser's answer, and what it answers:
  it throws, or says whether the answer verifies. The credential it registers has an id, a key, a
  counter, a device type and a backup flag.
\<close>

record webauthn_expectation =
  wa_challenge :: string
  wa_origin :: string
  wa_rp_ids :: "string list"

record new_credential =
  nc_id :: string
  nc_public_key :: string
  nc_counter :: nat
  nc_device_type :: string
  nc_backed_up :: bool

record passkey_answer =
  an_id :: string
  an_transports :: "string option"
  an_body :: string

datatype 'a webauthn = Webauthn_throws string | Webauthn_unverified | Webauthn_verified 'a

text \<open>
  \<open>clock E n\<close> is the \<open>n\<close>-th reading of \<open>Date.now()\<close> in milliseconds, \<open>uuid E n\<close> and
  \<open>random_bytes E n k\<close> the \<open>n\<close>-th draw of randomness. \<open>ctx_env\<close> and \<open>process_env\<close> are the
  string-valued bindings of the two environments. A parser that may throw returns an
  \<open>option\<close>. \<open>argon_hash\<close> is the bound hashing service, if there is one; it answers with what
  it calls a hash or fails, and \<open>argon_verify\<close> answers \<open>None\<close> when the call itself fails.
  \<open>send_notice\<close> renders and sends a mail or answers with an error message. \<open>math_random E n k\<close>
  is the \<open>n\<close>-th \<open>Math.floor(Math.random() * k)\<close>. The AES functions take and give the Base64
  texts that are stored. \<open>jwt_verify_issued\<close> is told the time and also demands the issuer, and \<open>uri_component\<close> is
  \<open>encodeURIComponent\<close>. \<open>pending_bytes\<close> is the UTF-8 text of \<open>JSON.stringify\<close> on a pending
  authorization and \<open>parse_pending\<close> decodes and parses such bytes, or throws. \<open>webauthn_challenge E n\<close>
  is the challenge of the \<open>n\<close>-th generated WebAuthn options.
\<close>

record cfg =
  clock :: "nat \<Rightarrow> nat"
  uuid :: "nat \<Rightarrow> string"
  random_bytes :: "nat \<Rightarrow> nat \<Rightarrow> 8 word list"
  sha256 :: "string \<Rightarrow> 8 word list"
  hmac_sha256 :: "string \<Rightarrow> string \<Rightarrow> 8 word list"
  ctx_env :: "string \<Rightarrow> string option"
  process_env :: "string \<Rightarrow> string option"
  auth_assets :: "(string \<Rightarrow> r2_answer) option"
  import_pkcs8 :: "string \<Rightarrow> string option"
  sign_jwt :: "string \<Rightarrow> jwt_header \<Rightarrow> claims \<Rightarrow> string"
  jwt_verify :: "string list \<Rightarrow> jwk list \<Rightarrow> string \<Rightarrow> claims option"
  decode_jwt :: "string \<Rightarrow> claims option"
  parse_jwks :: "string \<Rightarrow> jwk list option"
  parse_json :: "string \<Rightarrow> json option"
  parse_number :: "string \<Rightarrow> json option"
  parse_date :: "string \<Rightarrow> nat option"
  parse_url :: "string \<Rightarrow> url option"
  url_with_hostname :: "string \<Rightarrow> string \<Rightarrow> string"
  url_set_params :: "string \<Rightarrow> (string \<times> string) list \<Rightarrow> string"
  argon_hash :: "(string \<Rightarrow> string option) option"
  argon_verify :: "string \<Rightarrow> string \<Rightarrow> bool option"
  md5 :: "string \<Rightarrow> string"
  mailer :: "(key_notice \<Rightarrow> string option) option"
  send_notice :: "notice \<Rightarrow> string option"
  math_random :: "nat \<Rightarrow> nat \<Rightarrow> nat"
  hmac_sha1 :: "8 word list \<Rightarrow> 8 word list \<Rightarrow> 8 word list"
  aes_encrypt :: "8 word list \<Rightarrow> 8 word list \<Rightarrow> string \<Rightarrow> string"
  aes_decrypt :: "8 word list \<Rightarrow> string \<Rightarrow> string \<Rightarrow> string option"
  jwt_verify_issued :: "nat \<Rightarrow> string \<Rightarrow> string list \<Rightarrow> jwk list \<Rightarrow> string \<Rightarrow> claims option"
  uri_component :: "string \<Rightarrow> string"
  pending_bytes :: "(string \<times> string) list \<Rightarrow> nat \<Rightarrow> 8 word list"
  parse_pending :: "8 word list \<Rightarrow> pending_json option"
  webauthn_challenge :: "nat \<Rightarrow> string"
  verify_registration :: "webauthn_expectation \<Rightarrow> passkey_answer \<Rightarrow> new_credential webauthn"
  verify_assertion :: "webauthn_expectation \<Rightarrow> passkey_row \<Rightarrow> passkey_answer \<Rightarrow> nat webauthn"

definition now_ms :: "cfg \<Rightarrow> nat m" where
  "now_ms E = (\<lambda>w. (Inr (clock E (ticks w)), w\<lparr>ticks := Suc (ticks w)\<rparr>))"

definition now_iso :: "cfg \<Rightarrow> string m" where
  "now_iso E = seq (now_ms E) (\<lambda>t. ret (toISOString t))"

definition randomUUID :: "cfg \<Rightarrow> string m" where
  "randomUUID E = (\<lambda>w. (Inr (uuid E (draws w)), w\<lparr>draws := Suc (draws w)\<rparr>))"

definition getRandomValues :: "cfg \<Rightarrow> nat \<Rightarrow> 8 word list m" where
  "getRandomValues E n = (\<lambda>w. (Inr (random_bytes E (draws w) n), w\<lparr>draws := Suc (draws w)\<rparr>))"

text \<open>\<open>bytes.map(b => b.toString(16).padStart(2, "0")).join("")\<close>\<close>

definition hex_digit :: "nat \<Rightarrow> char" where
  "hex_digit n = (if n < 10 then char_of (48 + n) else char_of (87 + n))"

definition hex_byte :: "8 word \<Rightarrow> string" where
  "hex_byte b = [hex_digit (unat b div 16), hex_digit (unat b mod 16)]"

definition hex_bytes :: "8 word list \<Rightarrow> string" where
  "hex_bytes bs = concat (List.map hex_byte bs)"

text \<open>An insertion that a constraint of the schema may reject.\<close>

definition guarded :: "(world \<Rightarrow> string option) \<Rightarrow> (world \<Rightarrow> world) \<Rightarrow> unit m" where
  "guarded violated ins =
     (\<lambda>w. case violated w of Some e \<Rightarrow> (Inl (D1Error e), w) | None \<Rightarrow> (Inr (), ins w))"

text \<open>A statement whose result is computed from the tables it also updates.\<close>

definition updating :: "(world \<Rightarrow> 'a) \<Rightarrow> (world \<Rightarrow> world) \<Rightarrow> 'a m" where
  "updating res upd = (\<lambda>w. (Inr (res w), upd w))"

fun randomUUIDs :: "cfg \<Rightarrow> nat \<Rightarrow> string list m" where
  "randomUUIDs E 0 = ret []"
| "randomUUIDs E (Suc n) = seq (randomUUID E) (\<lambda>i. seq (randomUUIDs E n) (\<lambda>is. ret (i # is)))"

text \<open>\<open>db.batch\<close>: the statements run as one transaction.\<close>

definition transaction :: "'a m \<Rightarrow> 'a m" where
  "transaction p = (\<lambda>w. case p w of (Inl e, w') \<Rightarrow> (Inl e, w) | (Inr x, w') \<Rightarrow> (Inr x, w'))"

lemma run_platform [simp, prog_simps]:
  "now_ms E w = (Inr (clock E (ticks w)), w\<lparr>ticks := Suc (ticks w)\<rparr>)"
  "now_iso E w = (Inr (toISOString (clock E (ticks w))), w\<lparr>ticks := Suc (ticks w)\<rparr>)"
  "randomUUID E w = (Inr (uuid E (draws w)), w\<lparr>draws := Suc (draws w)\<rparr>)"
  "getRandomValues E n w = (Inr (random_bytes E (draws w) n), w\<lparr>draws := Suc (draws w)\<rparr>)"
  "updating res upd w = (Inr (res w), upd w)"
  by (simp_all add: now_ms_def now_iso_def randomUUID_def getRandomValues_def updating_def
      seq_def ret_def)

lemma seq_platform [simp]:
  "seq (now_ms E) f w = f (clock E (ticks w)) (w\<lparr>ticks := Suc (ticks w)\<rparr>)"
  "seq (now_iso E) g w = g (toISOString (clock E (ticks w))) (w\<lparr>ticks := Suc (ticks w)\<rparr>)"
  "seq (randomUUID E) h w = h (uuid E (draws w)) (w\<lparr>draws := Suc (draws w)\<rparr>)"
  "seq (getRandomValues E n) k w = k (random_bytes E (draws w) n) (w\<lparr>draws := Suc (draws w)\<rparr>)"
  "seq (updating res upd) q w = q (res w) (upd w)"
  by (simp_all add: seq_def)

lemma raises_platform [raise]:
  "raises P (now_ms E)" "raises P (now_iso E)" "raises P (randomUUID E)" "raises P (getRandomValues E n)"
  "raises P (updating res upd)"
  by (simp_all add: raises_def)

lemma run_guarded [prog_simps]:
  "guarded v g w = (case v w of Some e \<Rightarrow> (Inl (D1Error e), w) | None \<Rightarrow> (Inr (), g w))"
  by (simp add: guarded_def)

lemma guarded_Inr [prog_inv]:
  "guarded v g w = (Inr u, t) \<longleftrightarrow> v w = None \<and> t = g w"
  by (auto simp: guarded_def split: option.splits)

lemma guarded_Inl [prog_inv]:
  "guarded v g w = (Inl e, t) \<longleftrightarrow> (\<exists>c. v w = Some c \<and> e = D1Error c) \<and> t = w"
  by (auto simp: guarded_def split: option.splits)

text \<open>The relation each of these respects, for the frame and invariant proofs.\<close>

lemma evolves_clock:
  assumes "\<And>w n. R w (w\<lparr>ticks := n\<rparr>)"
  shows "evolves R (now_ms E)" "evolves R (now_iso E)"
  using assms by (simp_all add: evolves_def)

lemma evolves_random:
  assumes "\<And>w n. R w (w\<lparr>draws := n\<rparr>)"
  shows "evolves R (randomUUID E)" "evolves R (getRandomValues E k)"
  using assms by (simp_all add: evolves_def)

lemma evolves_guarded:
  "(\<And>w. R w w) \<Longrightarrow> (\<And>w. v w = None \<Longrightarrow> R w (g w)) \<Longrightarrow> evolves R (guarded v g)"
  by (auto simp: evolves_def guarded_def split: option.splits)

lemma evolves_updating: "(\<And>w. R w (upd w)) \<Longrightarrow> evolves R (updating res upd)"
  by (simp add: evolves_def)

lemma randomUUIDs_run [simp]:
  "randomUUIDs E n w = (Inr (List.map (uuid E) [draws w..<draws w + n]), w\<lparr>draws := draws w + n\<rparr>)"
proof (induction n arbitrary: w)
  case (Suc n)
  have "[draws w..<draws w + Suc n] = draws w # [Suc (draws w)..<Suc (draws w) + n]"
    by (simp add: upt_conv_Cons del: upt_Suc)
  with Suc show ?case by (simp add: run_seq del: upt_Suc)
qed simp

lemma transaction_Inr [prog_inv]: "transaction p w = (Inr x, t) \<longleftrightarrow> p w = (Inr x, t)"
  by (auto simp: transaction_def split: sum.splits prod.splits)

lemma transaction_Inl [prog_inv]:
  "transaction p w = (Inl e, t) \<longleftrightarrow> fst (p w) = Inl e \<and> t = w"
  by (auto simp: transaction_def split: sum.splits prod.splits)

lemma hex_digit_range:
  "n < 16 \<Longrightarrow> (of_char (hex_digit n) :: nat) \<in> {48..57} \<union> {97..102}"
  by (auto simp: hex_digit_def)

lemma length_hex_bytes [simp]: "length (hex_bytes bs) = 2 * length bs"
  by (induction bs) (auto simp: hex_bytes_def hex_byte_def)

end
