(* ===== verification/Clients.thy ===== *)
theory Clients
  imports Schema
begin

text \<open>
  The lookups of \<open>client.repository.d1.ts\<close>, \<open>admin.repository.d1.ts\<close> (users and their
  environments), \<open>environment.repository.d1.ts\<close> and the scope-grant queries of
  \<open>token.repository.d1.ts\<close>: which client a request names, which environments a user may
  enter, and which scopes the client has been granted.
\<close>

section \<open>Clients and users\<close>

record client =
  c_id :: string
  c_clientId :: string
  c_clientSecret :: string
  c_environmentId :: string
  c_createdBy :: string
  c_expiresAt :: "string option"
  c_name :: "string option"
  c_tokenEndpointAuthMethod :: string
  c_isDynamic :: bool
  c_isTest :: bool
  c_homeUrl :: "string option"
  c_homeDisplayName :: "string option"
  c_showOnHome :: bool

text \<open>The display name of the creator is \<open>COALESCE(u.username, c.created_by, '(deleted user)')\<close>.\<close>

definition created_by_display :: "world \<Rightarrow> string option \<Rightarrow> string" where
  "created_by_display w by =
     (case by of
        None \<Rightarrow> ''(deleted user)''
      | Some i \<Rightarrow> (case find (\<lambda>u. us_id u = i) (users w) of Some u \<Rightarrow> us_username u | None \<Rightarrow> i))"

definition rowToClient :: "world \<Rightarrow> client_row \<Rightarrow> client" where
  "rowToClient w r =
     \<lparr>c_id = cl_id r, c_clientId = cl_client_id r, c_clientSecret = cl_client_secret r,
      c_environmentId = cl_environment_id r, c_createdBy = created_by_display w (cl_created_by r),
      c_expiresAt = cl_expires_at r, c_name = cl_name r,
      c_tokenEndpointAuthMethod = cl_token_endpoint_auth_method r,
      c_isDynamic = cl_is_dynamic r, c_isTest = cl_is_test r,
      c_homeUrl = cl_home_url r, c_homeDisplayName = cl_home_display_name r,
      c_showOnHome = cl_show_on_home r\<rparr>"

definition client_by_id :: "string \<Rightarrow> world \<Rightarrow> client option" where
  "client_by_id i w = map_option (rowToClient w) (find (\<lambda>r. cl_id r = i) (clients w))"

definition client_by_identifier :: "string \<Rightarrow> world \<Rightarrow> client option" where
  "client_by_identifier i w =
     map_option (rowToClient w) (find (\<lambda>r. cl_client_id r = i) (clients w))"

definition redirect_uris_of :: "string \<Rightarrow> world \<Rightarrow> string list" where
  "redirect_uris_of i w =
     sort (List.map ru_redirect_uri (filter (\<lambda>r. ru_client_id r = i) (redirect_uris w)))"

definition updateSecret :: "string \<Rightarrow> string \<Rightarrow> unit m" where
  "updateSecret i secret =
     writes (\<lambda>w. w\<lparr>clients :=
       List.map (\<lambda>r. if cl_id r = i then r\<lparr>cl_client_secret := secret\<rparr> else r) (clients w)\<rparr>)"

text \<open>What the services read of a user (the password hash stays behind).\<close>

record user_record =
  u_id :: string
  u_username :: string
  u_name :: "string option"
  u_email :: "string option"
  u_emailVerifiedAt :: "string option"
  u_avatarKey :: "string option"
  u_isAdmin :: bool
  u_isTestUser :: bool

definition rowToUser :: "user_row \<Rightarrow> user_record" where
  "rowToUser r =
     \<lparr>u_id = us_id r, u_username = us_username r, u_name = us_name r, u_email = us_email r,
      u_emailVerifiedAt = us_email_verified_at r, u_avatarKey = us_avatar_key r,
      u_isAdmin = us_is_admin r, u_isTestUser = us_is_test_user r\<rparr>"

definition user_by_id :: "string \<Rightarrow> world \<Rightarrow> user_record option" where
  "user_by_id i w = map_option rowToUser (find (\<lambda>r. us_id r = i) (users w))"

definition user_environments :: "string \<Rightarrow> world \<Rightarrow> string list" where
  "user_environments i w =
     List.map ue_environment_id (filter (\<lambda>r. ue_user_id r = i) (users_environments w))"

definition environment_by_id :: "string \<Rightarrow> world \<Rightarrow> environment_row option" where
  "environment_by_id i w = find (\<lambda>r. env_id r = i) (environments w)"

section \<open>Scope grants\<close>

record scope_grant =
  g_clientScopeId :: string
  g_scopeId :: string
  g_scopeName :: string

text \<open>\<open>client_scopes INNER JOIN scopes\<close> for one row of \<open>client_scopes\<close>.\<close>

definition grants_of_row :: "world \<Rightarrow> client_scope_row \<Rightarrow> scope_grant list" where
  "grants_of_row w cs =
     [\<lparr>g_clientScopeId = cs_id cs, g_scopeId = cs_scope_id cs, g_scopeName = sc_scope_name s\<rparr>.
        s \<leftarrow> scopes w, sc_id s = cs_scope_id cs]"

definition client_scope_grants :: "string \<Rightarrow> world \<Rightarrow> scope_grant list" where
  "client_scope_grants i w =
     sort_key g_scopeName
       (concat (List.map (grants_of_row w) (filter (\<lambda>cs. cs_client_id cs = i) (client_scopes w))))"

definition client_scope_grants_by_names :: "string \<Rightarrow> string list \<Rightarrow> world \<Rightarrow> scope_grant list" where
  "client_scope_grants_by_names i names w =
     (if names = [] then []
      else sort_key g_scopeName
        (filter (\<lambda>g. g_scopeName g \<in> set names)
          (concat (List.map (grants_of_row w)
            (filter (\<lambda>cs. cs_client_id cs = i) (client_scopes w))))))"

text \<open>
  The names a token carries: \<open>GROUP_CONCAT(DISTINCT s.scope_name)\<close> over its scope links
  (\<open>NULL\<close> when there are none), split again at the commas and without empty parts.
\<close>

definition linked_scope_names :: "world \<Rightarrow> scope_link list \<Rightarrow> string \<Rightarrow> string list" where
  "linked_scope_names w links owner =
     [sc_scope_name s. l \<leftarrow> links, lk_owner l = owner,
        cs \<leftarrow> client_scopes w, cs_id cs = lk_client_scope_id l,
        s \<leftarrow> scopes w, sc_id s = cs_scope_id cs]"

definition group_concat_distinct :: "string list \<Rightarrow> string option" where
  "group_concat_distinct names = (if names = [] then None else Some (join_with '','' (uniq names)))"

definition scope_names_csv :: "string option \<Rightarrow> string list" where
  "scope_names_csv csv =
     (case csv of
        None \<Rightarrow> []
      | Some s \<Rightarrow> if s = [] then [] else filter (\<lambda>p. p \<noteq> []) (split_on CHR '','' s))"

definition scope_names_of :: "world \<Rightarrow> scope_link list \<Rightarrow> string \<Rightarrow> string list" where
  "scope_names_of w links owner =
     scope_names_csv (group_concat_distinct (linked_scope_names w links owner))"

section \<open>Facts about the lookups\<close>

lemma find_unique:
  "distinct (List.map key xs) \<Longrightarrow> x \<in> set xs \<Longrightarrow> find (\<lambda>y. key y = key x) xs = Some x"
  by (induction xs) (auto simp: image_iff)

lemma client_by_id_Some:
  "client_by_id i w = Some c \<Longrightarrow> c_id c = i"
  by (auto simp: client_by_id_def rowToClient_def dest: find_in_set)

lemma client_by_identifier_Some:
  assumes "client_by_identifier i w = Some c"
  shows "c_clientId c = i" and "\<exists>r \<in> set (clients w). cl_id r = c_id c \<and> cl_client_id r = i"
  using assms by (auto simp: client_by_identifier_def rowToClient_def dest: find_in_set)

lemma set_grants_of_row:
  "g \<in> set (grants_of_row w cs) \<longleftrightarrow>
     g_clientScopeId g = cs_id cs \<and> g_scopeId g = cs_scope_id cs \<and>
     (\<exists>s \<in> set (scopes w). sc_id s = cs_scope_id cs \<and> g_scopeName g = sc_scope_name s)"
  by (cases g) (auto simp: grants_of_row_def)

lemma set_client_scope_grants:
  "g \<in> set (client_scope_grants i w) \<longleftrightarrow>
     (\<exists>cs \<in> set (client_scopes w). cs_client_id cs = i \<and> g \<in> set (grants_of_row w cs))"
  by (auto simp: client_scope_grants_def)

lemma set_client_scope_grants_by_names:
  "set (client_scope_grants_by_names i names w) =
     {g \<in> set (client_scope_grants i w). g_scopeName g \<in> set names}"
  by (auto simp: client_scope_grants_by_names_def set_client_scope_grants)

text \<open>
  Storing the names as one comma-separated column loses nothing as long as no scope name
  is empty or contains a comma.
\<close>

lemma scope_names_csv_group_concat:
  assumes "\<forall>n \<in> set names. n \<noteq> [] \<and> CHR '','' \<notin> set n"
  shows "scope_names_csv (group_concat_distinct names) = uniq names"
proof (cases "names = []")
  case True
  then show ?thesis by (simp add: scope_names_csv_def group_concat_distinct_def)
next
  case False
  then obtain n ns where names: "uniq names = n # ns"
    by (cases names) auto
  have parts: "\<forall>p \<in> set (uniq names). p \<noteq> [] \<and> CHR '','' \<notin> set p" using assms by simp
  have "join_with '','' (uniq names) \<noteq> []"
    using parts unfolding names by (cases ns) auto
  moreover have "split_on CHR '','' (join_with '','' (uniq names)) = uniq names"
    using parts names by (intro split_on_join) auto
  moreover have "filter (\<lambda>p. p \<noteq> []) (uniq names) = uniq names"
    using parts by (simp add: filter_id_conv)
  ultimately show ?thesis using False
    by (simp add: scope_names_csv_def group_concat_distinct_def)
qed

section \<open>Scope links\<close>

text \<open>
  Tokens, codes and refresh tokens each have a link table, written row by row after the
  owner: \<open>INSERT INTO ... (id, <owner>, client_scope_id) VALUES (randomUUID(), ?, ?)\<close>. The
  insertion is the same statement on three tables; \<open>link_table\<close> is what its effect
  depends on, and each store interprets it on its own table.
\<close>

definition link_violated ::
  "(world \<Rightarrow> scope_link list) \<Rightarrow> (world \<Rightarrow> string list) \<Rightarrow> scope_link \<Rightarrow> world \<Rightarrow> string option" where
  "link_violated links owners l w =
     (if lk_id l \<in> set (List.map lk_id (links w)) then Some ''UNIQUE constraint failed''
      else if lk_owner l \<notin> set (owners w) then Some ''FOREIGN KEY constraint failed''
      else if lk_client_scope_id l \<notin> set (List.map cs_id (client_scopes w))
        then Some ''FOREIGN KEY constraint failed''
      else None)"

definition insert_link ::
  "cfg \<Rightarrow> (world \<Rightarrow> scope_link list) \<Rightarrow> (scope_link \<Rightarrow> world \<Rightarrow> world) \<Rightarrow> (world \<Rightarrow> string list)
   \<Rightarrow> string \<Rightarrow> string \<Rightarrow> unit m" where
  "insert_link E links put owners owner cs =
     seq (randomUUID E) (\<lambda>i.
       let l = \<lparr>lk_id = i, lk_owner = owner, lk_client_scope_id = cs\<rparr>
       in guarded (link_violated links owners l) (put l))"

locale link_table =
  fixes links :: "world \<Rightarrow> scope_link list"
    and put :: "scope_link \<Rightarrow> world \<Rightarrow> world"
    and owners :: "world \<Rightarrow> string list"
  assumes links_put: "links (put l w) = links w @ [l]"
    and links_draws: "links (w\<lparr>draws := n\<rparr>) = links w"
begin

lemma insert_one:
  assumes "insert_link E links put owners owner cs w = (r, t)"
  shows "\<exists>ls. links t = links w @ ls \<and> (\<forall>l \<in> set ls. lk_owner l = owner)
     \<and> set (List.map lk_client_scope_id ls) \<subseteq> {cs} \<and> (\<forall>u. r = Inr u \<longrightarrow> List.map lk_client_scope_id ls = [cs])"
proof -
  let ?l = "\<lparr>lk_id = uuid E (draws w), lk_owner = owner, lk_client_scope_id = cs\<rparr>"
  let ?v = "w\<lparr>draws := Suc (draws w)\<rparr>"
  show ?thesis
  proof (cases "link_violated links owners ?l ?v")
    case None
    with assms have "r = Inr ()" "t = put ?l ?v"
      by (simp_all add: insert_link_def Let_def seq_def guarded_def)
    then show ?thesis by (intro exI [of _ "[?l]"]) (simp add: links_put links_draws)
  next
    case (Some c)
    with assms have "r = Inl (D1Error c)" "t = ?v"
      by (simp_all add: insert_link_def Let_def seq_def guarded_def)
    then show ?thesis by (intro exI [of _ "[]"]) (simp add: links_draws)
  qed
qed

lemma insert_all:
  assumes "each (insert_link E links put owners owner) cs w = (r, t)"
  shows "\<exists>ls. links t = links w @ ls \<and> (\<forall>l \<in> set ls. lk_owner l = owner)
     \<and> set (List.map lk_client_scope_id ls) \<subseteq> set cs
     \<and> (\<forall>u. r = Inr u \<longrightarrow> List.map lk_client_scope_id ls = cs)"
  using assms
proof (induction cs arbitrary: w)
  case Nil
  then show ?case by (auto simp: ret_def intro!: exI [of _ "[]"])
next
  case (Cons c cs)
  obtain q v where one: "insert_link E links put owners owner c w = (q, v)"
    by (metis surj_pair)
  obtain ls where ls: "links v = links w @ ls" "\<forall>l \<in> set ls. lk_owner l = owner"
      "set (List.map lk_client_scope_id ls) \<subseteq> {c}"
      "\<forall>u. q = Inr u \<longrightarrow> List.map lk_client_scope_id ls = [c]"
    using insert_one [OF one] by blast
  show ?case
  proof (cases q)
    case (Inl e)
    with Cons.prems one have "r = Inl e" "t = v" by (simp_all add: seq_def)
    with ls show ?thesis by (auto intro!: exI [of _ ls])
  next
    case (Inr u)
    with Cons.prems one have "each (insert_link E links put owners owner) cs v = (r, t)"
      by (simp add: seq_def)
    from Cons.IH [OF this] obtain ls' where ls': "links t = links v @ ls'"
        "\<forall>l \<in> set ls'. lk_owner l = owner" "set (List.map lk_client_scope_id ls') \<subseteq> set cs"
        "\<forall>u. r = Inr u \<longrightarrow> List.map lk_client_scope_id ls' = cs"
      by blast
    show ?thesis
      using ls ls' Inr by (intro exI [of _ "ls @ ls'"]) auto
  qed
qed

end

lemma evolves_insert_link:
  assumes ev: "evolution R" and "\<And>w n. R w (w\<lparr>draws := n\<rparr>)" and "\<And>l w. R w (put l w)"
  shows "evolves R (insert_link E links put owners owner cs)"
  unfolding insert_link_def Let_def
  by (intro evolution.seq [OF ev] evolves_random evolves_guarded evolution.refl [OF ev] assms)

lemma linked_scope_names_in:
  "n \<in> set (linked_scope_names w links owner) \<longleftrightarrow>
     (\<exists>l \<in> set links. lk_owner l = owner \<and> (\<exists>cs \<in> set (client_scopes w). cs_id cs = lk_client_scope_id l
        \<and> (\<exists>s \<in> set (scopes w). sc_id s = cs_scope_id cs \<and> sc_scope_name s = n)))"
  by (auto simp: linked_scope_names_def)

end
