(* ===== verification/TokenStore.thy ===== *)
theory TokenStore
  imports Clients
begin

text \<open>
  \<open>TokenRepositoryD1\<close>: the access-token rows, one operation per method. An insertion can
  fail on the primary key, the unique \<open>token_id\<close> or a foreign key; deleting a token
  cascades to its scope links and clears the reference of the refresh token it was issued
  with (\<open>ON DELETE SET NULL\<close>). Shortening a token's life never extends it.
\<close>

definition tokens_violated :: "token_row \<Rightarrow> world \<Rightarrow> string option" where
  "tokens_violated r w =
     (if at_id r \<in> set (List.map at_id (tokens w)) then Some ''UNIQUE constraint failed: tokens.id''
      else if at_token_id r \<in> set (List.map at_token_id (tokens w))
        then Some ''UNIQUE constraint failed: tokens.token_id''
      else if at_client_id r \<notin> set (List.map cl_id (clients w))
        then Some ''FOREIGN KEY constraint failed''
      else (case at_api_key_id r of
              None \<Rightarrow> None
            | Some k \<Rightarrow> if k \<in> set (List.map ak_id (api_keys w)) then None
                        else Some ''FOREIGN KEY constraint failed''))"

definition put_token_scope :: "scope_link \<Rightarrow> world \<Rightarrow> world" where
  "put_token_scope l w = w\<lparr>token_scopes := token_scopes w @ [l]\<rparr>"

interpretation token_links: link_table token_scopes put_token_scope "\<lambda>w. List.map at_id (tokens w)"
  by unfold_locales (simp_all add: put_token_scope_def)

definition createAccessToken :: "cfg \<Rightarrow> token_row \<Rightarrow> string list \<Rightarrow> unit m" where
  "createAccessToken E r clientScopeIds =
     seq (guarded (tokens_violated r) (\<lambda>w. w\<lparr>tokens := tokens w @ [r]\<rparr>)) (\<lambda>_.
     each (insert_link E token_scopes put_token_scope (\<lambda>w. List.map at_id (tokens w)) (at_id r))
       clientScopeIds)"

record access_token_record =
  a_id :: string
  a_tokenId :: string
  a_clientId :: string
  a_environmentId :: string
  a_environmentName :: string
  a_expiresAt :: string
  a_scopeNames :: "string list"
  a_resource :: "string option"
  a_apiKeyId :: "string option"

definition getAccessTokenByTokenId :: "string \<Rightarrow> world \<Rightarrow> access_token_record option" where
  "getAccessTokenByTokenId tid w =
     (case find (\<lambda>t. at_token_id t = tid) (tokens w) of
        None \<Rightarrow> None
      | Some t \<Rightarrow>
        (case find (\<lambda>c. cl_id c = at_client_id t) (clients w) of
           None \<Rightarrow> None
         | Some c \<Rightarrow>
           (case find (\<lambda>e. env_id e = cl_environment_id c) (environments w) of
              None \<Rightarrow> None
            | Some e \<Rightarrow>
              Some \<lparr>a_id = at_id t, a_tokenId = at_token_id t, a_clientId = cl_client_id c,
                    a_environmentId = cl_environment_id c, a_environmentName = env_name e,
                    a_expiresAt = at_expires_at t,
                    a_scopeNames = scope_names_of w (token_scopes w) (at_id t),
                    a_resource = at_resource t, a_apiKeyId = at_api_key_id t\<rparr>)))"

datatype token_status = Active | Expired | Revoked

record access_token_activity =
  aa_id :: string
  aa_tokenId :: string
  aa_clientId :: string
  aa_clientName :: "string option"
  aa_environmentId :: string
  aa_expiresAt :: string
  aa_status :: token_status
  aa_scopeNames :: "string list"

definition access_activity_row :: "string \<Rightarrow> world \<Rightarrow> token_row \<times> client_row \<Rightarrow> access_token_activity" where
  "access_activity_row now w = (\<lambda>(t, c).
     \<lparr>aa_id = at_id t, aa_tokenId = at_token_id t, aa_clientId = cl_client_id c,
      aa_clientName = cl_name c, aa_environmentId = cl_environment_id c,
      aa_expiresAt = at_expires_at t,
      aa_status = (if at_expires_at t \<le> now then Expired else Active),
      aa_scopeNames = scope_names_of w (token_scopes w) (at_id t)\<rparr>)"

text \<open>\<open>ORDER BY ... DESC\<close>: ascending by the key, then reversed.\<close>

definition listAccessTokenActivity :: "cfg \<Rightarrow> string option \<Rightarrow> access_token_activity list m" where
  "listAccessTokenActivity E clientId =
     seq (now_iso E) (\<lambda>now. reads (\<lambda>w.
       let joined = [(t, c). t \<leftarrow> tokens w, c \<leftarrow> clients w, cl_id c = at_client_id t];
           chosen = (case clientId of
                       None \<Rightarrow> joined
                     | Some i \<Rightarrow> if i = [] then joined else filter (\<lambda>(t, c). cl_id c = i) joined)
       in List.map (access_activity_row now w)
            (rev (sort_key (\<lambda>(t, c). at_expires_at t) chosen))))"

definition shorten :: "string \<Rightarrow> token_row \<Rightarrow> token_row" where
  "shorten e t = t\<lparr>at_expires_at := (if at_expires_at t > e then e else at_expires_at t)\<rparr>"

definition revokeAccessTokenByTokenId :: "string \<Rightarrow> string \<Rightarrow> bool m" where
  "revokeAccessTokenByTokenId tid e =
     updating (\<lambda>w. 0 < length (filter (\<lambda>t. at_token_id t = tid) (tokens w)))
       (\<lambda>w. w\<lparr>tokens :=
          List.map (\<lambda>t. if at_token_id t = tid then shorten e t else t) (tokens w)\<rparr>)"

definition expireAccessTokensByIds :: "string list \<Rightarrow> string \<Rightarrow> nat m" where
  "expireAccessTokensByIds ids e =
     (if ids = [] then ret 0
      else updating (\<lambda>w. length (filter (\<lambda>t. at_id t \<in> set ids) (tokens w)))
        (\<lambda>w. w\<lparr>tokens :=
           List.map (\<lambda>t. if at_id t \<in> set ids then shorten e t else t) (tokens w)\<rparr>))"

text \<open>\<open>DELETE FROM tokens WHERE P\<close> with the foreign-key actions of the schema.\<close>

definition clear_access_ref :: "string list \<Rightarrow> refresh_row \<Rightarrow> refresh_row" where
  "clear_access_ref dead r =
     (case rt_access_token_id r of
        None \<Rightarrow> r
      | Some a \<Rightarrow> if a \<in> set dead then r\<lparr>rt_access_token_id := None\<rparr> else r)"

definition delete_tokens :: "(token_row \<Rightarrow> bool) \<Rightarrow> world \<Rightarrow> world" where
  "delete_tokens P w =
     (let dead = List.map at_id (filter P (tokens w))
      in w\<lparr>tokens := filter (\<lambda>t. \<not> P t) (tokens w),
           token_scopes := filter (\<lambda>l. lk_owner l \<notin> set dead) (token_scopes w),
           refresh_tokens := List.map (clear_access_ref dead) (refresh_tokens w)\<rparr>)"

definition deleteAccessTokenByTokenId :: "string \<Rightarrow> bool m" where
  "deleteAccessTokenByTokenId tid =
     updating (\<lambda>w. 0 < length (filter (\<lambda>t. at_token_id t = tid) (tokens w)))
       (delete_tokens (\<lambda>t. at_token_id t = tid))"

definition deleteExpiredAccessTokens :: "string \<Rightarrow> nat m" where
  "deleteExpiredAccessTokens now =
     updating (\<lambda>w. length (filter (\<lambda>t. at_expires_at t \<le> now) (tokens w)))
       (delete_tokens (\<lambda>t. at_expires_at t \<le> now))"

section \<open>Facts\<close>

lemma shorten_simps [simp]:
  "at_id (shorten e t) = at_id t" "at_token_id (shorten e t) = at_token_id t"
  "at_client_id (shorten e t) = at_client_id t" "at_resource (shorten e t) = at_resource t"
  "at_api_key_id (shorten e t) = at_api_key_id t"
  "at_expires_at (shorten e t) = min (at_expires_at t) e"
  by (auto simp: shorten_def min_def)

lemma clear_access_ref_simps [simp]:
  "rt_id (clear_access_ref d r) = rt_id r"
  "rt_refresh_token_id (clear_access_ref d r) = rt_refresh_token_id r"
  "rt_client_id (clear_access_ref d r) = rt_client_id r"
  "rt_subject (clear_access_ref d r) = rt_subject r"
  "rt_expires_at (clear_access_ref d r) = rt_expires_at r"
  "rt_revoked_at (clear_access_ref d r) = rt_revoked_at r"
  "rt_rotated_from_id (clear_access_ref d r) = rt_rotated_from_id r"
  by (auto simp: clear_access_ref_def split: option.splits)

interpretation tokens_frame: evolution "\<lambda>s t. tokens t = tokens s"
  by (rule evolution_unchanged)

lemma token_links_keep_tokens:
  "evolves (\<lambda>s t. tokens t = tokens s)
     (each (insert_link E token_scopes put_token_scope owners owner) cs)"
  by (intro tokens_frame.each evolves_insert_link tokens_frame.evolution_axioms)
     (simp_all add: put_token_scope_def)

lemma createAccessToken_Inr:
  assumes "createAccessToken E r cs w = (Inr u, t)"
  shows "tokens_violated r w = None" and "tokens t = tokens w @ [r]"
    and "\<exists>ls. token_scopes t = token_scopes w @ ls
          \<and> List.map lk_client_scope_id ls = cs \<and> (\<forall>l \<in> set ls. lk_owner l = at_id r)"
proof -
  let ?w1 = "w\<lparr>tokens := tokens w @ [r]\<rparr>"
  from assms have ok: "tokens_violated r w = None"
    and run: "each (insert_link E token_scopes put_token_scope (\<lambda>w. List.map at_id (tokens w)) (at_id r))
        cs ?w1 = (Inr u, t)"
    by (auto simp: createAccessToken_def prog_inv)
  show "tokens_violated r w = None" by (rule ok)
  show "tokens t = tokens w @ [r]"
    using evolvesD [OF token_links_keep_tokens run] by simp
  show "\<exists>ls. token_scopes t = token_scopes w @ ls
          \<and> List.map lk_client_scope_id ls = cs \<and> (\<forall>l \<in> set ls. lk_owner l = at_id r)"
    using token_links.insert_all [OF run] by auto
qed

end
