(* ===== verification/CodeStore.thy ===== *)
theory CodeStore
  imports TokenStore
begin

text \<open>
  \<open>AuthorizationCodeRepositoryD1\<close>: creation with its scope links, lookup by the code
  string, the conditional \<open>UPDATE\<close> that spends a code, and the two deletions. Spending is
  an instance of \<open>one_shot\<close>: of any number of attempts on a row at most one changes it.
\<close>

definition codes_violated :: "code_row \<Rightarrow> world \<Rightarrow> string option" where
  "codes_violated r w =
     (if ac_id r \<in> set (List.map ac_id (authorization_codes w))
        then Some ''UNIQUE constraint failed: authorization_codes.id''
      else if ac_code_id r \<in> set (List.map ac_code_id (authorization_codes w))
        then Some ''UNIQUE constraint failed: authorization_codes.code_id''
      else if ac_client_id r \<notin> set (List.map cl_id (clients w))
        then Some ''FOREIGN KEY constraint failed''
      else None)"

definition put_code_scope :: "scope_link \<Rightarrow> world \<Rightarrow> world" where
  "put_code_scope l w =
     w\<lparr>authorization_code_scopes := authorization_code_scopes w @ [l]\<rparr>"

interpretation code_links: link_table authorization_code_scopes put_code_scope
  "\<lambda>w. List.map ac_id (authorization_codes w)"
  by unfold_locales (simp_all add: put_code_scope_def)

definition create_code :: "cfg \<Rightarrow> code_row \<Rightarrow> string list \<Rightarrow> unit m" where
  "create_code E r clientScopeIds =
     seq (guarded (codes_violated r)
            (\<lambda>w. w\<lparr>authorization_codes := authorization_codes w @ [r]\<rparr>)) (\<lambda>_.
     each (insert_link E authorization_code_scopes put_code_scope
             (\<lambda>w. List.map ac_id (authorization_codes w)) (ac_id r)) clientScopeIds)"

record authorization_code =
  code_row :: code_row
  code_clientScopeIds :: "string list"

text \<open>The scope ids come \<open>ORDER BY client_scope_id\<close>.\<close>

definition getByCodeId :: "string \<Rightarrow> world \<Rightarrow> authorization_code option" where
  "getByCodeId cid w =
     map_option
       (\<lambda>r. \<lparr>code_row = r,
             code_clientScopeIds = sort (List.map lk_client_scope_id
               (filter (\<lambda>l. lk_owner l = ac_id r) (authorization_code_scopes w)))\<rparr>)
       (find (\<lambda>r. ac_code_id r = cid) (authorization_codes w))"

definition use_code :: "string \<Rightarrow> string \<Rightarrow> code_row \<Rightarrow> code_row" where
  "use_code i now r =
     (if ac_id r = i \<and> ac_used_at r = None then r\<lparr>ac_used_at := Some now\<rparr> else r)"

definition mark_used :: "string \<Rightarrow> string \<Rightarrow> world \<Rightarrow> bool \<times> world" where
  "mark_used i now w =
     (0 < length (filter (\<lambda>r. ac_id r = i \<and> ac_used_at r = None) (authorization_codes w)),
      w\<lparr>authorization_codes := List.map (use_code i now) (authorization_codes w)\<rparr>)"

definition markUsed :: "string \<Rightarrow> string \<Rightarrow> bool m" where
  "markUsed i now = (\<lambda>w. case mark_used i now w of (b, w') \<Rightarrow> (Inr b, w'))"

text \<open>\<open>DELETE FROM authorization_codes WHERE P\<close>, which cascades to the scope links.\<close>

definition delete_codes :: "(code_row \<Rightarrow> bool) \<Rightarrow> world \<Rightarrow> world" where
  "delete_codes P w =
     (let dead = List.map ac_id (filter P (authorization_codes w))
      in w\<lparr>authorization_codes := filter (\<lambda>r. \<not> P r) (authorization_codes w),
           authorization_code_scopes :=
             filter (\<lambda>l. lk_owner l \<notin> set dead) (authorization_code_scopes w)\<rparr>)"

definition deleteUnusedForSubjectAndClient :: "string \<Rightarrow> string \<Rightarrow> nat m" where
  "deleteUnusedForSubjectAndClient subj cid =
     (let P = (\<lambda>r. ac_subject r = subj \<and> ac_client_id r = cid \<and> ac_used_at r = None)
      in updating (\<lambda>w. length (filter P (authorization_codes w))) (delete_codes P))"

definition deleteUsedOrExpired :: "string \<Rightarrow> nat m" where
  "deleteUsedOrExpired now =
     (let P = (\<lambda>r. ac_used_at r \<noteq> None \<or> ac_expires_at r \<le> now)
      in updating (\<lambda>w. length (filter P (authorization_codes w))) (delete_codes P))"

section \<open>Spending a code\<close>

text \<open>A code is spent when no row with its id is still unused (a deleted code is spent).\<close>

definition code_spent :: "string \<Rightarrow> world \<Rightarrow> bool" where
  "code_spent i w \<longleftrightarrow> (\<forall>r \<in> set (authorization_codes w). ac_id r = i \<longrightarrow> ac_used_at r \<noteq> None)"

lemma use_code_simps [simp]:
  "ac_id (use_code i n r) = ac_id r" "ac_code_id (use_code i n r) = ac_code_id r"
  "ac_client_id (use_code i n r) = ac_client_id r"
  "ac_subject (use_code i n r) = ac_subject r"
  "ac_expires_at (use_code i n r) = ac_expires_at r"
  by (simp_all add: use_code_def)

lemma use_code_other: "ac_id r \<noteq> i \<or> ac_used_at r \<noteq> None \<Longrightarrow> use_code i n r = r"
  by (auto simp: use_code_def)

lemma use_code_used: "ac_used_at r \<noteq> None \<Longrightarrow> ac_used_at (use_code i n r) \<noteq> None"
  by (simp add: use_code_def)

lemma code_spent_mark: "code_spent i (snd (mark_used i n w))"
proof -
  have "ac_used_at (use_code i n r) \<noteq> None" if "ac_id r = i" for r
    using that by (cases "ac_used_at r") (simp_all add: use_code_def)
  then show ?thesis by (simp add: code_spent_def mark_used_def)
qed

lemma mark_used_wins: "fst (mark_used i n w) \<longleftrightarrow> \<not> code_spent i w"
  by (simp add: mark_used_def code_spent_def filter_empty_conv)

interpretation code_shot: one_shot mark_used code_spent
proof
  fix i n s t
  assume run: "mark_used i n s = (True, t)"
  show "\<not> code_spent i s \<and> code_spent i t"
    using mark_used_wins [of i n s] code_spent_mark [of i n s] run by simp
next
  fix i n s t
  assume run: "mark_used i n s = (False, t)"
  then have "code_spent i s" using mark_used_wins [of i n s] by simp
  moreover from this have "List.map (use_code i n) (authorization_codes s) = authorization_codes s"
    by (intro map_idI use_code_other) (auto simp: code_spent_def)
  ultimately show "t = s \<and> code_spent i s" using run by (auto simp: mark_used_def)
next
  fix i n s b t j
  assume "mark_used i n s = (b, t)" and "code_spent j s"
  then show "code_spent j t"
    unfolding code_spent_def mark_used_def by clarsimp (metis not_Some_eq use_code_used)
qed

lemma run_markUsed [prog_simps, prog_inv]:
  "markUsed i n w = (r, t) \<longleftrightarrow> r = Inr (fst (mark_used i n w)) \<and> t = snd (mark_used i n w)"
  by (auto simp: markUsed_def split: prod.splits)

lemma code_spent_delete: "code_spent i w \<Longrightarrow> code_spent i (delete_codes P w)"
  by (auto simp: code_spent_def delete_codes_def Let_def)

lemma getByCodeId_Some:
  "getByCodeId cid w = Some c \<Longrightarrow>
     code_row c \<in> set (authorization_codes w) \<and> ac_code_id (code_row c) = cid"
  by (auto simp: getByCodeId_def dest: find_in_set)

interpretation codes_frame: evolution "\<lambda>s t. authorization_codes t = authorization_codes s"
  by (rule evolution_unchanged)

lemma code_links_keep_codes:
  "evolves (\<lambda>s t. authorization_codes t = authorization_codes s)
     (each (insert_link E authorization_code_scopes put_code_scope owners owner) cs)"
  by (intro codes_frame.each evolves_insert_link codes_frame.evolution_axioms)
     (simp_all add: put_code_scope_def)

lemma create_code_Inr:
  assumes "create_code E r cs w = (Inr u, t)"
  shows "codes_violated r w = None" and "authorization_codes t = authorization_codes w @ [r]"
    and "\<exists>ls. authorization_code_scopes t = authorization_code_scopes w @ ls
          \<and> List.map lk_client_scope_id ls = cs \<and> (\<forall>l \<in> set ls. lk_owner l = ac_id r)"
proof -
  let ?w1 = "w\<lparr>authorization_codes := authorization_codes w @ [r]\<rparr>"
  from assms have ok: "codes_violated r w = None"
    and run: "each (insert_link E authorization_code_scopes put_code_scope
        (\<lambda>w. List.map ac_id (authorization_codes w)) (ac_id r)) cs ?w1 = (Inr u, t)"
    by (auto simp: create_code_def prog_inv)
  show "codes_violated r w = None" by (rule ok)
  show "authorization_codes t = authorization_codes w @ [r]"
    using evolvesD [OF code_links_keep_codes run] by simp
  show "\<exists>ls. authorization_code_scopes t = authorization_code_scopes w @ ls
          \<and> List.map lk_client_scope_id ls = cs \<and> (\<forall>l \<in> set ls. lk_owner l = ac_id r)"
    using code_links.insert_all [OF run] by auto
qed

end
