(* ===== verification/RefreshStore.thy ===== *)
theory RefreshStore
  imports TokenStore
begin

text \<open>
  \<open>RefreshTokenRepositoryD1\<close>: refresh-token rows, the conditional revocation that rotation
  relies on (a second instance of \<open>one_shot\<close>), and the rotation family: the breadth-first
  search over \<open>rotated_from_id\<close> in both directions. The search is shown to terminate and to
  return exactly the rows connected to its start.
\<close>

definition refresh_violated :: "refresh_row \<Rightarrow> world \<Rightarrow> string option" where
  "refresh_violated r w =
     (if rt_id r \<in> set (List.map rt_id (refresh_tokens w))
        then Some ''UNIQUE constraint failed: refresh_tokens.id''
      else if rt_refresh_token_id r \<in> set (List.map rt_refresh_token_id (refresh_tokens w))
        then Some ''UNIQUE constraint failed: refresh_tokens.refresh_token_id''
      else if rt_client_id r \<notin> set (List.map cl_id (clients w))
        then Some ''FOREIGN KEY constraint failed''
      else if (\<exists>a \<in> set_option (rt_access_token_id r). a \<notin> set (List.map at_id (tokens w)))
        then Some ''FOREIGN KEY constraint failed''
      else if (\<exists>p \<in> set_option (rt_rotated_from_id r). p \<notin> set (List.map rt_id (refresh_tokens w)))
        then Some ''FOREIGN KEY constraint failed''
      else None)"

definition put_refresh_scope :: "scope_link \<Rightarrow> world \<Rightarrow> world" where
  "put_refresh_scope l w = w\<lparr>refresh_token_scopes := refresh_token_scopes w @ [l]\<rparr>"

interpretation refresh_links: link_table refresh_token_scopes put_refresh_scope
  "\<lambda>w. List.map rt_id (refresh_tokens w)"
  by unfold_locales (simp_all add: put_refresh_scope_def)

definition createRefreshToken :: "cfg \<Rightarrow> refresh_row \<Rightarrow> string list \<Rightarrow> unit m" where
  "createRefreshToken E r clientScopeIds =
     seq (guarded (refresh_violated r)
            (\<lambda>w. w\<lparr>refresh_tokens := refresh_tokens w @ [r]\<rparr>)) (\<lambda>_.
     each (insert_link E refresh_token_scopes put_refresh_scope
             (\<lambda>w. List.map rt_id (refresh_tokens w)) (rt_id r)) clientScopeIds)"

record refresh_record =
  refresh_row :: refresh_row
  refresh_clientScopeIds :: "string list"

definition getByTokenId :: "string \<Rightarrow> world \<Rightarrow> refresh_record option" where
  "getByTokenId tid w =
     map_option
       (\<lambda>r. \<lparr>refresh_row = r,
             refresh_clientScopeIds = sort (List.map lk_client_scope_id
               (filter (\<lambda>l. lk_owner l = rt_id r) (refresh_token_scopes w)))\<rparr>)
       (find (\<lambda>r. rt_refresh_token_id r = tid) (refresh_tokens w))"

text \<open>\<open>UPDATE refresh_tokens SET revoked_at = ? WHERE revoked_at IS NULL AND P\<close>.\<close>

definition revoke_row :: "(refresh_row \<Rightarrow> bool) \<Rightarrow> string \<Rightarrow> refresh_row \<Rightarrow> refresh_row" where
  "revoke_row P now r =
     (if rt_revoked_at r = None \<and> P r then r\<lparr>rt_revoked_at := Some now\<rparr> else r)"

definition revoke_where :: "(refresh_row \<Rightarrow> bool) \<Rightarrow> string \<Rightarrow> world \<Rightarrow> nat \<times> world" where
  "revoke_where P now w =
     (length (filter (\<lambda>r. rt_revoked_at r = None \<and> P r) (refresh_tokens w)),
      w\<lparr>refresh_tokens := List.map (revoke_row P now) (refresh_tokens w)\<rparr>)"

definition revoke_one :: "string \<Rightarrow> string \<Rightarrow> world \<Rightarrow> bool \<times> world" where
  "revoke_one i now w = (case revoke_where (\<lambda>r. rt_id r = i) now w of (n, w') \<Rightarrow> (0 < n, w'))"

definition revoke_refresh :: "string \<Rightarrow> string \<Rightarrow> bool m" where
  "revoke_refresh i now = (\<lambda>w. case revoke_one i now w of (b, w') \<Rightarrow> (Inr b, w'))"

section \<open>The rotation family\<close>

definition parent_of :: "refresh_row list \<Rightarrow> string \<Rightarrow> string option" where
  "parent_of rs i =
     (case find (\<lambda>r. rt_id r = i) rs of None \<Rightarrow> None | Some r \<Rightarrow> rt_rotated_from_id r)"

definition children_of :: "refresh_row list \<Rightarrow> string \<Rightarrow> string list" where
  "children_of rs i = List.map rt_id (filter (\<lambda>r. rt_rotated_from_id r = Some i) rs)"

text \<open>What one visited id adds to the queue: its parent (unless it is empty or already seen), then its children not yet seen.\<close>

definition family_next :: "refresh_row list \<Rightarrow> string list \<Rightarrow> string \<Rightarrow> string list" where
  "family_next rs seen i =
     (case parent_of rs i of
        None \<Rightarrow> []
      | Some p \<Rightarrow> if p \<noteq> [] \<and> p \<notin> set seen then [p] else [])
     @ filter (\<lambda>c. c \<notin> set seen) (children_of rs i)"

definition family_universe :: "refresh_row list \<Rightarrow> string set" where
  "family_universe rs = set (List.map rt_id rs) \<union> {p. \<exists>r \<in> set rs. rt_rotated_from_id r = Some p}"

lemma finite_family_universe [simp]: "finite (family_universe rs)"
proof -
  have "{p. \<exists>r \<in> set rs. rt_rotated_from_id r = Some p}
      \<subseteq> (\<Union>r \<in> set rs. set_option (rt_rotated_from_id r))" by auto
  then have "finite {p. \<exists>r \<in> set rs. rt_rotated_from_id r = Some p}"
    by (rule finite_subset) simp
  then show ?thesis by (simp add: family_universe_def)
qed

lemma family_next_universe: "set (family_next rs seen i) \<subseteq> family_universe rs"
  by (auto simp: family_next_def family_universe_def parent_of_def children_of_def
      split: option.splits dest: find_in_set)

text \<open>
  \<open>collectFamilyIds\<close>: \<open>seen\<close> is the insertion-ordered set, \<open>queue\<close> the work list. Each
  round either drops a repeated id or visits a new one, of which there are finitely many.
\<close>

function collect_family :: "refresh_row list \<Rightarrow> string list \<Rightarrow> string list \<Rightarrow> string list" where
  "collect_family rs seen [] = seen"
| "collect_family rs seen (i # queue) =
     (if i \<in> set seen then collect_family rs seen queue
      else collect_family rs (seen @ [i]) (queue @ family_next rs (seen @ [i]) i))"
  by pat_completeness auto
termination
proof (relation "measures [\<lambda>(rs, seen, queue). card ((family_universe rs \<union> set queue) - set seen),
    \<lambda>(rs, seen, queue). length queue]")
  fix rs seen and i :: string and queue
  assume seen: "i \<in> set seen"
  then have "(family_universe rs \<union> set queue) - set seen
      = (family_universe rs \<union> set (i # queue)) - set seen" by auto
  then show "((rs, seen, queue), rs, seen, i # queue) \<in> measures
      [\<lambda>(rs, seen, queue). card ((family_universe rs \<union> set queue) - set seen),
       \<lambda>(rs, seen, queue). length queue]" by simp
next
  fix rs seen and i :: string and queue
  assume "i \<notin> set seen"
  then have "(family_universe rs \<union> set (queue @ family_next rs (seen @ [i]) i)) - set (seen @ [i])
      \<subset> (family_universe rs \<union> set (i # queue)) - set seen"
    using family_next_universe [of rs "seen @ [i]" i] by auto
  then have "card ((family_universe rs \<union> set (queue @ family_next rs (seen @ [i]) i)) - set (seen @ [i]))
      < card ((family_universe rs \<union> set (i # queue)) - set seen)"
    by (intro psubset_card_mono) auto
  then show "((rs, seen @ [i], queue @ family_next rs (seen @ [i]) i), rs, seen, i # queue)
      \<in> measures [\<lambda>(rs, seen, queue). card ((family_universe rs \<union> set queue) - set seen),
        \<lambda>(rs, seen, queue). length queue]" by simp
qed simp

definition collectFamilyIds :: "refresh_row list \<Rightarrow> string \<Rightarrow> string list" where
  "collectFamilyIds rs root = collect_family rs [] [root]"

definition revokeFamily :: "string \<Rightarrow> string \<Rightarrow> nat m" where
  "revokeFamily root now =
     seq (reads (\<lambda>w. collectFamilyIds (refresh_tokens w) root)) (\<lambda>ids.
       if ids = [] then ret 0
       else (\<lambda>w. case revoke_where (\<lambda>r. rt_id r \<in> set ids) now w of (n, w') \<Rightarrow> (Inr n, w')))"

definition listFamilyAccessTokenIds :: "string \<Rightarrow> world \<Rightarrow> string list" where
  "listFamilyAccessTokenIds root w =
     (let ids = collectFamilyIds (refresh_tokens w) root
      in if ids = [] then []
         else uniq (List.map the (filter (\<lambda>a. a \<noteq> None)
           (List.map rt_access_token_id (filter (\<lambda>r. rt_id r \<in> set ids) (refresh_tokens w))))))"

definition revokeAllForSubjectAndClient :: "string \<Rightarrow> string \<Rightarrow> string \<Rightarrow> string list m" where
  "revokeAllForSubjectAndClient subj cid now =
     (let P = (\<lambda>r. rt_subject r = Some subj \<and> rt_client_id r = cid)
      in updating
        (\<lambda>w. uniq (List.map the (filter (\<lambda>a. a \<noteq> None) (List.map rt_access_token_id
               (filter (\<lambda>r. rt_revoked_at r = None \<and> P r) (refresh_tokens w))))))
        (\<lambda>w. snd (revoke_where P now w)))"

section \<open>Listing and deletion\<close>

definition statusFromDates :: "string \<Rightarrow> string option \<Rightarrow> string \<Rightarrow> token_status" where
  "statusFromDates expiresAt revokedAt now =
     (if revokedAt \<noteq> None \<and> revokedAt \<noteq> Some [] then Revoked
      else if expiresAt \<le> now then Expired else Active)"

record refresh_token_activity =
  ra_id :: string
  ra_tokenId :: string
  ra_clientId :: string
  ra_clientName :: "string option"
  ra_environmentId :: string
  ra_expiresAt :: string
  ra_createdAt :: string
  ra_revokedAt :: "string option"
  ra_rotatedFromTokenId :: "string option"
  ra_status :: token_status
  ra_scopeNames :: "string list"

definition refresh_activity_row :: "string \<Rightarrow> world \<Rightarrow> refresh_row \<times> client_row \<Rightarrow> refresh_token_activity" where
  "refresh_activity_row now w = (\<lambda>(r, c).
     \<lparr>ra_id = rt_id r, ra_tokenId = rt_refresh_token_id r, ra_clientId = cl_client_id c,
      ra_clientName = cl_name c, ra_environmentId = cl_environment_id c,
      ra_expiresAt = rt_expires_at r, ra_createdAt = rt_created_at r,
      ra_revokedAt = rt_revoked_at r,
      ra_rotatedFromTokenId =
        (case rt_rotated_from_id r of
           None \<Rightarrow> None
         | Some p \<Rightarrow> map_option rt_refresh_token_id
                      (find (\<lambda>q. rt_id q = p) (refresh_tokens w))),
      ra_status = statusFromDates (rt_expires_at r) (rt_revoked_at r) now,
      ra_scopeNames = scope_names_of w (refresh_token_scopes w) (rt_id r)\<rparr>)"

definition listRefreshTokenActivity :: "cfg \<Rightarrow> string option \<Rightarrow> refresh_token_activity list m" where
  "listRefreshTokenActivity E clientId =
     seq (now_iso E) (\<lambda>now. reads (\<lambda>w.
       let joined = [(r, c). r \<leftarrow> refresh_tokens w, c \<leftarrow> clients w, cl_id c = rt_client_id r];
           chosen = (case clientId of
                       None \<Rightarrow> joined
                     | Some i \<Rightarrow> if i = [] then joined else filter (\<lambda>(r, c). cl_id c = i) joined)
       in List.map (refresh_activity_row now w)
            (rev (sort_key (\<lambda>(r, c). rt_created_at r) chosen))))"

text \<open>\<open>DELETE FROM refresh_tokens WHERE P\<close>: links go, successors forget their parent.\<close>

definition clear_parent_ref :: "string list \<Rightarrow> refresh_row \<Rightarrow> refresh_row" where
  "clear_parent_ref dead r =
     (case rt_rotated_from_id r of
        None \<Rightarrow> r
      | Some p \<Rightarrow> if p \<in> set dead then r\<lparr>rt_rotated_from_id := None\<rparr> else r)"

definition delete_refresh :: "(refresh_row \<Rightarrow> bool) \<Rightarrow> world \<Rightarrow> world" where
  "delete_refresh P w =
     (let dead = List.map rt_id (filter P (refresh_tokens w))
      in w\<lparr>refresh_tokens :=
             List.map (clear_parent_ref dead) (filter (\<lambda>r. \<not> P r) (refresh_tokens w)),
           refresh_token_scopes := filter (\<lambda>l. lk_owner l \<notin> set dead) (refresh_token_scopes w)\<rparr>)"

definition deleteByTokenId :: "string \<Rightarrow> bool m" where
  "deleteByTokenId tid =
     updating (\<lambda>w. 0 < length (filter (\<lambda>r. rt_refresh_token_id r = tid) (refresh_tokens w)))
       (delete_refresh (\<lambda>r. rt_refresh_token_id r = tid))"

definition deleteExpired :: "string \<Rightarrow> nat m" where
  "deleteExpired now =
     updating (\<lambda>w. length (filter (\<lambda>r. rt_expires_at r \<le> now) (refresh_tokens w)))
       (delete_refresh (\<lambda>r. rt_expires_at r \<le> now))"

definition deleteRevoked :: "nat m" where
  "deleteRevoked =
     updating (\<lambda>w. length (filter (\<lambda>r. rt_revoked_at r \<noteq> None) (refresh_tokens w)))
       (delete_refresh (\<lambda>r. rt_revoked_at r \<noteq> None))"

section \<open>Revocation\<close>

definition refresh_spent :: "string \<Rightarrow> world \<Rightarrow> bool" where
  "refresh_spent i w \<longleftrightarrow>
     (\<forall>r \<in> set (refresh_tokens w). rt_id r = i \<longrightarrow> rt_revoked_at r \<noteq> None)"

lemma revoke_row_simps [simp]:
  "rt_id (revoke_row P n r) = rt_id r"
  "rt_refresh_token_id (revoke_row P n r) = rt_refresh_token_id r"
  "rt_client_id (revoke_row P n r) = rt_client_id r"
  "rt_subject (revoke_row P n r) = rt_subject r"
  "rt_access_token_id (revoke_row P n r) = rt_access_token_id r"
  "rt_expires_at (revoke_row P n r) = rt_expires_at r"
  "rt_rotated_from_id (revoke_row P n r) = rt_rotated_from_id r"
  "rt_resource (revoke_row P n r) = rt_resource r"
  by (simp_all add: revoke_row_def)

lemma revoke_row_revoked:
  "rt_revoked_at r \<noteq> None \<or> P r \<Longrightarrow> rt_revoked_at (revoke_row P n r) \<noteq> None"
  by (auto simp: revoke_row_def)

lemma revoke_row_same: "rt_revoked_at r \<noteq> None \<or> \<not> P r \<Longrightarrow> revoke_row P n r = r"
  by (auto simp: revoke_row_def)

lemma revoke_row_keeps: "rt_revoked_at r = Some t \<Longrightarrow> rt_revoked_at (revoke_row P n r) = Some t"
  by (simp add: revoke_row_def)

lemma revoke_where_snd [simp]:
  "snd (revoke_where P n w) = w\<lparr>refresh_tokens := List.map (revoke_row P n) (refresh_tokens w)\<rparr>"
  by (simp add: revoke_where_def)

lemma revoke_one_eq:
  "revoke_one i n w =
     (0 < length (filter (\<lambda>r. rt_revoked_at r = None \<and> rt_id r = i) (refresh_tokens w)),
      w\<lparr>refresh_tokens := List.map (revoke_row (\<lambda>r. rt_id r = i) n) (refresh_tokens w)\<rparr>)"
  by (simp add: revoke_one_def revoke_where_def)

lemma revoke_one_wins: "fst (revoke_one i n w) \<longleftrightarrow> \<not> refresh_spent i w"
  by (simp add: revoke_one_eq refresh_spent_def filter_empty_conv) blast

lemma refresh_spent_revoke: "refresh_spent i (snd (revoke_one i n w))"
  by (simp add: revoke_one_eq refresh_spent_def revoke_row_revoked del: not_None_eq)

lemma refresh_spent_map:
  "refresh_spent j w \<Longrightarrow>
   refresh_spent j (w\<lparr>refresh_tokens := List.map (revoke_row P n) (refresh_tokens w)\<rparr>)"
  by (simp add: refresh_spent_def revoke_row_revoked del: not_None_eq)

interpretation refresh_shot: one_shot revoke_one refresh_spent
proof
  fix i n s t
  assume "revoke_one i n s = (True, t)"
  then show "\<not> refresh_spent i s \<and> refresh_spent i t"
    using revoke_one_wins [of i n s] refresh_spent_revoke [of i n s] by simp
next
  fix i n s t
  assume run: "revoke_one i n s = (False, t)"
  then have spent: "refresh_spent i s" using revoke_one_wins [of i n s] by simp
  then have "List.map (revoke_row (\<lambda>r. rt_id r = i) n) (refresh_tokens s) = refresh_tokens s"
    by (intro map_idI revoke_row_same) (auto simp: refresh_spent_def)
  with run spent show "t = s \<and> refresh_spent i s" by (simp add: revoke_one_eq)
next
  fix i n s b t j
  assume "revoke_one i n s = (b, t)" and "refresh_spent j s"
  then show "refresh_spent j t" by (auto simp: revoke_one_eq intro: refresh_spent_map)
qed

lemma run_revoke_refresh [prog_simps, prog_inv]:
  "revoke_refresh i n w = (r, t) \<longleftrightarrow> r = Inr (fst (revoke_one i n w)) \<and> t = snd (revoke_one i n w)"
  by (auto simp: revoke_refresh_def split: prod.splits)

lemma refresh_spent_delete: "refresh_spent i w \<Longrightarrow> refresh_spent i (delete_refresh P w)"
proof -
  have "rt_revoked_at (clear_parent_ref d r) = rt_revoked_at r \<and> rt_id (clear_parent_ref d r) = rt_id r"
    for d r by (auto simp: clear_parent_ref_def split: option.splits)
  then show "refresh_spent i w \<Longrightarrow> refresh_spent i (delete_refresh P w)"
    by (simp add: refresh_spent_def delete_refresh_def Let_def)
qed

lemma getByTokenId_Some:
  "getByTokenId tid w = Some r \<Longrightarrow>
     refresh_row r \<in> set (refresh_tokens w) \<and> rt_refresh_token_id (refresh_row r) = tid"
  by (auto simp: getByTokenId_def dest: find_in_set)

interpretation refresh_frame: evolution "\<lambda>s t. refresh_tokens t = refresh_tokens s"
  by (rule evolution_unchanged)

lemma refresh_links_keep_refresh:
  "evolves (\<lambda>s t. refresh_tokens t = refresh_tokens s)
     (each (insert_link E refresh_token_scopes put_refresh_scope owners owner) cs)"
  by (intro refresh_frame.each evolves_insert_link refresh_frame.evolution_axioms)
     (simp_all add: put_refresh_scope_def)

lemma createRefreshToken_Inr:
  assumes "createRefreshToken E r cs w = (Inr u, t)"
  shows "refresh_violated r w = None" and "refresh_tokens t = refresh_tokens w @ [r]"
    and "\<exists>ls. refresh_token_scopes t = refresh_token_scopes w @ ls
          \<and> List.map lk_client_scope_id ls = cs \<and> (\<forall>l \<in> set ls. lk_owner l = rt_id r)"
proof -
  let ?w1 = "w\<lparr>refresh_tokens := refresh_tokens w @ [r]\<rparr>"
  from assms have ok: "refresh_violated r w = None"
    and run: "each (insert_link E refresh_token_scopes put_refresh_scope
        (\<lambda>w. List.map rt_id (refresh_tokens w)) (rt_id r)) cs ?w1 = (Inr u, t)"
    by (auto simp: createRefreshToken_def prog_inv)
  show "refresh_violated r w = None" by (rule ok)
  show "refresh_tokens t = refresh_tokens w @ [r]"
    using evolvesD [OF refresh_links_keep_refresh run] by simp
  show "\<exists>ls. refresh_token_scopes t = refresh_token_scopes w @ ls
          \<and> List.map lk_client_scope_id ls = cs \<and> (\<forall>l \<in> set ls. lk_owner l = rt_id r)"
    using refresh_links.insert_all [OF run] by auto
qed

section \<open>The search finds the family\<close>

text \<open>
  Two rows are related when one was rotated from the other; the family of a row is
  everything connected to it.
\<close>

definition lineage :: "refresh_row list \<Rightarrow> (string \<times> string) set" where
  "lineage rs = {(a, b). \<exists>r \<in> set rs.
     rt_id r = a \<and> rt_rotated_from_id r = Some b \<or> rt_id r = b \<and> rt_rotated_from_id r = Some a}"

definition family :: "refresh_row list \<Rightarrow> string \<Rightarrow> string set" where
  "family rs root = {i. (root, i) \<in> (lineage rs)\<^sup>*}"

text \<open>Ids are unique (a primary key) and no row was rotated from the empty id.\<close>

definition lineage_ok :: "refresh_row list \<Rightarrow> bool" where
  "lineage_ok rs \<longleftrightarrow> distinct (List.map rt_id rs) \<and> (\<forall>r \<in> set rs. rt_rotated_from_id r \<noteq> Some [])"

lemma lineage_sym: "(a, b) \<in> lineage rs \<Longrightarrow> (b, a) \<in> lineage rs"
  by (auto simp: lineage_def)

lemma family_sym: "b \<in> family rs a \<Longrightarrow> a \<in> family rs b"
proof -
  have "sym (lineage rs)" by (auto intro: symI lineage_sym)
  then show "b \<in> family rs a \<Longrightarrow> a \<in> family rs b"
    by (auto simp: family_def dest: sym_rtrancl symD)
qed

lemma family_eq: "b \<in> family rs a \<Longrightarrow> family rs b = family rs a"
  by (auto simp: family_def dest: family_sym [unfolded family_def, simplified]
      intro: rtrancl_trans)

lemma family_next_lineage: "y \<in> set (family_next rs seen i) \<Longrightarrow> (i, y) \<in> lineage rs"
  by (auto simp: family_next_def parent_of_def children_of_def lineage_def
      split: option.splits if_splits dest: find_in_set)

lemma lineage_family_next:
  assumes ok: "lineage_ok rs" and edge: "(i, y) \<in> lineage rs"
  shows "y \<in> set seen \<union> set (family_next rs seen i)"
proof -
  from edge obtain r where r: "r \<in> set rs" and
    "rt_id r = i \<and> rt_rotated_from_id r = Some y \<or> rt_id r = y \<and> rt_rotated_from_id r = Some i"
    by (auto simp: lineage_def)
  then show ?thesis
  proof (elim disjE conjE)
    assume up: "rt_id r = i" "rt_rotated_from_id r = Some y"
    then have "find (\<lambda>q. rt_id q = i) rs = Some r"
      using ok r find_unique [of rt_id rs r] by (simp add: lineage_ok_def)
    moreover have "y \<noteq> []" using ok r up by (auto simp: lineage_ok_def)
    ultimately show ?thesis using up by (auto simp: family_next_def parent_of_def)
  next
    assume "rt_id r = y" "rt_rotated_from_id r = Some i"
    with r show ?thesis by (auto simp: family_next_def children_of_def)
  qed
qed

lemma collect_family_sound:
  "set seen \<union> set queue \<subseteq> family rs root \<Longrightarrow> set (collect_family rs seen queue) \<subseteq> family rs root"
proof (induction rs seen queue rule: collect_family.induct)
  case (2 rs seen i queue)
  have "set (family_next rs (seen @ [i]) i) \<subseteq> family rs root"
    using 2(3) by (auto simp: family_def dest: family_next_lineage intro: rtrancl_into_rtrancl)
  with 2 show ?case by auto
qed simp

lemma collect_family_complete:
  assumes "lineage_ok rs"
    and "\<forall>x \<in> set seen. \<forall>y. (x, y) \<in> lineage rs \<longrightarrow> y \<in> set seen \<union> set queue"
  shows "set seen \<union> set queue \<subseteq> set (collect_family rs seen queue) \<and>
    (\<forall>x \<in> set (collect_family rs seen queue). \<forall>y. (x, y) \<in> lineage rs
       \<longrightarrow> y \<in> set (collect_family rs seen queue))"
  using assms
proof (induction rs seen queue rule: collect_family.induct)
  case (2 rs seen i queue)
  show ?case
  proof (cases "i \<in> set seen")
    case True
    with "2.prems" have "\<forall>x \<in> set seen. \<forall>y. (x, y) \<in> lineage rs \<longrightarrow> y \<in> set seen \<union> set queue"
      by auto
    with "2.IH"(1) True "2.prems"(1) show ?thesis by (auto simp: subset_iff)
  next
    case False
    let ?seen = "seen @ [i]" and ?queue = "queue @ family_next rs (seen @ [i]) i"
    have "\<forall>x \<in> set ?seen. \<forall>y. (x, y) \<in> lineage rs \<longrightarrow> y \<in> set ?seen \<union> set ?queue"
    proof (intro ballI allI impI)
      fix x y
      assume x: "x \<in> set ?seen" and edge: "(x, y) \<in> lineage rs"
      show "y \<in> set ?seen \<union> set ?queue"
      proof (cases "x = i")
        case True
        with edge have "y \<in> set ?seen \<union> set (family_next rs ?seen i)"
          using lineage_family_next [OF "2.prems"(1)] by blast
        then show ?thesis by auto
      next
        case False
        with x edge "2.prems"(2) show ?thesis by auto
      qed
    qed
    with "2.IH"(2) False "2.prems"(1) show ?thesis by auto
  qed
qed simp

lemma collectFamilyIds_family:
  assumes ok: "lineage_ok rs"
  shows "set (collectFamilyIds rs root) = family rs root"
proof
  show "set (collectFamilyIds rs root) \<subseteq> family rs root"
    unfolding collectFamilyIds_def by (rule collect_family_sound) (simp add: family_def)
  let ?R = "set (collectFamilyIds rs root)"
  have closed: "root \<in> ?R" "\<And>x y. x \<in> ?R \<Longrightarrow> (x, y) \<in> lineage rs \<Longrightarrow> y \<in> ?R"
    using collect_family_complete [OF ok, of "[]" "[root]"] by (auto simp: collectFamilyIds_def)
  show "family rs root \<subseteq> ?R"
  proof
    fix i
    assume "i \<in> family rs root"
    then have "(root, i) \<in> (lineage rs)\<^sup>*" by (simp add: family_def)
    then show "i \<in> ?R" by (induction rule: rtrancl_induct) (auto intro: closed)
  qed
qed

lemma collect_family_distinct: "distinct seen \<Longrightarrow> distinct (collect_family rs seen queue)"
  by (induction rs seen queue rule: collect_family.induct) auto

lemma collectFamilyIds_root: "root \<in> set (collectFamilyIds rs root)"
proof -
  have "set seen \<subseteq> set (collect_family rs seen queue)" for seen queue
    by (induction rs seen queue rule: collect_family.induct) auto
  then show ?thesis unfolding collectFamilyIds_def
    by (subst collect_family.simps) (auto simp: subset_iff)
qed

lemma revokeFamily_run:
  "revokeFamily root now w =
     (Inr (length (filter (\<lambda>r. rt_revoked_at r = None \<and> rt_id r \<in> set (collectFamilyIds (refresh_tokens w) root))
        (refresh_tokens w))),
      w\<lparr>refresh_tokens := List.map
         (revoke_row (\<lambda>r. rt_id r \<in> set (collectFamilyIds (refresh_tokens w) root)) now) (refresh_tokens w)\<rparr>)"
  using collectFamilyIds_root [of root "refresh_tokens w"]
  by (auto simp: revokeFamily_def seq_def reads_def revoke_where_def)

text \<open>Revoking rows does not change who is related to whom.\<close>

lemma find_map_ids:
  assumes "\<And>r. rt_id (f r) = rt_id r"
  shows "find (\<lambda>r. rt_id r = i) (List.map f rs) = map_option f (find (\<lambda>r. rt_id r = i) rs)"
  using assms by (induction rs) auto

lemma family_next_revoke [simp]:
  "family_next (List.map (revoke_row P n) rs) seen i = family_next rs seen i"
proof -
  have "parent_of (List.map (revoke_row P n) rs) i = parent_of rs i"
    by (simp add: parent_of_def find_map_ids split: option.splits)
  moreover have "children_of (List.map (revoke_row P n) rs) i = children_of rs i"
    by (induction rs) (simp_all add: children_of_def)
  ultimately show ?thesis by (simp add: family_next_def)
qed

lemma collect_family_revoke [simp]:
  "collect_family (List.map (revoke_row P n) rs) seen queue = collect_family rs seen queue"
  by (induction rs seen queue rule: collect_family.induct) simp_all

lemma collectFamilyIds_revoke [simp]:
  "collectFamilyIds (List.map (revoke_row P n) rs) root = collectFamilyIds rs root"
  by (simp add: collectFamilyIds_def)

lemma set_listFamilyAccessTokenIds:
  "a \<in> set (listFamilyAccessTokenIds root w) \<longleftrightarrow>
     (\<exists>r \<in> set (refresh_tokens w). rt_id r \<in> set (collectFamilyIds (refresh_tokens w) root)
        \<and> rt_access_token_id r = Some a)"
  using collectFamilyIds_root [of root "refresh_tokens w"]
  by (force simp: listFamilyAccessTokenIds_def Let_def)

end
