(* ===== verification/Params.thy ===== *)
theory Params
  imports Clients
begin

text \<open>
  The request parameters that several endpoints share: the \<open>scope\<close> list and its selection
  against a set of grants (\<open>oauth-token.service.ts\<close>, \<open>oauth-authorization.service.ts\<close>), the
  RFC 8707 \<open>resource\<close> (\<open>resource-indicator.ts\<close>), and the loopback-tolerant comparison of
  redirect URIs (\<open>loopback-uri.ts\<close>). URL parsing and serialisation are the platform's.
\<close>

section \<open>Scopes\<close>

definition parseScopeParam :: "string option \<Rightarrow> string list" where
  "parseScopeParam scope =
     (case scope of
        None \<Rightarrow> []
      | Some s \<Rightarrow>
        if js_trim s = [] then []
        else uniq (filter (\<lambda>p. p \<noteq> []) (List.map js_trim (split_spaces s))))"

definition scopesToString :: "string list \<Rightarrow> string option" where
  "scopesToString names = (if names = [] then None else Some (join_with '' '' names))"

text \<open>\<open>new Map(...)\<close> keeps the last entry of a repeated name.\<close>

definition last_by :: "('a \<Rightarrow> 'k) \<Rightarrow> 'a list \<Rightarrow> 'k \<Rightarrow> 'a option" where
  "last_by key xs k = find (\<lambda>x. key x = k) (rev xs)"

fun pick_grants :: "scope_grant list \<Rightarrow> string list \<Rightarrow> scope_grant list option" where
  "pick_grants allGrants [] = Some []"
| "pick_grants allGrants (n # ns) =
     (case last_by g_scopeName allGrants n of
        None \<Rightarrow> None
      | Some g \<Rightarrow> map_option ((#) g) (pick_grants allGrants ns))"

definition selectScopeGrants ::
  "scope_grant list \<Rightarrow> string list \<Rightarrow> string \<Rightarrow> scope_grant list m" where
  "selectScopeGrants allGrants requested errorDescription =
     (if requested = [] then ret allGrants
      else need (pick_grants allGrants requested) (oauth Invalid_scope errorDescription 400))"

text \<open>The grants of a code or a refresh token that the client still holds.\<close>

definition still_granted :: "scope_grant list \<Rightarrow> string list \<Rightarrow> scope_grant list" where
  "still_granted allGrants ids =
     concat (List.map (\<lambda>i. case last_by g_clientScopeId allGrants i of None \<Rightarrow> [] | Some g \<Rightarrow> [g]) ids)"

lemma last_by_Some: "last_by key xs k = Some x \<Longrightarrow> x \<in> set xs \<and> key x = k"
  by (auto simp: last_by_def dest: find_in_set)

lemma last_by_None: "last_by key xs k = None \<longleftrightarrow> k \<notin> key ` set xs"
  by (auto simp: last_by_def find_None_iff)

lemma pick_grants_Some:
  "pick_grants gs ns = Some xs \<Longrightarrow> set xs \<subseteq> set gs \<and> List.map g_scopeName xs = ns"
  by (induction ns arbitrary: xs) (auto split: option.splits dest: last_by_Some)

lemma pick_grants_None:
  "pick_grants gs ns = None \<longleftrightarrow> \<not> set ns \<subseteq> g_scopeName ` set gs"
  by (induction ns) (auto split: option.splits simp: last_by_None dest: last_by_Some)

lemma selectScopeGrants_Inr:
  assumes "selectScopeGrants gs requested msg w = (Inr xs, t)"
  shows "t = w" and "set xs \<subseteq> set gs"
    and "requested \<noteq> [] \<Longrightarrow> List.map g_scopeName xs = requested" and "requested = [] \<Longrightarrow> xs = gs"
  using assms by (auto simp: selectScopeGrants_def prog_inv dest: pick_grants_Some split: if_splits)

lemma selectScopeGrants_Inl:
  "selectScopeGrants gs requested msg w = (Inl e, t) \<longleftrightarrow>
     \<not> set requested \<subseteq> g_scopeName ` set gs \<and> e = oauth Invalid_scope msg 400 \<and> t = w"
  using pick_grants_None [of gs requested]
  by (cases "requested = []"; cases "pick_grants gs requested") (auto simp: selectScopeGrants_def)

lemma set_still_granted:
  "set (still_granted gs ids) \<subseteq> set gs" "g \<in> set (still_granted gs ids) \<Longrightarrow> g_clientScopeId g \<in> set ids"
  by (auto simp: still_granted_def split: option.splits dest: last_by_Some [OF sym])

lemma distinct_parseScopeParam: "distinct (parseScopeParam s)"
  by (simp add: parseScopeParam_def split: option.splits)

lemma split_spaces_parts: "p \<in> set (split_spaces s) \<Longrightarrow> c \<in> set p \<Longrightarrow> \<not> js_space c"
proof (induction s arbitrary: p rule: split_spaces.induct)
  case (1 s)
  show ?case
  proof (cases "dropWhile (\<lambda>c. \<not> js_space c) s")
    case Nil
    with "1.prems" have "p = s" by (simp add: split_spaces.simps)
    with Nil "1.prems"(2) show ?thesis by (auto simp: dropWhile_eq_Nil_conv)
  next
    case (Cons r rs)
    with "1.prems"(1) consider "p = takeWhile (\<lambda>c. \<not> js_space c) s"
      | "p \<in> set (split_spaces (dropWhile js_space rs))"
      by (auto simp: split_spaces.simps [of s])
    then show ?thesis
    proof cases
      case 1
      with "1.prems"(2) show ?thesis by (auto dest: set_takeWhileD)
    next
      case 2
      with "1.IH" Cons "1.prems"(2) show ?thesis by blast
    qed
  qed
qed

lemma js_trim_free: "\<forall>c \<in> set p. \<not> js_space c \<Longrightarrow> js_trim p = p"
proof -
  have "dropWhile js_space q = q" if "\<forall>c \<in> set q. \<not> js_space c" for q
    using that by (cases q) auto
  from this [of p] this [of "rev p"]
  show "\<forall>c \<in> set p. \<not> js_space c \<Longrightarrow> js_trim p = p" by (simp add: js_trim_def)
qed

lemma parseScopeParam_parts:
  "p \<in> set (parseScopeParam s) \<Longrightarrow> p \<noteq> [] \<and> (\<forall>c \<in> set p. \<not> js_space c)"
proof -
  assume "p \<in> set (parseScopeParam s)"
  then obtain q r where "p \<noteq> []" "p = js_trim q" "q \<in> set (split_spaces r)"
    by (auto simp: parseScopeParam_def split: option.splits if_splits)
  moreover from this have "js_trim q = q" by (intro js_trim_free) (auto dest: split_spaces_parts)
  ultimately show ?thesis by (auto dest: split_spaces_parts)
qed

section \<open>Loopback URIs\<close>

definition is_digit :: "char \<Rightarrow> bool" where
  "is_digit c \<longleftrightarrow> CHR ''0'' \<le> c \<and> c \<le> CHR ''9''"

text \<open>\<open>25[0-5]|2[0-4][0-9]|[01]?[0-9][0-9]?\<close>\<close>

fun ipv4_octet :: "string \<Rightarrow> bool" where
  "ipv4_octet [a] = is_digit a"
| "ipv4_octet [a, b] = (is_digit a \<and> is_digit b)"
| "ipv4_octet [a, b, c] =
     (a = CHR ''2'' \<and> b = CHR ''5'' \<and> CHR ''0'' \<le> c \<and> c \<le> CHR ''5''
      \<or> a = CHR ''2'' \<and> CHR ''0'' \<le> b \<and> b \<le> CHR ''4'' \<and> is_digit c
      \<or> (a = CHR ''0'' \<or> a = CHR ''1'') \<and> is_digit b \<and> is_digit c)"
| "ipv4_octet _ = False"

definition loopback_ipv4 :: "string \<Rightarrow> bool" where
  "loopback_ipv4 h =
     (case split_on CHR ''.'' h of
        [a, b, c, d] \<Rightarrow> a = ''127'' \<and> ipv4_octet b \<and> ipv4_octet c \<and> ipv4_octet d
      | _ \<Rightarrow> False)"

definition isLoopbackHostname :: "string \<Rightarrow> bool" where
  "isLoopbackHostname hostname =
     (let host = js_lower hostname
      in host = ''localhost'' \<or> host = ''[::1]'' \<or> host = ''::1'' \<or> loopback_ipv4 host)"

definition canonicalizeLoopbackUri :: "cfg \<Rightarrow> string \<Rightarrow> string" where
  "canonicalizeLoopbackUri E s =
     (case parse_url E s of
        None \<Rightarrow> s
      | Some u \<Rightarrow> if isLoopbackHostname (url_hostname u) then url_with_hostname E s ''localhost'' else s)"

definition matchRegisteredRedirectUri :: "cfg \<Rightarrow> string \<Rightarrow> string list \<Rightarrow> string option" where
  "matchRegisteredRedirectUri E requested registered =
     (if requested \<in> set registered then Some requested
      else let target = canonicalizeLoopbackUri E requested
           in find (\<lambda>c. canonicalizeLoopbackUri E c = target) registered)"

lemma matchRegisteredRedirectUri_Some:
  "matchRegisteredRedirectUri E r rs = Some u \<Longrightarrow>
     u \<in> set rs \<and> canonicalizeLoopbackUri E u = canonicalizeLoopbackUri E r"
  by (auto simp: matchRegisteredRedirectUri_def Let_def split: if_splits dest: find_in_set)

section \<open>Resource indicators\<close>

definition normalizeResourceParam :: "cfg \<Rightarrow> string option \<Rightarrow> failure + string option" where
  "normalizeResourceParam E resource =
     (case map_option js_trim resource of
        None \<Rightarrow> Inr None
      | Some t \<Rightarrow>
        if t = [] then Inr None
        else (case parse_url E t of
                None \<Rightarrow> Inl (oauth Invalid_target ''resource must be an absolute URI.'' 400)
              | Some u \<Rightarrow>
                if url_hash u \<noteq> []
                then Inl (oauth Invalid_target ''resource must not contain a fragment.'' 400)
                else if \<not> (url_protocol u = ''https:''
                           \<or> url_protocol u = ''http:'' \<and> isLoopbackHostname (url_hostname u))
                then Inl (oauth Invalid_target
                  ''resource must be an https URL (http is allowed only for localhost).'' 400)
                else Inr (Some (canonicalizeLoopbackUri E t))))"

lemma normalizeResourceParam_Inr:
  "normalizeResourceParam E r = Inr (Some a) \<Longrightarrow>
     \<exists>s u. r = Some s \<and> parse_url E (js_trim s) = Some u \<and> url_hash u = []
       \<and> (url_protocol u = ''https:'' \<or> url_protocol u = ''http:'' \<and> isLoopbackHostname (url_hostname u))
       \<and> a = canonicalizeLoopbackUri E (js_trim s)"
  by (auto simp: normalizeResourceParam_def split: option.splits if_splits)

end
