(* ===== verification/ClientAuth.thy ===== *)
theory ClientAuth
  imports Clients
begin

text \<open>
  Client authentication at the token endpoint: \<open>secret-at-rest.ts\<close> (HMAC-stored secrets,
  lazy migration of plaintext rows), the constant-time comparisons of \<open>hmac-sha256.ts\<close>, and
  \<open>OauthTokenService.authenticateClient\<close>.
\<close>

section \<open>Comparing secrets\<close>

definition hex_value :: "char \<Rightarrow> nat option" where
  "hex_value c =
     (let n = (of_char c :: nat)
      in if 48 \<le> n \<and> n \<le> 57 then Some (n - 48)
         else if 97 \<le> n \<and> n \<le> 102 then Some (n - 87)
         else if 65 \<le> n \<and> n \<le> 70 then Some (n - 55)
         else None)"

text \<open>\<open>Buffer.from(s, "hex")\<close>: decoding stops at the first pair that is not hexadecimal.\<close>

fun hex_decode :: "string \<Rightarrow> nat list" where
  "hex_decode (a # b # s) =
     (case (hex_value a, hex_value b) of
        (Some x, Some y) \<Rightarrow> (16 * x + y) # hex_decode s
      | _ \<Rightarrow> [])"
| "hex_decode _ = []"

text \<open>\<open>timingSafeEqual\<close> throws on buffers of different lengths, which is caught.\<close>

definition timingSafeEqualHex :: "string \<Rightarrow> string \<Rightarrow> bool" where
  "timingSafeEqualHex a b \<longleftrightarrow>
     length a = length b \<and> length (hex_decode a) = length (hex_decode b) \<and> hex_decode a = hex_decode b"

fun utf8_encode :: "string \<Rightarrow> nat list" where
  "utf8_encode [] = []"
| "utf8_encode (c # s) =
     (let n = (of_char c :: nat)
      in (if n < 128 then [n] else [192 + n div 64, 128 + n mod 64]) @ utf8_encode s)"

definition timingSafeEqualUtf8 :: "string \<Rightarrow> string \<Rightarrow> bool" where
  "timingSafeEqualUtf8 a b \<longleftrightarrow>
     length (utf8_encode a) = length (utf8_encode b) \<and> utf8_encode a = utf8_encode b"

section \<open>Secrets at rest\<close>

definition hmacSha256Hex :: "cfg \<Rightarrow> string \<Rightarrow> string \<Rightarrow> string" where
  "hmacSha256Hex E message key = hex_bytes (hmac_sha256 E message key)"

definition trimmed :: "string option \<Rightarrow> string option" where
  "trimmed v = (case v of None \<Rightarrow> None | Some s \<Rightarrow> if js_trim s = [] then None else Some (js_trim s))"

definition resolveHmacKey :: "cfg \<Rightarrow> string option" where
  "resolveHmacKey E =
     (case trimmed (ctx_env E ''HMAC_KEY'') of
        Some k \<Rightarrow> Some k
      | None \<Rightarrow> trimmed (process_env E ''HMAC_KEY''))"

definition secret_prefix :: string where "secret_prefix = ''h1:''"

definition hashClientSecretForStorage :: "cfg \<Rightarrow> string \<Rightarrow> string \<Rightarrow> string" where
  "hashClientSecretForStorage E plain key = secret_prefix @ hmacSha256Hex E plain key"

record secret_check =
  sv_ok :: bool
  sv_upgradeToStored :: "string option"

definition starts_with :: "string \<Rightarrow> string \<Rightarrow> bool" where
  "starts_with s p \<longleftrightarrow> take (length p) s = p"

definition verifyClientSecretAgainstStored ::
  "cfg \<Rightarrow> string \<Rightarrow> string \<Rightarrow> string option \<Rightarrow> secret_check" where
  "verifyClientSecretAgainstStored E presented stored hmacKey =
     (if starts_with stored secret_prefix then
        (case hmacKey of
           None \<Rightarrow> \<lparr>sv_ok = False, sv_upgradeToStored = None\<rparr>
         | Some key \<Rightarrow>
           \<lparr>sv_ok = timingSafeEqualHex (hmacSha256Hex E presented key)
                      (drop (length secret_prefix) stored),
            sv_upgradeToStored = None\<rparr>)
      else if \<not> timingSafeEqualUtf8 presented stored then
        \<lparr>sv_ok = False, sv_upgradeToStored = None\<rparr>
      else
        \<lparr>sv_ok = True,
         sv_upgradeToStored =
           map_option (hashClientSecretForStorage E presented) hmacKey\<rparr>)"

section \<open>\<open>authenticateClient\<close>\<close>

definition expired_at :: "string option \<Rightarrow> string \<Rightarrow> bool" where
  "expired_at e now \<longleftrightarrow> (case e of None \<Rightarrow> False | Some t \<Rightarrow> t \<noteq> [] \<and> t \<le> now)"

definition check_secret :: "cfg \<Rightarrow> client \<Rightarrow> string option \<Rightarrow> unit m" where
  "check_secret E cl clientSecret =
     (if c_tokenEndpointAuthMethod cl = ''none'' then ret ()
      else seq (need_text clientSecret
                 (oauth Invalid_client ''Missing client credentials.'' 401)) (\<lambda>secret.
        let v = verifyClientSecretAgainstStored E secret (c_clientSecret cl) (resolveHmacKey E)
        in seq (throw_when (\<not> sv_ok v)
                 (oauth Invalid_client ''Invalid client credentials.'' 401)) (\<lambda>_.
           case sv_upgradeToStored v of
             None \<Rightarrow> ret ()
           | Some stored \<Rightarrow> updateSecret (c_id cl) stored)))"

definition authenticateClient :: "cfg \<Rightarrow> string option \<Rightarrow> string option \<Rightarrow> client m" where
  "authenticateClient E clientId clientSecret =
     seq (need_text clientId (oauth Invalid_client ''Missing client credentials.'' 401)) (\<lambda>cid.
     seq (reads (client_by_identifier cid)) (\<lambda>found.
     seq (need found (oauth Invalid_client ''Invalid client credentials.'' 401)) (\<lambda>cl.
     seq (check_secret E cl clientSecret) (\<lambda>_.
     seq (now_iso E) (\<lambda>now.
     seq (throw_when (expired_at (c_expiresAt cl) now)
           (oauth Invalid_client ''Client credentials have expired.'' 401)) (\<lambda>_.
     ret cl))))))"

section \<open>Facts\<close>

lemma hex_decode_bytes: "hex_decode (hex_bytes bs) = List.map unat bs"
proof (induction bs)
  case (Cons b bs)
  have "unat b < 256" using unsigned_less [of b, where ?'a = nat] by simp
  then have "unat b div 16 < 16" by (simp add: less_mult_imp_div_less)
  then show ?case
    using Cons by (auto simp: hex_bytes_def hex_byte_def hex_digit_def hex_value_def Let_def)
qed (simp add: hex_bytes_def)

lemma hex_decode_lower_bytes:
  "timingSafeEqualHex (hex_bytes bs) s \<longleftrightarrow> length s = 2 * length bs \<and> hex_decode s = List.map unat bs"
  by (auto simp: timingSafeEqualHex_def hex_decode_bytes)

lemma timingSafeEqualHex_bytes:
  "timingSafeEqualHex (hex_bytes as) (hex_bytes bs) \<longleftrightarrow> as = bs"
proof
  assume "timingSafeEqualHex (hex_bytes as) (hex_bytes bs)"
  then have "List.map unat as = List.map unat bs" by (simp add: timingSafeEqualHex_def hex_decode_bytes)
  then show "as = bs" by (rule map_injective) (auto intro: injI simp: unsigned_word_eqI)
qed (simp add: timingSafeEqualHex_def)

lemma char_eq_code: "(of_char c :: nat) = of_char d \<longleftrightarrow> c = d"
  by simp

lemma utf8_encode_inject: "utf8_encode a = utf8_encode b \<longleftrightarrow> a = b"
proof (induction a arbitrary: b)
  case Nil
  then show ?case by (cases b) (auto simp: Let_def)
next
  case (Cons c a)
  show ?case
  proof (cases b)
    case Nil
    then show ?thesis by (auto simp: Let_def)
  next
    case (Cons d b')
    have split: "192 + n div 64 = 192 + k div 64 \<Longrightarrow> 128 + n mod 64 = 128 + k mod 64 \<Longrightarrow> n = k"
      for n k :: nat by (metis add_left_cancel div_mult_mod_eq)
    define n k where "n = (of_char c :: nat)" and "k = (of_char d :: nat)"
    then have nk: "n = k \<longleftrightarrow> c = d" by simp
    have cons: "utf8_encode (c # a) = (if n < 128 then [n] else [192 + n div 64, 128 + n mod 64]) @ utf8_encode a"
      "utf8_encode (d # b') = (if k < 128 then [k] else [192 + k div 64, 128 + k mod 64]) @ utf8_encode b'"
      by (simp_all add: n_def k_def Let_def)
    have "(utf8_encode (c # a) = utf8_encode (d # b')) \<longleftrightarrow> n = k \<and> utf8_encode a = utf8_encode b'"
      unfolding cons using split [of n k] by (cases "n < 128"; cases "k < 128") auto
    with nk Cons.IH [of b'] Cons show ?thesis by simp
  qed
qed

lemma timingSafeEqualUtf8_iff [simp]: "timingSafeEqualUtf8 a b \<longleftrightarrow> a = b"
  by (auto simp: timingSafeEqualUtf8_def utf8_encode_inject)

text \<open>
  What a migrated row accepts: exactly the secrets whose HMAC under the same key is the
  stored digest.
\<close>

lemma verify_hashed_secret:
  "verifyClientSecretAgainstStored E presented (hashClientSecretForStorage E plain key) (Some key)
     = \<lparr>sv_ok = (hmac_sha256 E presented key = hmac_sha256 E plain key), sv_upgradeToStored = None\<rparr>"
  by (simp add: verifyClientSecretAgainstStored_def hashClientSecretForStorage_def starts_with_def
      secret_prefix_def hmacSha256Hex_def timingSafeEqualHex_bytes)

lemma verify_hashed_without_key:
  "\<not> sv_ok (verifyClientSecretAgainstStored E presented (hashClientSecretForStorage E plain key) None)"
  by (simp add: verifyClientSecretAgainstStored_def hashClientSecretForStorage_def starts_with_def
      secret_prefix_def)

text \<open>Authentication writes nothing but a migrated client secret and reads the clock.\<close>

definition same_but_clients :: "world \<Rightarrow> world \<Rightarrow> bool" where
  "same_but_clients s t \<longleftrightarrow>
     t = s\<lparr>clients := clients t, ticks := ticks t\<rparr>
     \<and> List.map (\<lambda>r. r\<lparr>cl_client_secret := []\<rparr>) (clients t)
       = List.map (\<lambda>r. r\<lparr>cl_client_secret := []\<rparr>) (clients s)"

interpretation auth_frame: evolution same_but_clients
proof
  fix s t u :: world
  show "same_but_clients s s" by (simp add: same_but_clients_def)
  assume "same_but_clients s t" and "same_but_clients t u"
  then show "same_but_clients s u" by (cases s; cases t; cases u) (simp add: same_but_clients_def)
qed

lemma updateSecret_frame: "evolves same_but_clients (updateSecret i secret)"
  unfolding updateSecret_def
  by (rule auth_frame.writes) (auto simp: same_but_clients_def)

lemma check_secret_frame: "evolves same_but_clients (check_secret E cl s)"
  unfolding check_secret_def Let_def
  by (intro auth_frame.branch auth_frame.seq auth_frame.keeps auth_frame.branch_option
      updateSecret_frame)

lemma authenticateClient_frame: "evolves same_but_clients (authenticateClient E cid secret)"
  unfolding authenticateClient_def
  by (intro auth_frame.seq auth_frame.keeps check_secret_frame evolves_clock)
     (simp add: same_but_clients_def)

lemma check_secret_Inr:
  assumes "check_secret E cl secret w = (Inr u, t)" and "c_tokenEndpointAuthMethod cl \<noteq> ''none''"
  obtains s where "secret = Some s" and "s \<noteq> []"
    and "sv_ok (verifyClientSecretAgainstStored E s (c_clientSecret cl) (resolveHmacKey E))"
  using assms by (auto simp: check_secret_def Let_def prog_inv split: if_splits)

lemma check_secret_ticks: "check_secret E cl secret w = (r, t) \<Longrightarrow> ticks t = ticks w"
  by (auto simp: check_secret_def Let_def seq_def need_text_def updateSecret_def writes_def
      split: option.splits if_splits)

lemma authenticateClient_Inr:
  assumes "authenticateClient E cid secret w = (Inr cl, t)"
  obtains i where "cid = Some i" and "i \<noteq> []" and "client_by_identifier i w = Some cl"
    and "\<not> expired_at (c_expiresAt cl) (toISOString (clock E (ticks w)))"
    and "c_tokenEndpointAuthMethod cl \<noteq> ''none'' \<Longrightarrow>
      \<exists>s. secret = Some s \<and> s \<noteq> [] \<and>
        sv_ok (verifyClientSecretAgainstStored E s (c_clientSecret cl) (resolveHmacKey E))"
proof -
  from assms obtain i v u where i: "cid = Some i" "i \<noteq> []" "client_by_identifier i w = Some cl"
    and secret: "check_secret E cl secret w = (Inr u, v)"
    and live: "\<not> expired_at (c_expiresAt cl) (toISOString (clock E (ticks v)))"
    by (auto simp: authenticateClient_def prog_inv split: if_splits)
  show thesis
  proof (rule that [OF i])
    show "\<not> expired_at (c_expiresAt cl) (toISOString (clock E (ticks w)))"
      using live check_secret_ticks [OF secret] by simp
    assume "c_tokenEndpointAuthMethod cl \<noteq> ''none''"
    with secret show "\<exists>s. secret = Some s \<and> s \<noteq> [] \<and>
        sv_ok (verifyClientSecretAgainstStored E s (c_clientSecret cl) (resolveHmacKey E))"
      by (auto elim: check_secret_Inr)
  qed
qed

end
