(* ===== verification/ClientClaims.thy ===== *)
theory ClientClaims
  imports Clients
begin

text \<open>
  The static custom claims of a client: \<open>client-claim.repository.d1.ts\<close> and
  \<open>client-claim.service.ts\<close>. Claims are validated when an administrator saves them and
  filtered again when a token is minted; \<open>JSON.parse\<close> and \<open>Number\<close> are the platform's.
\<close>

section \<open>Values and names\<close>

definition RESERVED_CLAIM_NAMES :: "string list" where
  "RESERVED_CLAIM_NAMES =
     [''iss'', ''sub'', ''aud'', ''exp'', ''nbf'', ''iat'', ''jti'', ''scope'', ''client_id'', ''environment'']"

definition CLIENT_CLAIM_VALUE_TYPES :: "string list" where
  "CLIENT_CLAIM_VALUE_TYPES = [''string'', ''number'', ''boolean'', ''json'']"

definition decodeClaimValue :: "cfg \<Rightarrow> string \<Rightarrow> string \<Rightarrow> json option" where
  "decodeClaimValue E v vt =
     (if vt = ''string'' then Some (JString v)
      else if vt = ''number'' then parse_number E v
      else if vt = ''boolean'' then
        (let n = js_lower (js_trim v)
         in if n = ''true'' then Some (JBool True)
            else if n = ''false'' then Some (JBool False)
            else None)
      else if vt = ''json'' then parse_json E v
      else None)"

text \<open>\<open>/^[A-Za-z_][A-Za-z0-9_.:-]*$/\<close>\<close>

definition is_alpha :: "char \<Rightarrow> bool" where
  "is_alpha c \<longleftrightarrow> (CHR ''a'' \<le> c \<and> c \<le> CHR ''z'') \<or> (CHR ''A'' \<le> c \<and> c \<le> CHR ''Z'')"

definition is_claim_char :: "char \<Rightarrow> bool" where
  "is_claim_char c \<longleftrightarrow> is_alpha c \<or> (CHR ''0'' \<le> c \<and> c \<le> CHR ''9'') \<or> c \<in> set ''_.:-''"

fun claim_name_ok :: "string \<Rightarrow> bool" where
  "claim_name_ok [] = False"
| "claim_name_ok (c # cs) = ((is_alpha c \<or> c = CHR ''_'') \<and> list_all is_claim_char cs)"

section \<open>Repository\<close>

definition claims_by_client :: "string \<Rightarrow> world \<Rightarrow> client_claim_row list" where
  "claims_by_client cid w =
     sort_key cc_claim_name (filter (\<lambda>r. cc_client_id r = cid) (client_claims w))"

definition claim_violated :: "cfg \<Rightarrow> client_claim_row \<Rightarrow> world \<Rightarrow> string option" where
  "claim_violated E r w =
     (if cc_value_type r \<notin> set CLIENT_CLAIM_VALUE_TYPES
         \<or> cc_value_type r = ''json'' \<and> parse_json E (cc_claim_value r) = None
        then Some ''CHECK constraint failed: client_claims''
      else if cc_id r \<in> set (List.map cc_id (client_claims w))
        then Some ''UNIQUE constraint failed: client_claims.id''
      else if (cc_client_id r, cc_claim_name r)
                \<in> set (List.map (\<lambda>x. (cc_client_id x, cc_claim_name x)) (client_claims w))
        then Some ''UNIQUE constraint failed: client_claims.client_id, client_claims.claim_name''
      else if cc_client_id r \<notin> set (List.map cl_id (clients w))
        then Some ''FOREIGN KEY constraint failed''
      else None)"

record claim_input =
  ci_claimName :: string
  ci_claimValue :: string
  ci_valueType :: string

definition claim_row :: "string \<Rightarrow> claim_input \<times> string \<Rightarrow> client_claim_row" where
  "claim_row cid = (\<lambda>(c, i).
     \<lparr>cc_id = i, cc_client_id = cid, cc_claim_name = ci_claimName c,
      cc_claim_value = ci_claimValue c, cc_value_type = ci_valueType c\<rparr>)"

definition replaceClientClaims :: "cfg \<Rightarrow> string \<Rightarrow> claim_input list \<Rightarrow> unit m" where
  "replaceClientClaims E cid cls =
     seq (randomUUIDs E (length cls)) (\<lambda>ids.
     transaction
       (seq (writes (\<lambda>w. w\<lparr>client_claims := filter (\<lambda>r. cc_client_id r \<noteq> cid) (client_claims w)\<rparr>)) (\<lambda>_.
        each (\<lambda>r. guarded (claim_violated E r) (\<lambda>w. w\<lparr>client_claims := client_claims w @ [r]\<rparr>))
          (List.map (claim_row cid) (zip cls ids)))))"

section \<open>Service\<close>

definition quoted :: "string \<Rightarrow> string" where
  "quoted s = CHR 0x22 # s @ [CHR 0x22]"

definition claim_error :: "cfg \<Rightarrow> string list \<Rightarrow> string \<Rightarrow> claim_input \<Rightarrow> string option" where
  "claim_error E seen name c =
     (if \<not> claim_name_ok name then
        Some (''Invalid claim name '' @ quoted name @
              ''. Use letters, digits, and _ . : - , starting with a letter or underscore.'')
      else if name \<in> set RESERVED_CLAIM_NAMES then
        Some (quoted name @ '' is a reserved claim and cannot be overridden.'')
      else if name \<in> set seen then Some (''Duplicate claim name '' @ quoted name @ ''.'')
      else if ci_valueType c \<notin> set CLIENT_CLAIM_VALUE_TYPES then
        Some (''Unknown value type '' @ quoted (ci_valueType c) @ '' for claim '' @ quoted name @ ''.'')
      else if decodeClaimValue E (ci_claimValue c) (ci_valueType c) = None then
        Some (''Claim '' @ quoted name @ '' is not a valid '' @ ci_valueType c @ ''.'')
      else None)"

fun normalize_claims :: "cfg \<Rightarrow> string list \<Rightarrow> claim_input list \<Rightarrow> string + claim_input list" where
  "normalize_claims E seen [] = Inr []"
| "normalize_claims E seen (c # cs) =
     (let name = js_trim (ci_claimName c)
      in if name = [] then normalize_claims E seen cs
         else (case claim_error E seen name c of
                 Some e \<Rightarrow> Inl e
               | None \<Rightarrow>
                 (case normalize_claims E (name # seen) cs of
                    Inl e \<Rightarrow> Inl e
                  | Inr rest \<Rightarrow> Inr (c\<lparr>ci_claimName := name\<rparr> # rest))))"

definition setClientClaims :: "cfg \<Rightarrow> string \<Rightarrow> claim_input list \<Rightarrow> unit m" where
  "setClientClaims E cid cls =
     (case normalize_claims E [] cls of
        Inl e \<Rightarrow> throw (JsError e)
      | Inr normalized \<Rightarrow> replaceClientClaims E cid normalized)"

text \<open>
  \<open>result[name] = value\<close> on a plain object: assigning \<open>__proto__\<close> makes no property, so the
  later spread \<open>...customClaims\<close> does not see it.
\<close>

definition put_property :: "string \<Rightarrow> json \<Rightarrow> claims \<Rightarrow> claims" where
  "put_property k v obj = (if k = ''__proto__'' then obj else obj(k \<mapsto> v))"

definition add_claim :: "cfg \<Rightarrow> client_claim_row \<Rightarrow> claims \<Rightarrow> claims" where
  "add_claim E r result =
     (if cc_claim_name r \<in> set RESERVED_CLAIM_NAMES then result
      else (case decodeClaimValue E (cc_claim_value r) (cc_value_type r) of
              None \<Rightarrow> result
            | Some v \<Rightarrow> put_property (cc_claim_name r) v result))"

definition getTokenClaims :: "cfg \<Rightarrow> string \<Rightarrow> world \<Rightarrow> claims" where
  "getTokenClaims E cid w = fold (add_claim E) (claims_by_client cid w) Map.empty"

section \<open>Facts\<close>

lemma add_claim_reserved: "n \<in> set RESERVED_CLAIM_NAMES \<Longrightarrow> add_claim E r m n = m n"
  by (auto simp: add_claim_def put_property_def split: option.splits)

lemma getTokenClaims_reserved: "n \<in> set RESERVED_CLAIM_NAMES \<Longrightarrow> getTokenClaims E cid w n = None"
proof -
  assume n: "n \<in> set RESERVED_CLAIM_NAMES"
  have "fold (add_claim E) rs m n = m n" for rs m
    using n by (induction rs arbitrary: m) (simp_all add: add_claim_reserved)
  then show ?thesis by (simp add: getTokenClaims_def)
qed

lemma insert_claims_Inr:
  "each (\<lambda>r. guarded (claim_violated E r) (\<lambda>w. w\<lparr>client_claims := client_claims w @ [r]\<rparr>)) rs w
     = (Inr u, t) \<Longrightarrow> t = w\<lparr>client_claims := client_claims w @ rs\<rparr>"
  by (induction rs arbitrary: w) (fastforce simp: prog_inv)+

lemma replaceClientClaims_Inr:
  assumes "replaceClientClaims E cid cls w = (Inr u, t)"
  shows "client_claims t =
    filter (\<lambda>r. cc_client_id r \<noteq> cid) (client_claims w)
      @ List.map (claim_row cid) (zip cls (List.map (uuid E) [draws w..<draws w + length cls]))"
  using assms by (auto simp: replaceClientClaims_def prog_inv dest: insert_claims_Inr)

lemma replaceClientClaims_Inl:
  assumes "replaceClientClaims E cid cls w = (Inl e, t)"
  shows "t = w\<lparr>draws := draws w + length cls\<rparr>"
  using assms by (auto simp: replaceClientClaims_def prog_inv)

lemma normalize_claims_Inr:
  "normalize_claims E seen cls = Inr out \<Longrightarrow>
     distinct (List.map ci_claimName out) \<and> set (List.map ci_claimName out) \<inter> set seen = {} \<and>
     (\<forall>c \<in> set out. ci_claimName c \<notin> set RESERVED_CLAIM_NAMES \<and> claim_name_ok (ci_claimName c)
        \<and> decodeClaimValue E (ci_claimValue c) (ci_valueType c) \<noteq> None)"
proof (induction E seen cls arbitrary: out rule: normalize_claims.induct)
  case (2 E seen c cs)
  show ?case
  proof (cases "js_trim (ci_claimName c) = []")
    case True
    with 2 show ?thesis by (simp add: Let_def)
  next
    case False
    let ?n = "js_trim (ci_claimName c)"
    from "2.prems" False obtain rest where ok: "claim_error E seen ?n c = None"
      and rest: "normalize_claims E (?n # seen) cs = Inr rest" and out: "out = c\<lparr>ci_claimName := ?n\<rparr> # rest"
      by (auto simp: Let_def split: option.splits sum.splits)
    note IH = "2.IH" (2) [OF refl False ok rest]
    from ok have "claim_name_ok ?n" "?n \<notin> set RESERVED_CLAIM_NAMES" "?n \<notin> set seen"
      "decodeClaimValue E (ci_claimValue c) (ci_valueType c) \<noteq> None"
      by (auto simp: claim_error_def split: if_splits)
    with IH out show ?thesis by auto
  qed
qed simp

text \<open>With distinct names, the minted object has exactly the decodable, unreserved claims.\<close>

lemma fold_add_claim:
  assumes "distinct (List.map cc_claim_name rs)" and "n \<noteq> ''__proto__''" and "n \<notin> set RESERVED_CLAIM_NAMES"
  shows "fold (add_claim E) rs m n =
    (case find (\<lambda>r. cc_claim_name r = n) rs of
       None \<Rightarrow> m n
     | Some r \<Rightarrow> (case decodeClaimValue E (cc_claim_value r) (cc_value_type r) of
                    None \<Rightarrow> m n | Some v \<Rightarrow> Some v))"
  using assms(1)
proof (induction rs arbitrary: m)
  case (Cons r rs)
  have skip: "add_claim E r m n = m n" if "cc_claim_name r \<noteq> n"
    using that by (auto simp: add_claim_def put_property_def split: option.splits)
  show ?case
  proof (cases "cc_claim_name r = n")
    case False
    with Cons skip show ?thesis by (simp split: option.splits)
  next
    case True
    have rest: "find (\<lambda>r. cc_claim_name r = n) rs = None"
      unfolding find_None_iff using True Cons.prems by (metis distinct.simps(2) imageI list.set_map list.simps(9))
    from True rest Cons assms(2,3) show ?thesis
      by (auto simp: add_claim_def put_property_def split: option.splits)
  qed
qed simp

lemma find_sort_key:
  assumes "distinct (List.map f xs)"
  shows "find (\<lambda>x. f x = k) (sort_key f xs) = find (\<lambda>x. f x = k) xs"
proof (cases "find (\<lambda>x. f x = k) xs")
  case None
  then have "find (\<lambda>x. f x = k) (sort_key f xs) = None" by (auto simp: find_None_iff)
  with None show ?thesis by simp
next
  case (Some x)
  then have x: "x \<in> set (sort_key f xs)" "f x = k" by (auto dest: find_in_set)
  then obtain y where "find (\<lambda>x. f x = k) (sort_key f xs) = Some y"
    by (cases "find (\<lambda>x. f x = k) (sort_key f xs)") (auto simp: find_None_iff)
  moreover from this have "y \<in> set xs" "f y = k" using find_in_set by fastforce+
  moreover have "inj_on f (set xs)" using assms by (simp add: distinct_map)
  ultimately show ?thesis using x Some by (metis inj_onD set_sort)
qed

lemma normalize_claims_shape:
  "normalize_claims E seen cls = Inr out \<Longrightarrow>
     out = List.map (\<lambda>c. c\<lparr>ci_claimName := js_trim (ci_claimName c)\<rparr>)
       (filter (\<lambda>c. js_trim (ci_claimName c) \<noteq> []) cls)"
  by (induction E seen cls arbitrary: out rule: normalize_claims.induct)
    (auto simp: Let_def split: if_splits option.splits sum.splits)

lemma claim_row_simps [simp]:
  "cc_client_id (claim_row cid p) = cid" "cc_claim_name (claim_row cid p) = ci_claimName (fst p)"
  "cc_claim_value (claim_row cid p) = ci_claimValue (fst p)" "cc_value_type (claim_row cid p) = ci_valueType (fst p)"
  by (simp_all add: claim_row_def split: prod.splits)

lemma claims_by_client_replaced:
  assumes "client_claims t = filter (\<lambda>r. cc_client_id r \<noteq> cid) (client_claims w) @ List.map (claim_row cid) ps"
  shows "claims_by_client cid t = sort_key cc_claim_name (List.map (claim_row cid) ps)"
    and "cid' \<noteq> cid \<Longrightarrow> claims_by_client cid' t = claims_by_client cid' w"
proof -
  have "filter (\<lambda>r. cc_client_id r = cid) (List.map (claim_row cid) ps) = List.map (claim_row cid) ps"
    by (simp add: filter_id_conv)
  then show "claims_by_client cid t = sort_key cc_claim_name (List.map (claim_row cid) ps)"
    by (simp add: claims_by_client_def assms filter_empty_conv)
  assume "cid' \<noteq> cid"
  then have "filter (\<lambda>r. cc_client_id r = cid') (List.map (claim_row cid) ps) = []"
    "filter (\<lambda>r. cc_client_id r = cid') (filter (\<lambda>r. cc_client_id r \<noteq> cid) (client_claims w))
       = filter (\<lambda>r. cc_client_id r = cid') (client_claims w)"
    by (auto simp: filter_empty_conv intro: filter_cong)
  then show "claims_by_client cid' t = claims_by_client cid' w"
    by (simp add: claims_by_client_def assms)
qed

lemma getTokenClaims_proto: "getTokenClaims E cid w ''__proto__'' = None"
proof -
  have "fold (add_claim E) rs m ''__proto__'' = m ''__proto__''" for rs m
    by (induction rs arbitrary: m) (auto simp: add_claim_def put_property_def split: option.splits)
  then show ?thesis by (simp add: getTokenClaims_def)
qed

lemma getTokenClaims_find:
  assumes "claims_by_client cid t = sort_key cc_claim_name rs" and "distinct (List.map cc_claim_name rs)"
    and "n \<noteq> ''__proto__''" and "n \<notin> set RESERVED_CLAIM_NAMES"
  shows "getTokenClaims E cid t n = (case find (\<lambda>r. cc_claim_name r = n) rs of
      None \<Rightarrow> None | Some r \<Rightarrow> decodeClaimValue E (cc_claim_value r) (cc_value_type r))"
proof -
  have "distinct (List.map cc_claim_name (sort_key cc_claim_name rs))"
    using assms(2) by (metis distinct_map distinct_sort set_sort)
  from fold_add_claim [OF this assms(3,4)] show ?thesis
    by (simp add: getTokenClaims_def assms(1) find_sort_key [OF assms(2)] split: option.splits)
qed

section \<open>Properties\<close>

text \<open>
  C39. What an administrator saves is what tokens carry: after a save, every named claim is
  minted with its decoded value and no other claim is, claims of other clients are as before,
  and no saved claim can take a reserved name. (The name \<open>__proto__\<close> passes validation but is
  never minted.)
\<close>

theorem client_claims_roundtrip:
  assumes "setClientClaims E cid cls w = (Inr u, t)"
  shows "(\<forall>c \<in> set cls. js_trim (ci_claimName c) \<noteq> [] \<longrightarrow>
            js_trim (ci_claimName c) \<notin> set RESERVED_CLAIM_NAMES
            \<and> decodeClaimValue E (ci_claimValue c) (ci_valueType c) \<noteq> None
            \<and> (js_trim (ci_claimName c) \<noteq> ''__proto__'' \<longrightarrow>
                 getTokenClaims E cid t (js_trim (ci_claimName c)) = decodeClaimValue E (ci_claimValue c) (ci_valueType c)))
     \<and> (\<forall>n. n \<notin> js_trim ` ci_claimName ` set cls \<longrightarrow> getTokenClaims E cid t n = None)
     \<and> getTokenClaims E cid t ''__proto__'' = None
     \<and> (\<forall>cid'. cid' \<noteq> cid \<longrightarrow> getTokenClaims E cid' t = getTokenClaims E cid' w)"
proof -
  from assms obtain out where norm: "normalize_claims E [] cls = Inr out"
    and saved: "replaceClientClaims E cid out w = (Inr u, t)"
    by (auto simp: setClientClaims_def split: sum.splits)
  define ps where "ps = zip out (List.map (uuid E) [draws w..<draws w + length out])"
  have fst_ps: "List.map fst ps = out" by (simp add: ps_def)
  note rows = claims_by_client_replaced [OF replaceClientClaims_Inr [OF saved, folded ps_def]]
  note out = normalize_claims_shape [OF norm]
  have ok: "distinct (List.map ci_claimName out)" "\<forall>c \<in> set out. ci_claimName c \<notin> set RESERVED_CLAIM_NAMES
      \<and> decodeClaimValue E (ci_claimValue c) (ci_valueType c) \<noteq> None"
    using normalize_claims_Inr [OF norm] by auto
  have names: "List.map cc_claim_name (List.map (claim_row cid) ps) = List.map ci_claimName out"
    by (simp flip: fst_ps)
  have distinct: "distinct (List.map cc_claim_name (List.map (claim_row cid) ps))"
    unfolding names by (rule ok(1))
  note found = getTokenClaims_find [OF rows(1) distinct]
  have minted: "getTokenClaims E cid t (ci_claimName c) = decodeClaimValue E (ci_claimValue c) (ci_valueType c)"
    if "c \<in> set out" "ci_claimName c \<noteq> ''__proto__''" for c
  proof -
    from that(1) obtain i where c: "(c, i) \<in> set ps" by (metis fst_ps imageE list.set_map prod.collapse)
    then have "claim_row cid (c, i) \<in> set (List.map (claim_row cid) ps)" by auto
    from find_unique [OF distinct this]
    have "find (\<lambda>r. cc_claim_name r = ci_claimName c) (List.map (claim_row cid) ps) = Some (claim_row cid (c, i))"
      by simp
    with that ok(2) show ?thesis by (simp add: found)
  qed
  have absent: "getTokenClaims E cid t n = None" if "n \<notin> js_trim ` ci_claimName ` set cls" for n
  proof (cases "n = ''__proto__'' \<or> n \<in> set RESERVED_CLAIM_NAMES")
    case False
    have "n \<notin> set (List.map ci_claimName out)" using that by (auto simp: out)
    then have "find (\<lambda>r. cc_claim_name r = n) (List.map (claim_row cid) ps) = None"
      unfolding find_None_iff names [symmetric] by auto
    with False show ?thesis by (simp add: found)
  qed (auto simp: getTokenClaims_proto getTokenClaims_reserved)
  show ?thesis
  proof (intro conjI ballI impI allI)
    fix c assume c: "c \<in> set cls" "js_trim (ci_claimName c) \<noteq> []"
    then have in_out: "c\<lparr>ci_claimName := js_trim (ci_claimName c)\<rparr> \<in> set out" by (auto simp: out)
    with ok(2) show "js_trim (ci_claimName c) \<notin> set RESERVED_CLAIM_NAMES"
      "decodeClaimValue E (ci_claimValue c) (ci_valueType c) \<noteq> None" by fastforce+
    show "getTokenClaims E cid t (js_trim (ci_claimName c)) = decodeClaimValue E (ci_claimValue c) (ci_valueType c)"
      if "js_trim (ci_claimName c) \<noteq> ''__proto__''" using minted [OF in_out] that by simp
  next
    fix cid' assume "cid' \<noteq> cid"
    then show "getTokenClaims E cid' t = getTokenClaims E cid' w" by (simp add: getTokenClaims_def rows(2))
  qed (simp_all add: absent getTokenClaims_proto)
qed

end
