(* ===== verification/Issue.thy ===== *)
theory Issue
  imports RefreshStore ClientClaims Params "HOL-Library.Sublist"
begin

text \<open>
  Issuing tokens: \<open>OauthTokenService.issueTokenPair\<close>, \<open>issueTokenPairJwt\<close> and
  \<open>buildIdToken\<close>, with the helpers of \<open>users/profile.ts\<close> and the two base URLs of
  \<open>lib/config\<close>. Signing, key import and the digest are the platform's; which claims are
  signed, which rows are written and in which order is the code's.
\<close>

section \<open>Encodings and configuration\<close>

text \<open>\<open>btoa\<close> on bytes: groups of three to four characters, padded with \<open>=\<close>.\<close>

definition b64_char :: "nat \<Rightarrow> char" where
  "b64_char n =
     (if n < 26 then char_of (65 + n) else if n < 52 then char_of (71 + n)
      else if n < 62 then char_of (n - 4) else if n = 62 then CHR ''+'' else CHR ''/'')"

fun btoa :: "nat list \<Rightarrow> string" where
  "btoa [] = []"
| "btoa [a] = [b64_char (a div 4), b64_char (a mod 4 * 16), CHR ''='', CHR ''='']"
| "btoa [a, b] =
     [b64_char (a div 4), b64_char (a mod 4 * 16 + b div 16), b64_char (b mod 16 * 4), CHR ''='']"
| "btoa (a # b # c # r) =
     [b64_char (a div 4), b64_char (a mod 4 * 16 + b div 16), b64_char (b mod 16 * 4 + c div 64),
      b64_char (c mod 64)] @ btoa r"

definition strip_trailing :: "char \<Rightarrow> string \<Rightarrow> string" where
  "strip_trailing c s = rev (dropWhile (\<lambda>x. x = c) (rev s))"

definition toBase64Url :: "8 word list \<Rightarrow> string" where
  "toBase64Url bytes =
     strip_trailing CHR ''=''
       (List.map (\<lambda>c. if c = CHR ''+'' then CHR ''-'' else if c = CHR ''/'' then CHR ''_'' else c)
         (btoa (List.map unat bytes)))"

definition toS256Challenge :: "cfg \<Rightarrow> string \<Rightarrow> string" where
  "toS256Challenge E v = toBase64Url (sha256 E v)"

definition computeAtHash :: "cfg \<Rightarrow> string \<Rightarrow> string" where
  "computeAtHash E accessToken = toBase64Url (take 16 (sha256 E accessToken))"

definition generateOpaqueSecret :: "cfg \<Rightarrow> string \<Rightarrow> nat \<Rightarrow> string m" where
  "generateOpaqueSecret E pre byteLength =
     seq (getRandomValues E byteLength) (\<lambda>bytes. ret (pre @ ''_'' @ hex_bytes bytes))"

text \<open>\<open>env.X ?? process.env.X\<close>, and the variant that passes over blank values.\<close>

definition env_or :: "cfg \<Rightarrow> string \<Rightarrow> string option" where
  "env_or E k = (case ctx_env E k of Some v \<Rightarrow> Some v | None \<Rightarrow> process_env E k)"

definition trimmed_env :: "(string \<Rightarrow> string option) \<Rightarrow> string \<Rightarrow> string option" where
  "trimmed_env env k =
     (case env k of None \<Rightarrow> None | Some v \<Rightarrow> if js_trim v = [] then None else Some (js_trim v))"

definition resolve_base_url :: "cfg \<Rightarrow> string \<Rightarrow> string \<Rightarrow> string" where
  "resolve_base_url E k dflt =
     strip_trailing CHR ''/''
       (case trimmed_env (ctx_env E) k of
          Some v \<Rightarrow> v
        | None \<Rightarrow> (case trimmed_env (process_env E) k of Some v \<Rightarrow> v | None \<Rightarrow> dflt))"

definition resolveIssuerBaseUrl :: "cfg \<Rightarrow> string" where
  "resolveIssuerBaseUrl E = resolve_base_url E ''ISSUER_BASE_URL'' ''https://auth.progression-ai.com''"

definition resolveJwksCdnBaseUrl :: "cfg \<Rightarrow> string" where
  "resolveJwksCdnBaseUrl E = resolve_base_url E ''JWKS_CDN_BASE_URL'' ''https://cdn.progression-ai.com''"

definition truthy :: "string option \<Rightarrow> bool" where
  "truthy v \<longleftrightarrow> v \<noteq> None \<and> v \<noteq> Some []"

section \<open>Asset URLs\<close>

definition getAvatarCdnBaseUrl :: "cfg \<Rightarrow> string" where
  "getAvatarCdnBaseUrl E =
     (case ctx_env E ''AVATAR_CDN_BASE_URL'' of
        None \<Rightarrow> resolveJwksCdnBaseUrl E
      | Some v \<Rightarrow> if js_trim v = [] then resolveJwksCdnBaseUrl E else strip_trailing CHR ''/'' v)"

definition pickAssetCdnBaseUrl :: "string option \<Rightarrow> string \<Rightarrow> string" where
  "pickAssetCdnBaseUrl siteCdnUrl envBaseUrl =
     (let fromSettings = (case siteCdnUrl of None \<Rightarrow> [] | Some s \<Rightarrow> js_trim s)
      in strip_trailing CHR ''/'' (if fromSettings \<noteq> [] then fromSettings else envBaseUrl))"

definition buildAssetUrl :: "string \<Rightarrow> string \<Rightarrow> string" where
  "buildAssetUrl key baseUrl =
     strip_trailing CHR ''/'' baseUrl @ ''/'' @ dropWhile (\<lambda>c. c = CHR ''/'') key"

definition resolveAvatarUrl :: "cfg \<Rightarrow> string option \<Rightarrow> string option \<Rightarrow> string option" where
  "resolveAvatarUrl E avatarKey siteCdnUrl =
     (case avatarKey of
        None \<Rightarrow> None
      | Some key \<Rightarrow>
        if key = [] then None
        else Some (buildAssetUrl key (pickAssetCdnBaseUrl siteCdnUrl (getAvatarCdnBaseUrl E))))"

section \<open>The parameters and the response\<close>

definition ACCESS_TOKEN_TTL_SECONDS :: nat where "ACCESS_TOKEN_TTL_SECONDS = 3600"
definition REFRESH_TOKEN_TTL_SECONDS :: nat where "REFRESH_TOKEN_TTL_SECONDS = 60 * 60 * 24 * 30"

record issue_params =
  ip_clientId :: string
  ip_clientScopeIds :: "string list"
  ip_scopeNames :: "string list"
  ip_subject :: "string option"
  ip_rotatedFrom :: "string option"
  ip_clientIdentifier :: string
  ip_issueIdToken :: bool
  ip_nonce :: "string option"
  ip_authTime :: "string option"
  ip_resource :: "string option"
  ip_issueRefreshToken :: bool
  ip_apiKeyRowId :: "string option"

record token_response =
  tr_access_token :: string
  tr_expires_in :: nat
  tr_refresh_token :: "string option"
  tr_scope :: "string option"
  tr_id_token :: "string option"

section \<open>Rows\<close>

definition access_row :: "issue_params \<Rightarrow> string \<Rightarrow> string \<Rightarrow> nat \<Rightarrow> token_row" where
  "access_row p rowId tokenId now =
     \<lparr>at_id = rowId, at_token_id = tokenId, at_client_id = ip_clientId p,
      at_expires_at = toISOString (now + ACCESS_TOKEN_TTL_SECONDS * 1000),
      at_resource = ip_resource p, at_api_key_id = ip_apiKeyRowId p\<rparr>"

definition new_refresh_row :: "issue_params \<Rightarrow> string \<Rightarrow> string \<Rightarrow> string \<Rightarrow> nat \<Rightarrow> refresh_row" where
  "new_refresh_row p rowId tokenId accessRowId now =
     \<lparr>rt_id = rowId, rt_refresh_token_id = tokenId, rt_client_id = ip_clientId p,
      rt_subject = ip_subject p, rt_access_token_id = Some accessRowId,
      rt_expires_at = toISOString (now + REFRESH_TOKEN_TTL_SECONDS * 1000),
      rt_revoked_at = None, rt_rotated_from_id = ip_rotatedFrom p,
      rt_created_at = toISOString now, rt_resource = ip_resource p\<rparr>"

definition store_tokens ::
  "cfg \<Rightarrow> issue_params \<Rightarrow> string \<Rightarrow> string \<Rightarrow> string \<Rightarrow> string \<Rightarrow> nat \<Rightarrow> unit m" where
  "store_tokens E p rowId tokenId refreshRowId refreshToken now =
     seq (createAccessToken E (access_row p rowId tokenId now) (ip_clientScopeIds p)) (\<lambda>_.
     if ip_issueRefreshToken p
     then createRefreshToken E (new_refresh_row p refreshRowId refreshToken rowId now) (ip_clientScopeIds p)
     else ret ())"

section \<open>Opaque mode\<close>

definition issue_opaque :: "cfg \<Rightarrow> issue_params \<Rightarrow> token_response m" where
  "issue_opaque E p =
     seq (now_ms E) (\<lambda>now.
     seq (generateOpaqueSecret E ''at'' 32) (\<lambda>accessToken.
     seq (generateOpaqueSecret E ''rt'' 32) (\<lambda>refreshToken.
     seq (randomUUID E) (\<lambda>accessTokenId.
     seq (randomUUID E) (\<lambda>refreshTokenId.
     seq (store_tokens E p accessTokenId accessToken refreshTokenId refreshToken now) (\<lambda>_.
     ret \<lparr>tr_access_token = accessToken, tr_expires_in = ACCESS_TOKEN_TTL_SECONDS,
          tr_refresh_token = (if ip_issueRefreshToken p then Some refreshToken else None),
          tr_scope = scopesToString (ip_scopeNames p), tr_id_token = None\<rparr>))))))"

section \<open>JWT mode\<close>

text \<open>
  The key id is taken from the published JWKS when the object store has it, so that it
  matches what verifiers see, and from the environment otherwise.
\<close>

definition pick_kid :: "cfg \<Rightarrow> string m" where
  "pick_kid E =
     (let envKid = env_or E ''JWT_KID'';
          key = (case ctx_env E ''JWKS_R2_KEY'' of Some k \<Rightarrow> k | None \<Rightarrow> ''jwks.json'');
          answer = (case auth_assets E of None \<Rightarrow> R2_missing | Some get \<Rightarrow> get key)
      in case answer of
           R2_jwks ks \<Rightarrow>
             ret (case ks of
                    k # _ \<Rightarrow> (case jwk_kid k of
                                Some kid \<Rightarrow> kid
                              | None \<Rightarrow> (case envKid of Some e \<Rightarrow> e | None \<Rightarrow> ''default''))
                  | [] \<Rightarrow> (case envKid of Some e \<Rightarrow> e | None \<Rightarrow> ''default''))
         | R2_not_json \<Rightarrow> throw (JsError ''Unexpected token in JSON'')
         | R2_missing \<Rightarrow> need_text envKid (oauth Server_error ''JWKS not available.'' 500))"

definition access_claims ::
  "cfg \<Rightarrow> issue_params \<Rightarrow> string option \<Rightarrow> claims \<Rightarrow> string \<Rightarrow> nat \<Rightarrow> claims" where
  "access_claims E p environmentName customClaims jti now =
     (let scopeStr = join_with '' '' (ip_scopeNames p);
          payload = (customClaims
            (''scope'' := (if scopeStr = [] then None else Some (JString scopeStr))))
            (''client_id'' \<mapsto> JString (ip_clientIdentifier p));
          payload = (case environmentName of
             None \<Rightarrow> payload
           | Some n \<Rightarrow> if n = [] then payload else payload(''environment'' \<mapsto> JString n))
      in payload
           (''iss'' \<mapsto> JString (resolveIssuerBaseUrl E),
            ''sub'' \<mapsto> JString (case ip_subject p of None \<Rightarrow> [] | Some s \<Rightarrow> s),
            ''aud'' \<mapsto> JString (case ip_resource p of None \<Rightarrow> ip_clientIdentifier p | Some r \<Rightarrow> r),
            ''jti'' \<mapsto> JString jti,
            ''iat'' \<mapsto> JInt (int (now div 1000)),
            ''exp'' \<mapsto> JInt (int ((now + ACCESS_TOKEN_TTL_SECONDS * 1000) div 1000))))"

text \<open>The profile and e-mail claims of the id token, each behind its scope.\<close>

definition profile_claims ::
  "cfg \<Rightarrow> string list \<Rightarrow> user_record \<Rightarrow> site_settings_row option \<Rightarrow> claims \<Rightarrow> claims" where
  "profile_claims E scopeNames user site cls =
     (let cls = (if ''profile'' \<in> set scopeNames
           then (let cls = cls
                   (''name'' \<mapsto> JString (case u_name user of Some n \<Rightarrow> n | None \<Rightarrow> u_username user),
                    ''preferred_username'' \<mapsto> JString (u_username user))
                 in case resolveAvatarUrl E (u_avatarKey user)
                           (case site of None \<Rightarrow> None | Some s \<Rightarrow> st_cdn_url s) of
                      None \<Rightarrow> cls
                    | Some picture \<Rightarrow> cls(''picture'' \<mapsto> JString picture))
           else cls)
      in if ''email'' \<in> set scopeNames
         then cls(''email'' := map_option JString (u_email user),
                  ''email_verified'' \<mapsto> JBool (truthy (u_emailVerifiedAt user)))
         else cls)"

definition id_claims ::
  "cfg \<Rightarrow> issue_params \<Rightarrow> string \<Rightarrow> string \<Rightarrow> nat \<Rightarrow> user_record option \<Rightarrow> site_settings_row option \<Rightarrow> claims" where
  "id_claims E p subject accessToken now user site =
     (let cls = [''at_hash'' \<mapsto> JString (computeAtHash E accessToken)];
          cls = (if truthy (ip_nonce p) then cls(''nonce'' \<mapsto> JString (the (ip_nonce p))) else cls);
          cls = (if truthy (ip_authTime p)
                 then (case parse_date E (the (ip_authTime p)) of
                         None \<Rightarrow> cls
                       | Some t \<Rightarrow> cls(''auth_time'' \<mapsto> JInt (int (t div 1000))))
                 else cls);
          cls = (case user of None \<Rightarrow> cls | Some u \<Rightarrow> profile_claims E (ip_scopeNames p) u site cls)
      in cls
           (''iss'' \<mapsto> JString (resolveIssuerBaseUrl E), ''sub'' \<mapsto> JString subject,
            ''aud'' \<mapsto> JString (ip_clientIdentifier p),
            ''iat'' \<mapsto> JInt (int (now div 1000)),
            ''exp'' \<mapsto> JInt (int ((now + ACCESS_TOKEN_TTL_SECONDS * 1000) div 1000))))"

definition buildIdToken ::
  "cfg \<Rightarrow> issue_params \<Rightarrow> string \<Rightarrow> string \<Rightarrow> string \<Rightarrow> string \<Rightarrow> nat \<Rightarrow> world \<Rightarrow> string" where
  "buildIdToken E p privateKey kid subject accessToken now w =
     sign_jwt E privateKey \<lparr>hd_alg = ''RS256'', hd_kid = kid, hd_typ = None\<rparr>
       (id_claims E p subject accessToken now (user_by_id subject w) (site_settings w))"

definition maybe_id_token ::
  "cfg \<Rightarrow> issue_params \<Rightarrow> string \<Rightarrow> string \<Rightarrow> string \<Rightarrow> nat \<Rightarrow> world \<Rightarrow> string option" where
  "maybe_id_token E p privateKey kid accessToken now w =
     (if ip_issueIdToken p \<and> ''openid'' \<in> set (ip_scopeNames p) \<and> truthy (ip_subject p)
      then Some (buildIdToken E p privateKey kid (the (ip_subject p)) accessToken now w)
      else None)"

definition issueTokenPairJwt :: "cfg \<Rightarrow> issue_params \<Rightarrow> string option \<Rightarrow> string \<Rightarrow> token_response m" where
  "issueTokenPairJwt E p environmentName privateKeyPem =
     seq (now_ms E) (\<lambda>now.
     seq (randomUUID E) (\<lambda>jti.
     seq (randomUUID E) (\<lambda>accessTokenRowId.
     seq (generateOpaqueSecret E ''rt'' 32) (\<lambda>refreshToken.
     seq (randomUUID E) (\<lambda>refreshTokenId.
     seq (pick_kid E) (\<lambda>kid.
     seq (need (import_pkcs8 E privateKeyPem) (JsError ''importPKCS8'')) (\<lambda>privateKey.
     seq (reads (getTokenClaims E (ip_clientId p))) (\<lambda>customClaims.
     let accessTokenJwt =
           sign_jwt E privateKey \<lparr>hd_alg = ''RS256'', hd_kid = kid, hd_typ = Some ''at+jwt''\<rparr>
             (access_claims E p environmentName customClaims jti now)
     in seq (store_tokens E p accessTokenRowId jti refreshTokenId refreshToken now) (\<lambda>_.
        seq (reads (maybe_id_token E p privateKey kid accessTokenJwt now)) (\<lambda>idToken.
        ret \<lparr>tr_access_token = accessTokenJwt, tr_expires_in = ACCESS_TOKEN_TTL_SECONDS,
             tr_refresh_token = (if ip_issueRefreshToken p then Some refreshToken else None),
             tr_scope = scopesToString (ip_scopeNames p), tr_id_token = idToken\<rparr>))))))))))"

definition has_kid_source :: "cfg \<Rightarrow> bool" where
  "has_kid_source E \<longleftrightarrow>
     auth_assets E \<noteq> None \<or> truthy (ctx_env E ''JWT_KID'') \<or> truthy (process_env E ''JWT_KID'')"

definition environment_name_of :: "string \<Rightarrow> world \<Rightarrow> string option" where
  "environment_name_of cid w =
     (case client_by_id cid w of
        None \<Rightarrow> None
      | Some cl \<Rightarrow> map_option env_name (environment_by_id (c_environmentId cl) w))"

definition issueTokenPair :: "cfg \<Rightarrow> issue_params \<Rightarrow> token_response m" where
  "issueTokenPair E p =
     (if truthy (env_or E ''JWT_PRIVATE_KEY'') \<and> ip_clientIdentifier p \<noteq> [] \<and> has_kid_source E
      then seq (reads (environment_name_of (ip_clientId p))) (\<lambda>environmentName.
           issueTokenPairJwt E p environmentName (the (env_or E ''JWT_PRIVATE_KEY'')))
      else issue_opaque E p)"

section \<open>Encodings are injective\<close>

fun url64 :: "nat list \<Rightarrow> nat list" where
  "url64 [] = []"
| "url64 [a] = [a div 4, a mod 4 * 16]"
| "url64 [a, b] = [a div 4, a mod 4 * 16 + b div 16, b mod 16 * 4]"
| "url64 (a # b # c # r) =
     [a div 4, a mod 4 * 16 + b div 16, b mod 16 * 4 + c div 64, c mod 64] @ url64 r"

fun unurl64 :: "nat list \<Rightarrow> nat list" where
  "unurl64 (p # q # r # s # rest) =
     [p * 4 + q div 16, q mod 16 * 16 + r div 4, r mod 4 * 64 + s] @ unurl64 rest"
| "unurl64 [p, q, r] = [p * 4 + q div 16, q mod 16 * 16 + r div 4]"
| "unurl64 [p, q] = [p * 4 + q div 16]"
| "unurl64 _ = []"

lemma unurl64_url64: "\<forall>x \<in> set xs. x < 256 \<Longrightarrow> unurl64 (url64 xs) = xs"
proof (induction xs rule: url64.induct)
  case (2 a)
  then show ?case by simp
next
  case (3 a b)
  then have "b div 16 < 16" by auto
  then show ?case by simp
next
  case (4 a b c r)
  then have "b div 16 < 16" "c div 64 < 4" by auto
  with 4 show ?case by simp
qed simp

definition url_char :: "nat \<Rightarrow> char" where
  "url_char n = (let c = b64_char n in
     if c = CHR ''+'' then CHR ''-'' else if c = CHR ''/'' then CHR ''_'' else c)"

definition url_chars :: "string" where
  "url_chars = ''ABCDEFGHIJKLMNOPQRSTUVWXYZabcdefghijklmnopqrstuvwxyz0123456789-_''"

lemma url_char_table: "List.map url_char [0..<64] = url_chars"
  by code_simp

lemma url_char_nth: "n < 64 \<Longrightarrow> url_char n = url_chars ! n"
  using arg_cong [OF url_char_table, of "\<lambda>xs. xs ! n"] by simp

lemma url_chars_facts: "distinct url_chars" "CHR ''='' \<notin> set url_chars" "length url_chars = 64"
  by code_simp+

lemma url_char_inj: "m < 64 \<Longrightarrow> n < 64 \<Longrightarrow> url_char m = url_char n \<longleftrightarrow> m = n"
  using nth_eq_iff_index_eq [OF url_chars_facts(1)] by (simp add: url_char_nth url_chars_facts)

lemma url_char_not_pad: "n < 64 \<Longrightarrow> url_char n \<noteq> CHR ''=''"
  by (metis nth_mem url_char_nth url_chars_facts(2,3))

lemma url64_bound: "\<forall>x \<in> set xs. x < 256 \<Longrightarrow> \<forall>y \<in> set (url64 xs). y < 64"
proof (induction xs rule: url64.induct)
  case (4 a b c r)
  then have "a div 4 < 64" "b div 16 < 16" "c div 64 < 4" "a mod 4 < 4" "b mod 16 < 16" by auto
  moreover from this have "a mod 4 * 16 + b div 16 < 64" "b mod 16 * 4 + c div 64 < 64" by linarith+
  ultimately show ?case using 4 by auto
next
  case (3 a b)
  then have "a div 4 < 64" "b div 16 < 16" "a mod 4 < 4" "b mod 16 < 16" by auto
  moreover from this have "a mod 4 * 16 + b div 16 < 64" "b mod 16 * 4 < 64" by linarith+
  ultimately show ?case by auto
next
  case (2 a)
  then have "a div 4 < 64" "a mod 4 < 4" by auto
  then show ?case by auto
qed simp

lemma toBase64Url_url64: "toBase64Url bs = List.map url_char (url64 (List.map unat bs))"
proof -
  define f where "f = (\<lambda>c. if c = CHR ''+'' then CHR ''-'' else if c = CHR ''/'' then CHR ''_'' else c)"
  have pad: "f CHR ''='' = CHR ''=''" by (simp add: f_def)
  have "\<exists>n. List.map f (btoa xs) = List.map url_char (url64 xs) @ replicate n CHR ''=''" for xs
    by (induction xs rule: btoa.induct)
       (auto simp: url_char_def f_def Let_def intro: exI [of _ "0"] exI [of _ "Suc 0"]
         exI [of _ "Suc (Suc 0)"])
  then obtain n where n: "List.map f (btoa (List.map unat bs))
      = List.map url_char (url64 (List.map unat bs)) @ replicate n CHR ''=''" by blast
  have "\<forall>x \<in> set (List.map unat bs). x < 256"
    using unsigned_less [where ?'a = nat and ?'b = 8] by auto
  then have "CHR ''='' \<notin> set (List.map url_char (url64 (List.map unat bs)))"
    using url64_bound url_char_not_pad by fastforce
  moreover have "dropWhile (\<lambda>x. x = c) (replicate n c @ xs) = xs" if "c \<notin> set xs" for c :: char and xs
    using that by (induction n) (cases xs, auto)
  ultimately have "dropWhile (\<lambda>x. x = CHR ''='')
      (replicate n CHR ''='' @ rev (List.map url_char (url64 (List.map unat bs))))
      = rev (List.map url_char (url64 (List.map unat bs)))" by simp
  then show ?thesis by (simp add: toBase64Url_def strip_trailing_def n flip: f_def)
qed

lemma toBase64Url_inject: "toBase64Url as = toBase64Url bs \<longleftrightarrow> as = bs"
proof
  assume eq: "toBase64Url as = toBase64Url bs"
  let ?a = "List.map unat as" and ?b = "List.map unat bs"
  have small: "\<forall>x \<in> set (List.map unat xs). x < 256" for xs :: "8 word list"
    using unsigned_less [where ?'a = nat and ?'b = 8] by auto
  have "inj_on url_char {..<64}" by (auto intro: inj_onI simp: url_char_inj)
  moreover have "set (url64 ?a) \<union> set (url64 ?b) \<subseteq> {..<64}"
    using url64_bound [OF small, of as] url64_bound [OF small, of bs] by blast
  ultimately have "inj_on url_char (set (url64 ?a) \<union> set (url64 ?b))" by (rule inj_on_subset)
  from inj_on_map_eq_map [OF this] eq have "url64 ?a = url64 ?b" by (simp only: toBase64Url_url64)
  then have "unurl64 (url64 ?a) = unurl64 (url64 ?b)" by (rule arg_cong)
  then have "?a = ?b" by (simp only: unurl64_url64 [OF small])
  then show "as = bs" by (rule map_injective) (auto intro: injI simp: unsigned_word_eqI)
qed simp

section \<open>What issuing does to the tables\<close>

text \<open>
  Only the four token tables and the clock and randomness counters change, and the token
  tables only grow.
\<close>

definition only_tokens :: "world \<Rightarrow> world \<Rightarrow> bool" where
  "only_tokens s t \<longleftrightarrow>
     t = s\<lparr>tokens := tokens t, token_scopes := token_scopes t, refresh_tokens := refresh_tokens t,
           refresh_token_scopes := refresh_token_scopes t, ticks := ticks t, draws := draws t\<rparr>
     \<and> prefix (tokens s) (tokens t) \<and> prefix (token_scopes s) (token_scopes t)
     \<and> prefix (refresh_tokens s) (refresh_tokens t)
     \<and> prefix (refresh_token_scopes s) (refresh_token_scopes t)
     \<and> ticks s \<le> ticks t \<and> draws s \<le> draws t"

interpretation issue_frame: evolution only_tokens
proof
  fix s t u :: world
  show "only_tokens s s" by (simp add: only_tokens_def)
  assume "only_tokens s t" and "only_tokens t u"
  then show "only_tokens s u"
    by (cases s; cases t; cases u) (auto simp: only_tokens_def intro: prefix_order.trans)
qed

lemma only_tokens_ticks: "only_tokens w (w\<lparr>ticks := Suc (ticks w)\<rparr>)"
  by (simp add: only_tokens_def)

lemma only_tokens_draws: "only_tokens w (w\<lparr>draws := Suc (draws w)\<rparr>)"
  by (simp add: only_tokens_def)

lemma createAccessToken_frame: "evolves only_tokens (createAccessToken E r cs)"
  unfolding createAccessToken_def insert_link_def Let_def
  by (intro issue_frame.seq issue_frame.each evolves_guarded issue_frame.refl)
     (auto simp: evolves_def only_tokens_def put_token_scope_def)

lemma createRefreshToken_frame: "evolves only_tokens (createRefreshToken E r cs)"
  unfolding createRefreshToken_def insert_link_def Let_def
  by (intro issue_frame.seq issue_frame.each evolves_guarded issue_frame.refl)
     (auto simp: evolves_def only_tokens_def put_refresh_scope_def)

lemma platform_frame:
  "evolves only_tokens (now_ms E)" "evolves only_tokens (randomUUID E)"
  "evolves only_tokens (generateOpaqueSecret E pre n)"
  by (simp_all add: evolves_def generateOpaqueSecret_def run_seq only_tokens_ticks only_tokens_draws)

lemma pick_kid_frame: "evolves only_tokens (pick_kid E)"
  unfolding pick_kid_def Let_def by (auto split: r2_answer.splits option.splits)

lemma store_tokens_frame: "evolves only_tokens (store_tokens E p a b c d n)"
  unfolding store_tokens_def
  by (intro issue_frame.seq issue_frame.branch issue_frame.keeps createAccessToken_frame
      createRefreshToken_frame)

lemma issueTokenPair_frame: "evolves only_tokens (issueTokenPair E p)"
  unfolding issueTokenPair_def issueTokenPairJwt_def issue_opaque_def Let_def
  by (intro issue_frame.branch issue_frame.seq issue_frame.keeps platform_frame pick_kid_frame
      store_tokens_frame)

text \<open>
  What a successful issue leaves: one new access-token row carrying the requested scopes,
  audience, owner and lifetime, and one new live refresh-token row unless none was asked.
\<close>

definition links_added :: "scope_link list \<Rightarrow> string \<Rightarrow> string list \<Rightarrow> scope_link list \<Rightarrow> bool" where
  "links_added old owner cs new \<longleftrightarrow>
     (\<exists>ls. new = old @ ls \<and> List.map lk_client_scope_id ls = cs \<and> (\<forall>l \<in> set ls. lk_owner l = owner))"

definition issued ::
  "issue_params \<Rightarrow> nat \<Rightarrow> token_row \<Rightarrow> token_response \<Rightarrow> world \<Rightarrow> world \<Rightarrow> bool" where
  "issued p now row resp s t \<longleftrightarrow>
     (\<exists>rowId tokenId. row = access_row p rowId tokenId now)
     \<and> tokens t = tokens s @ [row] \<and> only_tokens s t
     \<and> at_id row \<notin> set (List.map at_id (tokens s))
     \<and> at_token_id row \<notin> set (List.map at_token_id (tokens s))
     \<and> at_client_id row \<in> set (List.map cl_id (clients s))
     \<and> links_added (token_scopes s) (at_id row) (ip_clientScopeIds p) (token_scopes t)
     \<and> tr_scope resp = scopesToString (ip_scopeNames p)
     \<and> tr_expires_in resp = ACCESS_TOKEN_TTL_SECONDS
     \<and> (if ip_issueRefreshToken p
        then \<exists>i v. refresh_tokens t = refresh_tokens s @ [new_refresh_row p i v (at_id row) now]
               \<and> links_added (refresh_token_scopes s) i (ip_clientScopeIds p) (refresh_token_scopes t)
               \<and> tr_refresh_token resp = Some v
        else refresh_tokens t = refresh_tokens s \<and> tr_refresh_token resp = None)"

lemma access_row_simps [simp]:
  "at_id (access_row p i v n) = i" "at_token_id (access_row p i v n) = v"
  "at_client_id (access_row p i v n) = ip_clientId p"
  "at_expires_at (access_row p i v n) = toISOString (n + ACCESS_TOKEN_TTL_SECONDS * 1000)"
  "at_resource (access_row p i v n) = ip_resource p"
  "at_api_key_id (access_row p i v n) = ip_apiKeyRowId p"
  by (simp_all add: access_row_def)

lemma createAccessToken_other:
  "createAccessToken E r cs w = (x, t) \<Longrightarrow>
     refresh_tokens t = refresh_tokens w \<and> refresh_token_scopes t = refresh_token_scopes w"
proof -
  have "evolves (\<lambda>s t. (refresh_tokens t, refresh_token_scopes t) = (refresh_tokens s, refresh_token_scopes s))
      (createAccessToken E r cs)"
    unfolding createAccessToken_def
    by (intro evolution.seq [OF evolution_unchanged] evolution.each [OF evolution_unchanged]
        evolves_insert_link evolves_guarded evolution_unchanged) (simp_all add: put_token_scope_def)
  then show "createAccessToken E r cs w = (x, t) \<Longrightarrow> ?thesis" by (auto dest: evolvesD)
qed

lemma createRefreshToken_other:
  "createRefreshToken E r cs w = (x, t) \<Longrightarrow> tokens t = tokens w \<and> token_scopes t = token_scopes w"
proof -
  have "evolves (\<lambda>s t. (tokens t, token_scopes t) = (tokens s, token_scopes s))
      (createRefreshToken E r cs)"
    unfolding createRefreshToken_def
    by (intro evolution.seq [OF evolution_unchanged] evolution.each [OF evolution_unchanged]
        evolves_insert_link evolves_guarded evolution_unchanged) (simp_all add: put_refresh_scope_def)
  then show "createRefreshToken E r cs w = (x, t) \<Longrightarrow> ?thesis" by (auto dest: evolvesD)
qed

lemma store_tokens_Inr:
  assumes "store_tokens E p i v j x now w = (Inr u, t)"
    and "tr_scope resp = scopesToString (ip_scopeNames p)" "tr_expires_in resp = ACCESS_TOKEN_TTL_SECONDS"
    and "tr_refresh_token resp = (if ip_issueRefreshToken p then Some x else None)"
  shows "issued p now (access_row p i v now) resp w t"
proof -
  from assms(1) obtain s where access: "createAccessToken E (access_row p i v now) (ip_clientScopeIds p) w = (Inr (), s)"
    and rest: "(if ip_issueRefreshToken p
      then createRefreshToken E (new_refresh_row p j x i now) (ip_clientScopeIds p) else ret ()) s = (Inr u, t)"
    by (auto simp: store_tokens_def prog_inv)
  note a = createAccessToken_Inr [OF access] createAccessToken_other [OF access]
  from a(1) have new: "i \<notin> set (List.map at_id (tokens w))" "v \<notin> set (List.map at_token_id (tokens w))"
    "ip_clientId p \<in> set (List.map cl_id (clients w))"
    by (auto simp: tokens_violated_def split: if_splits)
  have frame: "only_tokens w t" by (rule evolvesD [OF store_tokens_frame assms(1)])
  show ?thesis
  proof (cases "ip_issueRefreshToken p")
    case True
    with rest have refresh: "createRefreshToken E (new_refresh_row p j x i now) (ip_clientScopeIds p) s = (Inr u, t)"
      by simp
    note r = createRefreshToken_Inr [OF refresh] createRefreshToken_other [OF refresh]
    have "rt_id (new_refresh_row p j x i now) = j" by (simp add: new_refresh_row_def)
    then show ?thesis using a r new True frame assms(2-)
      unfolding issued_def links_added_def by auto
  next
    case False
    with rest a new frame assms(2-) show ?thesis unfolding issued_def links_added_def by auto
  qed
qed

lemma seq_generateOpaqueSecret [simp]:
  "seq (generateOpaqueSecret E pre n) f w =
     f (pre @ ''_'' @ hex_bytes (random_bytes E (draws w) n)) (w\<lparr>draws := Suc (draws w)\<rparr>)"
  by (simp add: generateOpaqueSecret_def seq_assoc)

lemma store_then_Inr:
  assumes "seq (store_tokens E p i v j x now) (\<lambda>_ s. (Inr (f s), s)) w = (Inr resp, t)"
    and "tr_scope (f t) = scopesToString (ip_scopeNames p)" "tr_expires_in (f t) = ACCESS_TOKEN_TTL_SECONDS"
    and "tr_refresh_token (f t) = (if ip_issueRefreshToken p then Some x else None)"
  shows "issued p now (access_row p i v now) resp w t" and "resp = f t"
proof -
  from assms(1) have "store_tokens E p i v j x now w = (Inr (), t)" and resp: "resp = f t"
    by (auto simp: seq_Inr)
  from store_tokens_Inr [OF this(1), of resp] assms(2-) resp
  show "issued p now (access_row p i v now) resp w t" by simp
  show "resp = f t" by (rule resp)
qed

lemma issue_opaque_Inr:
  assumes "issue_opaque E p w = (Inr resp, t)"
  obtains row s where "issued p (clock E (ticks w)) row resp s t"
    and "tr_access_token resp = at_token_id row" and "s = w\<lparr>ticks := ticks s, draws := draws s\<rparr>"
    and "tr_id_token resp = None" and "ticks w < ticks s"
    and "\<exists>bs. at_token_id row = ''at_'' @ hex_bytes bs"
proof -
  define s where "s = w\<lparr>ticks := Suc (ticks w), draws := Suc (Suc (Suc (Suc (draws w))))\<rparr>"
  define v where "v = ''at_'' @ hex_bytes (random_bytes E (draws w) 32)"
  define x where "x = ''rt_'' @ hex_bytes (random_bytes E (Suc (draws w)) 32)"
  from assms have "seq (store_tokens E p (uuid E (Suc (Suc (draws w)))) v (uuid E (Suc (Suc (Suc (draws w))))) x
        (clock E (ticks w)))
      (\<lambda>_ s. (Inr \<lparr>tr_access_token = v, tr_expires_in = ACCESS_TOKEN_TTL_SECONDS,
          tr_refresh_token = (if ip_issueRefreshToken p then Some x else None),
          tr_scope = scopesToString (ip_scopeNames p), tr_id_token = None\<rparr>, s)) s = (Inr resp, t)"
    by (simp add: issue_opaque_def s_def v_def x_def ret_def cong: if_cong)
  from store_then_Inr [OF this]
  have "issued p (clock E (ticks w)) (access_row p (uuid E (Suc (Suc (draws w)))) v (clock E (ticks w))) resp s t"
    and "tr_access_token resp = v" "tr_id_token resp = None" by simp_all
  then show thesis by (intro that) (auto simp: s_def v_def)
qed

lemma pick_kid_state: "pick_kid E s = (r, s') \<Longrightarrow> s' = s"
  by (auto simp: pick_kid_def Let_def need_text_def split: r2_answer.splits option.splits if_splits)

lemma issueTokenPairJwt_Inr:
  assumes "issueTokenPairJwt E p en pem w = (Inr resp, t)"
  obtains row s key kid where "issued p (clock E (ticks w)) row resp s t"
    and "s = w\<lparr>ticks := ticks s, draws := draws s\<rparr>" and "import_pkcs8 E pem = Some key"
    and "tr_access_token resp = sign_jwt E key \<lparr>hd_alg = ''RS256'', hd_kid = kid, hd_typ = Some ''at+jwt''\<rparr>
       (access_claims E p en (getTokenClaims E (ip_clientId p) s) (at_token_id row) (clock E (ticks w)))"
    and "tr_id_token resp = maybe_id_token E p key kid (tr_access_token resp) (clock E (ticks w)) t"
    and "ticks w < ticks s"
proof -
  define now where "now = clock E (ticks w)"
  define s where "s = w\<lparr>ticks := Suc (ticks w), draws := Suc (Suc (Suc (Suc (draws w))))\<rparr>"
  define x where "x = ''rt_'' @ hex_bytes (random_bytes E (Suc (Suc (draws w))) 32)"
  define jwt where "jwt = (\<lambda>key kid.
     sign_jwt E key \<lparr>hd_alg = ''RS256'', hd_kid = kid, hd_typ = Some ''at+jwt''\<rparr>
       (access_claims E p en (getTokenClaims E (ip_clientId p) s) (uuid E (draws w)) now))"
  define out where "out = (\<lambda>key kid t.
     \<lparr>tr_access_token = jwt key kid, tr_expires_in = ACCESS_TOKEN_TTL_SECONDS,
      tr_refresh_token = (if ip_issueRefreshToken p then Some x else None),
      tr_scope = scopesToString (ip_scopeNames p),
      tr_id_token = maybe_id_token E p key kid (jwt key kid) now t\<rparr>)"
  from assms have "seq (pick_kid E) (\<lambda>kid. seq (need (import_pkcs8 E pem) (JsError ''importPKCS8'')) (\<lambda>key.
      seq (reads (getTokenClaims E (ip_clientId p))) (\<lambda>cc. seq
        (store_tokens E p (uuid E (Suc (draws w))) (uuid E (draws w)) (uuid E (Suc (Suc (Suc (draws w))))) x now)
        (\<lambda>_ t. (Inr \<lparr>tr_access_token = sign_jwt E key \<lparr>hd_alg = ''RS256'', hd_kid = kid, hd_typ = Some ''at+jwt''\<rparr>
           (access_claims E p en cc (uuid E (draws w)) now), tr_expires_in = ACCESS_TOKEN_TTL_SECONDS,
      tr_refresh_token = (if ip_issueRefreshToken p then Some x else None),
      tr_scope = scopesToString (ip_scopeNames p),
      tr_id_token = maybe_id_token E p key kid (sign_jwt E key \<lparr>hd_alg = ''RS256'', hd_kid = kid, hd_typ = Some ''at+jwt''\<rparr>
           (access_claims E p en cc (uuid E (draws w)) now)) now t\<rparr>, t))))) s = (Inr resp, t)"
    by (simp add: issueTokenPairJwt_def Let_def s_def x_def now_def ret_def seq_reads_fun cong: if_cong)
  then obtain kid key where key: "import_pkcs8 E pem = Some key"
    and run: "seq (store_tokens E p (uuid E (Suc (draws w))) (uuid E (draws w))
          (uuid E (Suc (Suc (Suc (draws w))))) x now)
        (\<lambda>_ t. (Inr (out key kid t), t)) s = (Inr resp, t)"
    unfolding seq_Inr [of "pick_kid E"] seq_Inr [of "need _ _"] need_Inr out_def jwt_def
    by (auto dest!: pick_kid_state)
  from store_then_Inr [OF run]
  have "issued p now (access_row p (uuid E (Suc (draws w))) (uuid E (draws w)) now) resp s t"
    and "resp = out key kid t" by (simp_all add: out_def)
  with key show thesis
    by (intro that) (auto simp: s_def now_def out_def jwt_def)
qed

text \<open>
  The string handed out names the stored row: it is the row's \<open>token_id\<close> itself, or a JWT
  signed with the configured key whose \<open>jti\<close> is that id.
\<close>

definition token_names :: "cfg \<Rightarrow> string \<Rightarrow> string \<Rightarrow> bool" where
  "token_names E token tokenId \<longleftrightarrow>
     token = tokenId
     \<or> (\<exists>key kid cls. import_pkcs8 E (the (env_or E ''JWT_PRIVATE_KEY'')) = Some key
          \<and> token = sign_jwt E key \<lparr>hd_alg = ''RS256'', hd_kid = kid, hd_typ = Some ''at+jwt''\<rparr> cls
          \<and> cls ''jti'' = Some (JString tokenId))"

lemma access_claims_fields:
  "access_claims E p en cc jti now ''jti'' = Some (JString jti)"
  "access_claims E p en cc jti now ''iss'' = Some (JString (resolveIssuerBaseUrl E))"
  "access_claims E p en cc jti now ''sub'' = Some (JString (case ip_subject p of None \<Rightarrow> [] | Some s \<Rightarrow> s))"
  "access_claims E p en cc jti now ''aud'' =
     Some (JString (case ip_resource p of None \<Rightarrow> ip_clientIdentifier p | Some r \<Rightarrow> r))"
  "access_claims E p en cc jti now ''client_id'' = Some (JString (ip_clientIdentifier p))"
  "access_claims E p en cc jti now ''exp'' =
     Some (JInt (int ((now + ACCESS_TOKEN_TTL_SECONDS * 1000) div 1000)))"
  "access_claims E p en cc jti now ''scope'' =
     (if join_with '' '' (ip_scopeNames p) = [] then None else Some (JString (join_with '' '' (ip_scopeNames p))))"
  by (auto simp: access_claims_def Let_def split: option.splits)

lemma issueTokenPair_Inr:
  assumes "issueTokenPair E p w = (Inr resp, t)"
  obtains row s where "issued p (clock E (ticks w)) row resp s t"
    and "s = w\<lparr>ticks := ticks s, draws := draws s\<rparr>" and "ticks w < ticks s"
    and "token_names E (tr_access_token resp) (at_token_id row)"
proof (cases "truthy (env_or E ''JWT_PRIVATE_KEY'') \<and> ip_clientIdentifier p \<noteq> [] \<and> has_kid_source E")
  case True
  with assms have "issueTokenPairJwt E p (environment_name_of (ip_clientId p) w)
      (the (env_or E ''JWT_PRIVATE_KEY'')) w = (Inr resp, t)"
    by (simp add: issueTokenPair_def)
  then show thesis
  proof (rule issueTokenPairJwt_Inr)
    fix row s key kid
    assume a: "issued p (clock E (ticks w)) row resp s t" "s = w\<lparr>ticks := ticks s, draws := draws s\<rparr>"
      "import_pkcs8 E (the (env_or E ''JWT_PRIVATE_KEY'')) = Some key" "ticks w < ticks s"
      "tr_access_token resp = sign_jwt E key \<lparr>hd_alg = ''RS256'', hd_kid = kid, hd_typ = Some ''at+jwt''\<rparr>
       (access_claims E p (environment_name_of (ip_clientId p) w) (getTokenClaims E (ip_clientId p) s)
         (at_token_id row) (clock E (ticks w)))"
    then have "token_names E (tr_access_token resp) (at_token_id row)"
      unfolding token_names_def using access_claims_fields(1) by blast
    with a show thesis by (intro that)
  qed
next
  case False
  then have "issueTokenPair E p = issue_opaque E p" by (auto simp: issueTokenPair_def)
  with assms have "issue_opaque E p w = (Inr resp, t)" by simp
  then show thesis
  proof (rule issue_opaque_Inr)
    fix row s
    assume a: "issued p (clock E (ticks w)) row resp s t" "s = w\<lparr>ticks := ticks s, draws := draws s\<rparr>"
      "tr_access_token resp = at_token_id row" "ticks w < ticks s"
    then have "token_names E (tr_access_token resp) (at_token_id row)" by (simp add: token_names_def)
    with a show thesis by (intro that)
  qed
qed

text \<open>Issuing fails with a database or configuration error, never with a refusal of the request.\<close>

definition not_a_refusal :: "failure \<Rightarrow> bool" where
  "not_a_refusal e \<longleftrightarrow> (\<forall>c m s r st. e = OAuthServiceError c m s r st \<longrightarrow> c = Server_error)"

lemma not_a_refusal_simps [simp]:
  "not_a_refusal (D1Error m)" "not_a_refusal (JsError m)" "not_a_refusal (OAuthServiceError c m s r st) \<longleftrightarrow> c = Server_error"
  by (auto simp: not_a_refusal_def)

lemma insert_links_Inl:
  "each (insert_link E links put owners owner) cs w = (Inl e, t) \<Longrightarrow> not_a_refusal e"
  by (induction cs arbitrary: w) (auto simp: prog_inv insert_link_def Let_def)

lemma issueTokenPair_Inl: "issueTokenPair E p w = (Inl e, t) \<Longrightarrow> not_a_refusal e"
proof -
  have store: "not_a_refusal e" if "store_tokens E p a b c d n s = (Inl e, u)" for a b c d n s u e
    using that
    by (auto simp: store_tokens_def createAccessToken_def createRefreshToken_def prog_inv
        dest: insert_links_Inl split: if_splits)
  have kid: "not_a_refusal e" if "pick_kid E s = (Inl e, u)" for s u e
    using that by (auto simp: pick_kid_def Let_def need_text_def split: r2_answer.splits option.splits if_splits)
  have nd: "not_a_refusal e" if "need v (JsError x) s = (Inl e, u)" for v :: "string option" and x s u e
    using that by (cases v) auto
  assume "issueTokenPair E p w = (Inl e, t)"
  then show ?thesis
    by (auto simp: issueTokenPair_def issueTokenPairJwt_def issue_opaque_def Let_def seq_Inl
        dest: store kid nd split: if_splits)
qed

end
