(* ===== verification/Exchange.thy ===== *)
theory Exchange
  imports CodeStore ClientAuth Issue
begin

text \<open>
  The grants of the token endpoint, \<open>OauthTokenService.exchange\<close>: client credentials,
  authorization code and refresh token. Each grant is its checks, the single-use statement
  that spends the presented credential, and the issue of tokens, in that order; the parts
  are definitions of their own because they are the points at which concurrent requests
  interleave.
\<close>

record token_request =
  rq_grantType :: "string option"
  rq_clientId :: "string option"
  rq_clientSecret :: "string option"
  rq_scope :: "string option"
  rq_code :: "string option"
  rq_redirectUri :: "string option"
  rq_codeVerifier :: "string option"
  rq_refreshToken :: "string option"
  rq_resource :: "string option"

definition grant_params :: "client \<Rightarrow> scope_grant list \<Rightarrow> issue_params" where
  "grant_params cl selected =
     \<lparr>ip_clientId = c_id cl, ip_clientScopeIds = List.map g_clientScopeId selected,
      ip_scopeNames = List.map g_scopeName selected, ip_subject = None, ip_rotatedFrom = None,
      ip_clientIdentifier = c_clientId cl, ip_issueIdToken = False, ip_nonce = None,
      ip_authTime = None, ip_resource = None, ip_issueRefreshToken = True, ip_apiKeyRowId = None\<rparr>"

section \<open>Client credentials\<close>

definition exchangeClientCredentials :: "cfg \<Rightarrow> token_request \<Rightarrow> token_response m" where
  "exchangeClientCredentials E rq =
     seq (authenticateClient E (rq_clientId rq) (rq_clientSecret rq)) (\<lambda>cl.
     seq (throw_when (c_tokenEndpointAuthMethod cl = ''none'')
           (oauth Unauthorized_client ''Public clients cannot use the client_credentials grant.'' 400)) (\<lambda>_.
     seq (outcome (normalizeResourceParam E (rq_resource rq))) (\<lambda>resource.
     seq (reads (client_scope_grants (c_id cl))) (\<lambda>allGrants.
     seq (selectScopeGrants allGrants (parseScopeParam (rq_scope rq))
           ''Requested scopes are not allowed for this client.'') (\<lambda>selected.
     issueTokenPair E ((grant_params cl selected)\<lparr>ip_resource := resource\<rparr>))))))"

section \<open>Authorization code\<close>

text \<open>Everything before the code is spent, on the presented code row.\<close>

definition check_code :: "cfg \<Rightarrow> token_request \<Rightarrow> client \<Rightarrow> string \<Rightarrow> string \<Rightarrow> code_row \<Rightarrow> string \<Rightarrow> unit m" where
  "check_code E rq cl redirectUri codeVerifier code now =
     seq (throw_when (truthy (ac_used_at code))
           (oauth Invalid_grant ''Authorization code has already been used.'' 400)) (\<lambda>_.
     seq (throw_when (ac_expires_at code \<le> now)
           (oauth Invalid_grant ''Authorization code has expired.'' 400)) (\<lambda>_.
     seq (throw_when (ac_client_id code \<noteq> c_id cl)
           (oauth Invalid_grant ''Authorization code does not belong to this client.'' 400)) (\<lambda>_.
     seq (throw_when (ac_redirect_uri code \<noteq> redirectUri)
           (oauth Invalid_grant ''redirect_uri does not match code.'' 400)) (\<lambda>_.
     seq (throw_when (ac_code_challenge_method code \<noteq> ''S256'')
           (oauth Invalid_grant ''Unsupported PKCE challenge method.'' 400)) (\<lambda>_.
     seq (throw_when (toS256Challenge E codeVerifier \<noteq> ac_code_challenge code)
           (oauth Invalid_grant ''code_verifier does not match code_challenge.'' 400)) (\<lambda>_.
     if rq_resource rq = None then ret ()
     else seq (outcome (normalizeResourceParam E (rq_resource rq))) (\<lambda>requestedResource.
       throw_when (requestedResource \<noteq> ac_resource code)
         (oauth Invalid_target
           ''resource does not match the value bound to the authorization code.'' 400))))))))"

text \<open>The authenticated client, the code row, the selected grants and the instant used.\<close>

record code_request =
  cr_client :: client
  cr_code :: code_row
  cr_selected :: "scope_grant list"
  cr_now :: string

definition check_code_request :: "cfg \<Rightarrow> token_request \<Rightarrow> code_request m" where
  "check_code_request E rq =
     seq (authenticateClient E (rq_clientId rq) (rq_clientSecret rq)) (\<lambda>cl.
     seq (need_text (rq_code rq) (oauth Invalid_request ''Missing code.'' 400)) (\<lambda>code.
     seq (need_text (rq_redirectUri rq) (oauth Invalid_request ''Missing redirect_uri.'' 400)) (\<lambda>redirectUri.
     seq (need_text (rq_codeVerifier rq) (oauth Invalid_request ''Missing code_verifier.'' 400)) (\<lambda>verifier.
     seq (reads (getByCodeId code)) (\<lambda>found.
     seq (need found (oauth Invalid_grant ''Authorization code is invalid.'' 400)) (\<lambda>ac.
     seq (now_iso E) (\<lambda>now.
     seq (check_code E rq cl redirectUri verifier (code_row ac) now) (\<lambda>_.
     seq (reads (client_scope_grants (c_id cl))) (\<lambda>allClientGrants.
     seq (selectScopeGrants (still_granted allClientGrants (code_clientScopeIds ac))
           (parseScopeParam (rq_scope rq)) ''Requested scopes exceed the authorization code grant.'') (\<lambda>selected.
     ret \<lparr>cr_client = cl, cr_code = code_row ac, cr_selected = selected, cr_now = now\<rparr>))))))))))"

definition consume_code :: "code_request \<Rightarrow> unit m" where
  "consume_code q =
     seq (markUsed (ac_id (cr_code q)) (cr_now q)) (\<lambda>consumed.
     throw_when (\<not> consumed) (oauth Invalid_grant ''Authorization code has already been used.'' 400))"

definition code_issue_params :: "code_request \<Rightarrow> issue_params" where
  "code_issue_params q =
     (grant_params (cr_client q) (cr_selected q))
       \<lparr>ip_subject := Some (ac_subject (cr_code q)), ip_issueIdToken := True,
        ip_nonce := ac_nonce (cr_code q), ip_authTime := ac_auth_time (cr_code q),
        ip_resource := ac_resource (cr_code q)\<rparr>"

definition exchangeAuthorizationCode :: "cfg \<Rightarrow> token_request \<Rightarrow> token_response m" where
  "exchangeAuthorizationCode E rq =
     seq (check_code_request E rq) (\<lambda>q.
     seq (consume_code q) (\<lambda>_.
     issueTokenPair E (code_issue_params q)))"

section \<open>Refresh token\<close>

definition revokeFamilyAndAccessTokens :: "string \<Rightarrow> string \<Rightarrow> unit m" where
  "revokeFamilyAndAccessTokens rootId now =
     seq (revokeFamily rootId now) (\<lambda>_.
     seq (reads (listFamilyAccessTokenIds rootId)) (\<lambda>accessTokenIds.
     if accessTokenIds \<noteq> [] then seq (expireAccessTokensByIds accessTokenIds now) (\<lambda>_. ret ())
     else ret ()))"

definition revoke_and_throw :: "string \<Rightarrow> string \<Rightarrow> string \<Rightarrow> unit m" where
  "revoke_and_throw rootId now msg =
     seq (revokeFamilyAndAccessTokens rootId now) (\<lambda>_. throw (oauth Invalid_grant msg 400))"

definition check_subject :: "client \<Rightarrow> refresh_row \<Rightarrow> string \<Rightarrow> unit m" where
  "check_subject cl token now =
     (if truthy (rt_subject token) then
        seq (reads (user_environments (the (rt_subject token)))) (\<lambda>userEnvironmentIds.
        if c_environmentId cl \<notin> set userEnvironmentIds
        then revoke_and_throw (rt_id token) now ''User no longer has access to this environment.''
        else seq (reads (user_by_id (the (rt_subject token)))) (\<lambda>subjectUser.
          if (case subjectUser of None \<Rightarrow> False | Some u \<Rightarrow> u_isTestUser u) \<and> \<not> c_isTest cl
          then revoke_and_throw (rt_id token) now ''User no longer has access to this environment.''
          else ret ()))
      else ret ())"

definition check_refresh :: "client \<Rightarrow> refresh_row \<Rightarrow> string \<Rightarrow> unit m" where
  "check_refresh cl token now =
     seq (throw_when (rt_client_id token \<noteq> c_id cl)
           (oauth Invalid_grant ''Refresh token does not belong to this client.'' 400)) (\<lambda>_.
     seq (if truthy (rt_revoked_at token)
          then revoke_and_throw (rt_id token) now ''Refresh token has been revoked.''
          else ret ()) (\<lambda>_.
     seq (throw_when (rt_expires_at token \<le> now)
           (oauth Invalid_grant ''Refresh token has expired.'' 400)) (\<lambda>_.
     check_subject cl token now)))"

record refresh_request =
  fr_client :: client
  fr_token :: refresh_row
  fr_selected :: "scope_grant list"
  fr_now :: string

definition check_refresh_request :: "cfg \<Rightarrow> token_request \<Rightarrow> refresh_request m" where
  "check_refresh_request E rq =
     seq (authenticateClient E (rq_clientId rq) (rq_clientSecret rq)) (\<lambda>cl.
     seq (need_text (rq_refreshToken rq) (oauth Invalid_request ''Missing refresh_token.'' 400)) (\<lambda>value.
     seq (reads (getByTokenId value)) (\<lambda>found.
     seq (need found (oauth Invalid_grant ''Refresh token is invalid.'' 400)) (\<lambda>token.
     seq (now_iso E) (\<lambda>now.
     seq (check_refresh cl (refresh_row token) now) (\<lambda>_.
     seq (reads (client_scope_grants (c_id cl))) (\<lambda>allClientGrants.
     seq (selectScopeGrants (still_granted allClientGrants (refresh_clientScopeIds token))
           (parseScopeParam (rq_scope rq)) ''Requested scopes exceed the refresh token grant.'') (\<lambda>selected.
     ret \<lparr>fr_client = cl, fr_token = refresh_row token, fr_selected = selected, fr_now = now\<rparr>))))))))"

definition consume_refresh :: "refresh_request \<Rightarrow> unit m" where
  "consume_refresh q =
     seq (revoke_refresh (rt_id (fr_token q)) (fr_now q)) (\<lambda>revoked.
     if \<not> revoked
     then revoke_and_throw (rt_id (fr_token q)) (fr_now q) ''Refresh token has been revoked.''
     else ret ())"

definition refresh_issue_params :: "refresh_request \<Rightarrow> issue_params" where
  "refresh_issue_params q =
     (grant_params (fr_client q) (fr_selected q))
       \<lparr>ip_subject := rt_subject (fr_token q), ip_rotatedFrom := Some (rt_id (fr_token q)),
        ip_resource := rt_resource (fr_token q)\<rparr>"

definition exchangeRefreshToken :: "cfg \<Rightarrow> token_request \<Rightarrow> token_response m" where
  "exchangeRefreshToken E rq =
     seq (check_refresh_request E rq) (\<lambda>q.
     seq (consume_refresh q) (\<lambda>_.
     issueTokenPair E (refresh_issue_params q)))"

definition exchange :: "cfg \<Rightarrow> token_request \<Rightarrow> token_response m" where
  "exchange E rq =
     (if rq_grantType rq = Some ''client_credentials'' then exchangeClientCredentials E rq
      else if rq_grantType rq = Some ''authorization_code'' then exchangeAuthorizationCode E rq
      else if rq_grantType rq = Some ''refresh_token'' then exchangeRefreshToken E rq
      else throw (oauth Unsupported_grant_type ''Unsupported grant_type.'' 400))"

section \<open>Facts: authentication and the code\<close>

lemma authenticateClient_ticks:
  assumes "authenticateClient E cid secret w = (Inr cl, t)"
  shows "ticks t = Suc (ticks w)"
proof -
  from assms obtain u x where "check_secret E cl secret w = (Inr x, u)" "t = u\<lparr>ticks := Suc (ticks u)\<rparr>"
    by (auto simp: authenticateClient_def prog_inv split: if_splits)
  with check_secret_ticks show ?thesis by fastforce
qed

lemma same_but_clients_simps:
  assumes "same_but_clients s t"
  shows "authorization_codes t = authorization_codes s" "authorization_code_scopes t = authorization_code_scopes s"
    "tokens t = tokens s" "token_scopes t = token_scopes s"
    "refresh_tokens t = refresh_tokens s" "refresh_token_scopes t = refresh_token_scopes s"
    "client_scopes t = client_scopes s" "scopes t = scopes s" "users t = users s"
    "users_environments t = users_environments s" "draws t = draws s"
proof -
  have t: "t = s\<lparr>clients := clients t, ticks := ticks t\<rparr>" using assms by (simp add: same_but_clients_def)
  show "authorization_codes t = authorization_codes s" "authorization_code_scopes t = authorization_code_scopes s"
    "tokens t = tokens s" "token_scopes t = token_scopes s"
    "refresh_tokens t = refresh_tokens s" "refresh_token_scopes t = refresh_token_scopes s"
    "client_scopes t = client_scopes s" "scopes t = scopes s" "users t = users s"
    "users_environments t = users_environments s" "draws t = draws s"
    by (subst t, simp)+
qed

lemma same_but_clients_tick: "same_but_clients s t \<Longrightarrow> same_but_clients s (t\<lparr>ticks := n\<rparr>)"
  by (cases s; cases t) (simp add: same_but_clients_def)

text \<open>The conditions a code has to meet, as one predicate.\<close>

definition code_fits :: "cfg \<Rightarrow> token_request \<Rightarrow> client \<Rightarrow> code_row \<Rightarrow> string \<Rightarrow> bool" where
  "code_fits E rq cl code now \<longleftrightarrow>
     \<not> truthy (ac_used_at code) \<and> now < ac_expires_at code \<and> ac_client_id code = c_id cl
     \<and> rq_redirectUri rq = Some (ac_redirect_uri code) \<and> ac_code_challenge_method code = ''S256''
     \<and> (\<exists>v. rq_codeVerifier rq = Some v \<and> v \<noteq> [] \<and> toS256Challenge E v = ac_code_challenge code)
     \<and> (rq_resource rq = None \<or> normalizeResourceParam E (rq_resource rq) = Inr (ac_resource code))"

lemma check_code_Inr:
  assumes "check_code E rq cl ru v code now w = (Inr u, t)"
  shows "t = w" and "rq_redirectUri rq = Some ru \<Longrightarrow> rq_codeVerifier rq = Some v \<Longrightarrow> v \<noteq> [] \<Longrightarrow>
    code_fits E rq cl code now"
  using assms
  by (auto simp: check_code_def code_fits_def prog_inv split: if_splits)

interpretation unchanged: evolution "\<lambda>s t :: world. t = s"
  by unfold_locales auto

lemma check_code_unchanged: "evolves (\<lambda>s t. t = s) (check_code E rq cl ru v code now)"
  unfolding check_code_def
  by (intro unchanged.seq unchanged.branch unchanged.keeps)

lemma selectScopeGrants_unchanged: "evolves (\<lambda>s t. t = s) (selectScopeGrants gs rs msg)"
  unfolding selectScopeGrants_def by (intro unchanged.branch unchanged.keeps)

lemma evolves_stronger: "evolves R m \<Longrightarrow> (\<And>s t. R s t \<Longrightarrow> S s t) \<Longrightarrow> evolves S m"
  by (simp add: evolves_def)

lemma check_code_request_frame: "evolves same_but_clients (check_code_request E rq)"
proof -
  have tick: "evolves same_but_clients (now_iso E)"
    by (intro evolves_clock same_but_clients_tick auth_frame.refl)
  have "evolves same_but_clients (check_code E rq cl ru v code now)" for cl ru v code now
    by (rule evolves_stronger [OF check_code_unchanged]) (simp add: auth_frame.refl)
  moreover have "evolves same_but_clients (selectScopeGrants gs rs msg)" for gs rs msg
    by (rule evolves_stronger [OF selectScopeGrants_unchanged]) (simp add: auth_frame.refl)
  ultimately show ?thesis unfolding check_code_request_def
    by (intro auth_frame.seq auth_frame.keeps authenticateClient_frame tick)
qed

lemma selectScopeGrants_run:
  "selectScopeGrants gs rs msg w = (r, t) \<Longrightarrow> t = w"
  by (rule evolvesD [OF selectScopeGrants_unchanged])

lemma selectScopeGrants_ok:
  assumes "set requested \<subseteq> g_scopeName ` set gs"
  shows "\<exists>xs. selectScopeGrants gs requested msg w = (Inr xs, w)"
proof -
  obtain r t where run: "selectScopeGrants gs requested msg w = (r, t)" by (metis surj_pair)
  have "t = w" by (rule selectScopeGrants_run [OF run])
  with run assms selectScopeGrants_Inl [of gs requested msg w] show ?thesis by (cases r) auto
qed

lemma selectScopeGrants_subset:
  assumes "selectScopeGrants gs requested msg w = (Inr xs, t)"
  shows "set requested \<subseteq> g_scopeName ` set gs"
proof (rule ccontr)
  assume "\<not> set requested \<subseteq> g_scopeName ` set gs"
  then have "selectScopeGrants gs requested msg w = (Inl (oauth Invalid_scope msg 400), w)"
    by (simp add: selectScopeGrants_Inl)
  with assms show False by simp
qed

lemma check_code_request_Inr:
  assumes "check_code_request E rq w = (Inr q, t)"
  obtains s ac where "authenticateClient E (rq_clientId rq) (rq_clientSecret rq) w = (Inr (cr_client q), s)"
    and "t = s\<lparr>ticks := Suc (ticks s)\<rparr>" and "rq_code rq \<noteq> None" and "getByCodeId (the (rq_code rq)) s = Some ac"
    and "cr_code q = code_row ac" and "cr_now q = toISOString (clock E (ticks s))"
    and "code_fits E rq (cr_client q) (cr_code q) (cr_now q)"
    and "selectScopeGrants
       (still_granted (client_scope_grants (c_id (cr_client q)) t) (code_clientScopeIds ac))
       (parseScopeParam (rq_scope rq)) ''Requested scopes exceed the authorization code grant.'' t
       = (Inr (cr_selected q), t)"
proof -
  from assms obtain cl s where auth: "authenticateClient E (rq_clientId rq) (rq_clientSecret rq) w = (Inr cl, s)"
    and "seq (need_text (rq_code rq) (oauth Invalid_request ''Missing code.'' 400)) (\<lambda>code.
     seq (need_text (rq_redirectUri rq) (oauth Invalid_request ''Missing redirect_uri.'' 400)) (\<lambda>redirectUri.
     seq (need_text (rq_codeVerifier rq) (oauth Invalid_request ''Missing code_verifier.'' 400)) (\<lambda>verifier.
     seq (reads (getByCodeId code)) (\<lambda>found.
     seq (need found (oauth Invalid_grant ''Authorization code is invalid.'' 400)) (\<lambda>ac.
     seq (now_iso E) (\<lambda>now.
     seq (check_code E rq cl redirectUri verifier (code_row ac) now) (\<lambda>_.
     seq (reads (client_scope_grants (c_id cl))) (\<lambda>allClientGrants.
     seq (selectScopeGrants (still_granted allClientGrants (code_clientScopeIds ac))
           (parseScopeParam (rq_scope rq)) ''Requested scopes exceed the authorization code grant.'') (\<lambda>selected.
     ret \<lparr>cr_client = cl, cr_code = code_row ac, cr_selected = selected, cr_now = now\<rparr>))))))))) s = (Inr q, t)"
    unfolding check_code_request_def seq_Inr [of "authenticateClient _ _ _"] by blast
  note rest = this(2)
  let ?s = "s\<lparr>ticks := Suc (ticks s)\<rparr>" and ?now = "toISOString (clock E (ticks s))"
  from rest obtain code ru v where args: "rq_code rq = Some code" "rq_redirectUri rq = Some ru"
      "rq_codeVerifier rq = Some v" "v \<noteq> []"
    by (auto simp: seq_Inr [of "need_text _ _"] need_text_Inr)
  with rest obtain ac where ac: "getByCodeId code s = Some ac"
    by (cases "getByCodeId code s") (auto simp: run_seq split: if_splits)
  from rest args ac obtain u where check: "check_code E rq cl ru v (code_row ac) ?now ?s = (Inr u, ?s)"
    and select: "seq (selectScopeGrants (still_granted (client_scope_grants (c_id cl) ?s) (code_clientScopeIds ac))
           (parseScopeParam (rq_scope rq)) ''Requested scopes exceed the authorization code grant.'') (\<lambda>selected.
     ret \<lparr>cr_client = cl, cr_code = code_row ac, cr_selected = selected, cr_now = ?now\<rparr>) ?s = (Inr q, t)"
    by (auto simp: seq_Inr [of "need_text _ _"] seq_Inr [of "need _ _"] seq_Inr [of "check_code _ _ _ _ _ _ _"]
        need_text_Inr need_Inr split: if_splits dest: check_code_Inr(1))
  from select obtain xs where xs: "selectScopeGrants
      (still_granted (client_scope_grants (c_id cl) ?s) (code_clientScopeIds ac))
      (parseScopeParam (rq_scope rq)) ''Requested scopes exceed the authorization code grant.'' ?s = (Inr xs, t)"
    and q: "q = \<lparr>cr_client = cl, cr_code = code_row ac, cr_selected = xs, cr_now = ?now\<rparr>"
    by (auto simp: seq_Inr)
  from selectScopeGrants_run [OF xs] have t: "t = ?s" .
  show thesis
    by (rule that [of s ac]) (use args ac auth check_code_Inr(2) [OF check args(2-4)] xs t q in simp_all)
qed

text \<open>What consumption does: it changes one row's \<open>used_at\<close>, or nothing.\<close>

lemma consume_code_Inr:
  assumes "consume_code q w = (Inr u, t)"
  shows "\<not> code_spent (ac_id (cr_code q)) w" and "code_spent (ac_id (cr_code q)) t"
    and "t = w\<lparr>authorization_codes :=
      List.map (use_code (ac_id (cr_code q)) (cr_now q)) (authorization_codes w)\<rparr>"
  using assms mark_used_wins [of "ac_id (cr_code q)" "cr_now q" w]
    code_spent_mark [of "ac_id (cr_code q)" "cr_now q" w]
  by (auto simp: consume_code_def prog_inv mark_used_def split: if_splits)

lemma consume_code_Inl:
  assumes "consume_code q w = (Inl e, t)"
  shows "t = w" and "e = oauth Invalid_grant ''Authorization code has already been used.'' 400"
    and "code_spent (ac_id (cr_code q)) w"
proof -
  from assms have "mark_used (ac_id (cr_code q)) (cr_now q) w = (False, t)"
    and e: "e = oauth Invalid_grant ''Authorization code has already been used.'' 400"
    by (cases "mark_used (ac_id (cr_code q)) (cr_now q) w"; auto simp: consume_code_def prog_inv split: if_splits)+
  from code_shot.lose [OF this(1)] e show "t = w" "code_spent (ac_id (cr_code q)) w"
    "e = oauth Invalid_grant ''Authorization code has already been used.'' 400" by simp_all
qed

end
