(* ===== verification/CodeGrant.thy ===== *)
theory CodeGrant
  imports Exchange
begin

text \<open>
  What the authorization-code grant guarantees: who can redeem a code and for what, that a
  redeemed code is spent, and that a refused request leaves it (and every token) alone.
\<close>

lemma still_granted_linked:
  assumes "getByCodeId c s = Some ac" and "g \<in> set (still_granted gs (code_clientScopeIds ac))"
  shows "\<exists>l \<in> set (authorization_code_scopes s). lk_owner l = ac_id (code_row ac)
      \<and> lk_client_scope_id l = g_clientScopeId g"
proof -
  from assms(2) have "g_clientScopeId g \<in> set (code_clientScopeIds ac)" by (rule set_still_granted(2))
  with assms(1) show ?thesis by (auto simp: getByCodeId_def) metis
qed

lemma only_tokens_simps:
  assumes "only_tokens s t"
  shows "authorization_codes t = authorization_codes s" "authorization_code_scopes t = authorization_code_scopes s"
    "clients t = clients s" "client_scopes t = client_scopes s" "scopes t = scopes s" "users t = users s"
    "users_environments t = users_environments s" "user_consents t = user_consents s" "api_keys t = api_keys s"
    "environments t = environments s"
proof -
  have t: "t = s\<lparr>tokens := tokens t, token_scopes := token_scopes t, refresh_tokens := refresh_tokens t,
           refresh_token_scopes := refresh_token_scopes t, ticks := ticks t, draws := draws t\<rparr>"
    using assms by (simp add: only_tokens_def)
  show "authorization_codes t = authorization_codes s" "authorization_code_scopes t = authorization_code_scopes s"
    "clients t = clients s" "client_scopes t = client_scopes s" "scopes t = scopes s" "users t = users s"
    "users_environments t = users_environments s" "user_consents t = user_consents s" "api_keys t = api_keys s"
    "environments t = environments s"
    by (subst t, simp)+
qed

lemma lookups_same_but_clients:
  assumes "same_but_clients s t"
  shows "getByCodeId c t = getByCodeId c s" "client_scope_grants i t = client_scope_grants i s"
    "getByTokenId c t = getByTokenId c s"
proof -
  note same = same_but_clients_simps [OF assms]
  have "grants_of_row t = grants_of_row s" by (simp add: fun_eq_iff grants_of_row_def same)
  then show "client_scope_grants i t = client_scope_grants i s" by (simp add: client_scope_grants_def same)
  show "getByCodeId c t = getByCodeId c s" "getByTokenId c t = getByTokenId c s"
    by (simp_all add: getByCodeId_def getByTokenId_def same)
qed

text \<open>A successful exchange, step by step.\<close>

lemma exchange_code_steps:
  assumes "exchangeAuthorizationCode E rq w = (Inr resp, t)"
  obtains q ac s1 s2 row s3 where
    "authenticateClient E (rq_clientId rq) (rq_clientSecret rq) w = (Inr (cr_client q), s1)"
    and "same_but_clients w s1" and "ticks s1 = Suc (ticks w)"
    and "rq_code rq \<noteq> None" and "getByCodeId (the (rq_code rq)) w = Some ac" and "cr_code q = code_row ac"
    and "cr_now q = toISOString (clock E (Suc (ticks w)))"
    and "code_fits E rq (cr_client q) (cr_code q) (cr_now q)"
    and "set (cr_selected q) \<subseteq> set (still_granted (client_scope_grants (c_id (cr_client q)) w) (code_clientScopeIds ac))"
    and "\<not> code_spent (ac_id (cr_code q)) w"
    and "same_but_clients w s2"
    and "s3 = s2\<lparr>authorization_codes :=
          List.map (use_code (ac_id (cr_code q)) (cr_now q)) (authorization_codes s2),
          ticks := ticks s3, draws := draws s3\<rparr>"
    and "issued (code_issue_params q) (clock E (Suc (Suc (ticks w)))) row resp s3 t"
    and "token_names E (tr_access_token resp) (at_token_id row)"
proof -
  from assms obtain q s2 s where check: "check_code_request E rq w = (Inr q, s2)"
    and consume: "consume_code q s2 = (Inr (), s)"
    and issue: "issueTokenPair E (code_issue_params q) s = (Inr resp, t)"
    by (auto simp: exchangeAuthorizationCode_def seq_Inr)
  from check obtain s1 ac where
    auth: "authenticateClient E (rq_clientId rq) (rq_clientSecret rq) w = (Inr (cr_client q), s1)"
    and s2: "s2 = s1\<lparr>ticks := Suc (ticks s1)\<rparr>"
    and code: "rq_code rq \<noteq> None" "getByCodeId (the (rq_code rq)) s1 = Some ac" "cr_code q = code_row ac"
    and now: "cr_now q = toISOString (clock E (ticks s1))"
    and fits: "code_fits E rq (cr_client q) (cr_code q) (cr_now q)"
    and sel: "selectScopeGrants
       (still_granted (client_scope_grants (c_id (cr_client q)) s2) (code_clientScopeIds ac))
       (parseScopeParam (rq_scope rq)) ''Requested scopes exceed the authorization code grant.'' s2
       = (Inr (cr_selected q), s2)"
    by (rule check_code_request_Inr)
  have f1: "same_but_clients w s1" by (rule evolvesD [OF authenticateClient_frame auth])
  have f2: "same_but_clients w s2" unfolding s2 by (rule same_but_clients_tick [OF f1])
  note same1 = same_but_clients_simps [OF f1] and same2 = same_but_clients_simps [OF f2]
  have tk: "ticks s1 = Suc (ticks w)" by (rule authenticateClient_ticks [OF auth])
  have lookup: "getByCodeId (the (rq_code rq)) w = Some ac"
    using code(2) by (simp add: lookups_same_but_clients [OF f1])
  note grants = lookups_same_but_clients(2) [OF f2]
  from consume_code_Inr [OF consume] have unspent: "\<not> code_spent (ac_id (cr_code q)) w"
    and s: "s = s2\<lparr>authorization_codes :=
      List.map (use_code (ac_id (cr_code q)) (cr_now q)) (authorization_codes s2)\<rparr>"
    by (simp_all add: code_spent_def same2)
  from issue obtain row s3 where iss: "issued (code_issue_params q) (clock E (ticks s)) row resp s3 t"
    and s3: "s3 = s\<lparr>ticks := ticks s3, draws := draws s3\<rparr>"
    and tok: "token_names E (tr_access_token resp) (at_token_id row)"
    by (rule issueTokenPair_Inr)
  have "ticks s = Suc (Suc (ticks w))" by (simp add: s s2 tk)
  with iss have iss': "issued (code_issue_params q) (clock E (Suc (Suc (ticks w)))) row resp s3 t" by simp
  have "s3 = s2\<lparr>authorization_codes :=
          List.map (use_code (ac_id (cr_code q)) (cr_now q)) (authorization_codes s2),
          ticks := ticks s3, draws := draws s3\<rparr>"
    by (subst s3) (simp add: s)
  from that [OF auth f1 tk code(1) lookup code(3) _ fits _ unspent f2 this iss' tok]
  show thesis using now tk selectScopeGrants_Inr(2) [OF sel] by (simp add: grants)
qed

lemma code_issue_params_simps [simp]:
  "ip_clientId (code_issue_params q) = c_id (cr_client q)"
  "ip_clientScopeIds (code_issue_params q) = List.map g_clientScopeId (cr_selected q)"
  "ip_scopeNames (code_issue_params q) = List.map g_scopeName (cr_selected q)"
  "ip_subject (code_issue_params q) = Some (ac_subject (cr_code q))"
  "ip_resource (code_issue_params q) = ac_resource (cr_code q)"
  "ip_rotatedFrom (code_issue_params q) = None"
  "ip_apiKeyRowId (code_issue_params q) = None"
  "ip_issueRefreshToken (code_issue_params q)"
  by (simp_all add: code_issue_params_def grant_params_def)

lemma new_refresh_row_simps [simp]:
  "rt_id (new_refresh_row p i v a n) = i" "rt_refresh_token_id (new_refresh_row p i v a n) = v"
  "rt_client_id (new_refresh_row p i v a n) = ip_clientId p" "rt_subject (new_refresh_row p i v a n) = ip_subject p"
  "rt_access_token_id (new_refresh_row p i v a n) = Some a" "rt_revoked_at (new_refresh_row p i v a n) = None"
  "rt_rotated_from_id (new_refresh_row p i v a n) = ip_rotatedFrom p"
  "rt_resource (new_refresh_row p i v a n) = ip_resource p"
  "rt_expires_at (new_refresh_row p i v a n) = toISOString (n + REFRESH_TOKEN_TTL_SECONDS * 1000)"
  by (simp_all add: new_refresh_row_def)

section \<open>Properties\<close>

text \<open>
  C1. A successful authorization-code exchange redeemed a stored code of the authenticated
  client that was unspent and unexpired, with the redirect URI it was issued for and a
  verifier whose S256 challenge is the stored one (and the same resource, when one is
  named). The code is spent afterwards. One access token row is added, for that client and
  that code's resource, whose scopes are among those bound to the code; the response names
  it; and one refresh token row, live, for the code's subject.
\<close>

theorem code_exchange_sound:
  assumes "exchangeAuthorizationCode E rq w = (Inr resp, t)"
  shows "\<exists>cl code verifier row rrow.
     client_by_identifier (the (rq_clientId rq)) w = Some cl
     \<and> (c_tokenEndpointAuthMethod cl \<noteq> ''none'' \<longrightarrow> (\<exists>s. rq_clientSecret rq = Some s
          \<and> sv_ok (verifyClientSecretAgainstStored E s (c_clientSecret cl) (resolveHmacKey E))))
     \<and> code \<in> set (authorization_codes w) \<and> rq_code rq = Some (ac_code_id code)
     \<and> ac_client_id code = c_id cl \<and> rq_redirectUri rq = Some (ac_redirect_uri code)
     \<and> ac_code_challenge_method code = ''S256''
     \<and> rq_codeVerifier rq = Some verifier \<and> toS256Challenge E verifier = ac_code_challenge code
     \<and> (rq_resource rq \<noteq> None \<longrightarrow> normalizeResourceParam E (rq_resource rq) = Inr (ac_resource code))
     \<and> toISOString (clock E (Suc (ticks w))) < ac_expires_at code
     \<and> \<not> code_spent (ac_id code) w \<and> code_spent (ac_id code) t
     \<and> tokens t = tokens w @ [row] \<and> token_names E (tr_access_token resp) (at_token_id row)
     \<and> at_client_id row = c_id cl \<and> at_resource row = ac_resource code \<and> at_api_key_id row = None
     \<and> (\<forall>l \<in> set (drop (length (token_scopes w)) (token_scopes t)). lk_owner l = at_id row
          \<and> (\<exists>k \<in> set (authorization_code_scopes w). lk_owner k = ac_id code
               \<and> lk_client_scope_id k = lk_client_scope_id l))
     \<and> refresh_tokens t = refresh_tokens w @ [rrow] \<and> tr_refresh_token resp = Some (rt_refresh_token_id rrow)
     \<and> rt_revoked_at rrow = None \<and> rt_subject rrow = Some (ac_subject code)
     \<and> rt_access_token_id rrow = Some (at_id row)"
proof -
  from assms obtain q ac s1 s2 row s3 where
    auth: "authenticateClient E (rq_clientId rq) (rq_clientSecret rq) w = (Inr (cr_client q), s1)"
    and code: "rq_code rq \<noteq> None" "getByCodeId (the (rq_code rq)) w = Some ac" "cr_code q = code_row ac"
    and now: "cr_now q = toISOString (clock E (Suc (ticks w)))"
    and fits: "code_fits E rq (cr_client q) (cr_code q) (cr_now q)"
    and sel: "set (cr_selected q) \<subseteq> set (still_granted (client_scope_grants (c_id (cr_client q)) w) (code_clientScopeIds ac))"
    and unspent: "\<not> code_spent (ac_id (cr_code q)) w" and f2: "same_but_clients w s2"
    and s3: "s3 = s2\<lparr>authorization_codes :=
          List.map (use_code (ac_id (cr_code q)) (cr_now q)) (authorization_codes s2),
          ticks := ticks s3, draws := draws s3\<rparr>"
    and iss: "issued (code_issue_params q) (clock E (Suc (Suc (ticks w)))) row resp s3 t"
    and tok: "token_names E (tr_access_token resp) (at_token_id row)"
    by (rule exchange_code_steps)
  note same = same_but_clients_simps [OF f2]
  have s3': "tokens s3 = tokens w" "token_scopes s3 = token_scopes w" "refresh_tokens s3 = refresh_tokens w"
    "authorization_codes s3 = List.map (use_code (ac_id (cr_code q)) (cr_now q)) (authorization_codes w)"
    by (subst s3, simp add: same)+
  have frame: "only_tokens s3 t" using iss by (simp add: issued_def)
  have spent: "code_spent (ac_id (cr_code q)) t"
    using code_spent_mark [of "ac_id (cr_code q)" "cr_now q" w]
    by (simp add: code_spent_def only_tokens_simps [OF frame] s3' mark_used_def)
  from getByCodeId_Some [OF code(2)] code have row: "cr_code q \<in> set (authorization_codes w)"
    "rq_code rq = Some (ac_code_id (cr_code q))" by auto
  from iss obtain ls where ls: "token_scopes t = token_scopes w @ ls"
      "List.map lk_client_scope_id ls = List.map g_clientScopeId (cr_selected q)" "\<forall>l \<in> set ls. lk_owner l = at_id row"
    by (auto simp: issued_def links_added_def s3')
  have scopes: "\<exists>k \<in> set (authorization_code_scopes w). lk_owner k = ac_id (cr_code q)
      \<and> lk_client_scope_id k = lk_client_scope_id l" if "l \<in> set ls" for l
  proof -
    from that have "lk_client_scope_id l \<in> set (List.map lk_client_scope_id ls)" by simp
    then obtain g where "g \<in> set (cr_selected q)" "g_clientScopeId g = lk_client_scope_id l"
      unfolding ls(2) by auto
    with sel still_granted_linked [OF code(2)] code(3) show ?thesis by fastforce
  qed
  from authenticateClient_Inr [OF auth] obtain i where cl: "rq_clientId rq = Some i"
    "client_by_identifier i w = Some (cr_client q)"
    "c_tokenEndpointAuthMethod (cr_client q) \<noteq> ''none'' \<Longrightarrow> \<exists>s. rq_clientSecret rq = Some s \<and> s \<noteq> [] \<and>
        sv_ok (verifyClientSecretAgainstStored E s (c_clientSecret (cr_client q)) (resolveHmacKey E))"
    by blast
  from fits obtain v where v: "rq_codeVerifier rq = Some v"
      "toS256Challenge E v = ac_code_challenge (cr_code q)" by (auto simp: code_fits_def)
  from iss obtain j x where jx: "refresh_tokens t = refresh_tokens w
        @ [new_refresh_row (code_issue_params q) j x (at_id row) (clock E (Suc (Suc (ticks w))))]"
      "tr_refresh_token resp = Some x"
    by (auto simp: issued_def s3')
  then obtain rrow where refresh: "refresh_tokens t = refresh_tokens w @ [rrow]"
      "tr_refresh_token resp = Some (rt_refresh_token_id rrow)" "rt_revoked_at rrow = None"
      "rt_subject rrow = Some (ac_subject (cr_code q))" "rt_access_token_id rrow = Some (at_id row)"
    by (intro that [of "new_refresh_row (code_issue_params q) j x (at_id row) (clock E (Suc (Suc (ticks w))))"]) simp_all
  from iss have acc: "tokens t = tokens w @ [row]" "at_client_id row = c_id (cr_client q)"
      "at_resource row = ac_resource (cr_code q)" "at_api_key_id row = None"
    by (auto simp: issued_def s3')
  have drop: "drop (length (token_scopes w)) (token_scopes t) = ls" by (simp add: ls(1))
  show ?thesis
    apply (rule exI [of _ "cr_client q"], rule exI [of _ "cr_code q"], rule exI [of _ v], rule exI [of _ row],
        rule exI [of _ rrow])
    unfolding drop
    using cl v row fits now unspent spent acc tok ls(3) scopes refresh
    by (auto simp: code_fits_def)
qed

lemma exchange_code_codes:
  assumes "exchangeAuthorizationCode E rq w = (Inr resp, t)"
  obtains ac where "getByCodeId (the (rq_code rq)) w = Some ac" and "\<not> code_spent (ac_id (code_row ac)) w"
    and "authorization_codes t = List.map (use_code (ac_id (code_row ac)) (toISOString (clock E (Suc (ticks w)))))
      (authorization_codes w)"
proof -
  from assms obtain q ac s2 row s3 where code: "getByCodeId (the (rq_code rq)) w = Some ac" "cr_code q = code_row ac"
    and now: "cr_now q = toISOString (clock E (Suc (ticks w)))" and unspent: "\<not> code_spent (ac_id (cr_code q)) w"
    and f2: "same_but_clients w s2"
    and s3: "s3 = s2\<lparr>authorization_codes :=
          List.map (use_code (ac_id (cr_code q)) (cr_now q)) (authorization_codes s2),
          ticks := ticks s3, draws := draws s3\<rparr>"
    and iss: "issued (code_issue_params q) (clock E (Suc (Suc (ticks w)))) row resp s3 t"
    by (rule exchange_code_steps)
  have "authorization_codes s3 = List.map (use_code (ac_id (cr_code q)) (cr_now q)) (authorization_codes w)"
    by (subst s3, simp add: same_but_clients_simps [OF f2])
  moreover have "only_tokens s3 t" using iss by (simp add: issued_def)
  ultimately have "authorization_codes t = List.map (use_code (ac_id (cr_code q)) (cr_now q)) (authorization_codes w)"
    using only_tokens_simps(1) by metis
  with code(1) unspent show thesis unfolding code(2) now by (rule that)
qed

text \<open>
  A refusal (an OAuth error other than \<open>server_error\<close>) leaves the codes, the tokens and
  the refresh tokens as they were: a wrong verifier, redirect URI, client, resource or scope
  burns nothing. At most a client secret is migrated to its hashed form.
\<close>

theorem code_refusal_keeps_state:
  assumes "exchangeAuthorizationCode E rq w = (Inl e, t)" and "\<not> not_a_refusal e"
  shows "same_but_clients w t"
proof -
  from assms(1) consider "check_code_request E rq w = (Inl e, t)"
    | q s where "check_code_request E rq w = (Inr q, s)" "consume_code q s = (Inl e, t)"
    | q s' where "issueTokenPair E (code_issue_params q) s' = (Inl e, t)"
    by (auto simp: exchangeAuthorizationCode_def seq_Inl)
  then show ?thesis
  proof cases
    case 1
    then show ?thesis by (rule evolvesD [OF check_code_request_frame])
  next
    case (2 q s)
    have "same_but_clients w s" by (rule evolvesD [OF check_code_request_frame 2(1)])
    with consume_code_Inl(1) [OF 2(2)] show ?thesis by simp
  next
    case (3 q s')
    with assms(2) issueTokenPair_Inl show ?thesis by blast
  qed
qed

lemma check_code_request_accepts:
  assumes auth: "authenticateClient E (rq_clientId rq) (rq_clientSecret rq) w = (Inr cl, s)"
    and code: "rq_code rq = Some c" "c \<noteq> []" "rq_redirectUri rq \<noteq> Some []" "getByCodeId c w = Some ac"
      "code_fits E rq cl (code_row ac) (toISOString (clock E (Suc (ticks w))))"
    and sub: "set (parseScopeParam (rq_scope rq))
          \<subseteq> g_scopeName ` set (still_granted (client_scope_grants (c_id cl) w) (code_clientScopeIds ac))"
  shows "\<exists>xs. check_code_request E rq w = (Inr \<lparr>cr_client = cl, cr_code = code_row ac, cr_selected = xs,
       cr_now = toISOString (clock E (Suc (ticks w)))\<rparr>, s\<lparr>ticks := Suc (ticks s)\<rparr>)"
proof -
  have f: "same_but_clients w s" by (rule evolvesD [OF authenticateClient_frame auth])
  let ?s = "s\<lparr>ticks := Suc (ticks s)\<rparr>"
  from code(5) obtain v where v: "rq_codeVerifier rq = Some v" "v \<noteq> []" by (auto simp: code_fits_def)
  from code have ru: "rq_redirectUri rq = Some (ac_redirect_uri (code_row ac))" "ac_redirect_uri (code_row ac) \<noteq> []"
    by (auto simp: code_fits_def)
  have check: "check_code E rq cl (ac_redirect_uri (code_row ac)) v (code_row ac)
      (toISOString (clock E (Suc (ticks w)))) ?s = (Inr (), ?s)"
    using code(5) v by (auto simp: check_code_def code_fits_def run_seq outcome_def)
  obtain xs where "selectScopeGrants
       (still_granted (client_scope_grants (c_id cl) ?s) (code_clientScopeIds ac))
       (parseScopeParam (rq_scope rq)) ''Requested scopes exceed the authorization code grant.'' ?s = (Inr xs, ?s)"
    using selectScopeGrants_ok sub lookups_same_but_clients(2) [OF same_but_clients_tick [OF f]] by metis
  then have "check_code_request E rq w = (Inr \<lparr>cr_client = cl, cr_code = code_row ac, cr_selected = xs,
       cr_now = toISOString (clock E (Suc (ticks w)))\<rparr>, ?s)"
    using auth code ru v check authenticateClient_ticks [OF auth]
    by (simp add: check_code_request_def run_seq lookups_same_but_clients [OF f])
  then show ?thesis by blast
qed

text \<open>A request that passes the checks on a code without \<open>used_at\<close> is not refused any more.\<close>

lemma accepted_not_refused:
  assumes "check_code_request E rq w = (Inr q, s)" and "\<not> code_spent (ac_id (cr_code q)) s"
    and "exchangeAuthorizationCode E rq w = (Inl e, t)"
  shows "not_a_refusal e"
proof -
  have "consume_code q s = (Inl e, t) \<or> (\<exists>x v. issueTokenPair E (code_issue_params q) v = (Inl e, x))"
    using assms(1,3) by (auto simp: exchangeAuthorizationCode_def run_seq seq_Inl split: sum.splits prod.splits)
  then show ?thesis using consume_code_Inl(3) [of q s e t] assms(2) issueTokenPair_Inl by blast
qed

text \<open>
  C30. The checks accept exactly the requests of an authenticated client that name an
  existing code with a redirect URI and a verifier, that the code fits, and whose scopes
  are among the code's scopes the client still holds.
\<close>

theorem code_request_accepted_iff:
  "(\<exists>q t. check_code_request E rq w = (Inr q, t)) \<longleftrightarrow>
   (\<exists>cl s c ac. authenticateClient E (rq_clientId rq) (rq_clientSecret rq) w = (Inr cl, s)
      \<and> rq_code rq = Some c \<and> c \<noteq> [] \<and> rq_redirectUri rq \<noteq> Some []
      \<and> getByCodeId c w = Some ac
      \<and> code_fits E rq cl (code_row ac) (toISOString (clock E (Suc (ticks w))))
      \<and> set (parseScopeParam (rq_scope rq))
          \<subseteq> g_scopeName ` set (still_granted (client_scope_grants (c_id cl) w) (code_clientScopeIds ac)))"
  (is "?L \<longleftrightarrow> ?R")
proof
  assume ?L
  then obtain q t where q: "check_code_request E rq w = (Inr q, t)" by blast
  then have given: "rq_code rq \<noteq> Some []" "rq_redirectUri rq \<noteq> Some []"
    by (auto simp: check_code_request_def seq_Inr [of "authenticateClient _ _ _"]
        seq_Inr [of "need_text _ _"] need_text_Inr)
  from q obtain s ac where auth: "authenticateClient E (rq_clientId rq) (rq_clientSecret rq) w = (Inr (cr_client q), s)"
    and code: "rq_code rq \<noteq> None" "getByCodeId (the (rq_code rq)) s = Some ac" "cr_code q = code_row ac"
      "cr_now q = toISOString (clock E (ticks s))" "code_fits E rq (cr_client q) (cr_code q) (cr_now q)"
    and t: "t = s\<lparr>ticks := Suc (ticks s)\<rparr>"
    and sel: "selectScopeGrants
       (still_granted (client_scope_grants (c_id (cr_client q)) t) (code_clientScopeIds ac))
       (parseScopeParam (rq_scope rq)) ''Requested scopes exceed the authorization code grant.'' t
       = (Inr (cr_selected q), t)"
    by (rule check_code_request_Inr)
  have f: "same_but_clients w s" by (rule evolvesD [OF authenticateClient_frame auth])
  have "set (parseScopeParam (rq_scope rq)) \<subseteq> g_scopeName `
      set (still_granted (client_scope_grants (c_id (cr_client q)) t) (code_clientScopeIds ac))"
    by (rule selectScopeGrants_subset [OF sel])
  then have sub: "set (parseScopeParam (rq_scope rq)) \<subseteq> g_scopeName `
      set (still_granted (client_scope_grants (c_id (cr_client q)) w) (code_clientScopeIds ac))"
    unfolding t lookups_same_but_clients(2) [OF same_but_clients_tick [OF f]] .
  from code(1) given obtain c where c: "rq_code rq = Some c" "c \<noteq> []" by auto
  have look: "getByCodeId c w = Some ac"
    using code(2) c unfolding lookups_same_but_clients(1) [OF f] by simp
  have fits: "code_fits E rq (cr_client q) (code_row ac) (toISOString (clock E (Suc (ticks w))))"
    using code(3-5) authenticateClient_ticks [OF auth] by simp
  show ?R using auth c given(2) look fits sub by blast
next
  assume ?R
  then show ?L using check_code_request_accepts by blast
qed

end
