(* ===== verification/RefreshGrant.thy ===== *)
theory RefreshGrant
  imports CodeGrant
begin

text \<open>
  What the refresh-token grant guarantees: rotation replaces a live token by one successor
  of the same subject, audience and at most the same scopes, and presenting a revoked token,
  or one whose subject lost access to the client's environment, kills the whole rotation
  family together with the access tokens it produced.
\<close>

section \<open>Killing a family\<close>

lemma revokeFamilyAndAccessTokens_run:
  "revokeFamilyAndAccessTokens root now w =
     (let ids = set (collectFamilyIds (refresh_tokens w) root);
          dead = (\<lambda>k. \<exists>r \<in> set (refresh_tokens w). rt_id r \<in> ids \<and> rt_access_token_id r = Some (at_id k))
      in (Inr (), w\<lparr>refresh_tokens := List.map (revoke_row (\<lambda>r. rt_id r \<in> ids) now) (refresh_tokens w),
              tokens := List.map (\<lambda>k. if dead k then shorten now k else k) (tokens w)\<rparr>))"
proof -
  define ids where "ids = set (collectFamilyIds (refresh_tokens w) root)"
  let ?rs = "List.map (revoke_row (\<lambda>r. rt_id r \<in> ids) now) (refresh_tokens w)"
  let ?w1 = "w\<lparr>refresh_tokens := ?rs\<rparr>"
  have mem: "a \<in> set (listFamilyAccessTokenIds root ?w1) \<longleftrightarrow>
      (\<exists>r \<in> set (refresh_tokens w). rt_id r \<in> ids \<and> rt_access_token_id r = Some a)" for a
    by (auto simp: set_listFamilyAccessTokenIds ids_def)
  have none: "List.map (\<lambda>k. if \<exists>r \<in> set (refresh_tokens w). rt_id r \<in> ids \<and> rt_access_token_id r = Some (at_id k)
      then shorten now k else k) (tokens w) = tokens w" if "listFamilyAccessTokenIds root ?w1 = []"
    using mem that by (intro map_idI) auto
  have "revokeFamilyAndAccessTokens root now w =
      seq (reads (listFamilyAccessTokenIds root)) (\<lambda>accessTokenIds.
     if accessTokenIds \<noteq> [] then seq (expireAccessTokensByIds accessTokenIds now) (\<lambda>_. ret ())
     else ret ()) ?w1"
    by (simp add: revokeFamilyAndAccessTokens_def run_seq revokeFamily_run ids_def)
  also have "\<dots> = (Inr (), w\<lparr>refresh_tokens := ?rs, tokens := List.map (\<lambda>k. if \<exists>r \<in> set (refresh_tokens w).
      rt_id r \<in> ids \<and> rt_access_token_id r = Some (at_id k) then shorten now k else k) (tokens w)\<rparr>)"
    using none by (cases "listFamilyAccessTokenIds root ?w1 = []")
      (simp_all add: expireAccessTokensByIds_def mem)
  finally show ?thesis by (simp add: Let_def ids_def)
qed

text \<open>
  What is left of a family: every refresh token in it is revoked, every access token one of
  them was issued with has expired, and every refresh token outside it is as before.
\<close>

definition family_dead :: "string set \<Rightarrow> string \<Rightarrow> world \<Rightarrow> world \<Rightarrow> bool" where
  "family_dead ids now w t \<longleftrightarrow>
     (\<forall>r \<in> set (refresh_tokens t). rt_id r \<in> ids \<longrightarrow> rt_revoked_at r \<noteq> None
        \<and> (\<forall>k \<in> set (tokens t). rt_access_token_id r = Some (at_id k) \<longrightarrow> at_expires_at k \<le> now))
     \<and> (\<forall>r \<in> set (refresh_tokens w). rt_id r \<notin> ids \<longrightarrow> r \<in> set (refresh_tokens t))"

lemma revoke_and_throw_run:
  assumes "revoke_and_throw root now msg w = (r, t)"
  shows "r = Inl (oauth Invalid_grant msg 400)"
    and "lineage_ok (refresh_tokens w) \<Longrightarrow> family_dead (family (refresh_tokens w) root) now w t"
proof -
  from assms show "r = Inl (oauth Invalid_grant msg 400)"
    by (auto simp: revoke_and_throw_def run_seq revokeFamilyAndAccessTokens_run Let_def)
  assume ok: "lineage_ok (refresh_tokens w)"
  note ids = collectFamilyIds_family [OF ok, of root]
  from assms have t: "t = w\<lparr>refresh_tokens := List.map (revoke_row (\<lambda>r. rt_id r \<in> family (refresh_tokens w) root) now) (refresh_tokens w),
      tokens := List.map (\<lambda>k. if \<exists>r \<in> set (refresh_tokens w). rt_id r \<in> family (refresh_tokens w) root
         \<and> rt_access_token_id r = Some (at_id k) then shorten now k else k) (tokens w)\<rparr>"
    by (auto simp: revoke_and_throw_def run_seq revokeFamilyAndAccessTokens_run Let_def ids)
  show "family_dead (family (refresh_tokens w) root) now w t"
    unfolding family_dead_def
  proof (intro conjI ballI impI)
    fix r
    assume "r \<in> set (refresh_tokens t)" and "rt_id r \<in> family (refresh_tokens w) root"
    then obtain x where "rt_id x \<in> family (refresh_tokens w) root"
      "r = revoke_row (\<lambda>r. rt_id r \<in> family (refresh_tokens w) root) now x" by (auto simp: t)
    then show "rt_revoked_at r \<noteq> None" using revoke_row_revoked by metis
  next
    fix r k
    assume "r \<in> set (refresh_tokens t)" and "rt_id r \<in> family (refresh_tokens w) root"
      and "k \<in> set (tokens t)" and "rt_access_token_id r = Some (at_id k)"
    then show "at_expires_at k \<le> now" by (auto simp: t split: if_splits)
  next
    fix r
    assume "r \<in> set (refresh_tokens w)" and "rt_id r \<notin> family (refresh_tokens w) root"
    then show "r \<in> set (refresh_tokens t)" by (force simp: t revoke_row_same image_iff)
  qed
qed

section \<open>The checks\<close>

lemma revoke_and_throw_Inr [simp]: "revoke_and_throw root now msg w \<noteq> (Inr u, t)"
  using revoke_and_throw_run(1) by blast

text \<open>The subject of a refresh token may still use the client.\<close>

definition subject_allowed :: "client \<Rightarrow> refresh_row \<Rightarrow> world \<Rightarrow> bool" where
  "subject_allowed cl token w \<longleftrightarrow>
     (truthy (rt_subject token) \<longrightarrow>
        c_environmentId cl \<in> set (user_environments (the (rt_subject token)) w)
        \<and> (\<forall>u. user_by_id (the (rt_subject token)) w = Some u \<longrightarrow> u_isTestUser u \<longrightarrow> c_isTest cl))"

lemma check_subject_cases:
  "check_subject cl token now w =
     (if subject_allowed cl token w then (Inr (), w)
      else revoke_and_throw (rt_id token) now ''User no longer has access to this environment.'' w)"
  by (auto simp: check_subject_def subject_allowed_def split: option.splits)

lemma check_refresh_cases:
  "check_refresh cl token now w =
     (if rt_client_id token \<noteq> c_id cl
      then (Inl (oauth Invalid_grant ''Refresh token does not belong to this client.'' 400), w)
      else if truthy (rt_revoked_at token)
      then revoke_and_throw (rt_id token) now ''Refresh token has been revoked.'' w
      else if rt_expires_at token \<le> now
      then (Inl (oauth Invalid_grant ''Refresh token has expired.'' 400), w)
      else if subject_allowed cl token w then (Inr (), w)
      else revoke_and_throw (rt_id token) now ''User no longer has access to this environment.'' w)"
proof -
  have "seq (revoke_and_throw i n msg) f s = revoke_and_throw i n msg s" for i n msg s and f :: "unit \<Rightarrow> unit m"
    using revoke_and_throw_run(1) [of i n msg s] by (cases "revoke_and_throw i n msg s") (auto simp: seq_def)
  then show ?thesis by (auto simp: check_refresh_def check_subject_cases run_seq)
qed


lemma subject_allowed_same:
  "same_but_clients s t \<Longrightarrow> subject_allowed cl token t = subject_allowed cl token s"
  by (simp add: subject_allowed_def user_environments_def user_by_id_def same_but_clients_simps)


section \<open>Properties\<close>



text \<open>A successful rotation, step by step.\<close>

lemma check_refresh_request_Inr:
  assumes "check_refresh_request E rq w = (Inr q, t)"
  obtains tok where "authenticateClient E (rq_clientId rq) (rq_clientSecret rq) w = (Inr (fr_client q), t\<lparr>ticks := Suc (ticks w)\<rparr>)"
    and "same_but_clients w t" and "ticks t = Suc (Suc (ticks w))"
    and "rq_refreshToken rq \<noteq> None" and "getByTokenId (the (rq_refreshToken rq)) w = Some tok"
    and "fr_token q = refresh_row tok" and "fr_now q = toISOString (clock E (Suc (ticks w)))"
    and "rt_client_id (fr_token q) = c_id (fr_client q)" and "\<not> truthy (rt_revoked_at (fr_token q))"
    and "fr_now q < rt_expires_at (fr_token q)" and "subject_allowed (fr_client q) (fr_token q) w"
    and "set (fr_selected q) \<subseteq> set (still_granted (client_scope_grants (c_id (fr_client q)) w) (refresh_clientScopeIds tok))"
proof -
  from assms obtain cl s where auth: "authenticateClient E (rq_clientId rq) (rq_clientSecret rq) w = (Inr cl, s)"
    and rest: "seq (need_text (rq_refreshToken rq) (oauth Invalid_request ''Missing refresh_token.'' 400)) (\<lambda>value.
     seq (reads (getByTokenId value)) (\<lambda>found.
     seq (need found (oauth Invalid_grant ''Refresh token is invalid.'' 400)) (\<lambda>token.
     seq (now_iso E) (\<lambda>now.
     seq (check_refresh cl (refresh_row token) now) (\<lambda>_.
     seq (reads (client_scope_grants (c_id cl))) (\<lambda>allClientGrants.
     seq (selectScopeGrants (still_granted allClientGrants (refresh_clientScopeIds token))
           (parseScopeParam (rq_scope rq)) ''Requested scopes exceed the refresh token grant.'') (\<lambda>selected.
     ret \<lparr>fr_client = cl, fr_token = refresh_row token, fr_selected = selected, fr_now = now\<rparr>))))))) s = (Inr q, t)"
    unfolding check_refresh_request_def seq_Inr [of "authenticateClient _ _ _"] by blast
  let ?s = "s\<lparr>ticks := Suc (ticks s)\<rparr>" and ?now = "toISOString (clock E (ticks s))"
  have f0: "same_but_clients w s" by (rule evolvesD [OF authenticateClient_frame auth])
  have f: "same_but_clients w ?s" by (rule same_but_clients_tick [OF f0])
  have tk: "ticks s = Suc (ticks w)" by (rule authenticateClient_ticks [OF auth])
  from rest obtain v where v: "rq_refreshToken rq = Some v" "v \<noteq> []"
    by (auto simp: seq_Inr [of "need_text _ _"] need_text_Inr)
  with rest obtain tok where tok: "getByTokenId v s = Some tok"
    by (cases "getByTokenId v s") (auto simp: run_seq)
  with rest v obtain u where check: "check_refresh cl (refresh_row tok) ?now ?s = (Inr (), u)"
    and sel: "seq (selectScopeGrants (still_granted (client_scope_grants (c_id cl) u) (refresh_clientScopeIds tok))
           (parseScopeParam (rq_scope rq)) ''Requested scopes exceed the refresh token grant.'') (\<lambda>selected.
     ret \<lparr>fr_client = cl, fr_token = refresh_row tok, fr_selected = selected, fr_now = ?now\<rparr>) u = (Inr q, t)"
    by (auto simp: seq_Inr [of "need_text _ _"] seq_Inr [of "need _ _"] seq_Inr [of "check_refresh _ _ _"]
        need_text_Inr need_Inr split: if_splits)
  from check have u: "u = ?s" and ok: "rt_client_id (refresh_row tok) = c_id cl"
      "\<not> truthy (rt_revoked_at (refresh_row tok))" "?now < rt_expires_at (refresh_row tok)"
      "subject_allowed cl (refresh_row tok) ?s"
    by (auto simp: check_refresh_cases split: if_splits)
  from sel obtain xs where xs: "selectScopeGrants (still_granted (client_scope_grants (c_id cl) u) (refresh_clientScopeIds tok))
           (parseScopeParam (rq_scope rq)) ''Requested scopes exceed the refresh token grant.'' u = (Inr xs, t)"
    and q: "q = \<lparr>fr_client = cl, fr_token = refresh_row tok, fr_selected = xs, fr_now = ?now\<rparr>"
    by (auto simp: seq_Inr)
  have t: "t = ?s" using selectScopeGrants_run [OF xs] u by simp
  have "set xs \<subseteq> set (still_granted (client_scope_grants (c_id cl) w) (refresh_clientScopeIds tok))"
    using selectScopeGrants_Inr(2) [OF xs] unfolding u lookups_same_but_clients(2) [OF f] .
  moreover have "t\<lparr>ticks := Suc (ticks w)\<rparr> = s" using t tk by (cases s) simp
  ultimately show thesis
    using auth f t tk v tok ok q subject_allowed_same [OF f]
    by (intro that [of tok]) (simp_all add: lookups_same_but_clients(3) [OF f0])
qed

lemma consume_refresh_Inr:
  assumes "consume_refresh q w = (Inr u, t)"
  shows "\<not> refresh_spent (rt_id (fr_token q)) w"
    and "t = w\<lparr>refresh_tokens :=
      List.map (revoke_row (\<lambda>r. rt_id r = rt_id (fr_token q)) (fr_now q)) (refresh_tokens w)\<rparr>"
  using assms revoke_one_wins [of "rt_id (fr_token q)" "fr_now q" w]
  by (auto simp: consume_refresh_def prog_inv revoke_one_eq split: if_splits)

lemma refresh_issue_params_simps [simp]:
  "ip_clientId (refresh_issue_params q) = c_id (fr_client q)"
  "ip_clientScopeIds (refresh_issue_params q) = List.map g_clientScopeId (fr_selected q)"
  "ip_scopeNames (refresh_issue_params q) = List.map g_scopeName (fr_selected q)"
  "ip_subject (refresh_issue_params q) = rt_subject (fr_token q)"
  "ip_resource (refresh_issue_params q) = rt_resource (fr_token q)"
  "ip_rotatedFrom (refresh_issue_params q) = Some (rt_id (fr_token q))"
  "ip_apiKeyRowId (refresh_issue_params q) = None"
  "ip_issueRefreshToken (refresh_issue_params q)"
  "\<not> ip_issueIdToken (refresh_issue_params q)"
  by (simp_all add: refresh_issue_params_def grant_params_def)

text \<open>The frames of the three parts of a rotation, composed.\<close>

lemma rotation_frame:
  assumes "same_but_clients w s1" and "s2 = s1\<lparr>refresh_tokens := rs\<rparr>" and "s3 = s2\<lparr>ticks := n, draws := d\<rparr>"
    and "only_tokens s3 t"
  shows "t = w\<lparr>clients := clients t, tokens := tokens t, token_scopes := token_scopes t, refresh_tokens := refresh_tokens t,
           refresh_token_scopes := refresh_token_scopes t, ticks := ticks t, draws := draws t\<rparr>"
    and "List.map (\<lambda>r. r\<lparr>cl_client_secret := []\<rparr>) (clients t) = List.map (\<lambda>r. r\<lparr>cl_client_secret := []\<rparr>) (clients w)"
proof -
  have cs: "clients t = clients s1" using only_tokens_simps(3) [OF assms(4)] assms(2,3) by simp
  have s1: "s1 = w\<lparr>clients := clients t, ticks := ticks s1\<rparr>" using assms(1) cs by (simp add: same_but_clients_def)
  have t: "t = s3\<lparr>tokens := tokens t, token_scopes := token_scopes t, refresh_tokens := refresh_tokens t,
           refresh_token_scopes := refresh_token_scopes t, ticks := ticks t, draws := draws t\<rparr>"
    using assms(4) by (simp add: only_tokens_def)
  show "t = w\<lparr>clients := clients t, tokens := tokens t, token_scopes := token_scopes t, refresh_tokens := refresh_tokens t,
           refresh_token_scopes := refresh_token_scopes t, ticks := ticks t, draws := draws t\<rparr>"
    by (subst t, subst assms(3), subst assms(2), subst s1) simp
  show "List.map (\<lambda>r. r\<lparr>cl_client_secret := []\<rparr>) (clients t) = List.map (\<lambda>r. r\<lparr>cl_client_secret := []\<rparr>) (clients w)"
    using assms(1) cs by (simp add: same_but_clients_def)
qed

text \<open>
  C9. A successful refresh rotated a stored token that belonged to the authenticated client,
  was neither revoked nor expired, and whose subject may still use the client. The old token
  is revoked, exactly one new live refresh token of thirty days is added, rotated from it and with
  its subject and audience, and one access token of one hour, both with the same scopes, which are
  among the old token's. Every other row of every table is as before, except that the secret of a
  client may have been migrated to its stored form while the client was authenticated.
\<close>

theorem refresh_rotation_sound:
  assumes "exchangeRefreshToken E rq w = (Inr resp, t)"
  shows "\<exists>cl tok row rrow links.
     client_by_identifier (the (rq_clientId rq)) w = Some cl
     \<and> (c_tokenEndpointAuthMethod cl \<noteq> ''none'' \<longrightarrow> (\<exists>s. rq_clientSecret rq = Some s \<and> s \<noteq> []
          \<and> sv_ok (verifyClientSecretAgainstStored E s (c_clientSecret cl) (resolveHmacKey E))))
     \<and> tok \<in> set (refresh_tokens w) \<and> rq_refreshToken rq = Some (rt_refresh_token_id tok)
     \<and> rt_client_id tok = c_id cl \<and> toISOString (clock E (Suc (ticks w))) < rt_expires_at tok
     \<and> subject_allowed cl tok w
     \<and> \<not> refresh_spent (rt_id tok) w
     \<and> refresh_tokens t = List.map (revoke_row (\<lambda>r. rt_id r = rt_id tok) (toISOString (clock E (Suc (ticks w)))))
           (refresh_tokens w) @ [rrow]
     \<and> rt_rotated_from_id rrow = Some (rt_id tok) \<and> rt_revoked_at rrow = None
     \<and> rt_subject rrow = rt_subject tok \<and> rt_resource rrow = rt_resource tok \<and> rt_client_id rrow = c_id cl
     \<and> rt_expires_at rrow = toISOString (clock E (ticks w + 2) + 2592000000)
     \<and> rt_access_token_id rrow = Some (at_id row) \<and> tr_refresh_token resp = Some (rt_refresh_token_id rrow)
     \<and> tokens t = tokens w @ [row] \<and> token_names E (tr_access_token resp) (at_token_id row)
     \<and> at_client_id row = c_id cl \<and> at_resource row = rt_resource tok
     \<and> at_expires_at row = toISOString (clock E (ticks w + 2) + 3600000)
     \<and> links_added (token_scopes w) (at_id row) links (token_scopes t)
     \<and> links_added (refresh_token_scopes w) (rt_id rrow) links (refresh_token_scopes t)
     \<and> (\<forall>l \<in> set links. \<exists>k \<in> set (refresh_token_scopes w). lk_owner k = rt_id tok \<and> lk_client_scope_id k = l)
     \<and> t = w\<lparr>clients := clients t, tokens := tokens t, token_scopes := token_scopes t, refresh_tokens := refresh_tokens t,
           refresh_token_scopes := refresh_token_scopes t, ticks := ticks t, draws := draws t\<rparr>
     \<and> List.map (\<lambda>r. r\<lparr>cl_client_secret := []\<rparr>) (clients t) = List.map (\<lambda>r. r\<lparr>cl_client_secret := []\<rparr>) (clients w)"
proof -
  from assms obtain q s1 s2 where check: "check_refresh_request E rq w = (Inr q, s1)"
    and consume: "consume_refresh q s1 = (Inr (), s2)"
    and issue: "issueTokenPair E (refresh_issue_params q) s2 = (Inr resp, t)"
    by (auto simp: exchangeRefreshToken_def seq_Inr)
  from check obtain tok where auth: "authenticateClient E (rq_clientId rq) (rq_clientSecret rq) w = (Inr (fr_client q), s1\<lparr>ticks := Suc (ticks w)\<rparr>)"
    and f: "same_but_clients w s1" and tk: "ticks s1 = Suc (Suc (ticks w))"
    and tok: "rq_refreshToken rq \<noteq> None" "getByTokenId (the (rq_refreshToken rq)) w = Some tok" "fr_token q = refresh_row tok"
    and now: "fr_now q = toISOString (clock E (Suc (ticks w)))"
    and fits: "rt_client_id (fr_token q) = c_id (fr_client q)" "fr_now q < rt_expires_at (fr_token q)"
      "subject_allowed (fr_client q) (fr_token q) w"
    and sel: "set (fr_selected q) \<subseteq> set (still_granted (client_scope_grants (c_id (fr_client q)) w) (refresh_clientScopeIds tok))"
    by (rule check_refresh_request_Inr)
  note same = same_but_clients_simps [OF f]
  let ?rs = "List.map (revoke_row (\<lambda>r. rt_id r = rt_id (fr_token q)) (fr_now q)) (refresh_tokens w)"
    and ?cs = "List.map g_clientScopeId (fr_selected q)"
  from consume_refresh_Inr [OF consume] have unspent: "\<not> refresh_spent (rt_id (fr_token q)) w"
    and s2: "s2 = s1\<lparr>refresh_tokens := ?rs\<rparr>"
    by (simp_all add: refresh_spent_def same)
  then have at: "clock E (ticks s2) = clock E (ticks w + 2)" by (simp add: tk)
  from issue obtain row s3 where iss: "issued (refresh_issue_params q) (clock E (ticks s2)) row resp s3 t"
    and s3: "s3 = s2\<lparr>ticks := ticks s3, draws := draws s3\<rparr>"
    and nam: "token_names E (tr_access_token resp) (at_token_id row)"
    by (rule issueTokenPair_Inr)
  have s3': "tokens s3 = tokens w" "token_scopes s3 = token_scopes w" "refresh_tokens s3 = ?rs"
    "refresh_token_scopes s3 = refresh_token_scopes w"
    by (subst s3, simp add: s2 same)+
  have frame: "only_tokens s3 t" using iss by (simp add: issued_def)
  note t = rotation_frame [OF f s2 s3 frame]
  have scopes: "\<exists>k \<in> set (refresh_token_scopes w). lk_owner k = rt_id (fr_token q) \<and> lk_client_scope_id k = l"
    if "l \<in> set ?cs" for l
  proof -
    from that obtain g where "g \<in> set (fr_selected q)" "g_clientScopeId g = l" by auto
    with sel set_still_granted(2) have "l \<in> set (refresh_clientScopeIds tok)" by fastforce
    with tok(2,3) show ?thesis by (auto simp: getByTokenId_def)
  qed
  from iss obtain j x where jx: "refresh_tokens t = ?rs @ [new_refresh_row (refresh_issue_params q) j x (at_id row) (clock E (ticks w + 2))]"
      "links_added (refresh_token_scopes w) j ?cs (refresh_token_scopes t)" "tr_refresh_token resp = Some x"
    by (auto simp: issued_def s3' at)
  from iss have acc: "tokens t = tokens w @ [row]" "at_client_id row = c_id (fr_client q)"
      "at_resource row = rt_resource (fr_token q)" "at_expires_at row = toISOString (clock E (ticks w + 2) + 3600000)"
      "links_added (token_scopes w) (at_id row) ?cs (token_scopes t)"
    by (auto simp: issued_def s3' at ACCESS_TOKEN_TTL_SECONDS_def)
  obtain i where "rq_clientId rq = Some i" "client_by_identifier i w = Some (fr_client q)"
    and auth_ok: "c_tokenEndpointAuthMethod (fr_client q) \<noteq> ''none'' \<Longrightarrow> \<exists>s. rq_clientSecret rq = Some s \<and> s \<noteq> []
          \<and> sv_ok (verifyClientSecretAgainstStored E s (c_clientSecret (fr_client q)) (resolveHmacKey E))"
    by (rule authenticateClient_Inr [OF auth]) (rule that)
  then have cl: "client_by_identifier (the (rq_clientId rq)) w = Some (fr_client q)" by simp
  from getByTokenId_Some [OF tok(2)] tok have stored: "fr_token q \<in> set (refresh_tokens w)"
    "rq_refreshToken rq = Some (rt_refresh_token_id (fr_token q))" by auto
  let ?new = "new_refresh_row (refresh_issue_params q) j x (at_id row) (clock E (ticks w + 2))"
  have new: "rt_id ?new = j" "rt_refresh_token_id ?new = x" "rt_client_id ?new = c_id (fr_client q)"
    "rt_expires_at ?new = toISOString (clock E (ticks w + 2) + 2592000000)" "rt_revoked_at ?new = None"
    "rt_subject ?new = rt_subject (fr_token q)" "rt_resource ?new = rt_resource (fr_token q)"
    "rt_access_token_id ?new = Some (at_id row)" "rt_rotated_from_id ?new = Some (rt_id (fr_token q))"
    by (simp_all add: new_refresh_row_def REFRESH_TOKEN_TTL_SECONDS_def)
  show ?thesis
    by (rule exI [of _ "fr_client q"], rule exI [of _ "fr_token q"], rule exI [of _ row], rule exI [of _ ?new],
        rule exI [of _ ?cs], unfold new now [symmetric], intro conjI impI ballI)
      (use cl auth_ok stored fits unspent jx acc nam t scopes in \<open>(assumption | rule refl | blast)+\<close>)
qed

end
