(* ===== verification/Introspect.thy ===== *)
theory Introspect
  imports CodeGrant
begin

text \<open>
  The remaining operations of \<open>OauthTokenService\<close>: validating an access token (opaque or
  JWT), listing, revoking and deleting tokens by value, and the periodic cleanup. Verifying
  and decoding a JWT is the platform's; which keys are used, that only RS256 is accepted and
  what a verified or unverifiable token is matched against is the code's.
\<close>

section \<open>Token values\<close>

definition jwt_char :: "char \<Rightarrow> bool" where
  "jwt_char c \<longleftrightarrow> is_alpha c \<or> is_digit c \<or> c = CHR ''_'' \<or> c = CHR ''-''"

definition isJwtFormat :: "string \<Rightarrow> bool" where
  "isJwtFormat token =
     (let parts = split_on CHR ''.'' (js_trim token)
      in length parts = 3 \<and> (\<forall>p \<in> set parts. p \<noteq> [] \<and> list_all jwt_char p))"

definition normalized_token :: "string option \<Rightarrow> string" where
  "normalized_token token = (case token of None \<Rightarrow> [] | Some s \<Rightarrow> js_trim s)"

definition decoded_jti :: "cfg \<Rightarrow> string \<Rightarrow> string option" where
  "decoded_jti E token =
     (case decode_jwt E token of
        None \<Rightarrow> None
      | Some cls \<Rightarrow> (case cls ''jti'' of Some (JString j) \<Rightarrow> Some j | _ \<Rightarrow> None))"

definition access_token_id :: "cfg \<Rightarrow> string \<Rightarrow> string" where
  "access_token_id E token =
     (if isJwtFormat token
      then (case decoded_jti E token of Some j \<Rightarrow> j | None \<Rightarrow> token)
      else token)"

section \<open>Revoking and deleting\<close>

datatype token_type = Access | Refresh

record mutation_result =
  mr_done :: bool
  mr_tokenType :: "token_type option"

definition revokeTokenByValue :: "cfg \<Rightarrow> string option \<Rightarrow> mutation_result m" where
  "revokeTokenByValue E token =
     (let normalized = normalized_token token
      in if normalized = [] then ret \<lparr>mr_done = False, mr_tokenType = None\<rparr>
         else seq (now_iso E) (\<lambda>now.
           seq (reads (getByTokenId normalized)) (\<lambda>found.
           case found of
             Some refreshToken \<Rightarrow>
               seq (if \<not> truthy (rt_revoked_at (refresh_row refreshToken))
                    then seq (revoke_refresh (rt_id (refresh_row refreshToken)) now) (\<lambda>_. ret ())
                    else ret ()) (\<lambda>_.
               ret \<lparr>mr_done = True, mr_tokenType = Some Refresh\<rparr>)
           | None \<Rightarrow>
               seq (revokeAccessTokenByTokenId (access_token_id E normalized) now) (\<lambda>revoked.
               ret (if revoked then \<lparr>mr_done = True, mr_tokenType = Some Access\<rparr>
                    else \<lparr>mr_done = False, mr_tokenType = None\<rparr>)))))"

definition deleteTokenByValue :: "cfg \<Rightarrow> string option \<Rightarrow> mutation_result m" where
  "deleteTokenByValue E token =
     (let normalized = normalized_token token
      in if normalized = [] then ret \<lparr>mr_done = False, mr_tokenType = None\<rparr>
         else seq (deleteByTokenId normalized) (\<lambda>refreshDeleted.
           if refreshDeleted then ret \<lparr>mr_done = True, mr_tokenType = Some Refresh\<rparr>
           else seq (deleteAccessTokenByTokenId (access_token_id E normalized)) (\<lambda>accessDeleted.
             ret (if accessDeleted then \<lparr>mr_done = True, mr_tokenType = Some Access\<rparr>
                  else \<lparr>mr_done = False, mr_tokenType = None\<rparr>))))"

section \<open>Cleanup\<close>

record cleanup_result =
  accessTokensDeleted :: nat
  refreshTokensExpiredDeleted :: nat
  refreshTokensRevokedDeleted :: nat
  authorizationCodesDeleted :: nat
  totalDeleted :: nat

text \<open>
  The four deletions of the \<open>Promise.all\<close> run in the order they are started; they touch
  different rows, so no other order gives a different result.
\<close>

definition cleanupTokenArtifacts :: "cfg \<Rightarrow> bool \<Rightarrow> cleanup_result m" where
  "cleanupTokenArtifacts E dryRun =
     seq (now_iso E) (\<lambda>now.
     if dryRun then ret \<lparr>accessTokensDeleted = 0, refreshTokensExpiredDeleted = 0,
       refreshTokensRevokedDeleted = 0, authorizationCodesDeleted = 0, totalDeleted = 0\<rparr>
     else seq (deleteExpiredAccessTokens now) (\<lambda>a.
       seq (deleteExpired now) (\<lambda>e.
       seq deleteRevoked (\<lambda>r.
       seq (deleteUsedOrExpired now) (\<lambda>c.
       ret \<lparr>accessTokensDeleted = a, refreshTokensExpiredDeleted = e,
            refreshTokensRevokedDeleted = r, authorizationCodesDeleted = c,
            totalDeleted = a + e + r + c\<rparr>)))))"

section \<open>Validation\<close>

record validate_result =
  vr_valid :: bool
  vr_active :: bool
  vr_clientId :: "string option"
  vr_subject :: "string option"
  vr_apiKeyId :: "string option"
  vr_environmentId :: "string option"
  vr_environmentMatch :: bool
  vr_expectedEnvironmentName :: "string option"
  vr_tokenEnvironmentName :: "string option"
  vr_expiresAt :: "string option"
  vr_tokenScopes :: "string list"
  vr_requiredScopes :: "string list"
  vr_missingScopes :: "string list"

definition invalid_result :: "string option \<Rightarrow> string list \<Rightarrow> validate_result" where
  "invalid_result expectedEnvironmentName requiredScopes =
     \<lparr>vr_valid = False, vr_active = False, vr_clientId = None, vr_subject = None, vr_apiKeyId = None,
      vr_environmentId = None, vr_environmentMatch = False,
      vr_expectedEnvironmentName = expectedEnvironmentName, vr_tokenEnvironmentName = None,
      vr_expiresAt = None, vr_tokenScopes = [], vr_requiredScopes = requiredScopes,
      vr_missingScopes = requiredScopes\<rparr>"

definition validate_record ::
  "access_token_record \<Rightarrow> string option \<Rightarrow> string list \<Rightarrow> string option \<Rightarrow> string option \<Rightarrow> string
   \<Rightarrow> validate_result" where
  "validate_record r subject requiredScopes expectedEnvironmentName expectedAudience now =
     (let active = a_expiresAt r > now;
          missingScopes = filter (\<lambda>s. s \<notin> set (a_scopeNames r)) requiredScopes;
          environmentMatch =
            (case expectedEnvironmentName of
               None \<Rightarrow> True
             | Some n \<Rightarrow> js_lower (a_environmentName r) = js_lower n);
          tokenAudience = (case a_resource r of Some x \<Rightarrow> x | None \<Rightarrow> a_clientId r);
          audienceMatch = (case expectedAudience of None \<Rightarrow> True | Some x \<Rightarrow> tokenAudience = x)
      in \<lparr>vr_valid = (active \<and> missingScopes = [] \<and> environmentMatch \<and> audienceMatch),
          vr_active = active, vr_clientId = Some (a_clientId r), vr_subject = subject,
          vr_apiKeyId = a_apiKeyId r, vr_environmentId = Some (a_environmentId r),
          vr_environmentMatch = environmentMatch,
          vr_expectedEnvironmentName = expectedEnvironmentName,
          vr_tokenEnvironmentName = Some (a_environmentName r),
          vr_expiresAt = Some (a_expiresAt r), vr_tokenScopes = a_scopeNames r,
          vr_requiredScopes = requiredScopes, vr_missingScopes = missingScopes\<rparr>)"

definition validate_by_id ::
  "cfg \<Rightarrow> string \<Rightarrow> string option \<Rightarrow> string list \<Rightarrow> string option \<Rightarrow> string option \<Rightarrow> validate_result m" where
  "validate_by_id E tokenId subject requiredScopes expectedEnvironmentName expectedAudience =
     seq (reads (getAccessTokenByTokenId tokenId)) (\<lambda>found.
     case found of
       None \<Rightarrow> ret (invalid_result expectedEnvironmentName requiredScopes)
     | Some r \<Rightarrow> seq (now_iso E) (\<lambda>now.
         ret (validate_record r subject requiredScopes expectedEnvironmentName expectedAudience now)))"

definition nonblank_env :: "cfg \<Rightarrow> string \<Rightarrow> string option" where
  "nonblank_env E k =
     (case ctx_env E k of
        Some v \<Rightarrow> if js_trim v \<noteq> [] then Some v
                  else (case process_env E k of Some p \<Rightarrow> if js_trim p \<noteq> [] then Some p else None | None \<Rightarrow> None)
      | None \<Rightarrow> (case process_env E k of Some p \<Rightarrow> if js_trim p \<noteq> [] then Some p else None | None \<Rightarrow> None))"

text \<open>The published keys: from the environment if it has any, else from the object store.\<close>

definition published_keys :: "cfg \<Rightarrow> jwk list m" where
  "published_keys E =
     (let fromEnv = (case nonblank_env E ''JWT_JWKS_JSON'' of None \<Rightarrow> None | Some s \<Rightarrow> parse_jwks E s);
          envKeys = (case fromEnv of None \<Rightarrow> [] | Some ks \<Rightarrow> ks);
          r2Key = (case ctx_env E ''JWKS_R2_KEY'' of Some k \<Rightarrow> k | None \<Rightarrow> ''jwks.json'')
      in if envKeys \<noteq> [] then ret envKeys
         else (case auth_assets E of
                 None \<Rightarrow> ret []
               | Some get \<Rightarrow>
                 (case get r2Key of
                    R2_missing \<Rightarrow> ret []
                  | R2_jwks ks \<Rightarrow> ret ks
                  | R2_not_json \<Rightarrow> throw (JsError ''Unexpected token in JSON''))))"

definition validateAccessTokenJwt ::
  "cfg \<Rightarrow> string \<Rightarrow> string list \<Rightarrow> string option \<Rightarrow> string option \<Rightarrow> validate_result m" where
  "validateAccessTokenJwt E token requiredScopes expectedEnvironmentName expectedAudience =
     seq (published_keys E) (\<lambda>keys.
     let invalid = ret (invalid_result expectedEnvironmentName requiredScopes)
     in if keys = [] then
          (case decoded_jti E token of
             None \<Rightarrow> invalid
           | Some j \<Rightarrow>
             if j = [] then invalid
             else validate_by_id E j None requiredScopes expectedEnvironmentName expectedAudience)
        else
          (case jwt_verify E [''RS256''] keys token of
             None \<Rightarrow> invalid
           | Some payload \<Rightarrow>
             (case payload ''jti'' of
                Some (JString j) \<Rightarrow>
                  if j = [] then invalid
                  else validate_by_id E j
                    (case payload ''sub'' of Some (JString s) \<Rightarrow> Some s | _ \<Rightarrow> None)
                    requiredScopes expectedEnvironmentName expectedAudience
              | _ \<Rightarrow> invalid)))"

definition blank_to_none :: "string option \<Rightarrow> string option" where
  "blank_to_none v = (case v of None \<Rightarrow> None | Some s \<Rightarrow> if js_trim s = [] then None else Some (js_trim s))"

definition validateAccessToken ::
  "cfg \<Rightarrow> string option \<Rightarrow> string list \<Rightarrow> string option \<Rightarrow> string option \<Rightarrow> validate_result m" where
  "validateAccessToken E token requiredScopes environmentName expectedAudience =
     (let audience = blank_to_none expectedAudience;
          env = blank_to_none environmentName;
          trimmed = normalized_token token
      in if trimmed = [] then ret (invalid_result env requiredScopes)
         else if isJwtFormat trimmed
         then validateAccessTokenJwt E trimmed requiredScopes env audience
         else validate_by_id E trimmed None requiredScopes env audience)"

section \<open>Listing\<close>

record token_activity =
  ta_tokenType :: token_type
  ta_tokenId :: string
  ta_clientId :: string
  ta_clientName :: "string option"
  ta_environmentId :: string
  ta_expiresAt :: string
  ta_status :: token_status
  ta_scopeNames :: "string list"
  ta_createdAt :: "string option"
  ta_rotatedFromTokenId :: "string option"

definition mapAccessTokenActivity :: "access_token_activity \<Rightarrow> token_activity" where
  "mapAccessTokenActivity t =
     \<lparr>ta_tokenType = Access, ta_tokenId = aa_tokenId t, ta_clientId = aa_clientId t,
      ta_clientName = aa_clientName t, ta_environmentId = aa_environmentId t,
      ta_expiresAt = aa_expiresAt t, ta_status = aa_status t, ta_scopeNames = aa_scopeNames t,
      ta_createdAt = None, ta_rotatedFromTokenId = None\<rparr>"

definition mapRefreshTokenActivity :: "refresh_token_activity \<Rightarrow> token_activity" where
  "mapRefreshTokenActivity t =
     \<lparr>ta_tokenType = Refresh, ta_tokenId = ra_tokenId t, ta_clientId = ra_clientId t,
      ta_clientName = ra_clientName t, ta_environmentId = ra_environmentId t,
      ta_expiresAt = ra_expiresAt t, ta_status = ra_status t, ta_scopeNames = ra_scopeNames t,
      ta_createdAt = Some (ra_createdAt t), ta_rotatedFromTokenId = ra_rotatedFromTokenId t\<rparr>"

text \<open>
  \<open>items.sort((a, b) => key(b).localeCompare(key(a)))\<close>, a stable sort; the collation is the
  platform's and a parameter.
\<close>

definition activity_key :: "token_activity \<Rightarrow> string" where
  "activity_key a = (case ta_createdAt a of Some c \<Rightarrow> c | None \<Rightarrow> ta_expiresAt a)"

fun insert_activity ::
  "(string \<Rightarrow> string \<Rightarrow> int) \<Rightarrow> token_activity \<Rightarrow> token_activity list \<Rightarrow> token_activity list" where
  "insert_activity localeCompare a [] = [a]"
| "insert_activity localeCompare a (b # bs) =
     (if localeCompare (activity_key b) (activity_key a) \<le> 0 then a # b # bs
      else b # insert_activity localeCompare a bs)"

definition listTokenActivity ::
  "cfg \<Rightarrow> (string \<Rightarrow> string \<Rightarrow> int) \<Rightarrow> string option \<Rightarrow> token_activity list m" where
  "listTokenActivity E localeCompare clientId =
     seq (listAccessTokenActivity E clientId) (\<lambda>access.
     seq (listRefreshTokenActivity E clientId) (\<lambda>refresh.
     ret (foldr (insert_activity localeCompare)
           (List.map mapAccessTokenActivity access @ List.map mapRefreshTokenActivity refresh) [])))"

section \<open>Facts\<close>

lemma getAccessTokenByTokenId_Some:
  assumes "getAccessTokenByTokenId tid w = Some r"
  obtains k c e where "k \<in> set (tokens w)" and "at_token_id k = tid" and "c \<in> set (clients w)"
    and "cl_id c = at_client_id k" and "e \<in> set (environments w)" and "env_id e = cl_environment_id c"
    and "a_expiresAt r = at_expires_at k" and "a_clientId r = cl_client_id c"
    and "a_environmentName r = env_name e" and "a_resource r = at_resource k"
    and "a_apiKeyId r = at_api_key_id k"
    and "a_scopeNames r = scope_names_of w (token_scopes w) (at_id k)"
  using assms
  by (auto simp: getAccessTokenByTokenId_def split: option.splits dest!: find_in_set intro!: that)

lemma validate_by_id_valid:
  assumes "validate_by_id E tid sub req env aud w = (Inr v, t)" and "vr_valid v"
  obtains r where "getAccessTokenByTokenId tid w = Some r" and "toISOString (clock E (ticks w)) < a_expiresAt r"
    and "set req \<subseteq> set (a_scopeNames r)" and "vr_clientId v = Some (a_clientId r)"
    and "\<forall>n. env = Some n \<longrightarrow> js_lower (a_environmentName r) = js_lower n"
    and "\<forall>x. aud = Some x \<longrightarrow> (case a_resource r of Some y \<Rightarrow> y | None \<Rightarrow> a_clientId r) = x"
    and "vr_apiKeyId v = a_apiKeyId r" and "vr_subject v = sub"
  using assms
  by (auto simp: validate_by_id_def validate_record_def invalid_result_def Let_def filter_empty_conv
      split: option.splits intro!: that)

lemma published_keys_state: "published_keys E w = (r, t) \<Longrightarrow> t = w"
  by (auto simp: published_keys_def Let_def split: option.splits r2_answer.splits if_splits)

text \<open>The id a token stands for once it is accepted: itself, or the \<open>jti\<close> it carries.\<close>

definition stands_for :: "cfg \<Rightarrow> world \<Rightarrow> string \<Rightarrow> string \<Rightarrow> bool" where
  "stands_for E w token tid \<longleftrightarrow>
     (if isJwtFormat token
      then (\<exists>keys. published_keys E w = (Inr keys, w) \<and>
              (if keys = [] then decoded_jti E token = Some tid
               else \<exists>payload. jwt_verify E [''RS256''] keys token = Some payload
                      \<and> payload ''jti'' = Some (JString tid)))
      else tid = token)"

lemma validateAccessToken_valid:
  assumes "validateAccessToken E token req env aud w = (Inr v, t)" and "vr_valid v"
  obtains tid sub where "stands_for E w (normalized_token token) tid"
    and "validate_by_id E tid sub req (blank_to_none env) (blank_to_none aud) w = (Inr v, t)"
proof (cases "isJwtFormat (normalized_token token)")
  case False
  with assms show thesis
    by (auto simp: validateAccessToken_def Let_def invalid_result_def stands_for_def split: if_splits intro!: that)
next
  case True
  with assms have run: "validateAccessTokenJwt E (normalized_token token) req (blank_to_none env)
      (blank_to_none aud) w = (Inr v, t)"
    by (auto simp: validateAccessToken_def Let_def invalid_result_def split: if_splits)
  then obtain keys w' where keys0: "published_keys E w = (Inr keys, w')"
    by (auto simp: validateAccessTokenJwt_def seq_Inr)
  have keys: "published_keys E w = (Inr keys, w)" using published_keys_state [OF keys0] keys0 by simp
  show thesis
  proof (cases "keys = []")
    case True
    with run keys assms(2) obtain j where "decoded_jti E (normalized_token token) = Some j"
      "validate_by_id E j None req (blank_to_none env) (blank_to_none aud) w = (Inr v, t)"
      by (auto simp: validateAccessTokenJwt_def seq_def Let_def invalid_result_def split: option.splits if_splits)
    with \<open>isJwtFormat _\<close> keys True show thesis by (intro that) (auto simp: stands_for_def)
  next
    case False
    with run keys assms(2) obtain payload j where "jwt_verify E [''RS256''] keys (normalized_token token) = Some payload"
      "payload ''jti'' = Some (JString j)"
      "validate_by_id E j (case payload ''sub'' of Some (JString s) \<Rightarrow> Some s | _ \<Rightarrow> None) req
         (blank_to_none env) (blank_to_none aud) w = (Inr v, t)"
      by (auto simp: validateAccessTokenJwt_def seq_def Let_def invalid_result_def
          split: option.splits if_splits json.splits)
    with \<open>isJwtFormat _\<close> keys False show thesis by (intro that) (auto simp: stands_for_def)
  qed
qed

section \<open>Properties\<close>

text \<open>
  C5. A token reported valid stands for a stored row that has not expired, carries every
  required scope, was minted for the expected audience and belongs to a client of the
  expected environment. A JWT is accepted only with a signature the published keys verify
  under RS256, whenever there are published keys.
\<close>

theorem validate_sound:
  assumes "validateAccessToken E token req env aud w = (Inr v, t)" and "vr_valid v"
  shows "\<exists>k \<in> set (tokens w). \<exists>c \<in> set (clients w). \<exists>e \<in> set (environments w).
     cl_id c = at_client_id k \<and> env_id e = cl_environment_id c
     \<and> stands_for E w (normalized_token token) (at_token_id k)
     \<and> toISOString (clock E (ticks w)) < at_expires_at k
     \<and> set req \<subseteq> set (scope_names_of w (token_scopes w) (at_id k))
     \<and> (\<forall>n. blank_to_none env = Some n \<longrightarrow> js_lower (env_name e) = js_lower n)
     \<and> (\<forall>x. blank_to_none aud = Some x \<longrightarrow>
          (case at_resource k of Some y \<Rightarrow> y | None \<Rightarrow> cl_client_id c) = x)
     \<and> vr_apiKeyId v = at_api_key_id k"
proof -
  obtain tid sub where st: "stands_for E w (normalized_token token) tid"
    and "validate_by_id E tid sub req (blank_to_none env) (blank_to_none aud) w = (Inr v, t)"
    by (rule validateAccessToken_valid [OF assms])
  from this(2) obtain r where r: "getAccessTokenByTokenId tid w = Some r" "toISOString (clock E (ticks w)) < a_expiresAt r"
    "set req \<subseteq> set (a_scopeNames r)" "\<forall>n. blank_to_none env = Some n \<longrightarrow> js_lower (a_environmentName r) = js_lower n"
    "\<forall>x. blank_to_none aud = Some x \<longrightarrow> (case a_resource r of Some y \<Rightarrow> y | None \<Rightarrow> a_clientId r) = x"
    "vr_apiKeyId v = a_apiKeyId r"
    by (rule validate_by_id_valid [OF _ assms(2)])
  from r(1) show ?thesis
  proof (rule getAccessTokenByTokenId_Some)
    fix k c e
    assume k: "k \<in> set (tokens w)" "at_token_id k = tid" "c \<in> set (clients w)"
      "cl_id c = at_client_id k" "e \<in> set (environments w)" "env_id e = cl_environment_id c"
      "a_expiresAt r = at_expires_at k" "a_clientId r = cl_client_id c"
      "a_environmentName r = env_name e" "a_resource r = at_resource k" "a_apiKeyId r = at_api_key_id k"
      "a_scopeNames r = scope_names_of w (token_scopes w) (at_id k)"
    show ?thesis
      by (rule bexI [of _ k], rule bexI [of _ c], rule bexI [of _ e], intro conjI)
         (use k st r in \<open>simp_all cong: option.case_cong\<close>)
  qed
qed

lemma revokeAccess_active:
  assumes "getAccessTokenByTokenId tid u = Some r" and "tokens u =
      List.map (\<lambda>t. if at_token_id t = tid then shorten now t else t) ts"
  shows "a_expiresAt r \<le> now"
proof -
  obtain k where k: "k \<in> set (tokens u)" "at_token_id k = tid" "a_expiresAt r = at_expires_at k"
    by (rule getAccessTokenByTokenId_Some [OF assms(1)])
  from k(1) obtain x where "k = (if at_token_id x = tid then shorten now x else x)"
    unfolding assms(2) set_map by (elim imageE) (rule that)
  with k(2,3) show ?thesis by (auto split: if_splits)
qed

text \<open>
  An access token revoked by value is not active any more: in every later state that still
  has the same token rows, however required scopes, environment and audience are chosen.
  (Verifying a JWT returns the claims that decoding it returns.)
\<close>

theorem revoked_access_token_inactive:
  assumes "revokeTokenByValue E (Some tok) w = (Inr \<lparr>mr_done = True, mr_tokenType = Some Access\<rparr>, t)"
    and "tokens u = tokens t" and "clock E (ticks w) \<le> clock E (ticks u)" and "clock E (ticks u) < y10k"
    and verify: "\<And>ks p. jwt_verify E [''RS256''] ks (js_trim tok) = Some p \<Longrightarrow> decode_jwt E (js_trim tok) = Some p"
    and "validateAccessToken E (Some tok) req env aud u = (Inr v, u')"
  shows "\<not> vr_valid v"
proof
  assume "vr_valid v"
  let ?tid = "access_token_id E (js_trim tok)" and ?now = "toISOString (clock E (ticks w))"
  obtain tid sub where st: "stands_for E u (js_trim tok) tid"
    and "validate_by_id E tid sub req (blank_to_none env) (blank_to_none aud) u = (Inr v, u')"
    using validateAccessToken_valid [OF assms(6) \<open>vr_valid v\<close>] by (auto simp: normalized_token_def)
  from this(2) obtain r where r: "getAccessTokenByTokenId tid u = Some r" "toISOString (clock E (ticks u)) < a_expiresAt r"
    by (rule validate_by_id_valid [OF _ \<open>vr_valid v\<close>])
  have "tid = ?tid"
    using st verify by (auto simp: stands_for_def access_token_id_def decoded_jti_def split: if_splits)
  moreover have "tokens t = List.map (\<lambda>k. if at_token_id k = ?tid then shorten ?now k else k) (tokens w)"
    using assms(1)
    by (auto simp: revokeTokenByValue_def Let_def normalized_token_def revokeAccessTokenByTokenId_def run_seq
        split: option.splits if_splits sum.splits prod.splits)
  ultimately have "a_expiresAt r \<le> ?now"
    using revokeAccess_active [OF r(1)] assms(2) by simp
  moreover have "?now \<le> toISOString (clock E (ticks u))" using assms(3,4) by (simp add: iso_le_iff)
  ultimately show False using r(2) by (meson leD order_trans)
qed

lemma linked_scope_names_filter:
  assumes "\<And>l. l \<in> set links \<Longrightarrow> lk_owner l = owner \<Longrightarrow> P l"
  shows "linked_scope_names w (filter P links) owner = linked_scope_names w links owner"
  using assms by (induction links) (auto simp: linked_scope_names_def)

lemma cleanup_run:
  "cleanupTokenArtifacts E False w = (Inr res, t) \<longleftrightarrow>
     (let now = toISOString (clock E (ticks w));
          w1 = delete_tokens (\<lambda>k. at_expires_at k \<le> now) (w\<lparr>ticks := Suc (ticks w)\<rparr>);
          w2 = delete_refresh (\<lambda>r. rt_expires_at r \<le> now) w1;
          w3 = delete_refresh (\<lambda>r. rt_revoked_at r \<noteq> None) w2;
          a = length (filter (\<lambda>k. at_expires_at k \<le> now) (tokens w));
          e = length (filter (\<lambda>r. rt_expires_at r \<le> now) (refresh_tokens w1));
          r = length (filter (\<lambda>r. rt_revoked_at r \<noteq> None) (refresh_tokens w2));
          c = length (filter (\<lambda>r. ac_used_at r \<noteq> None \<or> ac_expires_at r \<le> now) (authorization_codes w3))
      in t = delete_codes (\<lambda>r. ac_used_at r \<noteq> None \<or> ac_expires_at r \<le> now) w3
         \<and> res = \<lparr>accessTokensDeleted = a, refreshTokensExpiredDeleted = e,
            refreshTokensRevokedDeleted = r, authorizationCodesDeleted = c, totalDeleted = a + e + r + c\<rparr>)"
  by (auto simp: cleanupTokenArtifacts_def deleteExpiredAccessTokens_def deleteExpired_def deleteRevoked_def
      deleteUsedOrExpired_def Let_def)

lemma clear_parent_ref_simps [simp]:
  "rt_id (clear_parent_ref d r) = rt_id r" "rt_revoked_at (clear_parent_ref d r) = rt_revoked_at r"
  "rt_expires_at (clear_parent_ref d r) = rt_expires_at r"
  "rt_refresh_token_id (clear_parent_ref d r) = rt_refresh_token_id r"
  by (auto simp: clear_parent_ref_def split: option.splits)

lemma delete_simps [simp]:
  "tokens (delete_tokens P w) = filter (\<lambda>k. \<not> P k) (tokens w)"
  "token_scopes (delete_tokens P w) = filter (\<lambda>l. lk_owner l \<notin> at_id ` {k \<in> set (tokens w). P k}) (token_scopes w)"
  "List.map rt_id (refresh_tokens (delete_tokens P w)) = List.map rt_id (refresh_tokens w)"
  "length (refresh_tokens (delete_tokens P w)) = length (refresh_tokens w)"
  "authorization_codes (delete_tokens P w) = authorization_codes w"
  "authorization_code_scopes (delete_tokens P w) = authorization_code_scopes w"
  "tokens (delete_refresh Q w) = tokens w" "token_scopes (delete_refresh Q w) = token_scopes w"
  "authorization_codes (delete_refresh Q w) = authorization_codes w"
  "authorization_code_scopes (delete_refresh Q w) = authorization_code_scopes w"
  "length (refresh_tokens (delete_refresh Q w)) = length (filter (\<lambda>r. \<not> Q r) (refresh_tokens w))"
  "tokens (delete_codes R w) = tokens w" "token_scopes (delete_codes R w) = token_scopes w"
  "refresh_tokens (delete_codes R w) = refresh_tokens w"
  "authorization_codes (delete_codes R w) = filter (\<lambda>r. \<not> R r) (authorization_codes w)"
  "authorization_code_scopes (delete_codes R w) =
     filter (\<lambda>l. lk_owner l \<notin> ac_id ` {r \<in> set (authorization_codes w). R r}) (authorization_code_scopes w)"
  by (simp_all add: delete_tokens_def delete_refresh_def delete_codes_def Let_def)

lemma delete_frame [simp]:
  "clients (delete_tokens P w) = clients w" "environments (delete_tokens P w) = environments w"
  "client_scopes (delete_tokens P w) = client_scopes w" "scopes (delete_tokens P w) = scopes w"
  "clients (delete_refresh Q w) = clients w" "environments (delete_refresh Q w) = environments w"
  "client_scopes (delete_refresh Q w) = client_scopes w" "scopes (delete_refresh Q w) = scopes w"
  "clients (delete_codes R w) = clients w" "environments (delete_codes R w) = environments w"
  "client_scopes (delete_codes R w) = client_scopes w" "scopes (delete_codes R w) = scopes w"
  by (simp_all add: delete_tokens_def delete_refresh_def delete_codes_def Let_def)

lemma delete_refresh_ids:
  assumes "\<And>d r. Q (clear_parent_ref d r) = Q r"
  shows "List.map rt_id (filter Q (refresh_tokens (delete_refresh P w)))
    = List.map rt_id (filter (\<lambda>r. Q r \<and> \<not> P r) (refresh_tokens w))"
  by (simp add: delete_refresh_def Let_def filter_map o_def assms conj_commute)

lemma delete_tokens_refresh_ids:
  assumes "\<And>d r. Q (clear_access_ref d r) = Q r"
  shows "List.map rt_id (filter Q (refresh_tokens (delete_tokens P w))) = List.map rt_id (filter Q (refresh_tokens w))"
  by (simp add: delete_tokens_def Let_def filter_map o_def assms)

text \<open>
  C36. Cleanup deletes the expired access tokens, the expired or revoked refresh tokens and
  the used or expired codes, keeps every other row (a kept refresh token may lose a reference
  to a deleted row), and reports their number.
\<close>

theorem cleanup_exact:
  assumes "cleanupTokenArtifacts E False w = (Inr res, t)"
  shows "tokens t = filter (\<lambda>k. \<not> at_expires_at k \<le> toISOString (clock E (ticks w))) (tokens w)
     \<and> List.map rt_id (refresh_tokens t) = List.map rt_id (filter (\<lambda>r. rt_revoked_at r = None
           \<and> \<not> rt_expires_at r \<le> toISOString (clock E (ticks w))) (refresh_tokens w))
     \<and> authorization_codes t = filter (\<lambda>r. ac_used_at r = None
           \<and> \<not> ac_expires_at r \<le> toISOString (clock E (ticks w))) (authorization_codes w)
     \<and> totalDeleted res + length (tokens t) + length (refresh_tokens t) + length (authorization_codes t)
         = length (tokens w) + length (refresh_tokens w) + length (authorization_codes w)"
proof -
  let ?now = "toISOString (clock E (ticks w))"
  define w1 where "w1 = delete_tokens (\<lambda>k. at_expires_at k \<le> ?now) (w\<lparr>ticks := Suc (ticks w)\<rparr>)"
  define w2 where "w2 = delete_refresh (\<lambda>r. rt_expires_at r \<le> ?now) w1"
  define w3 where "w3 = delete_refresh (\<lambda>r. rt_revoked_at r \<noteq> None) w2"
  have run: "t = delete_codes (\<lambda>r. ac_used_at r \<noteq> None \<or> ac_expires_at r \<le> ?now) w3"
    and total: "totalDeleted res = length (filter (\<lambda>k. at_expires_at k \<le> ?now) (tokens w))
       + length (filter (\<lambda>r. rt_expires_at r \<le> ?now) (refresh_tokens w1))
       + length (filter (\<lambda>r. rt_revoked_at r \<noteq> None) (refresh_tokens w2))
       + length (filter (\<lambda>r. ac_used_at r \<noteq> None \<or> ac_expires_at r \<le> ?now) (authorization_codes w3))"
    using assms by (simp_all add: cleanup_run Let_def w1_def w2_def w3_def)
  have keep: "length (filter P xs) + length (filter (\<lambda>x. \<not> P x) xs) = length xs" for P and xs :: "'a list"
    by (rule sum_length_filter_compl)
  have tk: "tokens t = filter (\<lambda>k. \<not> at_expires_at k \<le> ?now) (tokens w)"
    by (simp add: run w3_def w2_def w1_def)
  have cd: "authorization_codes t = filter (\<lambda>r. \<not> (ac_used_at r \<noteq> None \<or> ac_expires_at r \<le> ?now)) (authorization_codes w)"
    "authorization_codes w3 = authorization_codes w"
    by (simp_all add: run w3_def w2_def w1_def)
  have r1: "length (refresh_tokens w1) = length (refresh_tokens w)"
    by (simp add: w1_def)
  have r2: "length (refresh_tokens w2) = length (filter (\<lambda>r. \<not> rt_expires_at r \<le> ?now) (refresh_tokens w1))"
    by (simp add: w2_def)
  have r3: "length (refresh_tokens t) = length (filter (\<lambda>r. \<not> rt_revoked_at r \<noteq> None) (refresh_tokens w2))"
    by (simp add: run w3_def)
  have rf: "List.map rt_id (refresh_tokens t) = List.map rt_id (filter (\<lambda>r. rt_revoked_at r = None
           \<and> \<not> rt_expires_at r \<le> ?now) (refresh_tokens w))"
  proof -
    have "List.map rt_id (refresh_tokens t) = List.map rt_id (filter (\<lambda>r. True \<and> \<not> rt_revoked_at r \<noteq> None) (refresh_tokens w2))"
      using delete_refresh_ids [of "\<lambda>r. True" "\<lambda>r. rt_revoked_at r \<noteq> None" w2] by (simp add: run w3_def)
    also have "\<dots> = List.map rt_id (filter (\<lambda>r. rt_revoked_at r = None) (refresh_tokens w2))"
      by simp
    also have "\<dots> = List.map rt_id (filter (\<lambda>r. rt_revoked_at r = None \<and> \<not> rt_expires_at r \<le> ?now) (refresh_tokens w1))"
      unfolding w2_def by (rule delete_refresh_ids) simp
    also have "\<dots> = List.map rt_id (filter (\<lambda>r. rt_revoked_at r = None \<and> \<not> rt_expires_at r \<le> ?now) (refresh_tokens w))"
      unfolding w1_def by (subst delete_tokens_refresh_ids) simp_all
    finally show ?thesis .
  qed
  have cd': "authorization_codes t = filter (\<lambda>r. ac_used_at r = None \<and> \<not> ac_expires_at r \<le> ?now) (authorization_codes w)"
    unfolding cd(1) by (intro filter_cong) auto
  have sum: "totalDeleted res + length (tokens t) + length (refresh_tokens t) + length (authorization_codes t)
         = length (tokens w) + length (refresh_tokens w) + length (authorization_codes w)"
    unfolding total tk cd r3
    using r1 r2 keep [of "\<lambda>k. at_expires_at k \<le> ?now" "tokens w"]
      keep [of "\<lambda>r. rt_expires_at r \<le> ?now" "refresh_tokens w1"]
      keep [of "\<lambda>r. rt_revoked_at r \<noteq> None" "refresh_tokens w2"]
      keep [of "\<lambda>r. ac_used_at r \<noteq> None \<or> ac_expires_at r \<le> ?now" "authorization_codes w"]
    by linarith
  show ?thesis using tk rf cd' sum by (intro conjI)
qed

lemma find_append_new: "(\<And>y. y \<in> set xs \<Longrightarrow> \<not> P y) \<Longrightarrow> P x \<Longrightarrow> find P (xs @ [x]) = Some x"
  by (induction xs) auto

lemma find_filter_keep: "find P xs = Some k \<Longrightarrow> Q k \<Longrightarrow> find P (filter Q xs) = Some k"
  by (induction xs) (auto split: if_splits)

lemma distinct_key_in:
  assumes "distinct (List.map f xs)" and "x \<in> set xs" and "f x \<in> f ` {y \<in> set xs. P y}"
  shows "P x"
proof -
  from assms(3) obtain y where y: "y \<in> set xs" "P y" "f x = f y" by blast
  from assms(1) have "inj_on f (set xs)" by (simp add: distinct_map)
  then have "x = y" using y(3) assms(2) y(1) by (rule inj_onD)
  with y(2) show ?thesis by simp
qed

lemma linked_scope_names_world:
  "client_scopes t = client_scopes w \<Longrightarrow> scopes t = scopes w \<Longrightarrow> linked_scope_names t = linked_scope_names w"
  by (intro ext) (simp only: linked_scope_names_def)

lemma cleanup_tables:
  assumes "cleanupTokenArtifacts E False w = (Inr res, t)"
  defines "now \<equiv> toISOString (clock E (ticks w))"
  shows "tokens t = filter (\<lambda>k. \<not> at_expires_at k \<le> now) (tokens w)"
    and "token_scopes t = filter (\<lambda>l. lk_owner l \<notin> at_id ` {k \<in> set (tokens w). at_expires_at k \<le> now}) (token_scopes w)"
    and "authorization_codes t = filter (\<lambda>r. \<not> (ac_used_at r \<noteq> None \<or> ac_expires_at r \<le> now)) (authorization_codes w)"
    and "authorization_code_scopes t = filter (\<lambda>l. lk_owner l \<notin> ac_id `
         {r \<in> set (authorization_codes w). ac_used_at r \<noteq> None \<or> ac_expires_at r \<le> now}) (authorization_code_scopes w)"
    and "clients t = clients w" and "environments t = environments w" and "client_scopes t = client_scopes w"
    and "scopes t = scopes w"
proof -
  from assms(1) have t: "t = delete_codes (\<lambda>r. ac_used_at r \<noteq> None \<or> ac_expires_at r \<le> now)
    (delete_refresh (\<lambda>r. rt_revoked_at r \<noteq> None) (delete_refresh (\<lambda>r. rt_expires_at r \<le> now)
      (delete_tokens (\<lambda>k. at_expires_at k \<le> now) (w\<lparr>ticks := Suc (ticks w)\<rparr>))))"
    unfolding cleanup_run Let_def now_def by blast
  show "tokens t = filter (\<lambda>k. \<not> at_expires_at k \<le> now) (tokens w)" by (simp add: t)
  show "token_scopes t = filter (\<lambda>l. lk_owner l \<notin> at_id ` {k \<in> set (tokens w). at_expires_at k \<le> now}) (token_scopes w)"
    by (simp add: t)
  show "authorization_codes t = filter (\<lambda>r. \<not> (ac_used_at r \<noteq> None \<or> ac_expires_at r \<le> now)) (authorization_codes w)"
    by (simp add: t)
  show "authorization_code_scopes t = filter (\<lambda>l. lk_owner l \<notin> ac_id `
         {r \<in> set (authorization_codes w). ac_used_at r \<noteq> None \<or> ac_expires_at r \<le> now}) (authorization_code_scopes w)"
    by (simp add: t)
  show "clients t = clients w" "environments t = environments w" "client_scopes t = client_scopes w"
    "scopes t = scopes w" by (simp_all add: t)
qed

text \<open>
  Cleanup is invisible to a holder of a live access token or a live code: looking it up
  gives the same record, scopes included, before and after.
\<close>

theorem cleanup_keeps_live:
  assumes "cleanupTokenArtifacts E False w = (Inr res, t)"
    and "distinct (List.map at_id (tokens w))" and "distinct (List.map ac_id (authorization_codes w))"
  shows "(\<forall>tid r. getAccessTokenByTokenId tid w = Some r \<longrightarrow> toISOString (clock E (ticks w)) < a_expiresAt r
            \<longrightarrow> getAccessTokenByTokenId tid t = Some r)
     \<and> (\<forall>c ac. getByCodeId c w = Some ac \<longrightarrow> ac_used_at (code_row ac) = None
            \<longrightarrow> toISOString (clock E (ticks w)) < ac_expires_at (code_row ac) \<longrightarrow> getByCodeId c t = Some ac)"
proof (intro conjI allI impI)
  let ?now = "toISOString (clock E (ticks w))"
  note tables = cleanup_tables [OF assms(1)]
  fix tid r
  assume look: "getAccessTokenByTokenId tid w = Some r" and live: "?now < a_expiresAt r"
  then obtain k where k: "find (\<lambda>t. at_token_id t = tid) (tokens w) = Some k" "a_expiresAt r = at_expires_at k"
    by (auto simp: getAccessTokenByTokenId_def split: option.splits)
  have here: "find (\<lambda>t. at_token_id t = tid) (tokens t) = Some k"
    unfolding tables(1) using k live by (intro find_filter_keep) auto
  have "at_id k \<notin> at_id ` {k \<in> set (tokens w). at_expires_at k \<le> ?now}"
    using distinct_key_in [OF assms(2), of k] find_in_set [OF k(1)] live k(2) by (metis leD)
  then have "linked_scope_names w (token_scopes t) (at_id k) = linked_scope_names w (token_scopes w) (at_id k)"
    unfolding tables(2) by (intro linked_scope_names_filter) auto
  then have "scope_names_of t (token_scopes t) (at_id k) = scope_names_of w (token_scopes w) (at_id k)"
    by (simp add: scope_names_of_def linked_scope_names_world [OF tables(7,8)])
  with look here k(1) show "getAccessTokenByTokenId tid t = Some r"
    by (auto simp: getAccessTokenByTokenId_def tables(5,6) split: option.splits)
next
  let ?now = "toISOString (clock E (ticks w))"
  note tables = cleanup_tables [OF assms(1)]
  fix c ac
  assume look: "getByCodeId c w = Some ac" and unused: "ac_used_at (code_row ac) = None"
    and live: "?now < ac_expires_at (code_row ac)"
  let ?k = "code_row ac"
  let ?dead = "\<lambda>r. ac_used_at r \<noteq> None \<or> ac_expires_at r \<le> ?now"
  from look have k: "find (\<lambda>r. ac_code_id r = c) (authorization_codes w) = Some ?k"
    by (auto simp: getByCodeId_def)
  have here: "find (\<lambda>r. ac_code_id r = c) (authorization_codes t) = Some ?k"
    unfolding tables(3) using k live unused by (intro find_filter_keep) auto
  have "ac_id ?k \<notin> ac_id ` {r \<in> set (authorization_codes w). ?dead r}"
    using distinct_key_in [OF assms(3), of ?k ?dead] find_in_set [OF k] live unused by (metis leD)
  then have "filter (\<lambda>l. lk_owner l = ac_id ?k) (authorization_code_scopes t)
      = filter (\<lambda>l. lk_owner l = ac_id ?k) (authorization_code_scopes w)"
    unfolding tables(4) filter_filter by (intro filter_cong refl) metis
  with look here k show "getByCodeId c t = Some ac" by (auto simp: getByCodeId_def)
qed

lemma opaque_token_shape:
  assumes "tok = ''at_'' @ hex_bytes bs"
  shows "normalized_token (Some tok) = tok" and "tok \<noteq> []" and "\<not> isJwtFormat tok"
proof -
  have hex: "c \<in> set (hex_bytes bs) \<Longrightarrow> (of_char c :: nat) \<in> {48..57} \<union> {97..102}" for c
  proof -
    assume "c \<in> set (hex_bytes bs)"
    then obtain b where c: "c \<in> set (hex_byte b)" by (auto simp: hex_bytes_def)
    have "unat b < 256" using unsigned_less [of b, where ?'a = nat] by simp
    then have "unat b div 16 < 16" "unat b mod 16 < 16" by auto
    moreover have "c = hex_digit (unat b div 16) \<or> c = hex_digit (unat b mod 16)"
      using c by (auto simp: hex_byte_def)
    ultimately show "(of_char c :: nat) \<in> {48..57} \<union> {97..102}" using hex_digit_range by metis
  qed
  have chars: "c \<in> set tok \<Longrightarrow> \<not> js_space c \<and> c \<noteq> CHR ''.''" for c
    using hex [of c] assms by (auto simp: js_space_def Let_def)
  then have trim: "js_trim tok = tok" by (intro js_trim_free) auto
  then show "normalized_token (Some tok) = tok" by (simp add: normalized_token_def)
  show "tok \<noteq> []" using assms by simp
  have "split_on CHR ''.'' tok = [tok]" using chars by (intro split_on_free) auto
  then show "\<not> isJwtFormat tok" by (simp add: isJwtFormat_def trim Let_def)
qed

lemma linked_scope_names_append_other:
  "\<forall>l \<in> set old. lk_owner l \<noteq> owner \<Longrightarrow>
     linked_scope_names w (old @ new) owner = linked_scope_names w new owner"
  by (induction old) (auto simp: linked_scope_names_def)

lemma linked_names_of_grants:
  assumes "List.map lk_client_scope_id ls = ids" and "\<forall>l \<in> set ls. lk_owner l = owner"
    and "ids = List.map g_clientScopeId gs" and "names = List.map g_scopeName gs"
    and "set gs \<subseteq> set (client_scope_grants i w)"
    and "distinct (List.map cs_id (client_scopes w))" and "distinct (List.map sc_id (scopes w))"
  shows "set (linked_scope_names w ls owner) = set names"
proof -
  have unique: "cs = cs'" if "cs \<in> set (client_scopes w)" "cs' \<in> set (client_scopes w)" "cs_id cs = cs_id cs'" for cs cs'
    using assms(6) that by (auto simp: distinct_map dest: inj_onD)
  have unique': "x = y" if "x \<in> set (scopes w)" "y \<in> set (scopes w)" "sc_id x = sc_id y" for x y
    using assms(7) that by (auto simp: distinct_map dest: inj_onD)
  have grant: "\<exists>cs \<in> set (client_scopes w). cs_id cs = g_clientScopeId g \<and>
      (\<exists>s \<in> set (scopes w). sc_id s = cs_scope_id cs \<and> sc_scope_name s = g_scopeName g)" if "g \<in> set gs" for g
  proof -
    from assms(5) that have "g \<in> set (client_scope_grants i w)" by blast
    then show ?thesis unfolding set_client_scope_grants set_grants_of_row by metis
  qed
  have ids: "lk_client_scope_id ` set ls = g_clientScopeId ` set gs"
    using assms(1,3) by (metis list.set_map)
  show ?thesis
  proof (intro subset_antisym subsetI)
    fix n
    assume "n \<in> set (linked_scope_names w ls owner)"
    then obtain l cs s where l: "l \<in> set ls" and cs: "cs \<in> set (client_scopes w)" "cs_id cs = lk_client_scope_id l"
      and s: "s \<in> set (scopes w)" "sc_id s = cs_scope_id cs" "sc_scope_name s = n"
      by (auto simp: linked_scope_names_in)
    from l ids obtain g where g: "g \<in> set gs" "g_clientScopeId g = lk_client_scope_id l" by (metis imageE imageI)
    from grant [OF g(1)] obtain cs' s' where "cs' \<in> set (client_scopes w)" "cs_id cs' = g_clientScopeId g"
      "s' \<in> set (scopes w)" "sc_id s' = cs_scope_id cs'" "sc_scope_name s' = g_scopeName g" by blast
    then have "g_scopeName g = n" using unique unique' cs s g(2) by metis
    with g(1) assms(4) show "n \<in> set names" by auto
  next
    fix n
    assume "n \<in> set names"
    with assms(4) obtain g where g: "g \<in> set gs" "n = g_scopeName g" by auto
    with ids obtain l where l: "l \<in> set ls" "lk_client_scope_id l = g_clientScopeId g" by (metis imageE imageI)
    with grant [OF g(1)] g(2) assms(2) show "n \<in> set (linked_scope_names w ls owner)"
      unfolding linked_scope_names_in by metis
  qed
qed

text \<open>
  C10. An opaque token validates after it was issued: it is active exactly until its hour is
  over, carries exactly the granted scopes (names without commas, of grants the client
  holds), and is valid iff it is active, has the required scopes and matches the expected
  environment and audience.
\<close>

theorem opaque_issue_validates:
  assumes "issue_opaque E p w = (Inr resp, t)"
    and links: "\<forall>l \<in> set (token_scopes w). lk_owner l \<in> at_id ` set (tokens w)"
    and client: "find (\<lambda>c. cl_id c = ip_clientId p) (clients w) = Some c"
    and env: "find (\<lambda>e. env_id e = cl_environment_id c) (environments w) = Some e"
    and grants: "ip_clientScopeIds p = List.map g_clientScopeId gs" "ip_scopeNames p = List.map g_scopeName gs"
      "set gs \<subseteq> set (client_scope_grants i w)"
    and keys: "distinct (List.map cs_id (client_scopes w))" "distinct (List.map sc_id (scopes w))"
    and names: "\<forall>n \<in> set (ip_scopeNames p). n \<noteq> [] \<and> CHR '','' \<notin> set n"
  shows "\<exists>v u. validateAccessToken E (Some (tr_access_token resp)) req en aud t = (Inr v, u)
     \<and> (vr_active v \<longleftrightarrow> toISOString (clock E (ticks t)) < toISOString (clock E (ticks w) + 3600000))
     \<and> set (vr_tokenScopes v) = set (ip_scopeNames p)
     \<and> (vr_valid v \<longleftrightarrow> vr_active v \<and> set req \<subseteq> set (ip_scopeNames p)
          \<and> (\<forall>n. blank_to_none en = Some n \<longrightarrow> js_lower (env_name e) = js_lower n)
          \<and> (\<forall>a. blank_to_none aud = Some a \<longrightarrow>
               (case ip_resource p of Some r \<Rightarrow> r | None \<Rightarrow> cl_client_id c) = a))"
proof -
  from assms(1) obtain row s bs where iss: "issued p (clock E (ticks w)) row resp s t"
    and tok: "tr_access_token resp = at_token_id row" and s: "s = w\<lparr>ticks := ticks s, draws := draws s\<rparr>"
    and shape: "at_token_id row = ''at_'' @ hex_bytes bs"
    by (rule issue_opaque_Inr) blast
  have s': "tokens s = tokens w" "token_scopes s = token_scopes w" "clients s = clients w"
    "environments s = environments w" "client_scopes s = client_scopes w" "scopes s = scopes w"
    by (subst s, simp)+
  have frame: "only_tokens s t" using iss by (simp add: issued_def)
  then have t': "clients t = clients w" "client_scopes t = client_scopes w" "scopes t = scopes w"
    by (simp_all add: only_tokens_simps s')
  have envs: "environments t = environments w"
    using only_tokens_simps(10) [OF frame] s'(4) by simp
  have lt: "linked_scope_names t = linked_scope_names w" by (rule linked_scope_names_world [OF t'(2,3)])
  from iss obtain ls where row: "at_client_id row = ip_clientId p" "at_resource row = ip_resource p"
      "at_expires_at row = toISOString (clock E (ticks w) + 3600000)"
    and tk: "tokens t = tokens w @ [row]" and new: "at_id row \<notin> at_id ` set (tokens w)"
      "at_token_id row \<notin> at_token_id ` set (tokens w)"
    and ls: "token_scopes t = token_scopes w @ ls" "List.map lk_client_scope_id ls = ip_clientScopeIds p"
      "\<forall>l \<in> set ls. lk_owner l = at_id row"
    by (auto simp: issued_def links_added_def s' ACCESS_TOKEN_TTL_SECONDS_def)
  have old: "\<forall>l \<in> set (token_scopes w). lk_owner l \<noteq> at_id row" using links new(1) by metis
  have names_row: "set (linked_scope_names w ls (at_id row)) = set (ip_scopeNames p)"
    by (rule linked_names_of_grants [OF ls(2,3) grants keys])
  have find_row: "find (\<lambda>k. at_token_id k = at_token_id row) (tokens t) = Some row"
    unfolding tk using new(2) by (intro find_append_new) (metis imageI, rule refl)
  let ?r = "\<lparr>a_id = at_id row, a_tokenId = at_token_id row, a_clientId = cl_client_id c,
     a_environmentId = cl_environment_id c, a_environmentName = env_name e, a_expiresAt = at_expires_at row,
     a_scopeNames = scope_names_of w ls (at_id row), a_resource = at_resource row, a_apiKeyId = at_api_key_id row\<rparr>"
  have sc: "scope_names_of t (token_scopes t) (at_id row) = scope_names_of w ls (at_id row)"
    by (simp add: scope_names_of_def lt ls(1) linked_scope_names_append_other [OF old])
  have look: "getAccessTokenByTokenId (at_token_id row) t = Some ?r"
    using find_row client env by (simp add: getAccessTokenByTokenId_def t' envs row sc)
  have scn: "set (scope_names_of w ls (at_id row)) = set (ip_scopeNames p)"
    using scope_names_csv_group_concat [of "linked_scope_names w ls (at_id row)"] names names_row
    by (simp add: scope_names_of_def)
  let ?v = "validate_record ?r None req (blank_to_none en) (blank_to_none aud) (toISOString (clock E (ticks t)))"
  have "validateAccessToken E (Some (tr_access_token resp)) req en aud t = (Inr ?v, t\<lparr>ticks := Suc (ticks t)\<rparr>)"
    using opaque_token_shape [OF shape] look
    by (simp add: validateAccessToken_def tok Let_def validate_by_id_def)
  moreover have "vr_active ?v \<longleftrightarrow> toISOString (clock E (ticks t)) < toISOString (clock E (ticks w) + 3600000)"
    by (simp add: validate_record_def Let_def row)
  moreover have "set (vr_tokenScopes ?v) = set (ip_scopeNames p)"
    by (simp add: validate_record_def Let_def scn)
  moreover have "vr_valid ?v \<longleftrightarrow> vr_active ?v \<and> set req \<subseteq> set (ip_scopeNames p)
          \<and> (\<forall>n. blank_to_none en = Some n \<longrightarrow> js_lower (env_name e) = js_lower n)
          \<and> (\<forall>a. blank_to_none aud = Some a \<longrightarrow>
               (case ip_resource p of Some r \<Rightarrow> r | None \<Rightarrow> cl_client_id c) = a)"
    by (auto simp: validate_record_def Let_def scn row filter_empty_conv split: option.splits)
  ultimately show ?thesis by blast
qed

end
