(* ===== verification/AuditLog.thy ===== *)
theory AuditLog
  imports Schema
begin

text \<open>
  The administrators' audit log: \<open>admin-audit-log.service.ts\<close>,
  \<open>admin-audit-log.repository.d1.ts\<close> and the vocabulary of \<open>audit-actions.ts\<close>. Entries are
  only ever added; the listing filters, orders and pages them.
\<close>

section \<open>Vocabulary\<close>

datatype audit_action =
    UserCreate | UserUpdate | UserPasswordChange | UserPasswordReset | UserDelete | UserAdminGrant
    | UserAdminRevoke | ClientCreate | ClientUpdate | ClientSecretRotate | ClientDelete
    | ApiKeyCreate | ApiKeyRevoke | EnvironmentCreate | EnvironmentUpdate | EnvironmentDelete
    | ScopeCreate | ScopeUpdate | ScopeDelete | ConsentRevoke | PasswordPolicyCreate
    | PasswordPolicyUpdate | PasswordPolicyDelete | SiteSettingsUpdate | SiteLogoUpdate
    | SiteAdminApiClientsUpdate

fun audit_action_name :: "audit_action \<Rightarrow> string" where
  "audit_action_name UserCreate = ''user.create''"
| "audit_action_name UserUpdate = ''user.update''"
| "audit_action_name UserPasswordChange = ''user.password_change''"
| "audit_action_name UserPasswordReset = ''user.password_reset''"
| "audit_action_name UserDelete = ''user.delete''"
| "audit_action_name UserAdminGrant = ''user.admin_grant''"
| "audit_action_name UserAdminRevoke = ''user.admin_revoke''"
| "audit_action_name ClientCreate = ''client.create''"
| "audit_action_name ClientUpdate = ''client.update''"
| "audit_action_name ClientSecretRotate = ''client.secret_rotate''"
| "audit_action_name ClientDelete = ''client.delete''"
| "audit_action_name ApiKeyCreate = ''api_key.create''"
| "audit_action_name ApiKeyRevoke = ''api_key.revoke''"
| "audit_action_name EnvironmentCreate = ''environment.create''"
| "audit_action_name EnvironmentUpdate = ''environment.update''"
| "audit_action_name EnvironmentDelete = ''environment.delete''"
| "audit_action_name ScopeCreate = ''scope.create''"
| "audit_action_name ScopeUpdate = ''scope.update''"
| "audit_action_name ScopeDelete = ''scope.delete''"
| "audit_action_name ConsentRevoke = ''consent.revoke''"
| "audit_action_name PasswordPolicyCreate = ''password_policy.create''"
| "audit_action_name PasswordPolicyUpdate = ''password_policy.update''"
| "audit_action_name PasswordPolicyDelete = ''password_policy.delete''"
| "audit_action_name SiteSettingsUpdate = ''site_settings.update''"
| "audit_action_name SiteLogoUpdate = ''site_settings.logo_update''"
| "audit_action_name SiteAdminApiClientsUpdate = ''site_settings.admin_api_clients_update''"

datatype audit_resource =
    UserResource | ClientResource | EnvironmentResource | ScopeResource | ConsentResource
    | ApiKeyResource | PasswordPolicyResource | SiteSettingsResource

fun audit_resource_name :: "audit_resource \<Rightarrow> string" where
  "audit_resource_name UserResource = ''user''"
| "audit_resource_name ClientResource = ''client''"
| "audit_resource_name EnvironmentResource = ''environment''"
| "audit_resource_name ScopeResource = ''scope''"
| "audit_resource_name ConsentResource = ''consent''"
| "audit_resource_name ApiKeyResource = ''api_key''"
| "audit_resource_name PasswordPolicyResource = ''password_policy''"
| "audit_resource_name SiteSettingsResource = ''site_settings''"

lemma audit_action_name_inject: "audit_action_name a = audit_action_name b \<longleftrightarrow> a = b"
  by (cases a; cases b) simp_all

section \<open>Writing\<close>

definition audit_violated :: "audit_row \<Rightarrow> world \<Rightarrow> string option" where
  "audit_violated r w =
     (if al_id r \<in> set (List.map al_id (admin_audit_log w))
      then Some ''UNIQUE constraint failed: admin_audit_log.id'' else None)"

definition insert_audit :: "audit_row \<Rightarrow> unit m" where
  "insert_audit r =
     guarded (audit_violated r) (\<lambda>w. w\<lparr>admin_audit_log := admin_audit_log w @ [r]\<rparr>)"

definition buildRow ::
  "cfg \<Rightarrow> string option \<Rightarrow> string \<Rightarrow> string \<Rightarrow> string option \<Rightarrow> (string \<times> detail) list \<Rightarrow> audit_row m" where
  "buildRow E actor action resourceType resourceId details =
     seq (randomUUID E) (\<lambda>i.
     seq (now_iso E) (\<lambda>now.
     ret \<lparr>al_id = i, al_actor_user_id = actor, al_action = action, al_resource_type = resourceType,
          al_resource_id = resourceId, al_details = Some details, al_created_at = now\<rparr>))"

definition logAction ::
  "cfg \<Rightarrow> string option \<Rightarrow> string \<Rightarrow> string \<Rightarrow> string option \<Rightarrow> (string \<times> detail) list \<Rightarrow> unit m" where
  "logAction E actor action resourceType resourceId details =
     seq (buildRow E actor action resourceType resourceId details) insert_audit"

section \<open>Reading\<close>

text \<open>SQLite's \<open>LIKE\<close>: \<open>%\<close> matches any run, \<open>_\<close> one character, ASCII letters match in either case.\<close>

definition ascii_lower :: "char \<Rightarrow> char" where
  "ascii_lower c = (if CHR ''A'' \<le> c \<and> c \<le> CHR ''Z'' then char_of ((of_char c :: nat) + 32) else c)"

fun sql_like :: "string \<Rightarrow> string \<Rightarrow> bool" where
  "sql_like [] [] = True"
| "sql_like [] (x # xs) = False"
| "sql_like (p # ps) [] = (p = CHR ''%'' \<and> sql_like ps [])"
| "sql_like (p # ps) (x # xs) =
     (if p = CHR ''%'' then sql_like ps (x # xs) \<or> sql_like (p # ps) xs
      else (p = CHR ''_'' \<or> ascii_lower p = ascii_lower x) \<and> sql_like ps xs)"

record audit_filter =
  af_actorUserId :: "string option"
  af_action :: "string option"
  af_resourceType :: "string option"
  af_resourceId :: "string option"
  af_sinceIso :: "string option"
  af_untilIso :: "string option"
  af_limit :: "int option"
  af_offset :: "int option"

text \<open>A filter that is \<open>null\<close>, absent or \<open>""\<close> puts no condition.\<close>

definition unless_blank :: "string option \<Rightarrow> (string \<Rightarrow> bool) \<Rightarrow> bool" where
  "unless_blank v P = (case v of None \<Rightarrow> True | Some s \<Rightarrow> s = [] \<or> P s)"

definition audit_matches :: "audit_filter \<Rightarrow> audit_row \<Rightarrow> bool" where
  "audit_matches f r \<longleftrightarrow>
     unless_blank (af_actorUserId f) (\<lambda>s. al_actor_user_id r = Some s)
     \<and> unless_blank (af_action f) (\<lambda>s. sql_like (''%'' @ s @ ''%'') (al_action r))
     \<and> unless_blank (af_resourceType f) (\<lambda>s. al_resource_type r = s)
     \<and> unless_blank (af_resourceId f) (\<lambda>s. al_resource_id r = Some s)
     \<and> unless_blank (af_sinceIso f) (\<lambda>s. s \<le> al_created_at r)
     \<and> unless_blank (af_untilIso f) (\<lambda>s. al_created_at r \<le> s)"

definition page_limit :: "audit_filter \<Rightarrow> nat" where
  "page_limit f = nat (min (max (case af_limit f of None \<Rightarrow> 100 | Some n \<Rightarrow> n) 1) 1000)"

definition page_offset :: "audit_filter \<Rightarrow> nat" where
  "page_offset f = nat (max (case af_offset f of None \<Rightarrow> 0 | Some n \<Rightarrow> n) 0)"

definition actor_username :: "world \<Rightarrow> audit_row \<Rightarrow> string option" where
  "actor_username w r =
     (case al_actor_user_id r of
        None \<Rightarrow> None
      | Some a \<Rightarrow> map_option us_username (find (\<lambda>u. us_id u = a) (users w)))"

text \<open>
  \<open>ORDER BY created_at DESC LIMIT ? OFFSET ?\<close>; rows of one instant come in an order the
  database does not promise.
\<close>

definition listLogs :: "audit_filter \<Rightarrow> world \<Rightarrow> (audit_row \<times> string option) list \<times> nat" where
  "listLogs f w =
     (let rows = filter (audit_matches f) (admin_audit_log w)
      in (List.map (\<lambda>r. (r, actor_username w r))
            (take (page_limit f) (drop (page_offset f) (rev (sort_key al_created_at rows)))),
          length rows))"

section \<open>Facts\<close>

lemma logAction_Inr:
  assumes "logAction E a b c d e w = (Inr u, t)"
  shows "t = w\<lparr>draws := Suc (draws w), ticks := Suc (ticks w), admin_audit_log := admin_audit_log w @
    [\<lparr>al_id = uuid E (draws w), al_actor_user_id = a, al_action = b, al_resource_type = c, al_resource_id = d,
      al_details = Some e, al_created_at = toISOString (clock E (ticks w))\<rparr>]\<rparr>"
  using assms by (auto simp: logAction_def buildRow_def insert_audit_def prog_inv run_seq)

lemma logAction_Inl:
  assumes "logAction E a b c d e w = (Inl x, t)"
  shows "t = w\<lparr>draws := Suc (draws w), ticks := Suc (ticks w)\<rparr>"
    and "x = D1Error ''UNIQUE constraint failed: admin_audit_log.id''"
  using assms
  by (auto simp: logAction_def buildRow_def insert_audit_def prog_inv run_seq audit_violated_def split: if_splits)

text \<open>
  The log only grows: whatever happens, the old entries are still there. Every other table
  is left alone.
\<close>

definition audit_grows :: "world \<Rightarrow> world \<Rightarrow> bool" where
  "audit_grows s t \<longleftrightarrow> (\<exists>rs. t = s\<lparr>draws := draws t, ticks := ticks t, admin_audit_log := admin_audit_log s @ rs\<rparr>)"

lemma logAction_grows: "evolves audit_grows (logAction E a b c d e)"
proof (rule evolvesI)
  fix s r t
  assume run: "logAction E a b c d e s = (r, t)"
  show "audit_grows s t"
  proof (cases r)
    case (Inl x)
    with run have "t = s\<lparr>draws := Suc (draws s), ticks := Suc (ticks s)\<rparr>" by (auto dest: logAction_Inl)
    then show ?thesis by (auto simp: audit_grows_def intro!: exI [of _ "[]"])
  next
    case (Inr u)
    with run show ?thesis by (auto simp: audit_grows_def dest!: logAction_Inr)
  qed
qed

interpretation audit_evolution: evolution audit_grows
proof
  fix s t u :: world
  show "audit_grows s s" by (auto simp: audit_grows_def intro!: exI [of _ "[]"])
  assume "audit_grows s t" and "audit_grows t u"
  then obtain a b where "t = s\<lparr>draws := draws t, ticks := ticks t, admin_audit_log := admin_audit_log s @ a\<rparr>"
    "u = t\<lparr>draws := draws u, ticks := ticks u, admin_audit_log := admin_audit_log t @ b\<rparr>"
    by (auto simp: audit_grows_def)
  then show "audit_grows s u"
    unfolding audit_grows_def by (intro exI [of _ "a @ b"]) (cases s; cases t; cases u; simp)
qed

lemma audit_grows_simps:
  assumes "audit_grows s t"
  shows "api_keys t = api_keys s" "api_key_scopes t = api_key_scopes s" "users t = users s" "clients t = clients s"
    "client_scopes t = client_scopes s" "scopes t = scopes s" "users_environments t = users_environments s"
    "environments t = environments s" "tokens t = tokens s" "refresh_tokens t = refresh_tokens s"
    "redirect_uris t = redirect_uris s" "site_settings t = site_settings s"
proof -
  obtain rs where t: "t = s\<lparr>draws := draws t, ticks := ticks t, admin_audit_log := admin_audit_log s @ rs\<rparr>"
    using assms by (auto simp: audit_grows_def)
  show "api_keys t = api_keys s" "api_key_scopes t = api_key_scopes s" "users t = users s" "clients t = clients s"
    "client_scopes t = client_scopes s" "scopes t = scopes s" "users_environments t = users_environments s"
    "environments t = environments s" "tokens t = tokens s" "refresh_tokens t = refresh_tokens s"
    "redirect_uris t = redirect_uris s" "site_settings t = site_settings s"
    by (subst t, simp)+
qed

text \<open>A page holds at most \<open>page_limit\<close> entries, which match the filter and come newest first.\<close>

lemma page_limit_range: "1 \<le> page_limit f" "page_limit f \<le> 1000"
  by (simp_all add: page_limit_def split: option.splits)

lemma sorted_page: "sorted_wrt (\<lambda>a b. k b \<le> k a) (take n (drop m (rev (sort_key k rs))))"
  for k :: "'a \<Rightarrow> 'b :: linorder"
proof -
  have "sorted_wrt (\<lambda>a b. k a \<le> k b) (sort_key k rs)"
    using sorted_sort_key [of k rs] by (simp add: sorted_map)
  then show ?thesis
    by (simp add: sorted_wrt_rev sorted_wrt_take sorted_wrt_drop)
qed

end
