(* ===== verification/Consent.thy ===== *)
theory Consent
  imports CodeStore RefreshStore Params AuditLog
begin

text \<open>
  Recorded consent: \<open>consent.repository.d1.ts\<close> and \<open>consent.service.ts\<close>. One row per user and
  client holds the union of the scope names the user agreed to, as one string; withdrawing
  consent also ends the user's refresh tokens, access tokens and codes for the client.
\<close>

section \<open>Repository\<close>

definition splitScopes :: "string \<Rightarrow> string list" where
  "splitScopes s = filter (\<lambda>p. p \<noteq> []) (split_spaces s)"

record consent_record =
  cn_id :: string
  cn_userId :: string
  cn_clientId :: string
  cn_scopeNames :: "string list"
  cn_createdAt :: string
  cn_updatedAt :: string

definition toRecord :: "consent_row \<Rightarrow> consent_record" where
  "toRecord r =
     \<lparr>cn_id = co_id r, cn_userId = co_user_id r, cn_clientId = co_client_id r,
      cn_scopeNames = splitScopes (co_scopes r), cn_createdAt = co_created_at r,
      cn_updatedAt = co_updated_at r\<rparr>"

definition consent_of :: "string \<Rightarrow> string \<Rightarrow> consent_row \<Rightarrow> bool" where
  "consent_of userId clientId r \<longleftrightarrow> co_user_id r = userId \<and> co_client_id r = clientId"

definition get_consent :: "string \<Rightarrow> string \<Rightarrow> world \<Rightarrow> consent_record option" where
  "get_consent userId clientId w =
     map_option toRecord (find (consent_of userId clientId) (user_consents w))"

text \<open>
  \<open>ORDER BY c.name, c.client_id\<close>: \<open>NULL\<close> sorts first, here as the empty list.
\<close>

definition null_first :: "string option \<Rightarrow> string list" where
  "null_first v = (case v of None \<Rightarrow> [] | Some s \<Rightarrow> [s])"

definition consents_by_user :: "string \<Rightarrow> world \<Rightarrow> (consent_record \<times> string \<times> string option) list" where
  "consents_by_user userId w =
     sort_key (\<lambda>(r, i, n). [null_first n, [i]])
       (concat (List.map (\<lambda>r. case find (\<lambda>c. cl_id c = co_client_id r) (clients w) of
                                 None \<Rightarrow> []
                               | Some c \<Rightarrow> [(toRecord r, cl_client_id c, cl_name c)])
          (filter (\<lambda>r. co_user_id r = userId) (user_consents w))))"

text \<open>
  \<open>INSERT ... ON CONFLICT(user_id, client_id) DO UPDATE\<close>: the conflict target is looked at
  before the other constraints of the inserted row.
\<close>

definition consent_violated :: "consent_row \<Rightarrow> world \<Rightarrow> string option" where
  "consent_violated r w =
     (if co_id r \<in> set (List.map co_id (user_consents w))
        then Some ''UNIQUE constraint failed: user_consents.id''
      else if co_user_id r \<notin> set (List.map us_id (users w)) then Some ''FOREIGN KEY constraint failed''
      else if co_client_id r \<notin> set (List.map cl_id (clients w)) then Some ''FOREIGN KEY constraint failed''
      else None)"

definition overwrite_consent :: "consent_row \<Rightarrow> consent_row \<Rightarrow> consent_row" where
  "overwrite_consent new r =
     (if consent_of (co_user_id new) (co_client_id new) r
      then r\<lparr>co_scopes := co_scopes new, co_updated_at := co_updated_at new\<rparr> else r)"

definition upsert_consent :: "consent_row \<Rightarrow> unit m" where
  "upsert_consent new = (\<lambda>w.
     if \<exists>r \<in> set (user_consents w). consent_of (co_user_id new) (co_client_id new) r
     then (Inr (), w\<lparr>user_consents := List.map (overwrite_consent new) (user_consents w)\<rparr>)
     else guarded (consent_violated new) (\<lambda>w. w\<lparr>user_consents := user_consents w @ [new]\<rparr>) w)"

definition delete_consent :: "string \<Rightarrow> string \<Rightarrow> bool m" where
  "delete_consent userId clientId =
     updating (\<lambda>w. 0 < length (filter (consent_of userId clientId) (user_consents w)))
       (\<lambda>w. w\<lparr>user_consents := filter (\<lambda>r. \<not> consent_of userId clientId r) (user_consents w)\<rparr>)"

section \<open>Service\<close>

definition getConsentedScopeNames :: "string \<Rightarrow> string \<Rightarrow> world \<Rightarrow> string list" where
  "getConsentedScopeNames userId clientRowId w =
     (case get_consent userId clientRowId w of None \<Rightarrow> [] | Some r \<Rightarrow> cn_scopeNames r)"

definition getUnconsentedScopeNames :: "string \<Rightarrow> string \<Rightarrow> string list \<Rightarrow> world \<Rightarrow> string list" where
  "getUnconsentedScopeNames userId clientRowId scopeNames w =
     filter (\<lambda>n. n \<notin> set (getConsentedScopeNames userId clientRowId w)) scopeNames"

definition merge_scope_names :: "string list \<Rightarrow> string list \<Rightarrow> string list" where
  "merge_scope_names existing scopeNames = sort (uniq (existing @ scopeNames))"

definition record_consent :: "cfg \<Rightarrow> string \<Rightarrow> string \<Rightarrow> string list \<Rightarrow> unit m" where
  "record_consent E userId clientRowId scopeNames =
     seq (reads (get_consent userId clientRowId)) (\<lambda>existing.
     seq (case existing of Some r \<Rightarrow> ret (cn_id r) | None \<Rightarrow> randomUUID E) (\<lambda>i.
     seq (now_iso E) (\<lambda>now.
     upsert_consent
       \<lparr>co_id = i, co_user_id = userId, co_client_id = clientRowId,
        co_scopes = join_with '' ''
          (merge_scope_names (case existing of None \<Rightarrow> [] | Some r \<Rightarrow> cn_scopeNames r) scopeNames),
        co_created_at = now, co_updated_at = now\<rparr>)))"

definition listForUser :: "string \<Rightarrow> world \<Rightarrow> (consent_record \<times> string \<times> string option) list" where
  "listForUser userId w = consents_by_user userId w"

record revoke_consent_result =
  rc_ok :: bool
  rc_accessTokensExpired :: nat
  rc_codesDeleted :: nat

definition revoke_consent :: "cfg \<Rightarrow> string \<Rightarrow> string \<Rightarrow> string option \<Rightarrow> revoke_consent_result m" where
  "revoke_consent E userId clientRowId actorUserId =
     seq (reads (get_consent userId clientRowId)) (\<lambda>existing.
     seq (delete_consent userId clientRowId) (\<lambda>deleted.
     seq (now_iso E) (\<lambda>now.
     seq (revokeAllForSubjectAndClient userId clientRowId now) (\<lambda>accessTokenIds.
     seq (if accessTokenIds \<noteq> [] then expireAccessTokensByIds accessTokenIds now else ret 0) (\<lambda>expired.
     seq (deleteUnusedForSubjectAndClient userId clientRowId) (\<lambda>codesDeleted.
     seq (logAction E actorUserId (audit_action_name ConsentRevoke) (audit_resource_name ConsentResource)
           (Some clientRowId)
           [(''userId'', DText userId),
            (''scopeNames'', DTexts (case existing of None \<Rightarrow> [] | Some r \<Rightarrow> cn_scopeNames r)),
            (''hadConsentRecord'', DFlag deleted), (''accessTokensExpired'', DCount expired),
            (''codesDeleted'', DCount codesDeleted)]) (\<lambda>_.
     ret \<lparr>rc_ok = True, rc_accessTokensExpired = expired, rc_codesDeleted = codesDeleted\<rparr>)))))))"

section \<open>Facts\<close>

abbreviation scope_word :: "string \<Rightarrow> bool" where
  "scope_word n \<equiv> n \<noteq> [] \<and> (\<forall>c \<in> set n. \<not> js_space c)"

lemma splitScopes_words: "n \<in> set (splitScopes s) \<Longrightarrow> scope_word n"
  by (auto simp: splitScopes_def dest: split_spaces_parts)

lemma split_spaces_word: "\<forall>c \<in> set p. \<not> js_space c \<Longrightarrow> split_spaces p = [p]"
proof -
  assume "\<forall>c \<in> set p. \<not> js_space c"
  then have "dropWhile (\<lambda>c. \<not> js_space c) p = []" by simp
  then show ?thesis by (simp add: split_spaces.simps del: dropWhile_eq_Nil_conv)
qed

lemma js_space_blank [simp]: "js_space CHR '' ''"
  by (simp add: js_space_def)

lemma split_spaces_append:
  assumes "\<forall>c \<in> set p. \<not> js_space c" and "s \<noteq> []" and "\<not> js_space (hd s)"
  shows "split_spaces (p @ CHR '' '' # s) = p # split_spaces s"
proof -
  have "dropWhile (\<lambda>c. \<not> js_space c) (p @ CHR '' '' # s) = CHR '' '' # s"
    "takeWhile (\<lambda>c. \<not> js_space c) (p @ CHR '' '' # s) = p"
    using assms(1) by (simp_all add: dropWhile_append2 takeWhile_append2)
  moreover have "dropWhile js_space s = s" using assms(2,3) by (cases s) simp_all
  ultimately show ?thesis by (simp add: split_spaces.simps [of "p @ CHR '' '' # s"])
qed

lemma join_with_head:
  "ps \<noteq> [] \<Longrightarrow> hd ps \<noteq> [] \<Longrightarrow> join_with sep ps \<noteq> [] \<and> hd (join_with sep ps) = hd (hd ps)"
  by (cases "(sep, ps)" rule: join_with.cases) auto

lemma splitScopes_join: "\<forall>p \<in> set ps. scope_word p \<Longrightarrow> splitScopes (join_with '' '' ps) = ps"
proof (induction "'' ''" ps rule: join_with.induct)
  case 1
  then show ?case by (simp add: splitScopes_def split_spaces.simps)
next
  case (2 p)
  then show ?case by (simp add: splitScopes_def split_spaces_word)
next
  case (3 p q ps)
  let ?rest = "join_with '' '' (q # ps)"
  have "?rest \<noteq> []" "hd ?rest = hd q" using join_with_head [of "q # ps"] "3.prems" by auto
  moreover have "\<not> js_space (hd q)" using "3.prems" by simp
  ultimately have "split_spaces (p @ CHR '' '' # ?rest) = p # split_spaces ?rest"
    using "3.prems" by (intro split_spaces_append) auto
  with 3 show ?case by (simp add: splitScopes_def)
qed

lemma merge_scope_names_props:
  "set (merge_scope_names a b) = set a \<union> set b" "sorted (merge_scope_names a b)" "distinct (merge_scope_names a b)"
  by (simp_all add: merge_scope_names_def)

lemma consent_of_overwrite [simp]: "consent_of u c (overwrite_consent new r) = consent_of u c r"
  by (simp add: overwrite_consent_def consent_of_def)

lemma find_overwrite:
  "find (consent_of u c) (List.map (overwrite_consent new) rs) =
     map_option (overwrite_consent new) (find (consent_of u c) rs)"
  by (induction rs) simp_all

text \<open>Writing a row changes what is recorded for its user and client, and nothing else.\<close>

lemma get_upsert:
  assumes "upsert_consent new w = (Inr x, t)"
  shows "map_option cn_scopeNames (get_consent (co_user_id new) (co_client_id new) t)
           = Some (splitScopes (co_scopes new))"
    and "(u, c) \<noteq> (co_user_id new, co_client_id new) \<Longrightarrow> get_consent u c t = get_consent u c w"
    and "t = w\<lparr>user_consents := user_consents t\<rparr>"
proof -
  let ?mine = "consent_of (co_user_id new) (co_client_id new)"
  consider (update) "\<exists>r \<in> set (user_consents w). ?mine r"
      "t = w\<lparr>user_consents := List.map (overwrite_consent new) (user_consents w)\<rparr>"
    | (insert) "\<forall>r \<in> set (user_consents w). \<not> ?mine r"
      "t = w\<lparr>user_consents := user_consents w @ [new]\<rparr>"
    using assms by (auto simp: upsert_consent_def prog_inv split: if_splits)
  note cases = this
  have mine: "?mine new" by (simp add: consent_of_def)
  show "map_option cn_scopeNames (get_consent (co_user_id new) (co_client_id new) t)
           = Some (splitScopes (co_scopes new))"
    using cases
  proof cases
    case update
    then obtain r where "find ?mine (user_consents w) = Some r"
      by (cases "find ?mine (user_consents w)") (auto simp: find_None_iff)
    moreover from this have "?mine r" by (auto dest: find_in_set)
    ultimately show ?thesis
      using update(2) by (simp add: get_consent_def find_overwrite toRecord_def overwrite_consent_def)
  next
    case insert
    then have "find ?mine (user_consents w) = None" by (auto simp: find_None_iff)
    then have "find ?mine (user_consents w @ [new]) = Some new"
      using mine by (simp add: find_append)
    with insert(2) show ?thesis by (simp add: get_consent_def toRecord_def)
  qed
  show "get_consent u c t = get_consent u c w" if "(u, c) \<noteq> (co_user_id new, co_client_id new)"
    using cases
  proof cases
    case update
    have "overwrite_consent new r = r" if "find (consent_of u c) (user_consents w) = Some r" for r
      using that \<open>(u, c) \<noteq> _\<close> by (auto simp: overwrite_consent_def consent_of_def dest!: find_in_set)
    with update(2) show ?thesis
      by (cases "find (consent_of u c) (user_consents w)") (simp_all add: get_consent_def find_overwrite)
  next
    case insert
    have "\<not> consent_of u c new" using \<open>(u, c) \<noteq> _\<close> by (auto simp: consent_of_def)
    with insert(2) show ?thesis
      by (cases "find (consent_of u c) (user_consents w)") (simp_all add: get_consent_def find_append)
  qed
  show "t = w\<lparr>user_consents := user_consents t\<rparr>"
    using cases by cases simp_all
qed

section \<open>Properties\<close>

lemma expire_if_any [simp]:
  "(if ids \<noteq> [] then expireAccessTokensByIds ids e else ret 0) = expireAccessTokensByIds ids e"
  by (simp add: expireAccessTokensByIds_def)

lemma expireAccessTokensByIds_run:
  "expireAccessTokensByIds ids e w =
     (Inr (length (filter (\<lambda>t. at_id t \<in> set ids) (tokens w))),
      w\<lparr>tokens := List.map (\<lambda>t. if at_id t \<in> set ids then shorten e t else t) (tokens w)\<rparr>)"
  by (simp add: expireAccessTokensByIds_def)

lemma seq_expire:
  "seq (expireAccessTokensByIds ids e) f w =
     f (length (filter (\<lambda>t. at_id t \<in> set ids) (tokens w)))
       (w\<lparr>tokens := List.map (\<lambda>t. if at_id t \<in> set ids then shorten e t else t) (tokens w)\<rparr>)"
  by (simp add: run_seq expireAccessTokensByIds_run)

lemma record_consent_run:
  assumes "record_consent E u c names w = (Inr x, t)"
  obtains new v where "co_user_id new = u" and "co_client_id new = c"
    and "co_scopes new = join_with '' '' (merge_scope_names (getConsentedScopeNames u c w) names)"
    and "v = w\<lparr>ticks := ticks t, draws := draws t\<rparr>" and "upsert_consent new v = (Inr x, t)"
proof -
  have keep: "ticks s = ticks v \<and> draws s = draws v" if "upsert_consent new v = (Inr y, s)" for new v y s
    using that by (auto simp: upsert_consent_def prog_inv split: if_splits)
  show thesis
  proof (cases "get_consent u c w")
    case None
    let ?v = "w\<lparr>draws := Suc (draws w), ticks := Suc (ticks w)\<rparr>"
    let ?new = "\<lparr>co_id = uuid E (draws w), co_user_id = u, co_client_id = c,
      co_scopes = join_with '' '' (merge_scope_names [] names),
      co_created_at = toISOString (clock E (ticks w)), co_updated_at = toISOString (clock E (ticks w))\<rparr>"
    from assms None have "upsert_consent ?new ?v = (Inr x, t)" by (simp add: record_consent_def)
    with keep [OF this] None show thesis
      by (intro that [of ?new ?v]) (simp_all add: getConsentedScopeNames_def)
  next
    case (Some r)
    let ?v = "w\<lparr>ticks := Suc (ticks w)\<rparr>"
    let ?new = "\<lparr>co_id = cn_id r, co_user_id = u, co_client_id = c,
      co_scopes = join_with '' '' (merge_scope_names (cn_scopeNames r) names),
      co_created_at = toISOString (clock E (ticks w)), co_updated_at = toISOString (clock E (ticks w))\<rparr>"
    from assms Some have "upsert_consent ?new ?v = (Inr x, t)" by (simp add: record_consent_def)
    with keep [OF this] Some show thesis
      by (intro that [of ?new ?v]) (simp_all add: getConsentedScopeNames_def)
  qed
qed

lemma getConsentedScopeNames_words: "n \<in> set (getConsentedScopeNames u c w) \<Longrightarrow> scope_word n"
  by (auto simp: getConsentedScopeNames_def get_consent_def toRecord_def split: option.splits dest: splitScopes_words)

lemma record_consent_effect:
  assumes "record_consent E u c names w = (Inr x, t)" and "\<forall>n \<in> set names. scope_word n"
  shows "getConsentedScopeNames u c t = merge_scope_names (getConsentedScopeNames u c w) names"
    and "(u', c') \<noteq> (u, c) \<Longrightarrow> get_consent u' c' t = get_consent u' c' w"
    and "t = w\<lparr>ticks := ticks t, draws := draws t, user_consents := user_consents t\<rparr>"
proof -
  obtain new v where new: "co_user_id new = u" "co_client_id new = c"
      "co_scopes new = join_with '' '' (merge_scope_names (getConsentedScopeNames u c w) names)"
    and v: "v = w\<lparr>ticks := ticks t, draws := draws t\<rparr>" and up: "upsert_consent new v = (Inr x, t)"
    using assms(1) by (rule record_consent_run)
  have "\<forall>p \<in> set (merge_scope_names (getConsentedScopeNames u c w) names). scope_word p"
    using assms(2) by (auto simp: merge_scope_names_props(1) dest: getConsentedScopeNames_words)
  then have "splitScopes (co_scopes new) = merge_scope_names (getConsentedScopeNames u c w) names"
    by (simp add: new(3) splitScopes_join)
  with get_upsert(1) [OF up] new(1,2) show
    "getConsentedScopeNames u c t = merge_scope_names (getConsentedScopeNames u c w) names"
    by (auto simp: getConsentedScopeNames_def)
  show "get_consent u' c' t = get_consent u' c' w" if "(u', c') \<noteq> (u, c)"
    using get_upsert(2) [OF up, of u' c'] that new(1,2) by (simp add: v get_consent_def)
  show "t = w\<lparr>ticks := ticks t, draws := draws t, user_consents := user_consents t\<rparr>"
  proof -
    from get_upsert(3) [OF up] have "t = w\<lparr>ticks := ticks t, draws := draws t\<rparr>\<lparr>user_consents := user_consents t\<rparr>"
      unfolding v .
    then show ?thesis by simp
  qed
qed

text \<open>
  Recording consent adds the granted scope names to those already recorded for that user
  and client, keeps them sorted without repetition, and touches no other user's or client's
  record; afterwards none of the granted names needs consent any more. (Names are words: a
  name with white space in it would be stored as several.)
\<close>

theorem consent_recorded:
  assumes "record_consent E u c names w = (Inr x, t)" and "\<forall>n \<in> set names. scope_word n"
  shows "set (getConsentedScopeNames u c t) = set (getConsentedScopeNames u c w) \<union> set names
     \<and> sorted (getConsentedScopeNames u c t) \<and> distinct (getConsentedScopeNames u c t)
     \<and> getUnconsentedScopeNames u c names t = []
     \<and> ((u', c') \<noteq> (u, c) \<longrightarrow> get_consent u' c' t = get_consent u' c' w)"
  using record_consent_effect [OF assms]
  by (auto simp: merge_scope_names_props getUnconsentedScopeNames_def filter_empty_conv)

lemma revoke_consent_tables:
  assumes "revoke_consent E u c actor w = (Inr res, t)"
  shows "get_consent u c t = None"
    and "user_consents t = filter (\<lambda>r. \<not> consent_of u c r) (user_consents w)"
    and "refresh_tokens t = List.map (revoke_row (\<lambda>r. rt_subject r = Some u \<and> rt_client_id r = c)
          (toISOString (clock E (ticks w)))) (refresh_tokens w)"
    and "tokens t = List.map (\<lambda>k. if \<exists>r \<in> set (refresh_tokens w). (rt_subject r = Some u \<and> rt_client_id r = c)
            \<and> rt_revoked_at r = None \<and> rt_access_token_id r = Some (at_id k)
          then shorten (toISOString (clock E (ticks w))) k else k) (tokens w)"
    and "authorization_codes t = filter (\<lambda>r. \<not> (ac_subject r = u \<and> ac_client_id r = c \<and> ac_used_at r = None))
          (authorization_codes w)"
    and "rc_codesDeleted res = length (filter (\<lambda>r. ac_subject r = u \<and> ac_client_id r = c \<and> ac_used_at r = None)
          (authorization_codes w))"
proof -
  let ?now = "toISOString (clock E (ticks w))"
  let ?P = "\<lambda>r. rt_subject r = Some u \<and> rt_client_id r = c"
  let ?Q = "\<lambda>r. ac_subject r = u \<and> ac_client_id r = c \<and> ac_used_at r = None"
  let ?dead = "\<lambda>k. \<exists>r \<in> set (refresh_tokens w). ?P r \<and> rt_revoked_at r = None \<and> rt_access_token_id r = Some (at_id k)"
  define ids where "ids = uniq (List.map the (filter (\<lambda>a. a \<noteq> None) (List.map rt_access_token_id
               (filter (\<lambda>r. rt_revoked_at r = None \<and> ?P r) (refresh_tokens w)))))"
  let ?v = "w\<lparr>user_consents := filter (\<lambda>r. \<not> consent_of u c r) (user_consents w), ticks := Suc (ticks w),
      refresh_tokens := List.map (revoke_row ?P ?now) (refresh_tokens w),
      tokens := List.map (\<lambda>k. if at_id k \<in> set ids then shorten ?now k else k) (tokens w)\<rparr>"
  have "(if at_id k \<in> set ids then shorten ?now k else k) = (if ?dead k then shorten ?now k else k)" for k
  proof -
    have "at_id k \<in> set ids \<longleftrightarrow> ?dead k" unfolding ids_def by force
    then show ?thesis by simp
  qed
  then have toks: "List.map (\<lambda>k. if at_id k \<in> set ids then shorten ?now k else k) (tokens w)
      = List.map (\<lambda>k. if ?dead k then shorten ?now k else k) (tokens w)" by (rule map_cong [OF refl])
  have "revoke_consent E u c actor w =
     seq (logAction E actor (audit_action_name ConsentRevoke) (audit_resource_name ConsentResource) (Some c)
           [(''userId'', DText u), (''scopeNames'', DTexts (case get_consent u c w of None \<Rightarrow> [] | Some r \<Rightarrow> cn_scopeNames r)),
            (''hadConsentRecord'', DFlag (0 < length (filter (consent_of u c) (user_consents w)))),
            (''accessTokensExpired'', DCount (length (filter (\<lambda>k. at_id k \<in> set ids) (tokens w)))),
            (''codesDeleted'', DCount (length (filter ?Q (authorization_codes w))))]) (\<lambda>_.
     ret \<lparr>rc_ok = True, rc_accessTokensExpired = length (filter (\<lambda>k. at_id k \<in> set ids) (tokens w)),
          rc_codesDeleted = length (filter ?Q (authorization_codes w))\<rparr>) (delete_codes ?Q ?v)"
    by (simp add: revoke_consent_def delete_consent_def revokeAllForSubjectAndClient_def
        deleteUnusedForSubjectAndClient_def Let_def seq_expire ids_def)
  with assms obtain y where log: "logAction E actor (audit_action_name ConsentRevoke) (audit_resource_name ConsentResource)
      (Some c) y (delete_codes ?Q ?v) = (Inr (), t)"
    and res: "rc_codesDeleted res = length (filter ?Q (authorization_codes w))"
    by (auto simp: seq_Inr)
  note t = logAction_Inr [OF log]
  show "get_consent u c t = None"
    by (auto simp: t get_consent_def delete_codes_def Let_def find_None_iff)
  show "tokens t = List.map (\<lambda>k. if ?dead k then shorten ?now k else k) (tokens w)"
    using toks by (simp add: t delete_codes_def Let_def)
  show "authorization_codes t = filter (\<lambda>r. \<not> ?Q r) (authorization_codes w)"
    "refresh_tokens t = List.map (revoke_row ?P ?now) (refresh_tokens w)"
    "user_consents t = filter (\<lambda>r. \<not> consent_of u c r) (user_consents w)"
    by (simp_all add: t delete_codes_def Let_def)
  show "rc_codesDeleted res = length (filter ?Q (authorization_codes w))" by (rule res)
qed

text \<open>
  Withdrawing consent leaves no consent record of the user for the client, no live
  refresh token and no unused code; the access tokens bound to the refresh tokens that were
  still live have expired. Codes, tokens and consents of other users or clients stay as they
  were. (An access token bound to a refresh token that was already rotated is not reached.)
\<close>

theorem consent_withdrawn:
  assumes "revoke_consent E u c actor w = (Inr res, t)"
  shows "get_consent u c t = None
     \<and> user_consents t = filter (\<lambda>r. \<not> consent_of u c r) (user_consents w)
     \<and> refresh_tokens t = List.map (revoke_row (\<lambda>r. rt_subject r = Some u \<and> rt_client_id r = c)
          (toISOString (clock E (ticks w)))) (refresh_tokens w)
     \<and> tokens t = List.map (\<lambda>k. if \<exists>r \<in> set (refresh_tokens w). rt_subject r = Some u \<and> rt_client_id r = c
            \<and> rt_revoked_at r = None \<and> rt_access_token_id r = Some (at_id k)
          then shorten (toISOString (clock E (ticks w))) k else k) (tokens w)
     \<and> authorization_codes t = filter (\<lambda>r. \<not> (ac_subject r = u \<and> ac_client_id r = c \<and> ac_used_at r = None))
          (authorization_codes w)
     \<and> rc_codesDeleted res + length (authorization_codes t) = length (authorization_codes w)"
  using revoke_consent_tables [OF assms] sum_length_filter_compl
    [of "\<lambda>r. ac_subject r = u \<and> ac_client_id r = c \<and> ac_used_at r = None" "authorization_codes w"]
  by (simp add: conj_assoc)

end
