(* ===== verification/Authorize.thy ===== *)
theory Authorize
  imports Consent ClientAuth Issue
begin

text \<open>
  The authorization endpoint's service, \<open>oauth-authorization.service.ts\<close>: it checks the
  request of a signed-in user, stores an authorization code bound to the registered redirect
  URI, the PKCE challenge, the resource and the granted scopes, and records the consent.
\<close>

section \<open>The service\<close>

definition AUTHORIZATION_CODE_TTL_SECONDS :: nat where
  "AUTHORIZATION_CODE_TTL_SECONDS = 300"

record authorize_params =
  az_responseType :: "string option"
  az_clientId :: "string option"
  az_redirectUri :: "string option"
  az_scope :: "string option"
  az_state :: "string option"
  az_codeChallenge :: "string option"
  az_codeChallengeMethod :: "string option"
  az_subject :: string
  az_nonce :: "string option"
  az_resource :: "string option"

definition resolveClientScopeGrants :: "string \<Rightarrow> string list \<Rightarrow> world \<Rightarrow> scope_grant list" where
  "resolveClientScopeGrants clientRowId requested w =
     (if requested \<noteq> [] then client_scope_grants_by_names clientRowId requested w
      else client_scope_grants clientRowId w)"

text \<open>The parameters that are checked before the database is asked; the resource comes out normalized.\<close>

record authorize_input =
  zi_clientId :: string
  zi_redirectUri :: string
  zi_codeChallenge :: string
  zi_resource :: "string option"

definition check_authorize_params :: "cfg \<Rightarrow> authorize_params \<Rightarrow> authorize_input m" where
  "check_authorize_params E p =
     seq (throw_when (az_responseType p \<noteq> Some ''code'')
           (oauth Unsupported_response_type ''Only response_type=code is supported.'' 400)) (\<lambda>_.
     seq (need_text (az_clientId p) (oauth Invalid_request ''Missing client_id.'' 400)) (\<lambda>clientId.
     seq (need_text (az_redirectUri p) (oauth Invalid_request ''Missing redirect_uri.'' 400)) (\<lambda>redirectUri.
     seq (need_text (az_codeChallenge p) (oauth Invalid_request ''Missing code_challenge.'' 400)) (\<lambda>challenge.
     seq (throw_when (az_codeChallengeMethod p \<noteq> Some ''S256'')
           (oauth Invalid_request ''code_challenge_method must be S256.'' 400)) (\<lambda>_.
     seq (outcome (normalizeResourceParam E (az_resource p))) (\<lambda>resource.
     ret \<lparr>zi_clientId = clientId, zi_redirectUri = redirectUri, zi_codeChallenge = challenge,
          zi_resource = resource\<rparr>))))))"

text \<open>May this user use this client? Two gates with the same answer.\<close>

definition may_use_client :: "string \<Rightarrow> client \<Rightarrow> unit m" where
  "may_use_client subj cl =
     seq (reads (user_environments subj)) (\<lambda>userEnvironmentIds.
     seq (throw_when (c_environmentId cl \<notin> set userEnvironmentIds)
           (oauth Access_denied ''You do not have access to this application.'' 403)) (\<lambda>_.
     seq (reads (user_by_id subj)) (\<lambda>subjectUser.
     throw_when (case subjectUser of None \<Rightarrow> False | Some u \<Rightarrow> u_isTestUser u \<and> \<not> c_isTest cl)
       (oauth Access_denied ''You do not have access to this application.'' 403))))"

definition check_scopes ::
  "authorize_params \<Rightarrow> client \<Rightarrow> string \<Rightarrow> scope_grant list m" where
  "check_scopes p cl redirectUri =
     (let requestedScopes = parseScopeParam (az_scope p)
      in seq (reads (resolveClientScopeGrants (c_id cl) requestedScopes)) (\<lambda>grants.
         seq (throw_when (requestedScopes \<noteq> [] \<and> length grants \<noteq> length requestedScopes)
               (OAuthServiceError Invalid_scope ''Requested scopes are not allowed for this client.'' 400
                 (Some redirectUri) (az_state p))) (\<lambda>_.
         ret grants)))"

definition code_for ::
  "authorize_params \<Rightarrow> authorize_input \<Rightarrow> client \<Rightarrow> string \<Rightarrow> string \<Rightarrow> string \<Rightarrow> nat \<Rightarrow> code_row" where
  "code_for p z cl redirectUri codeId i now =
     \<lparr>ac_id = i, ac_code_id = codeId, ac_client_id = c_id cl, ac_redirect_uri = redirectUri,
      ac_code_challenge = zi_codeChallenge z, ac_code_challenge_method = ''S256'',
      ac_subject = az_subject p, ac_nonce = az_nonce p, ac_auth_time = Some (toISOString now),
      ac_expires_at = toISOString (now + AUTHORIZATION_CODE_TTL_SECONDS * 1000), ac_used_at = None,
      ac_created_at = toISOString now, ac_resource = zi_resource z\<rparr>"

text \<open>\<open>new URL(redirectUri)\<close> throws on a string that is not a URL; by then the code is stored.\<close>

definition redirect_to :: "cfg \<Rightarrow> string \<Rightarrow> string \<Rightarrow> string option \<Rightarrow> string m" where
  "redirect_to E redirectUri codeId state =
     (case parse_url E redirectUri of
        None \<Rightarrow> throw (JsError ''Invalid URL'')
      | Some u \<Rightarrow> ret (url_set_params E redirectUri
          ((''code'', codeId) # (if truthy state then [(''state'', the state)] else []))))"

definition store_code ::
  "cfg \<Rightarrow> authorize_params \<Rightarrow> authorize_input \<Rightarrow> client \<Rightarrow> string \<Rightarrow> scope_grant list \<Rightarrow> nat \<Rightarrow> string m" where
  "store_code E p z cl redirectUri grants now =
     seq (generateOpaqueSecret E ''code'' 32) (\<lambda>codeId.
     seq (randomUUID E) (\<lambda>i.
     seq (create_code E (code_for p z cl redirectUri codeId i now) (List.map g_clientScopeId grants)) (\<lambda>_.
     ret codeId)))"

definition identify :: "cfg \<Rightarrow> authorize_params \<Rightarrow> (authorize_input \<times> client \<times> string \<times> nat) m" where
  "identify E p =
     seq (check_authorize_params E p) (\<lambda>z.
     seq (reads (client_by_identifier (zi_clientId z))) (\<lambda>found.
     seq (need found (oauth Unauthorized_client ''Unknown client.'' 401)) (\<lambda>cl.
     seq (now_ms E) (\<lambda>now.
     seq (throw_when (expired_at (c_expiresAt cl) (toISOString now))
           (oauth Unauthorized_client ''Client credentials have expired.'' 401)) (\<lambda>_.
     seq (may_use_client (az_subject p) cl) (\<lambda>_.
     seq (reads (\<lambda>w. matchRegisteredRedirectUri E (zi_redirectUri z) (redirect_uris_of (c_id cl) w))) (\<lambda>matched.
     seq (need_text matched (oauth Invalid_request ''Invalid redirect_uri.'' 400)) (\<lambda>redirectUri.
     ret (z, cl, redirectUri, now)))))))))"

definition authorize :: "cfg \<Rightarrow> authorize_params \<Rightarrow> string m" where
  "authorize E p =
     seq (identify E p) (\<lambda>(z, cl, redirectUri, now).
     seq (check_scopes p cl redirectUri) (\<lambda>grants.
     seq (store_code E p z cl redirectUri grants now) (\<lambda>codeId.
     seq (record_consent E (az_subject p) (c_id cl) (List.map g_scopeName grants)) (\<lambda>_.
     redirect_to E redirectUri codeId (az_state p)))))"

section \<open>Facts\<close>

definition user_may_use :: "string \<Rightarrow> client \<Rightarrow> world \<Rightarrow> bool" where
  "user_may_use subj cl w \<longleftrightarrow>
     c_environmentId cl \<in> set (user_environments subj w)
     \<and> (\<forall>u. user_by_id subj w = Some u \<longrightarrow> u_isTestUser u \<longrightarrow> c_isTest cl)"

lemma may_use_client_cases:
  "may_use_client subj cl w =
     (if user_may_use subj cl w then Inr ()
      else Inl (oauth Access_denied ''You do not have access to this application.'' 403), w)"
  by (auto simp: may_use_client_def user_may_use_def run_seq split: option.splits)

lemma check_scopes_Inr:
  assumes "check_scopes p cl uri w = (Inr grants, t)"
  shows "t = w" and "grants = resolveClientScopeGrants (c_id cl) (parseScopeParam (az_scope p)) w"
    and "parseScopeParam (az_scope p) \<noteq> [] \<Longrightarrow> length grants = length (parseScopeParam (az_scope p))"
  using assms by (auto simp: check_scopes_def Let_def prog_inv split: if_splits)

lemma check_scopes_Inl:
  assumes "check_scopes p cl uri w = (Inl e, t)"
  shows "t = w" and "e = OAuthServiceError Invalid_scope ''Requested scopes are not allowed for this client.'' 400
    (Some uri) (az_state p)"
  using assms by (auto simp: check_scopes_def Let_def prog_inv split: if_splits)

lemma resolved_grants_held: "set (resolveClientScopeGrants i ns w) \<subseteq> set (client_scope_grants i w)"
  by (auto simp: resolveClientScopeGrants_def client_scope_grants_def client_scope_grants_by_names_def)

lemma resolved_grants_requested:
  "ns \<noteq> [] \<Longrightarrow> g \<in> set (resolveClientScopeGrants i ns w) \<Longrightarrow> g_scopeName g \<in> set ns"
  by (auto simp: resolveClientScopeGrants_def client_scope_grants_by_names_def)

lemma check_authorize_params_Inr:
  assumes "check_authorize_params E p w = (Inr z, t)"
  shows "t = w" and "az_clientId p = Some (zi_clientId z)" and "az_redirectUri p = Some (zi_redirectUri z)"
    and "az_codeChallenge p = Some (zi_codeChallenge z)" and "az_codeChallengeMethod p = Some ''S256''"
    and "normalizeResourceParam E (az_resource p) = Inr (zi_resource z)"
  using assms by (auto simp: check_authorize_params_def prog_inv split: if_splits)

text \<open>Before the redirect URI is known to be the client's, no error carries a redirect target.\<close>

definition not_redirected :: "failure \<Rightarrow> bool" where
  "not_redirected e \<longleftrightarrow> (\<exists>c m st. e = oauth c m st)"

lemma not_redirected_simps [simp]:
  "not_redirected (oauth c m st)" "\<not> not_redirected (OAuthServiceError c m st (Some u) s)"
  "\<not> not_redirected (D1Error x)" "\<not> not_redirected (JsError x)"
  by (simp_all add: not_redirected_def)

lemma normalizeResourceParam_raises: "normalizeResourceParam E r = Inl e \<Longrightarrow> not_redirected e"
  by (auto simp: normalizeResourceParam_def split: option.splits if_splits)

lemma may_use_client_raises: "raises not_redirected (may_use_client subj cl)"
  by (auto simp: raises_def may_use_client_cases split: if_splits)

lemma identify_raises: "raises not_redirected (identify E p)"
  unfolding identify_def check_authorize_params_def
  by (intro raise raises_outcome may_use_client_raises not_redirected_simps)
    (auto dest: normalizeResourceParam_raises)

interpretation clock_only: evolution "\<lambda>s t :: world. t = s\<lparr>ticks := ticks t\<rparr>"
proof
  fix s t u :: world
  show "s = s\<lparr>ticks := ticks s\<rparr>" by simp
  assume "t = s\<lparr>ticks := ticks t\<rparr>" and "u = t\<lparr>ticks := ticks u\<rparr>"
  then show "u = s\<lparr>ticks := ticks u\<rparr>" by (cases s; cases t; cases u) simp
qed

lemma check_scopes_unchanged: "evolves (\<lambda>s t. t = s\<lparr>ticks := ticks t\<rparr>) (check_scopes p cl uri)"
  unfolding check_scopes_def Let_def by (intro clock_only.seq clock_only.keeps)

lemma identify_unchanged: "evolves (\<lambda>s t. t = s\<lparr>ticks := ticks t\<rparr>) (identify E p)"
  unfolding identify_def check_authorize_params_def may_use_client_def
  by (intro clock_only.seq clock_only.keeps evolves_clock) simp

lemma identify_Inr:
  assumes "identify E p w = (Inr (z, cl, uri, now), t)"
  shows "t = w\<lparr>ticks := Suc (ticks w)\<rparr>" and "now = clock E (ticks w)"
    and "check_authorize_params E p w = (Inr z, w)"
    and "client_by_identifier (zi_clientId z) w = Some cl"
    and "\<not> expired_at (c_expiresAt cl) (toISOString now)" and "user_may_use (az_subject p) cl w"
    and "matchRegisteredRedirectUri E (zi_redirectUri z) (redirect_uris_of (c_id cl) w) = Some uri"
    and "uri \<noteq> []"
proof -
  let ?v = "w\<lparr>ticks := Suc (ticks w)\<rparr>"
  have may: "user_may_use subj c ?v = user_may_use subj c w" for subj c
    by (simp add: user_may_use_def user_environments_def user_by_id_def)
  obtain v where params: "check_authorize_params E p w = (Inr z, v)"
    using assms by (auto simp: identify_def seq_Inr [of "check_authorize_params E p"] prog_inv)
  have v: "v = w" by (rule check_authorize_params_Inr(1) [OF params])
  have step: "seq (check_authorize_params E p) f w = f z w" for f :: "authorize_input \<Rightarrow> 'z m"
    using params by (simp add: run_seq v)
  from assms have all: "client_by_identifier (zi_clientId z) w = Some cl
      \<and> now = clock E (ticks w) \<and> \<not> expired_at (c_expiresAt cl) (toISOString now)
      \<and> user_may_use (az_subject p) cl ?v
      \<and> matchRegisteredRedirectUri E (zi_redirectUri z) (redirect_uris_of (c_id cl) ?v) = Some uri \<and> uri \<noteq> [] \<and> t = ?v"
    by (auto simp: identify_def step may_use_client_cases prog_inv split: if_splits)
  with params [unfolded v] show "t = ?v" "now = clock E (ticks w)" "check_authorize_params E p w = (Inr z, w)"
    "client_by_identifier (zi_clientId z) w = Some cl"
    "\<not> expired_at (c_expiresAt cl) (toISOString now)" "user_may_use (az_subject p) cl w"
    "matchRegisteredRedirectUri E (zi_redirectUri z) (redirect_uris_of (c_id cl) w) = Some uri" "uri \<noteq> []"
    by (auto simp: may redirect_uris_of_def)
qed

text \<open>Storing the code, and the frame of what follows the checks.\<close>

lemma store_code_Inr:
  assumes "store_code E p z cl uri grants now w = (Inr codeId, t)"
  shows "\<exists>i ls. authorization_codes t = authorization_codes w @ [code_for p z cl uri codeId i now]
     \<and> authorization_code_scopes t = authorization_code_scopes w @ ls
     \<and> List.map lk_client_scope_id ls = List.map g_clientScopeId grants \<and> (\<forall>l \<in> set ls. lk_owner l = i)
     \<and> codes_violated (code_for p z cl uri codeId i now) w = None"
proof -
  let ?code = "code_for p z cl uri codeId (uuid E (Suc (draws w))) now"
  let ?v = "w\<lparr>draws := Suc (Suc (draws w))\<rparr>"
  from assms have run: "create_code E ?code (List.map g_clientScopeId grants) ?v = (Inr (), t)"
    by (auto simp: store_code_def generateOpaqueSecret_def prog_inv)
  have "codes_violated ?code ?v = codes_violated ?code w" by (simp add: codes_violated_def)
  with create_code_Inr [OF run] show ?thesis
    by (intro exI [of _ "uuid E (Suc (draws w))"]) (auto simp: code_for_def)
qed

definition only_codes :: "world \<Rightarrow> world \<Rightarrow> bool" where
  "only_codes s t \<longleftrightarrow> t = s\<lparr>ticks := ticks t, draws := draws t, authorization_codes := authorization_codes t,
     authorization_code_scopes := authorization_code_scopes t, user_consents := user_consents t\<rparr>"

interpretation codes_only: evolution only_codes
proof
  fix s t u :: world
  show "only_codes s s" by (simp add: only_codes_def)
  assume "only_codes s t" and "only_codes t u"
  then show "only_codes s u" by (cases s; cases t; cases u) (simp add: only_codes_def)
qed

lemma store_code_frame: "evolves only_codes (store_code E p z cl uri grants now)"
  unfolding store_code_def generateOpaqueSecret_def create_code_def
  by (intro codes_only.seq codes_only.keeps codes_only.each evolves_random evolves_guarded evolves_insert_link
      codes_only.evolution_axioms) (simp_all add: only_codes_def put_code_scope_def)

definition only_consents :: "world \<Rightarrow> world \<Rightarrow> bool" where
  "only_consents s t \<longleftrightarrow> t = s\<lparr>ticks := ticks t, draws := draws t, user_consents := user_consents t\<rparr>"

interpretation consents_only: evolution only_consents
proof
  fix s t u :: world
  show "only_consents s s" by (simp add: only_consents_def)
  assume "only_consents s t" and "only_consents t u"
  then show "only_consents s u" by (cases s; cases t; cases u) (simp add: only_consents_def)
qed

lemma record_consent_only: "evolves only_consents (record_consent E u c names)"
proof -
  have "evolves only_consents (upsert_consent new)" for new
    by (rule evolvesI) (auto simp: upsert_consent_def only_consents_def guarded_def split: if_splits option.splits)
  then show ?thesis
    unfolding record_consent_def
    by (intro consents_only.seq consents_only.keeps evolves_clock)
      (auto simp: only_consents_def split: option.splits intro!: evolves_random)
qed

lemma only_consents_simps:
  assumes "only_consents s t"
  shows "authorization_codes t = authorization_codes s" "authorization_code_scopes t = authorization_code_scopes s"
    "clients t = clients s" "client_scopes t = client_scopes s" "scopes t = scopes s" "only_codes s t"
proof -
  have t: "t = s\<lparr>ticks := ticks t, draws := draws t, user_consents := user_consents t\<rparr>"
    using assms by (simp add: only_consents_def)
  show "authorization_codes t = authorization_codes s" "authorization_code_scopes t = authorization_code_scopes s"
    "clients t = clients s" "client_scopes t = client_scopes s" "scopes t = scopes s"
    by (subst t, simp)+
  show "only_codes s t" using assms by (cases s; cases t) (simp add: only_codes_def only_consents_def)
qed

text \<open>After the checks only the database or the URL parser can fail.\<close>

definition internal :: "failure \<Rightarrow> bool" where
  "internal e \<longleftrightarrow> (case e of OAuthServiceError c m st u s \<Rightarrow> False | _ \<Rightarrow> True)"

lemma raises_guarded: "raises internal (guarded v g)"
  by (auto simp: raises_def guarded_def internal_def split: option.splits)

lemma raises_each: "(\<And>x. raises P (f x)) \<Longrightarrow> raises P (each f xs)"
  by (induction xs) (simp_all add: raises_quiet raises_seq)

lemma store_code_raises: "raises internal (store_code E p z cl uri grants now)"
  unfolding store_code_def generateOpaqueSecret_def create_code_def insert_link_def Let_def
  by (intro raise raises_each raises_guarded)

lemma record_consent_raises: "raises internal (record_consent E u c names)"
proof -
  have "raises internal (upsert_consent new)" for new
    by (auto simp: raises_def upsert_consent_def guarded_def internal_def split: option.splits if_splits)
  then show ?thesis
    unfolding record_consent_def by (intro raise) (auto split: option.splits intro: raise)
qed

lemma redirect_to_raises: "raises internal (redirect_to E uri codeId state)"
  unfolding redirect_to_def by (auto split: option.splits intro!: raise simp: internal_def)

lemma authorize_Inr:
  assumes "authorize E p w = (Inr redirect, t)"
  obtains z cl uri now grants codeId v where "identify E p w = (Inr (z, cl, uri, now), w\<lparr>ticks := Suc (ticks w)\<rparr>)"
    and "grants = resolveClientScopeGrants (c_id cl) (parseScopeParam (az_scope p)) w"
    and "parseScopeParam (az_scope p) \<noteq> [] \<longrightarrow> length grants = length (parseScopeParam (az_scope p))"
    and "store_code E p z cl uri grants now (w\<lparr>ticks := Suc (ticks w)\<rparr>) = (Inr codeId, v)"
    and "record_consent E (az_subject p) (c_id cl) (List.map g_scopeName grants) v = (Inr (), t)"
    and "redirect_to E uri codeId (az_state p) t = (Inr redirect, t)"
proof -
  let ?v = "w\<lparr>ticks := Suc (ticks w)\<rparr>"
  from assms obtain z cl uri now s where 1: "identify E p w = (Inr (z, cl, uri, now), s)"
    and rest: "seq (check_scopes p cl uri) (\<lambda>grants. seq (store_code E p z cl uri grants now) (\<lambda>codeId.
       seq (record_consent E (az_subject p) (c_id cl) (List.map g_scopeName grants)) (\<lambda>_.
       redirect_to E uri codeId (az_state p)))) s = (Inr redirect, t)"
    by (auto simp: authorize_def seq_Inr [of "identify E p"])
  have s: "s = ?v" by (rule identify_Inr(1) [OF 1])
  from rest s obtain grants where 2: "check_scopes p cl uri ?v = (Inr grants, ?v)"
    and rest: "seq (store_code E p z cl uri grants now) (\<lambda>codeId.
       seq (record_consent E (az_subject p) (c_id cl) (List.map g_scopeName grants)) (\<lambda>_.
       redirect_to E uri codeId (az_state p))) ?v = (Inr redirect, t)"
    by (auto simp: seq_Inr [of "check_scopes p cl uri"] dest: check_scopes_Inr(1))
  have keep: "redirect_to E uri codeId st q = (r, q') \<Longrightarrow> q' = q" for codeId st q r q'
    by (auto simp: redirect_to_def split: option.splits)
  from rest obtain codeId v where "store_code E p z cl uri grants now ?v = (Inr codeId, v)"
    "record_consent E (az_subject p) (c_id cl) (List.map g_scopeName grants) v = (Inr (), t)"
    "redirect_to E uri codeId (az_state p) t = (Inr redirect, t)"
    by (auto simp: seq_Inr dest: keep)
  moreover have "resolveClientScopeGrants i ns ?v = resolveClientScopeGrants i ns w" for i ns
    by (simp add: resolveClientScopeGrants_def client_scope_grants_def client_scope_grants_by_names_def
        grants_of_row_def [abs_def])
  ultimately show thesis
    using 1 s check_scopes_Inr(2,3) [OF 2] by (intro that [of z cl uri now grants codeId v]) auto
qed

section \<open>Properties\<close>

text \<open>
  C3. A successful authorize request came from a user who may use the client, for a client
  that has not expired and a redirect URI it registered (up to the spelling of a loopback
  host). Exactly one unused code is stored, bound to that registered URI, to the request's
  S256 challenge, nonce and normalized resource, and valid for 300 seconds; its scopes are
  held by the client and, when the request names scopes, are as many as it names and all
  among them. Nothing else changes but the user's consent.
\<close>

theorem authorize_sound:
  assumes "authorize E p w = (Inr redirect, t)"
  shows "\<exists>cl code uri requested ls.
     client_by_identifier (the (az_clientId p)) w = Some cl \<and> az_redirectUri p = Some requested
     \<and> \<not> expired_at (c_expiresAt cl) (toISOString (clock E (ticks w)))
     \<and> user_may_use (az_subject p) cl w
     \<and> uri \<in> set (redirect_uris_of (c_id cl) w)
     \<and> canonicalizeLoopbackUri E uri = canonicalizeLoopbackUri E requested
     \<and> authorization_codes t = authorization_codes w @ [code]
     \<and> ac_client_id code = c_id cl \<and> ac_redirect_uri code = uri \<and> ac_subject code = az_subject p
     \<and> az_codeChallenge p = Some (ac_code_challenge code) \<and> ac_code_challenge_method code = ''S256''
     \<and> ac_nonce code = az_nonce p \<and> ac_used_at code = None
     \<and> normalizeResourceParam E (az_resource p) = Inr (ac_resource code)
     \<and> ac_expires_at code = toISOString (clock E (ticks w) + 300000)
     \<and> authorization_code_scopes t = authorization_code_scopes w @ ls \<and> (\<forall>l \<in> set ls. lk_owner l = ac_id code)
     \<and> set (List.map lk_client_scope_id ls) \<subseteq> g_clientScopeId ` {g \<in> set (client_scope_grants (c_id cl) w).
          parseScopeParam (az_scope p) \<noteq> [] \<longrightarrow> g_scopeName g \<in> set (parseScopeParam (az_scope p))}
     \<and> (parseScopeParam (az_scope p) \<noteq> [] \<longrightarrow> length ls = length (parseScopeParam (az_scope p)))
     \<and> only_codes w t"
proof -
  let ?names = "parseScopeParam (az_scope p)"
  obtain z cl uri now grants codeId v where 1: "identify E p w = (Inr (z, cl, uri, now), w\<lparr>ticks := Suc (ticks w)\<rparr>)"
    and grants: "grants = resolveClientScopeGrants (c_id cl) ?names w" "?names \<noteq> [] \<longrightarrow> length grants = length ?names"
    and store: "store_code E p z cl uri grants now (w\<lparr>ticks := Suc (ticks w)\<rparr>) = (Inr codeId, v)"
    and consent: "record_consent E (az_subject p) (c_id cl) (List.map g_scopeName grants) v = (Inr (), t)"
    and "redirect_to E uri codeId (az_state p) t = (Inr redirect, t)"
    by (rule authorize_Inr [OF assms])
  note id = identify_Inr [OF 1]
  note params = check_authorize_params_Inr [OF id(3)]
  note uri = matchRegisteredRedirectUri_Some [OF id(7)]
  obtain i ls where codes: "authorization_codes v = authorization_codes w @ [code_for p z cl uri codeId i now]"
      "authorization_code_scopes v = authorization_code_scopes w @ ls"
      "List.map lk_client_scope_id ls = List.map g_clientScopeId grants" "\<forall>l \<in> set ls. lk_owner l = i"
    using store_code_Inr [OF store] by auto
  note same = only_consents_simps [OF evolvesD [OF record_consent_only consent]]
  have "only_codes w t"
  proof -
    have "only_codes w (w\<lparr>ticks := Suc (ticks w)\<rparr>)" by (simp add: only_codes_def)
    then show ?thesis
      using evolvesD [OF store_code_frame store] same(6) by (blast intro: codes_only.trans)
  qed
  moreover have "set (List.map lk_client_scope_id ls) \<subseteq> g_clientScopeId ` {g \<in> set (client_scope_grants (c_id cl) w).
      ?names \<noteq> [] \<longrightarrow> g_scopeName g \<in> set ?names}"
  proof -
    have "set grants \<subseteq> {g \<in> set (client_scope_grants (c_id cl) w). ?names \<noteq> [] \<longrightarrow> g_scopeName g \<in> set ?names}"
      using resolved_grants_held [of "c_id cl" ?names w] resolved_grants_requested [of ?names _ "c_id cl" w]
      by (auto simp: grants(1))
    then show ?thesis unfolding codes(3) by auto
  qed
  moreover have "length ls = length grants" using codes(3) by (metis length_map)
  ultimately show ?thesis
    using id(2,4-6) params(2-6) uri codes(1,2,4) same(1,2) grants(2)
    by (intro exI [of _ cl] exI [of _ "code_for p z cl uri codeId i now"] exI [of _ uri] exI [of _ "zi_redirectUri z"]
        exI [of _ ls]) (simp add: code_for_def AUTHORIZATION_CODE_TTL_SECONDS_def)
qed

text \<open>
  C37. A refused authorize request changes nothing but the clock: no code, no consent. And
  the error is reported to a redirect target only when that target is registered for the
  named client and the user may use the client (no open redirect), with the request's state.
\<close>

theorem authorize_refusal:
  assumes "authorize E p w = (Inl (OAuthServiceError c m st target s), t)"
  shows "t = w\<lparr>ticks := ticks t\<rparr>
     \<and> (\<forall>u. target = Some u \<longrightarrow> (\<exists>cl. client_by_identifier (the (az_clientId p)) w = Some cl
          \<and> u \<in> set (redirect_uris_of (c_id cl) w) \<and> user_may_use (az_subject p) cl w \<and> s = az_state p))"
proof -
  let ?e = "OAuthServiceError c m st target s"
  have out: "\<not> internal ?e" by (simp add: internal_def)
  have late: "raises internal (seq (store_code E p z cl uri grants now) (\<lambda>codeId.
       seq (record_consent E (az_subject p) (c_id cl) (List.map g_scopeName grants)) (\<lambda>_.
       redirect_to E uri codeId (az_state p))))" for z cl uri grants now
    by (intro raise store_code_raises record_consent_raises redirect_to_raises)
  consider (first) "identify E p w = (Inl ?e, t)"
    | (later) z cl uri now v where "identify E p w = (Inr (z, cl, uri, now), v)" "check_scopes p cl uri v = (Inl ?e, t)"
    using assms out by (auto simp: authorize_def seq_Inl [of "identify E p"] seq_Inl [of "check_scopes _ _ _"]
        dest: raisesD [OF late])
  then show ?thesis
  proof cases
    case first
    with evolvesD [OF identify_unchanged first] raisesD [OF identify_raises first] show ?thesis
      by (auto simp: not_redirected_def)
  next
    case (later z cl uri now v)
    note id = identify_Inr [OF later(1)]
    from check_scopes_Inl [OF later(2)] matchRegisteredRedirectUri_Some [OF id(7)]
      check_authorize_params_Inr(2) [OF id(3)] id(1,4,6) show ?thesis by auto
  qed
qed

end
