(* ===== verification/Flow.thy ===== *)
theory Flow
  imports Authorize CodeGrant RefreshGrant Introspect
begin

text \<open>
  Properties that span components: the code issued by the authorization endpoint is accepted
  by the token endpoint, once, and withdrawn consent stays withdrawn there.
\<close>

section \<open>From authorize to token\<close>

text \<open>Where the stored code is found.\<close>

lemma stored_code_found:
  assumes "authorization_codes t = authorization_codes w @ [code]"
    and "ac_code_id code \<notin> set (List.map ac_code_id (authorization_codes w))"
  shows "map_option code_row (getByCodeId (ac_code_id code) t) = Some code"
proof -
  have "find (\<lambda>r. ac_code_id r = ac_code_id code) (authorization_codes w) = None"
    using assms(2) unfolding find_None_iff set_map image_iff by metis
  then show ?thesis by (simp add: getByCodeId_def assms(1) find_append)
qed

lemma stored_code_unspent:
  assumes "authorization_codes t = authorization_codes w @ [code]" and "ac_used_at code = None"
  shows "\<not> code_spent (ac_id code) t"
  using assms by (auto simp: code_spent_def)

text \<open>
  C23. A code that was just issued can be redeemed: within its 300 seconds a request of the
  authenticated client that names the code, the redirect URI it is bound to and a verifier of
  the challenge gets its tokens, unless issuing fails in the database or for lack of a signing
  key; it is never refused.
\<close>

theorem authorize_then_exchange:
  assumes "authorize E p w = (Inr redirect, t)" and "authorization_codes t = authorization_codes w @ [code]"
    and "authorization_codes u = authorization_codes t"
    and "clock E (Suc (ticks u)) < clock E (ticks w) + 300000" and "clock E (ticks w) + 300000 < y10k"
    and "authenticateClient E (rq_clientId rq) (rq_clientSecret rq) u = (Inr cl, s)" and "c_id cl = ac_client_id code"
    and "rq_code rq = Some (ac_code_id code)" and "rq_redirectUri rq = Some (ac_redirect_uri code)"
    and "rq_codeVerifier rq = Some v" and "v \<noteq> []" and "az_codeChallenge p = Some (toS256Challenge E v)"
    and "rq_scope rq = None" and "rq_resource rq = None \<or> rq_resource rq = az_resource p"
  shows "(\<exists>resp x. exchangeAuthorizationCode E rq u = (Inr resp, x))
     \<or> (\<exists>e x. exchangeAuthorizationCode E rq u = (Inl e, x) \<and> not_a_refusal e)"
proof -
  obtain z c uri now grants codeId v' where 1: "identify E p w = (Inr (z, c, uri, now), w\<lparr>ticks := Suc (ticks w)\<rparr>)"
    and "grants = resolveClientScopeGrants (c_id c) (parseScopeParam (az_scope p)) w"
    and "parseScopeParam (az_scope p) \<noteq> [] \<longrightarrow> length grants = length (parseScopeParam (az_scope p))"
    and store: "store_code E p z c uri grants now (w\<lparr>ticks := Suc (ticks w)\<rparr>) = (Inr codeId, v')"
    and consent: "record_consent E (az_subject p) (c_id c) (List.map g_scopeName grants) v' = (Inr (), t)"
    and "redirect_to E uri codeId (az_state p) t = (Inr redirect, t)"
    by (rule authorize_Inr [OF assms(1)])
  note id = identify_Inr [OF 1]
  note params = check_authorize_params_Inr [OF id(3)]
  from store_code_Inr [OF store] obtain i where i: "authorization_codes v' = authorization_codes w @ [code_for p z c uri codeId i now]"
    and fresh: "codes_violated (code_for p z c uri codeId i now) (w\<lparr>ticks := Suc (ticks w)\<rparr>) = None"
    by auto
  have code: "code = code_for p z c uri codeId i now"
    using assms(2) i only_consents_simps(1) [OF evolvesD [OF record_consent_only consent]] by simp
  have new: "ac_code_id code \<notin> set (List.map ac_code_id (authorization_codes w))"
    using fresh by (auto simp: code codes_violated_def split: if_splits)
  have "authorization_codes u = authorization_codes w @ [code]" using assms(2,3) by simp
  from stored_code_found [OF this new] stored_code_unspent [OF this] obtain ac where
    ac: "getByCodeId (ac_code_id code) u = Some ac" "code_row ac = code" and live: "\<not> code_spent (ac_id code) u"
    by (auto simp: code code_for_def)
  have "toISOString (clock E (Suc (ticks u))) < ac_expires_at code"
    using assms(4,5) id(2) by (simp add: code code_for_def AUTHORIZATION_CODE_TTL_SECONDS_def iso_less_iff)
  then have fits: "code_fits E rq cl (code_row ac) (toISOString (clock E (Suc (ticks u))))"
    using assms(7,9-12,14) params(4,6)
    by (auto simp: ac(2) code_fits_def code code_for_def truthy_def)
  have named: "ac_code_id code \<noteq> []" "rq_redirectUri rq \<noteq> Some []"
    using store id(8) assms(9) by (auto simp: code code_for_def store_code_def generateOpaqueSecret_def prog_inv)
  have "set (parseScopeParam (rq_scope rq)) \<subseteq> g_scopeName ` set (still_granted (client_scope_grants (c_id cl) u) (code_clientScopeIds ac))"
    by (simp add: assms(13) parseScopeParam_def)
  from check_code_request_accepts [OF assms(6,8) named ac(1) fits this] obtain xs where
    ok: "check_code_request E rq u = (Inr \<lparr>cr_client = cl, cr_code = code_row ac, cr_selected = xs,
       cr_now = toISOString (clock E (Suc (ticks u)))\<rparr>, s\<lparr>ticks := Suc (ticks s)\<rparr>)" by blast
  have "same_but_clients u s" by (rule evolvesD [OF authenticateClient_frame assms(6)])
  then have "\<not> code_spent (ac_id code) (s\<lparr>ticks := Suc (ticks s)\<rparr>)"
    using live by (simp add: code_spent_def same_but_clients_simps)
  with accepted_not_refused [OF ok] have "\<forall>e x. exchangeAuthorizationCode E rq u = (Inl e, x) \<longrightarrow> not_a_refusal e"
    by (simp add: ac(2))
  then show ?thesis
    by (cases "exchangeAuthorizationCode E rq u"; cases "fst (exchangeAuthorizationCode E rq u)") auto
qed

section \<open>A spent code stays spent\<close>

lemma distinct_spent_refresh:
  assumes "distinct (List.map rt_id (refresh_tokens w))" and "r \<in> set (refresh_tokens w)" and "rt_revoked_at r \<noteq> None"
  shows "refresh_spent (rt_id r) w"
  using assms by (auto simp: refresh_spent_def dest: distinct_key_in)

lemma distinct_spent_code:
  assumes "distinct (List.map ac_id (authorization_codes w))" and "r \<in> set (authorization_codes w)" and "ac_used_at r \<noteq> None"
  shows "code_spent (ac_id r) w"
  using assms by (auto simp: code_spent_def dest: distinct_key_in)

definition code_dead :: "string \<Rightarrow> world \<Rightarrow> bool" where
  "code_dead c w \<longleftrightarrow> (\<forall>r \<in> set (authorization_codes w). ac_code_id r = c \<longrightarrow> truthy (ac_used_at r))"

definition code_fades :: "string \<Rightarrow> world \<Rightarrow> world \<Rightarrow> bool" where
  "code_fades c s t \<longleftrightarrow> (code_dead c s \<longrightarrow> code_dead c t)"

interpretation fading_code: evolution "code_fades c" for c
  by unfold_locales (auto simp: code_fades_def)

text \<open>
  What the endpoints do to the codes after one was spent: token requests of every grant, other
  authorizations (the text of whose code is another one), withdrawn consents, the cleanup, and
  every step after which each row with that text is one that was there before.
\<close>

inductive code_step :: "cfg \<Rightarrow> string \<Rightarrow> world \<Rightarrow> world \<Rightarrow> bool" for E c where
  token_request: "exchange E rq s = (x, t) \<Longrightarrow> code_step E c s t"
| authorized: "authorize E p s = (y, t) \<Longrightarrow> c \<notin> ac_code_id ` (set (authorization_codes t) - set (authorization_codes s))
    \<Longrightarrow> code_step E c s t"
| withdrawn: "revoke_consent E i cl actor s = (z, t) \<Longrightarrow> code_step E c s t"
| cleaned: "cleanupTokenArtifacts E b s = (n, t) \<Longrightarrow> code_step E c s t"
| elsewhere: "(\<And>r. r \<in> set (authorization_codes t) \<Longrightarrow> ac_code_id r = c \<Longrightarrow> r \<in> set (authorization_codes s)) \<Longrightarrow> code_step E c s t"

lemma code_fades_same: "authorization_codes t = authorization_codes s \<Longrightarrow> code_fades c s t"
  by (simp add: code_fades_def code_dead_def)

lemma code_fades_subset: "(\<And>r. r \<in> set (authorization_codes t) \<Longrightarrow> ac_code_id r = c \<Longrightarrow> r \<in> set (authorization_codes s)) \<Longrightarrow> code_fades c s t"
  by (auto simp: code_fades_def code_dead_def)

lemma code_fades_clock: "evolves (code_fades c) (now_ms E)" "evolves (code_fades c) (now_iso E)"
  by (rule evolves_clock; rule code_fades_same; simp)+

lemma code_fades_auth: "evolves (code_fades c) (authenticateClient E i s)"
  by (rule evolves_stronger [OF authenticateClient_frame]) (simp add: code_fades_same same_but_clients_simps)

lemma code_fades_issue: "evolves (code_fades c) (issueTokenPair E p)"
  by (rule evolves_stronger [OF issueTokenPair_frame]) (simp add: code_fades_same only_tokens_simps)

lemma code_fades_select: "evolves (code_fades c) (selectScopeGrants gs rs msg)"
  by (rule evolves_stronger [OF selectScopeGrants_unchanged]) (simp add: code_fades_same)

lemma code_fades_kill: "evolves (code_fades c) (revoke_and_throw root now msg)"
  unfolding revoke_and_throw_def
  by (intro fading_code.rules evolvesI)
    (simp add: revokeFamilyAndAccessTokens_run Let_def code_fades_same)

lemma code_fades_refresh: "evolves (code_fades c) (exchangeRefreshToken E rq)"
proof -
  have "evolves (code_fades c) (revoke_refresh i now)" for i now
    by (rule evolvesI) (auto simp: revoke_refresh_def revoke_one_def revoke_where_def intro: code_fades_same)
  then show ?thesis
    unfolding exchangeRefreshToken_def check_refresh_request_def check_refresh_def check_subject_def consume_refresh_def
    by (intro fading_code.rules code_fades_auth code_fades_clock code_fades_select code_fades_kill code_fades_issue)
qed

lemma code_fades_code: "evolves (code_fades c) (exchangeAuthorizationCode E rq)"
proof -
  have "evolves (code_fades c) (check_code_request E rq)"
    by (rule evolves_stronger [OF check_code_request_frame]) (simp add: code_fades_same same_but_clients_simps)
  moreover have "evolves (code_fades c) (consume_code q)" for q
    unfolding consume_code_def markUsed_def mark_used_def
    by (intro fading_code.rules evolvesI)
      (auto simp: code_fades_def code_dead_def use_code_def truthy_def)
  ultimately show ?thesis unfolding exchangeAuthorizationCode_def by (intro fading_code.rules code_fades_issue)
qed

lemma code_fades_exchange: "evolves (code_fades c) (exchange E rq)"
  unfolding exchange_def exchangeClientCredentials_def
  by (intro fading_code.rules code_fades_auth code_fades_select code_fades_issue code_fades_code code_fades_refresh)

lemma code_fades_delete: "evolves (code_fades c) (updating f (delete_codes P))"
  by (rule evolves_updating, rule code_fades_subset) (simp add: delete_codes_def Let_def)

lemma code_fades_withdrawal: "evolves (code_fades c) (revoke_consent E i cl actor)"
proof -
  have "evolves (code_fades c) (logAction E a b d e f)" for a b d e f
    unfolding logAction_def buildRow_def insert_audit_def
    by (intro fading_code.rules code_fades_clock evolves_random evolves_guarded code_fades_same) simp_all
  then show ?thesis
    unfolding revoke_consent_def revokeAllForSubjectAndClient_def expireAccessTokensByIds_def
      deleteUnusedForSubjectAndClient_def delete_consent_def Let_def
    by (intro fading_code.rules code_fades_clock code_fades_delete evolves_updating code_fades_same) simp_all
qed

lemma code_fades_cleanup: "evolves (code_fades c) (cleanupTokenArtifacts E b)"
  unfolding cleanupTokenArtifacts_def deleteExpiredAccessTokens_def deleteExpired_def deleteRevoked_def
    deleteUsedOrExpired_def Let_def
  by (intro fading_code.rules code_fades_clock code_fades_delete evolves_updating code_fades_same)
    (simp_all add: delete_tokens_def delete_refresh_def Let_def)

lemma code_step_fades: "code_step E c s t \<Longrightarrow> code_fades c s t"
proof (induction rule: code_step.induct)
  case (token_request rq s x t)
  then show ?case by (rule evolvesD [OF code_fades_exchange])
next
  case (authorized p s y t)
  then show ?case by (intro code_fades_subset) auto
next
  case (withdrawn i cl actor s z t)
  then show ?case by (rule evolvesD [OF code_fades_withdrawal])
next
  case (cleaned b s n t)
  then show ?case by (rule evolvesD [OF code_fades_cleanup])
next
  case (elsewhere t s)
  then show ?case by (rule code_fades_subset)
qed

lemma code_steps_dead: "(code_step E c)\<^sup>*\<^sup>* s t \<Longrightarrow> code_dead c s \<Longrightarrow> code_dead c t"
  by (induction rule: rtranclp_induct) (auto dest: code_step_fades simp: code_fades_def)

text \<open>A code whose text has no unused row is refused, and the refusal issues nothing.\<close>

lemma dead_code_refused:
  assumes "code_dead c w" and "rq_code rq = Some c"
  shows "\<exists>e t. exchangeAuthorizationCode E rq w = (Inl e, t) \<and> same_but_clients w t"
proof -
  have "check_code_request E rq w \<noteq> (Inr q, t)" for q t
  proof
    assume "check_code_request E rq w = (Inr q, t)"
    then obtain s ac where auth: "authenticateClient E (rq_clientId rq) (rq_clientSecret rq) w = (Inr (cr_client q), s)"
      and ac: "getByCodeId (the (rq_code rq)) s = Some ac" "code_fits E rq (cr_client q) (code_row ac) (cr_now q)"
      by (rule check_code_request_Inr) (auto intro: that)
    have "getByCodeId c w = Some ac"
      using ac(1) assms(2) lookups_same_but_clients(1) [OF evolvesD [OF authenticateClient_frame auth]] by simp
    from getByCodeId_Some [OF this] assms(1) ac(2) show False by (auto simp: code_dead_def code_fits_def)
  qed
  then obtain e t where "check_code_request E rq w = (Inl e, t)"
    by (cases "check_code_request E rq w"; cases "fst (check_code_request E rq w)") auto
  moreover from this have "same_but_clients w t" by (rule evolvesD [OF check_code_request_frame])
  ultimately show ?thesis by (simp add: exchangeAuthorizationCode_def run_seq)
qed

lemma exchanged_code_dead:
  assumes "exchangeAuthorizationCode E rq w = (Inr resp, t)" and "rq_code rq = Some c"
    and ids: "distinct (List.map ac_id (authorization_codes w))" and texts: "distinct (List.map ac_code_id (authorization_codes w))"
  shows "code_dead c t"
proof -
  obtain ac where ac: "getByCodeId c w = Some ac" and unspent: "\<not> code_spent (ac_id (code_row ac)) w"
    and t: "authorization_codes t = List.map (use_code (ac_id (code_row ac)) (toISOString (clock E (Suc (ticks w)))))
      (authorization_codes w)"
    by (rule exchange_code_codes [OF assms(1)]) (simp add: assms(2) that)
  have row: "code_row ac \<in> set (authorization_codes w)" "ac_code_id (code_row ac) = c" using getByCodeId_Some [OF ac] by simp_all
  then have "ac_used_at (code_row ac) = None" using unspent distinct_spent_code [OF ids] by blast
  moreover have "r = code_row ac" if "r \<in> set (authorization_codes w)" "ac_code_id r = c" for r
    using texts row that by (metis distinct_map inj_onD)
  moreover have "ac_code_id (use_code i n r) = ac_code_id r" for i n r by (simp add: use_code_def)
  ultimately show ?thesis by (auto simp: code_dead_def t use_code_def truthy_def toISOString_def Let_def split: prod.split)
qed

text \<open>
  C21. A code is exchanged at most once. After a successful exchange, whatever token requests,
  authorizations, withdrawals and cleanups follow, and whatever else happens short of storing the
  same code text anew, every further request with that code is refused, whoever presents it and
  with whatever else in the request, and the refusal issues no token: it changes the clock and at
  most the stored form of a client's secret. The hypotheses on the table are its unique keys.
\<close>

theorem code_replay_rejected:
  assumes "exchangeAuthorizationCode E rq w = (Inr resp, t)" and "rq_code rq = Some c"
    and "distinct (List.map ac_id (authorization_codes w))" and "distinct (List.map ac_code_id (authorization_codes w))"
    and "(code_step E c)\<^sup>*\<^sup>* t u" and "rq_code rq' = Some c"
  shows "\<exists>e v. exchangeAuthorizationCode E rq' u = (Inl e, v) \<and> same_but_clients u v"
  by (rule dead_code_refused [OF code_steps_dead [OF assms(5) exchanged_code_dead [OF assms(1-4)]] assms(6)])

section \<open>Withdrawn consent\<close>

lemma exchange_refresh_unspent:
  assumes "exchangeRefreshToken E rq w = (Inr resp, t)"
  shows "\<exists>tok. getByTokenId (the (rq_refreshToken rq)) w = Some tok \<and> \<not> refresh_spent (rt_id (refresh_row tok)) w"
proof -
  from assms obtain q s u where q: "check_refresh_request E rq w = (Inr q, s)" and consume: "consume_refresh q s = (Inr (), u)"
    by (auto simp: exchangeRefreshToken_def seq_Inr)
  from q obtain tok where tok: "getByTokenId (the (rq_refreshToken rq)) w = Some tok" "fr_token q = refresh_row tok"
    and same: "same_but_clients w s"
    by (rule check_refresh_request_Inr)
  from consume_refresh_Inr(1) [OF consume] tok same show ?thesis
    by (auto simp: refresh_spent_def same_but_clients_simps)
qed

lemma exchange_code_unspent:
  assumes "exchangeAuthorizationCode E rq w = (Inr resp, t)"
  shows "\<exists>ac. getByCodeId (the (rq_code rq)) w = Some ac \<and> \<not> code_spent (ac_id (code_row ac)) w"
proof -
  from assms obtain q s u where q: "check_code_request E rq w = (Inr q, s)" and consume: "consume_code q s = (Inr (), u)"
    by (auto simp: exchangeAuthorizationCode_def seq_Inr)
  from q obtain v ac where auth: "authenticateClient E (rq_clientId rq) (rq_clientSecret rq) w = (Inr (cr_client q), v)"
    and s: "s = v\<lparr>ticks := Suc (ticks v)\<rparr>" and ac: "getByCodeId (the (rq_code rq)) v = Some ac" "cr_code q = code_row ac"
    by (rule check_code_request_Inr)
  have same: "same_but_clients w v" by (rule evolvesD [OF authenticateClient_frame auth])
  from consume_code_Inr(1) [OF consume] ac same show ?thesis
    by (auto simp: s code_spent_def same_but_clients_simps lookups_same_but_clients(1) [OF same])
qed

text \<open>
  C25. Once consent is withdrawn, no refresh token and no authorization code of that user for
  that client can be exchanged, in any later state with the same rows, whoever presents it.
\<close>

theorem withdrawn_consent_ends_grants:
  assumes "revoke_consent E u c actor w = (Inr res, t)"
    and "distinct (List.map rt_id (refresh_tokens w))" and "distinct (List.map ac_id (authorization_codes w))"
    and "refresh_tokens v = refresh_tokens t" and "authorization_codes v = authorization_codes t"
  shows "(\<forall>rq tok. getByTokenId (the (rq_refreshToken rq)) v = Some tok \<and> rt_subject (refresh_row tok) = Some u
            \<and> rt_client_id (refresh_row tok) = c \<longrightarrow> (\<exists>e x. exchangeRefreshToken E rq v = (Inl e, x)))
     \<and> (\<forall>rq ac. getByCodeId (the (rq_code rq)) v = Some ac \<and> ac_subject (code_row ac) = u
            \<and> ac_client_id (code_row ac) = c \<longrightarrow> (\<exists>e x. exchangeAuthorizationCode E rq v = (Inl e, x)))"
proof (intro conjI allI impI; elim conjE)
  note gone = revoke_consent_tables [OF assms(1)]
  have ids: "distinct (List.map rt_id (refresh_tokens v))"
    using assms(2) by (simp add: assms(4) gone(3) comp_def)
  fix rq :: token_request and tok
  assume tok: "getByTokenId (the (rq_refreshToken rq)) v = Some tok" "rt_subject (refresh_row tok) = Some u"
    "rt_client_id (refresh_row tok) = c"
  have "refresh_row tok \<in> set (refresh_tokens v)" using getByTokenId_Some [OF tok(1)] by simp
  moreover from this obtain r where "refresh_row tok = revoke_row (\<lambda>r. rt_subject r = Some u \<and> rt_client_id r = c)
      (toISOString (clock E (ticks w))) r" by (auto simp: assms(4) gone(3))
  with tok(2,3) have "rt_revoked_at (refresh_row tok) \<noteq> None"
    by (metis (mono_tags, lifting) revoke_row_revoked revoke_row_simps(3,4))
  ultimately have "refresh_spent (rt_id (refresh_row tok)) v" by (rule distinct_spent_refresh [OF ids])
  with tok(1) show "\<exists>e x. exchangeRefreshToken E rq v = (Inl e, x)"
    using exchange_refresh_unspent [of E rq v] by (cases "exchangeRefreshToken E rq v"; cases "fst (exchangeRefreshToken E rq v)") auto
next
  note gone = revoke_consent_tables [OF assms(1)]
  have ids: "distinct (List.map ac_id (authorization_codes v))"
    using assms(3) by (simp add: assms(5) gone(5) distinct_map_filter)
  fix rq :: token_request and ac
  assume ac: "getByCodeId (the (rq_code rq)) v = Some ac" "ac_subject (code_row ac) = u" "ac_client_id (code_row ac) = c"
  have "code_row ac \<in> set (authorization_codes v)" using getByCodeId_Some [OF ac(1)] by simp
  moreover from this ac(2,3) have "ac_used_at (code_row ac) \<noteq> None"
    by (auto simp: assms(5) gone(5))
  ultimately have "code_spent (ac_id (code_row ac)) v" by (rule distinct_spent_code [OF ids])
  with ac(1) show "\<exists>e x. exchangeAuthorizationCode E rq v = (Inl e, x)"
    using exchange_code_unspent [of E rq v] by (cases "exchangeAuthorizationCode E rq v"; cases "fst (exchangeAuthorizationCode E rq v)") auto
qed

end
