(* ===== verification/ApiKeyFormat.thy ===== *)
theory ApiKeyFormat
  imports Params Issue
begin

text \<open>
  The presented form of an API key, \<open>eak_<keyId>_<secret>\<close> (\<open>auth/api-key-format.ts\<close>):
  generation, parsing, and that the two are inverse.
\<close>

definition API_KEY_PREFIX :: string where "API_KEY_PREFIX = ''eak''"
definition KEY_ID_BYTES :: nat where "KEY_ID_BYTES = 8"
definition SECRET_BYTES :: nat where "SECRET_BYTES = 32"

record parsed_api_key =
  pk_keyId :: string
  pk_secret :: string

definition randomHex :: "cfg \<Rightarrow> nat \<Rightarrow> string m" where
  "randomHex E byteLength = seq (getRandomValues E byteLength) (\<lambda>bytes. ret (hex_bytes bytes))"

definition present :: "parsed_api_key \<Rightarrow> string" where
  "present k = API_KEY_PREFIX @ ''_'' @ pk_keyId k @ ''_'' @ pk_secret k"

definition generateApiKey :: "cfg \<Rightarrow> (parsed_api_key \<times> string) m" where
  "generateApiKey E =
     seq (randomHex E KEY_ID_BYTES) (\<lambda>keyId.
     seq (randomHex E SECRET_BYTES) (\<lambda>secret.
     let k = \<lparr>pk_keyId = keyId, pk_secret = secret\<rparr> in ret (k, present k)))"

definition is_lower_hex :: "char \<Rightarrow> bool" where
  "is_lower_hex c \<longleftrightarrow> (CHR ''0'' \<le> c \<and> c \<le> CHR ''9'') \<or> (CHR ''a'' \<le> c \<and> c \<le> CHR ''f'')"

text \<open>\<open>/^[0-9a-f]+$/u\<close>\<close>

definition lower_hex :: "string \<Rightarrow> bool" where
  "lower_hex s \<longleftrightarrow> s \<noteq> [] \<and> list_all is_lower_hex s"

definition parseApiKey :: "string \<Rightarrow> parsed_api_key option" where
  "parseApiKey presented =
     (case split_on CHR ''_'' (js_trim presented) of
        [pre, keyId, secret] \<Rightarrow>
          if pre \<noteq> API_KEY_PREFIX then None
          else if length keyId \<noteq> KEY_ID_BYTES * 2 \<or> \<not> lower_hex keyId then None
          else if length secret \<noteq> SECRET_BYTES * 2 \<or> \<not> lower_hex secret then None
          else Some \<lparr>pk_keyId = keyId, pk_secret = secret\<rparr>
      | _ \<Rightarrow> None)"

section \<open>Facts\<close>

definition well_formed_key :: "parsed_api_key \<Rightarrow> bool" where
  "well_formed_key k \<longleftrightarrow> length (pk_keyId k) = 16 \<and> lower_hex (pk_keyId k)
     \<and> length (pk_secret k) = 64 \<and> lower_hex (pk_secret k)"

lemma hex_digit_lower: "n < 16 \<Longrightarrow> is_lower_hex (hex_digit n)"
  using hex_digit_range [of n] by (auto simp: is_lower_hex_def less_eq_char_def)

lemma hex_bytes_lower: "list_all is_lower_hex (hex_bytes bs)"
proof -
  have "is_lower_hex (hex_digit (unat b div 16)) \<and> is_lower_hex (hex_digit (unat b mod 16))" for b :: "8 word"
  proof -
    have "unat b < 2 ^ LENGTH(8)" by (rule unsigned_less)
    then show ?thesis by (intro conjI hex_digit_lower) auto
  qed
  then show ?thesis by (induction bs) (auto simp: hex_bytes_def hex_byte_def)
qed

lemma lower_hex_free: "lower_hex s \<Longrightarrow> CHR ''_'' \<notin> set s \<and> (\<forall>c \<in> set s. \<not> js_space c)"
proof -
  assume hex: "lower_hex s"
  have "c \<noteq> CHR ''_'' \<and> \<not> js_space c" if "is_lower_hex c" for c
    using that by (auto simp: is_lower_hex_def less_eq_char_def js_space_def)
  with hex show ?thesis by (auto simp: lower_hex_def list_all_iff)
qed

lemma join_split: "join_with [c] (split_on c s) = s"
proof (induction s)
  case (Cons x xs)
  obtain p ps where "split_on c xs = p # ps" by (cases "split_on c xs") auto
  with Cons show ?case by (cases ps) auto
qed simp

lemma parse_present: "well_formed_key k \<Longrightarrow> parseApiKey (present k) = Some k"
proof -
  assume k: "well_formed_key k"
  then have free: "CHR ''_'' \<notin> set (pk_keyId k)" "CHR ''_'' \<notin> set (pk_secret k)"
    "\<forall>c \<in> set (pk_keyId k) \<union> set (pk_secret k). \<not> js_space c"
    by (auto simp: well_formed_key_def dest: lower_hex_free)
  have "\<forall>c \<in> set (present k). \<not> js_space c"
    using free(3) by (auto simp: present_def API_KEY_PREFIX_def js_space_def)
  then have "js_trim (present k) = present k" by (rule js_trim_free)
  moreover have "split_on CHR ''_'' (join_with ''_'' [''eak'', pk_keyId k, pk_secret k]) = [''eak'', pk_keyId k, pk_secret k]"
    using free by (intro split_on_join) auto
  ultimately show ?thesis
    using k by (simp add: parseApiKey_def present_def API_KEY_PREFIX_def well_formed_key_def KEY_ID_BYTES_def SECRET_BYTES_def)
qed

lemma parse_Some:
  assumes "parseApiKey s = Some k"
  shows "well_formed_key k" and "js_trim s = present k"
proof -
  from assms have parts: "split_on CHR ''_'' (js_trim s) = [''eak'', pk_keyId k, pk_secret k]" and "well_formed_key k"
    by (auto simp: parseApiKey_def well_formed_key_def API_KEY_PREFIX_def KEY_ID_BYTES_def SECRET_BYTES_def
        split: list.splits if_splits)
  then show "well_formed_key k" by simp
  show "js_trim s = present k"
    using join_split [of "CHR ''_''" "js_trim s"] by (simp add: parts present_def API_KEY_PREFIX_def)
qed

lemma generateApiKey_run:
  "generateApiKey E w =
     (let k = \<lparr>pk_keyId = hex_bytes (random_bytes E (draws w) 8), pk_secret = hex_bytes (random_bytes E (Suc (draws w)) 32)\<rparr>
      in (Inr (k, present k), w\<lparr>draws := Suc (Suc (draws w))\<rparr>))"
  by (simp add: generateApiKey_def randomHex_def Let_def run_seq KEY_ID_BYTES_def SECRET_BYTES_def)

lemma generated_well_formed:
  assumes "\<And>n k. length (random_bytes E n k) = k" and "generateApiKey E w = (Inr (k, s), t)"
  shows "well_formed_key k" and "s = present k"
proof -
  show "s = present k" using assms(2) by (auto simp: generateApiKey_run Let_def)
  have "lower_hex (hex_bytes bs)" if "bs \<noteq> []" for bs
    using that hex_bytes_lower [of bs] length_hex_bytes [of bs] by (auto simp: lower_hex_def simp del: length_hex_bytes)
  moreover have "random_bytes E n i \<noteq> []" if "0 < i" for n i using assms(1) [of n i] that by auto
  ultimately show "well_formed_key k"
    using assms by (auto simp: generateApiKey_run Let_def well_formed_key_def)
qed

section \<open>Property\<close>

text \<open>
  Parsing accepts exactly the well-formed credentials, up to surrounding white space: a
  fixed prefix, 16 and 64 lower-case hex digits, and returns their two halves; so every
  generated key parses back to itself, and no other text parses to its halves.
\<close>

theorem api_key_format_exact:
  "parseApiKey s = Some k \<longleftrightarrow> well_formed_key k \<and> js_trim s = present k"
proof
  assume "well_formed_key k \<and> js_trim s = present k"
  then have "js_trim (js_trim s) = js_trim s" "parseApiKey (js_trim s) = Some k"
    using parse_present [of k] parse_Some(2) [of "present k" k] by auto
  then show "parseApiKey s = Some k" by (simp add: parseApiKey_def)
qed (simp add: parse_Some)

end
