(* ===== verification/PasswordHash.thy ===== *)
theory PasswordHash
  imports Issue
begin

text \<open>
  Hashing of passwords and API-key secrets: \<open>password-hash.ts\<close> and the policy of
  \<open>config/hash-method.ts\<close>. Argon2 is computed by a bound service (a parameter), MD5 by the
  platform; the policy decides which stored formats are accepted.
\<close>

section \<open>Policy\<close>

datatype hash_method = Md5 | Argon

definition resolveHashMethod :: "cfg \<Rightarrow> string + hash_method" where
  "resolveHashMethod E =
     (let raw = js_lower (case trimmed_env (ctx_env E) ''HASH_METHOD'' of
                            Some v \<Rightarrow> v
                          | None \<Rightarrow> (case trimmed_env (process_env E) ''HASH_METHOD'' of Some v \<Rightarrow> v | None \<Rightarrow> []))
      in if raw = ''md5'' then
           if process_env E ''NODE_ENV'' = Some ''production''
           then Inl ''HASH_METHOD=md5 is not allowed in production; set HASH_METHOD=argon''
           else Inr Md5
         else Inr Argon)"

section \<open>Stored formats\<close>

definition is_hex_any_case :: "char \<Rightarrow> bool" where
  "is_hex_any_case c \<longleftrightarrow> (CHR ''0'' \<le> c \<and> c \<le> CHR ''9'') \<or> (CHR ''a'' \<le> c \<and> c \<le> CHR ''f'')
     \<or> (CHR ''A'' \<le> c \<and> c \<le> CHR ''F'')"

definition isMd5HexStoredHash :: "string \<Rightarrow> bool" where
  "isMd5HexStoredHash stored \<longleftrightarrow> length (js_trim stored) = 32 \<and> list_all is_hex_any_case (js_trim stored)"

definition isArgon2StoredHash :: "string \<Rightarrow> bool" where
  "isArgon2StoredHash stored \<longleftrightarrow> take 7 stored = ''$argon2''"

section \<open>Hashing\<close>

text \<open>The message of a failed call also quotes the service's status; the model keeps its fixed part.\<close>

definition hashPasswordArgon2ViaService :: "(string \<Rightarrow> string option) \<Rightarrow> string \<Rightarrow> string m" where
  "hashPasswordArgon2ViaService hasher plain =
     (case hasher plain of
        None \<Rightarrow> throw (JsError ''argon-hasher /hash failed'')
      | Some h \<Rightarrow> if isArgon2StoredHash h then ret h
                  else throw (JsError ''argon-hasher /hash returned no Argon2 PHC string''))"

definition hashPassword :: "cfg \<Rightarrow> hash_method \<Rightarrow> string \<Rightarrow> string m" where
  "hashPassword E meth plain =
     (case meth of
        Argon \<Rightarrow> (case argon_hash E of
                    None \<Rightarrow> throw (JsError ''HASH_METHOD=argon requires ARGON_HASHER binding'')
                  | Some hasher \<Rightarrow> hashPasswordArgon2ViaService hasher plain)
      | Md5 \<Rightarrow> ret (md5 E plain))"

section \<open>Verification\<close>

record verify_result =
  pv_ok :: bool
  pv_rehash :: "string option"

definition verifyArgon2ViaHasherService :: "cfg \<Rightarrow> string \<Rightarrow> string \<Rightarrow> bool m" where
  "verifyArgon2ViaHasherService E plain storedHash =
     (case argon_verify E plain storedHash of
        None \<Rightarrow> throw (JsError ''fetch failed'') | Some valid \<Rightarrow> ret valid)"

definition verifyPassword :: "cfg \<Rightarrow> hash_method \<Rightarrow> string \<Rightarrow> string \<Rightarrow> verify_result m" where
  "verifyPassword E meth plain storedHash =
     (let no = \<lparr>pv_ok = False, pv_rehash = None\<rparr>
      in case meth of
           Md5 \<Rightarrow>
             if isArgon2StoredHash storedHash then ret no
             else if \<not> isMd5HexStoredHash storedHash then ret no
             else ret \<lparr>pv_ok = (md5 E plain = js_lower storedHash), pv_rehash = None\<rparr>
         | Argon \<Rightarrow>
             (case argon_hash E of
                None \<Rightarrow> ret no
              | Some hasher \<Rightarrow>
                if isArgon2StoredHash storedHash then
                  seq (verifyArgon2ViaHasherService E plain storedHash) (\<lambda>ok.
                  ret \<lparr>pv_ok = ok, pv_rehash = None\<rparr>)
                else if isMd5HexStoredHash storedHash then
                  if md5 E plain \<noteq> js_lower storedHash then ret no
                  else seq (hashPasswordArgon2ViaService hasher plain) (\<lambda>rehash.
                       ret \<lparr>pv_ok = True, pv_rehash = Some rehash\<rparr>)
                else ret no))"

section \<open>Facts\<close>

text \<open>No state is involved in hashing.\<close>

lemma hashPassword_pure: "hashPassword E meth plain w = (r, t) \<Longrightarrow> t = w"
  by (auto simp: hashPassword_def hashPasswordArgon2ViaService_def split: hash_method.splits option.splits if_splits)

lemma verifyPassword_pure: "verifyPassword E meth plain stored w = (r, t) \<Longrightarrow> t = w"
  by (auto simp: verifyPassword_def verifyArgon2ViaHasherService_def hashPasswordArgon2ViaService_def run_seq Let_def
      split: hash_method.splits option.splits if_splits)

text \<open>What an accepted secret looks like at rest, per policy.\<close>

lemma verifyPassword_ok:
  assumes "verifyPassword E meth plain stored w = (Inr v, t)" and "pv_ok v"
  shows "(meth = Argon \<and> isArgon2StoredHash stored \<and> argon_verify E plain stored = Some True \<and> pv_rehash v = None)
     \<or> (\<not> isArgon2StoredHash stored \<and> isMd5HexStoredHash stored \<and> md5 E plain = js_lower stored
        \<and> (meth = Md5 \<longleftrightarrow> pv_rehash v = None)
        \<and> (\<forall>h. pv_rehash v = Some h \<longrightarrow> isArgon2StoredHash h))"
  using assms
  by (auto simp: verifyPassword_def verifyArgon2ViaHasherService_def hashPasswordArgon2ViaService_def run_seq Let_def
      split: hash_method.splits option.splits if_splits)

text \<open>What was hashed verifies, when the service verifies what it hashed and MD5 is lower-case hex.\<close>

lemma hash_then_verify:
  assumes "hashPassword E meth plain w = (Inr h, t)"
    and service: "\<And>f. argon_hash E = Some f \<Longrightarrow> f plain = Some h \<Longrightarrow> argon_verify E plain h = Some True"
    and digest: "\<not> isArgon2StoredHash (md5 E plain)" "isMd5HexStoredHash (md5 E plain)" "js_lower (md5 E plain) = md5 E plain"
  shows "verifyPassword E meth plain h u = (Inr \<lparr>pv_ok = True, pv_rehash = None\<rparr>, u)"
proof (cases meth)
  case Md5
  with assms(1) digest show ?thesis by (auto simp: hashPassword_def verifyPassword_def)
next
  case Argon
  with assms(1) obtain f where "argon_hash E = Some f" "f plain = Some h" "isArgon2StoredHash h"
    by (auto simp: hashPassword_def hashPasswordArgon2ViaService_def split: option.splits if_splits)
  with service Argon show ?thesis
    by (simp add: verifyPassword_def verifyArgon2ViaHasherService_def)
qed

end
