(* ===== verification/ApiKeys.thy ===== *)
theory ApiKeys
  imports ApiKeyFormat PasswordHash AuditLog Exchange
begin

text \<open>
  Long-lived API keys: \<open>api-key.repository.d1.ts\<close>, \<open>api-key.service.ts\<close>, and the exchange of a
  key for a short-lived access token (\<open>exchangeApiKey\<close> of \<open>oauth-token.service.ts\<close>).
\<close>

section \<open>Repository\<close>

record api_key =
  k_id :: string
  k_keyId :: string
  k_clientId :: string
  k_userId :: string
  k_userDisplay :: string
  k_name :: "string option"
  k_createdBy :: string
  k_createdAt :: string
  k_expiresAt :: "string option"
  k_revokedAt :: "string option"
  k_lastUsedAt :: "string option"

definition user_display :: "world \<Rightarrow> string \<Rightarrow> string" where
  "user_display w i = (case find (\<lambda>u. us_id u = i) (users w) of Some u \<Rightarrow> us_username u | None \<Rightarrow> i)"

definition rowToApiKey :: "world \<Rightarrow> api_key_row \<Rightarrow> api_key" where
  "rowToApiKey w r =
     \<lparr>k_id = ak_id r, k_keyId = ak_key_id r, k_clientId = ak_client_id r, k_userId = ak_user_id r,
      k_userDisplay = user_display w (ak_user_id r), k_name = ak_name r,
      k_createdBy = created_by_display w (ak_created_by r), k_createdAt = ak_created_at r,
      k_expiresAt = ak_expires_at r, k_revokedAt = ak_revoked_at r, k_lastUsedAt = ak_last_used_at r\<rparr>"

definition api_keys_by_client :: "string \<Rightarrow> world \<Rightarrow> api_key list" where
  "api_keys_by_client clientId w =
     List.map (rowToApiKey w)
       (rev (sort_key ak_created_at (filter (\<lambda>r. ak_client_id r = clientId) (api_keys w))))"

definition api_key_by_id :: "string \<Rightarrow> world \<Rightarrow> api_key option" where
  "api_key_by_id i w = map_option (rowToApiKey w) (find (\<lambda>r. ak_id r = i) (api_keys w))"

text \<open>The authentication lookup is the only one that also returns the digest.\<close>

definition getByKeyId :: "string \<Rightarrow> world \<Rightarrow> (api_key \<times> string) option" where
  "getByKeyId keyId w =
     map_option (\<lambda>r. (rowToApiKey w r, ak_key_hash r)) (find (\<lambda>r. ak_key_id r = keyId) (api_keys w))"

definition api_keys_violated :: "api_key_row \<Rightarrow> world \<Rightarrow> string option" where
  "api_keys_violated r w =
     (if ak_id r \<in> set (List.map ak_id (api_keys w)) then Some ''UNIQUE constraint failed: api_keys.id''
      else if ak_key_id r \<in> set (List.map ak_key_id (api_keys w))
        then Some ''UNIQUE constraint failed: api_keys.key_id''
      else if ak_client_id r \<notin> set (List.map cl_id (clients w)) then Some ''FOREIGN KEY constraint failed''
      else if ak_user_id r \<notin> set (List.map us_id (users w)) then Some ''FOREIGN KEY constraint failed''
      else if (\<exists>u \<in> set_option (ak_created_by r). u \<notin> set (List.map us_id (users w)))
        then Some ''FOREIGN KEY constraint failed''
      else None)"

definition key_scope_violated :: "scope_link \<Rightarrow> world \<Rightarrow> string option" where
  "key_scope_violated l w =
     (if (lk_owner l, lk_client_scope_id l)
           \<in> set (List.map (\<lambda>x. (lk_owner x, lk_client_scope_id x)) (api_key_scopes w))
      then Some ''UNIQUE constraint failed: api_key_scopes.api_key_id, api_key_scopes.client_scope_id''
      else link_violated api_key_scopes (\<lambda>w. List.map ak_id (api_keys w)) l w)"

text \<open>The key and its scopes are one batch: the ids are drawn first, then all rows are inserted or none.\<close>

definition create_api_key_row :: "cfg \<Rightarrow> api_key_row \<Rightarrow> string list \<Rightarrow> unit m" where
  "create_api_key_row E r clientScopeIds =
     (let ids = filter (\<lambda>i. i \<noteq> []) clientScopeIds
      in seq (randomUUIDs E (length ids)) (\<lambda>uuids.
         transaction
           (seq (guarded (api_keys_violated r) (\<lambda>w. w\<lparr>api_keys := api_keys w @ [r]\<rparr>)) (\<lambda>_.
            each (\<lambda>l. guarded (key_scope_violated l) (\<lambda>w. w\<lparr>api_key_scopes := api_key_scopes w @ [l]\<rparr>))
              (List.map (\<lambda>(i, cs). \<lparr>lk_id = i, lk_owner = ak_id r, lk_client_scope_id = cs\<rparr>) (zip uuids ids))))))"

definition revoke_key_row :: "string \<Rightarrow> string \<Rightarrow> api_key_row \<Rightarrow> api_key_row" where
  "revoke_key_row i now r =
     (if ak_id r = i \<and> ak_revoked_at r = None then r\<lparr>ak_revoked_at := Some now\<rparr> else r)"

definition revoke_api_key_row :: "string \<Rightarrow> string \<Rightarrow> unit m" where
  "revoke_api_key_row i now = writes (\<lambda>w. w\<lparr>api_keys := List.map (revoke_key_row i now) (api_keys w)\<rparr>)"

definition updateHash :: "string \<Rightarrow> string \<Rightarrow> unit m" where
  "updateHash i h =
     writes (\<lambda>w. w\<lparr>api_keys := List.map (\<lambda>r. if ak_id r = i then r\<lparr>ak_key_hash := h\<rparr> else r) (api_keys w)\<rparr>)"

definition touch_last_used_row :: "string \<Rightarrow> string \<Rightarrow> unit m" where
  "touch_last_used_row i now =
     writes (\<lambda>w. w\<lparr>api_keys :=
       List.map (\<lambda>r. if ak_id r = i then r\<lparr>ak_last_used_at := Some now\<rparr> else r) (api_keys w)\<rparr>)"

definition key_scope_grants :: "string \<Rightarrow> world \<Rightarrow> scope_grant list" where
  "key_scope_grants apiKeyId w =
     sort_key g_scopeName
       (concat (List.map (\<lambda>l. case find (\<lambda>cs. cs_id cs = lk_client_scope_id l) (client_scopes w) of
                                None \<Rightarrow> []
                              | Some cs \<Rightarrow> grants_of_row w cs)
          (filter (\<lambda>l. lk_owner l = apiKeyId) (api_key_scopes w))))"

section \<open>Listing and lookup\<close>

definition list_api_keys :: "string \<Rightarrow> string option \<Rightarrow> world \<Rightarrow> api_key list" where
  "list_api_keys clientRowId userId w =
     (if \<not> truthy userId then api_keys_by_client clientRowId w
      else filter (\<lambda>k. Some (k_userId k) = userId) (api_keys_by_client clientRowId w))"

definition getByKeyIdForClient :: "string \<Rightarrow> string \<Rightarrow> world \<Rightarrow> api_key option" where
  "getByKeyIdForClient clientRowId keyId w =
     find (\<lambda>k. k_keyId k = keyId) (api_keys_by_client clientRowId w)"

definition getByKeyIdForClientAndUser :: "string \<Rightarrow> string \<Rightarrow> string \<Rightarrow> world \<Rightarrow> api_key option" where
  "getByKeyIdForClientAndUser clientRowId keyId userId w =
     (case getByKeyIdForClient clientRowId keyId w of
        None \<Rightarrow> None | Some k \<Rightarrow> if k_userId k = userId then Some k else None)"

section \<open>Creation\<close>

record create_key_params =
  kp_clientRowId :: string
  kp_userId :: string
  kp_name :: "string option"
  kp_expiresAt :: "string option"
  kp_scopeNames :: "string list"
  kp_notifyUser :: bool

text \<open>The loop over the requested names stops at the first one the client is not granted.\<close>

fun select_named :: "scope_grant list \<Rightarrow> string list \<Rightarrow> string + scope_grant list" where
  "select_named allGrants [] = Inr []"
| "select_named allGrants (n # ns) =
     (case last_by g_scopeName allGrants n of
        None \<Rightarrow> Inl (''Scope not granted to this client: '' @ n)
      | Some g \<Rightarrow> (case select_named allGrants ns of Inl e \<Rightarrow> Inl e | Inr gs \<Rightarrow> Inr (g # gs)))"

definition resolve_key_grants :: "string \<Rightarrow> string list \<Rightarrow> scope_grant list m" where
  "resolve_key_grants clientRowId scopeNames =
     seq (reads (client_scope_grants clientRowId)) (\<lambda>allGrants.
     let requested = uniq (filter (\<lambda>s. s \<noteq> []) (List.map js_trim scopeNames))
     in if requested = [] then ret allGrants
        else (case select_named allGrants requested of
                Inl e \<Rightarrow> throw (JsError e) | Inr gs \<Rightarrow> ret gs))"

definition normalize_expiry :: "cfg \<Rightarrow> string option \<Rightarrow> string option m" where
  "normalize_expiry E expiresAt =
     (case expiresAt of
        None \<Rightarrow> ret None
      | Some s \<Rightarrow> (case parse_date E s of
                     None \<Rightarrow> throw (JsError ''expiresAt must be a valid ISO timestamp'')
                   | Some ms \<Rightarrow> ret (Some (toISOString ms))))"

definition failure_message :: "failure \<Rightarrow> string" where
  "failure_message e = (case e of OAuthServiceError c m s u st \<Rightarrow> m | D1Error m \<Rightarrow> m | JsError m \<Rightarrow> m)"

text \<open>Sending is up to the mailer; what stops it before that is that there is no mailer or no site URL.\<close>

definition sendCreatedNotification ::
  "cfg \<Rightarrow> api_key \<Rightarrow> client \<Rightarrow> string \<Rightarrow> scope_grant list \<Rightarrow> unit m" where
  "sendCreatedNotification E apiKey cl toEmail grants =
     (case mailer E of
        None \<Rightarrow> throw (JsError ''Email delivery is not configured'')
      | Some send \<Rightarrow>
        seq (reads site_settings) (\<lambda>site.
        (case Option.bind site st_site_url of
           None \<Rightarrow> throw (JsError ''Site URL is not configured'')
         | Some u \<Rightarrow>
           if js_trim u = [] then throw (JsError ''Site URL is not configured'')
           else (case send
               \<lparr>kn_to = toEmail,
                kn_title = (case nonblank (Option.bind site st_site_title) of
                              None \<Rightarrow> ''API key created'' | Some t \<Rightarrow> t),
                kn_siteUrl = (if take 4 (js_trim u) = ''http'' then js_trim u else ''https://'' @ js_trim u),
                kn_client = (case nonblank (c_name cl) of None \<Rightarrow> c_clientId cl | Some n \<Rightarrow> n),
                kn_keyId = k_keyId apiKey, kn_name = k_name apiKey,
                kn_scopes = List.map g_scopeName grants, kn_expiresAt = k_expiresAt apiKey\<rparr> of
             None \<Rightarrow> ret () | Some e \<Rightarrow> throw (JsError e)))))"

text \<open>What \<open>create\<close> checks before it writes: the client, the bound user, the address for the notice, the expiry.\<close>

definition check_key_params :: "cfg \<Rightarrow> create_key_params \<Rightarrow> (client \<times> user_record \<times> string option) m" where
  "check_key_params E p =
     seq (reads (client_by_id (kp_clientRowId p))) (\<lambda>foundClient.
     seq (need foundClient (JsError ''Client not found'')) (\<lambda>cl.
     seq (reads (user_by_id (kp_userId p))) (\<lambda>foundUser.
     seq (need foundUser (JsError ''User not found'')) (\<lambda>user.
     seq (throw_when (u_isTestUser user \<and> \<not> c_isTest cl)
           (JsError ''A test user can only be bound to a test client'')) (\<lambda>_.
     seq (throw_when (kp_notifyUser p \<and> nonblank (u_email user) = None)
           (JsError ''Your account has no email address; an API key cannot be created without one'')) (\<lambda>_.
     seq (normalize_expiry E (kp_expiresAt p)) (\<lambda>expiresAt.
     ret (cl, user, expiresAt))))))))"

definition new_key_row ::
  "create_key_params \<Rightarrow> string option \<Rightarrow> string \<Rightarrow> parsed_api_key \<Rightarrow> string \<Rightarrow> string option \<Rightarrow> string \<Rightarrow> api_key_row" where
  "new_key_row p actor i k h expiresAt now =
     \<lparr>ak_id = i, ak_key_id = pk_keyId k, ak_key_hash = h, ak_client_id = kp_clientRowId p,
      ak_user_id = kp_userId p, ak_name = nonblank (kp_name p), ak_created_by = actor, ak_created_at = now,
      ak_expires_at = expiresAt, ak_revoked_at = None, ak_last_used_at = None\<rparr>"

definition via_admin :: "string option \<Rightarrow> (string \<times> detail) list" where
  "via_admin v = (if truthy v then [(''viaAdminClientRowId'', dtext v)] else [])"

definition notify_created :: "cfg \<Rightarrow> api_key \<Rightarrow> client \<Rightarrow> user_record \<Rightarrow> scope_grant list \<Rightarrow> unit m" where
  "notify_created E created cl user grants =
     catch (sendCreatedNotification E created cl (the (nonblank (u_email user))) grants) (\<lambda>e.
       seq (now_iso E) (\<lambda>now.
       seq (revoke_api_key_row (k_id created) now) (\<lambda>_.
       throw (JsError (''API key notification could not be sent, so the key was revoked: '' @ failure_message e)))))"

definition create_api_key ::
  "cfg \<Rightarrow> hash_method \<Rightarrow> create_key_params \<Rightarrow> string option \<Rightarrow> string option \<Rightarrow> (api_key \<times> string) m" where
  "create_api_key E meth p actorUserId viaAdmin =
     seq (check_key_params E p) (\<lambda>(cl, user, expiresAt).
     seq (resolve_key_grants (kp_clientRowId p) (kp_scopeNames p)) (\<lambda>grants.
     seq (generateApiKey E) (\<lambda>(generated, presented).
     seq (hashPassword E meth (pk_secret generated)) (\<lambda>keyHash.
     seq (randomUUID E) (\<lambda>i.
     seq (now_iso E) (\<lambda>now.
     seq (create_api_key_row E (new_key_row p actorUserId i generated keyHash expiresAt now)
           (List.map g_clientScopeId grants)) (\<lambda>_.
     seq (logAction E actorUserId (audit_action_name ApiKeyCreate) (audit_resource_name ApiKeyResource) (Some i)
           ([(''keyId'', DText (pk_keyId generated)), (''clientId'', DText (c_clientId cl)),
             (''userId'', DText (kp_userId p)), (''scopes'', DTexts (List.map g_scopeName grants)),
             (''expiresAt'', dtext expiresAt)] @ via_admin viaAdmin)) (\<lambda>_.
     seq (reads (api_key_by_id i)) (\<lambda>found.
     seq (need found (JsError ''Failed to load the created API key'')) (\<lambda>created.
     seq (if kp_notifyUser p then notify_created E created cl user grants else ret ()) (\<lambda>_.
     ret (created, presented))))))))))))"

section \<open>Revocation\<close>

definition revoke_api_key :: "cfg \<Rightarrow> string \<Rightarrow> string option \<Rightarrow> string option \<Rightarrow> api_key option m" where
  "revoke_api_key E i actorUserId viaAdmin =
     seq (reads (api_key_by_id i)) (\<lambda>found.
     case found of
       None \<Rightarrow> ret None
     | Some existing \<Rightarrow>
       if truthy (k_revokedAt existing) then ret (Some existing)
       else seq (now_iso E) (\<lambda>now.
         seq (revoke_api_key_row i now) (\<lambda>_.
         seq (logAction E actorUserId (audit_action_name ApiKeyRevoke) (audit_resource_name ApiKeyResource) (Some i)
               ([(''keyId'', DText (k_keyId existing)), (''clientId'', DText (k_clientId existing))]
                @ via_admin viaAdmin)) (\<lambda>_.
         reads (api_key_by_id i)))))"

section \<open>Authentication\<close>

definition invalid_api_key :: failure where
  "invalid_api_key = oauth Invalid_client ''Invalid API key.'' 401"

record authenticated_api_key =
  au_apiKey :: api_key
  au_client :: client
  au_user :: user_record
  au_scopeGrants :: "scope_grant list"

text \<open>The credential: format, row, revocation, expiry, secret (with the upgrade of an old digest).\<close>

definition check_credential :: "cfg \<Rightarrow> hash_method \<Rightarrow> string \<Rightarrow> (api_key \<times> string) m" where
  "check_credential E meth presentedKey =
     seq (need (parseApiKey presentedKey) invalid_api_key) (\<lambda>parsed.
     seq (reads (getByKeyId (pk_keyId parsed))) (\<lambda>found.
     seq (need found invalid_api_key) (\<lambda>(stored, keyHash).
     seq (now_iso E) (\<lambda>now.
     seq (throw_when (truthy (k_revokedAt stored)) invalid_api_key) (\<lambda>_.
     seq (throw_when (expired_at (k_expiresAt stored) now) invalid_api_key) (\<lambda>_.
     seq (verifyPassword E meth (pk_secret parsed) keyHash) (\<lambda>verification.
     seq (throw_when (\<not> pv_ok verification) invalid_api_key) (\<lambda>_.
     seq (case pv_rehash verification of
            None \<Rightarrow> ret () | Some h \<Rightarrow> if h = [] then ret () else updateHash (k_id stored) h) (\<lambda>_.
     ret (stored, now))))))))))"

text \<open>The bound client and user, on every use.\<close>

definition check_binding :: "api_key \<Rightarrow> string \<Rightarrow> (client \<times> user_record) m" where
  "check_binding stored now =
     seq (reads (client_by_id (k_clientId stored))) (\<lambda>foundClient.
     seq (need foundClient invalid_api_key) (\<lambda>cl.
     seq (throw_when (expired_at (c_expiresAt cl) now) invalid_api_key) (\<lambda>_.
     seq (reads (user_by_id (k_userId stored))) (\<lambda>foundUser.
     seq (need foundUser invalid_api_key) (\<lambda>user.
     seq (throw_when (u_isTestUser user \<and> \<not> c_isTest cl) invalid_api_key) (\<lambda>_.
     seq (reads (user_environments (u_id user))) (\<lambda>userEnvironmentIds.
     seq (throw_when (c_environmentId cl \<notin> set userEnvironmentIds) invalid_api_key) (\<lambda>_.
     ret (cl, user)))))))))"

definition authenticate_api_key :: "cfg \<Rightarrow> hash_method \<Rightarrow> string \<Rightarrow> authenticated_api_key m" where
  "authenticate_api_key E meth presentedKey =
     seq (check_credential E meth presentedKey) (\<lambda>(stored, now).
     seq (check_binding stored now) (\<lambda>(cl, user).
     seq (reads (key_scope_grants (k_id stored))) (\<lambda>scopeGrants.
     ret \<lparr>au_apiKey = stored, au_client = cl, au_user = user, au_scopeGrants = scopeGrants\<rparr>)))"

definition touchLastUsed :: "cfg \<Rightarrow> string \<Rightarrow> unit m" where
  "touchLastUsed E i = seq (now_iso E) (touch_last_used_row i)"

section \<open>Exchange\<close>

definition key_issue_params :: "authenticated_api_key \<Rightarrow> scope_grant list \<Rightarrow> string option \<Rightarrow> issue_params" where
  "key_issue_params a selected resource =
     (grant_params (au_client a) selected)
       \<lparr>ip_subject := Some (u_id (au_user a)), ip_resource := resource, ip_issueRefreshToken := False,
        ip_apiKeyRowId := Some (k_id (au_apiKey a))\<rparr>"

text \<open>The service is configured with a hash method, or not at all.\<close>

definition exchangeApiKey ::
  "cfg \<Rightarrow> hash_method option \<Rightarrow> string option \<Rightarrow> string option \<Rightarrow> string option
   \<Rightarrow> (token_response \<times> string \<times> string) m" where
  "exchangeApiKey E service apiKey scope resourceParam =
     seq (need service (oauth Server_error ''API keys are not configured.'' 500)) (\<lambda>meth.
     seq (need_text apiKey (oauth Invalid_request ''Missing api_key.'' 400)) (\<lambda>presented.
     seq (authenticate_api_key E meth presented) (\<lambda>a.
     seq (outcome (normalizeResourceParam E resourceParam)) (\<lambda>resource.
     seq (selectScopeGrants (au_scopeGrants a) (parseScopeParam scope)
           ''Requested scopes are not allowed for this API key.'') (\<lambda>selected.
     seq (issueTokenPair E (key_issue_params a selected resource)) (\<lambda>response.
     ret (response, k_id (au_apiKey a), c_clientId (au_client a))))))))"

end
