(* ===== verification/ApiKeyProofs.thy ===== *)
theory ApiKeyProofs
  imports ApiKeys RefreshGrant
begin

text \<open>
  What the API keys guarantee: a key that authenticates is live, its secret was verified and
  its user may use the client; every refusal looks the same; a revoked key is dead; a created
  key works until it expires; a token minted with a key has at most the key's scopes.
\<close>

section \<open>Facts\<close>

definition rehashed :: "string \<Rightarrow> string option \<Rightarrow> api_key_row \<Rightarrow> api_key_row" where
  "rehashed i h r = (if ak_id r = i \<and> truthy h then r\<lparr>ak_key_hash := the h\<rparr> else r)"

lemma rehashed_simps [simp]:
  "ak_id (rehashed i h r) = ak_id r" "ak_key_id (rehashed i h r) = ak_key_id r"
  "ak_client_id (rehashed i h r) = ak_client_id r" "ak_user_id (rehashed i h r) = ak_user_id r"
  "ak_revoked_at (rehashed i h r) = ak_revoked_at r" "ak_expires_at (rehashed i h r) = ak_expires_at r"
  by (simp_all add: rehashed_def)

lemma upgrade_run:
  "(case h of None \<Rightarrow> ret () | Some x \<Rightarrow> if x = [] then ret () else updateHash i x) w =
     (Inr (), w\<lparr>api_keys := List.map (rehashed i h) (api_keys w)\<rparr>)"
proof -
  have "List.map (rehashed i h) (api_keys w) = api_keys w" if "\<not> truthy h"
    using that by (intro map_idI) (simp add: rehashed_def)
  then show ?thesis
    by (auto simp: updateHash_def rehashed_def truthy_def split: option.splits)
qed

lemma rowToApiKey_simps [simp]:
  "k_id (rowToApiKey w r) = ak_id r" "k_keyId (rowToApiKey w r) = ak_key_id r"
  "k_clientId (rowToApiKey w r) = ak_client_id r" "k_userId (rowToApiKey w r) = ak_user_id r"
  "k_revokedAt (rowToApiKey w r) = ak_revoked_at r" "k_expiresAt (rowToApiKey w r) = ak_expires_at r"
  "k_name (rowToApiKey w r) = ak_name r"
  by (simp_all add: rowToApiKey_def)

text \<open>A presented text and a stored row, as one predicate: this credential opens this row at this instant.\<close>

definition opens :: "cfg \<Rightarrow> hash_method \<Rightarrow> parsed_api_key \<Rightarrow> api_key_row \<Rightarrow> string \<Rightarrow> verify_result \<Rightarrow> bool" where
  "opens E meth k r now v \<longleftrightarrow>
     \<not> truthy (ak_revoked_at r) \<and> \<not> expired_at (ak_expires_at r) now
     \<and> (\<forall>w. verifyPassword E meth (pk_secret k) (ak_key_hash r) w = (Inr v, w)) \<and> pv_ok v"

lemma verifyPassword_anywhere:
  assumes "verifyPassword E meth p h w = (x, t)"
  shows "verifyPassword E meth p h s = (x, s)"
  using assms
  by (auto simp: verifyPassword_def verifyArgon2ViaHasherService_def hashPasswordArgon2ViaService_def run_seq Let_def
      split: hash_method.splits option.splits if_splits)

lemma check_credential_Inr:
  assumes "check_credential E meth presented w = (Inr (stored, now), t)"
  obtains k r v where "parseApiKey presented = Some k" and "find (\<lambda>r. ak_key_id r = pk_keyId k) (api_keys w) = Some r"
    and "stored = rowToApiKey w r" and "now = toISOString (clock E (ticks w))" and "opens E meth k r now v"
    and "t = w\<lparr>ticks := Suc (ticks w), api_keys := List.map (rehashed (ak_id r) (pv_rehash v)) (api_keys w)\<rparr>"
proof -
  let ?w = "w\<lparr>ticks := Suc (ticks w)\<rparr>" and ?now = "toISOString (clock E (ticks w))"
  from assms obtain k r v s where k: "parseApiKey presented = Some k"
    and r: "find (\<lambda>r. ak_key_id r = pk_keyId k) (api_keys w) = Some r"
    and st: "\<not> truthy (ak_revoked_at r)" "\<not> expired_at (ak_expires_at r) ?now"
    and v: "verifyPassword E meth (pk_secret k) (ak_key_hash r) ?w = (Inr v, s)" and ok: "pv_ok v"
    and upgrade: "(case pv_rehash v of None \<Rightarrow> ret ()
        | Some h \<Rightarrow> if h = [] then ret () else updateHash (k_id (rowToApiKey w r)) h) s = (Inr (), t)"
    and res: "stored = rowToApiKey w r" "now = ?now"
    by (auto simp: check_credential_def getByKeyId_def prog_inv split: if_splits)
  have s: "s = ?w" by (rule verifyPassword_pure [OF v])
  have "t = w\<lparr>ticks := Suc (ticks w), api_keys := List.map (rehashed (ak_id r) (pv_rehash v)) (api_keys w)\<rparr>"
    using upgrade by (simp add: s upgrade_run)
  with k r st ok res verifyPassword_anywhere [OF v] show thesis
    by (intro that [of k r v]) (auto simp: opens_def)
qed

definition bound_to :: "string \<Rightarrow> api_key_row \<Rightarrow> client \<Rightarrow> user_record \<Rightarrow> world \<Rightarrow> bool" where
  "bound_to now r cl user w \<longleftrightarrow>
     client_by_id (ak_client_id r) w = Some cl \<and> \<not> expired_at (c_expiresAt cl) now
     \<and> user_by_id (ak_user_id r) w = Some user \<and> (u_isTestUser user \<longrightarrow> c_isTest cl)
     \<and> c_environmentId cl \<in> set (user_environments (u_id user) w)"

lemma check_binding_cases:
  assumes "k_clientId stored = ak_client_id r" and "k_userId stored = ak_user_id r"
  shows "check_binding stored now w = (Inr (cl, user), t) \<longleftrightarrow> bound_to now r cl user w \<and> t = w"
    and "check_binding stored now w = (Inl e, t) \<Longrightarrow> e = invalid_api_key \<and> t = w"
  using assms
  by (auto simp: check_binding_def bound_to_def prog_inv need_def split: if_splits option.splits)

lemma key_scope_grants_held:
  "g \<in> set (key_scope_grants i w) \<Longrightarrow>
     \<exists>l \<in> set (api_key_scopes w). lk_owner l = i \<and> lk_client_scope_id l = g_clientScopeId g
       \<and> (\<exists>cs \<in> set (client_scopes w). cs_id cs = g_clientScopeId g \<and> g \<in> set (grants_of_row w cs))"
proof -
  assume "g \<in> set (key_scope_grants i w)"
  then obtain l cs where l: "l \<in> set (api_key_scopes w)" "lk_owner l = i"
    and cs: "find (\<lambda>cs. cs_id cs = lk_client_scope_id l) (client_scopes w) = Some cs" and g: "g \<in> set (grants_of_row w cs)"
    by (auto simp: key_scope_grants_def split: option.splits dest!: sym [of "Some _"])
  have "g_clientScopeId g = cs_id cs" using g by (auto simp: grants_of_row_def)
  with l cs g find_in_set [OF cs] show ?thesis by auto
qed

text \<open>After the checks of the credential, authentication ends in the same state.\<close>

lemma authenticate_api_key_Inr:
  assumes "authenticate_api_key E meth presented w = (Inr a, t)"
  obtains k r v where "parseApiKey presented = Some k" and "find (\<lambda>r. ak_key_id r = pk_keyId k) (api_keys w) = Some r"
    and "opens E meth k r (toISOString (clock E (ticks w))) v"
    and "bound_to (toISOString (clock E (ticks w))) r (au_client a) (au_user a) w"
    and "au_apiKey a = rowToApiKey w r" and "au_scopeGrants a = key_scope_grants (ak_id r) w"
    and "t = w\<lparr>ticks := Suc (ticks w), api_keys := List.map (rehashed (ak_id r) (pv_rehash v)) (api_keys w)\<rparr>"
proof -
  from assms obtain stored now s cl user where cred: "check_credential E meth presented w = (Inr (stored, now), s)"
    and bind: "check_binding stored now s = (Inr (cl, user), t)"
    and a: "a = \<lparr>au_apiKey = stored, au_client = cl, au_user = user, au_scopeGrants = key_scope_grants (k_id stored) t\<rparr>"
    by (auto simp: authenticate_api_key_def seq_Inr split: prod.splits)
  from cred obtain k r v where k: "parseApiKey presented = Some k" "find (\<lambda>r. ak_key_id r = pk_keyId k) (api_keys w) = Some r"
    and r: "stored = rowToApiKey w r" "now = toISOString (clock E (ticks w))" "opens E meth k r now v"
    and s: "s = w\<lparr>ticks := Suc (ticks w), api_keys := List.map (rehashed (ak_id r) (pv_rehash v)) (api_keys w)\<rparr>"
    by (rule check_credential_Inr)
  have b: "bound_to now r cl user s" "t = s"
    using bind check_binding_cases(1) [of stored r now s cl user t] r(1) by simp_all
  have same: "bound_to now r cl user s = bound_to now r cl user w" "key_scope_grants i s = key_scope_grants i w" for i
    by (simp_all add: s bound_to_def client_by_id_def user_by_id_def user_environments_def rowToClient_def
        created_by_display_def key_scope_grants_def grants_of_row_def [abs_def] cong: option.case_cong)
  have "bound_to now r (au_client a) (au_user a) w" "au_scopeGrants a = key_scope_grants (ak_id r) w"
    using b a r(1) by (simp_all add: same)
  moreover have "au_apiKey a = rowToApiKey w r" using a r(1) by simp
  ultimately show thesis using k r(2,3) s b(2) by (intro that [of k r v]) simp_all
qed

definition hash_service_error :: "failure \<Rightarrow> bool" where
  "hash_service_error e \<longleftrightarrow> (\<exists>x. e = JsError x)"

section \<open>Properties\<close>


text \<open>
  Every refusal of a key is the same answer, \<open>invalid_client\<close> "Invalid API key.": nothing
  tells an unknown key from a wrong secret, a revoked or expired key or a user without access.
  Only a failing hash service shows as another error.
\<close>

theorem api_key_refusal_uniform:
  assumes "authenticate_api_key E meth presented w = (Inl e, t)"
  shows "e = invalid_api_key \<or> hash_service_error e"
proof -
  let ?P = "\<lambda>e. e = invalid_api_key \<or> hash_service_error e"
  have verify: "raises ?P (verifyPassword E meth p h)" for p h
    by (auto simp: raises_def verifyPassword_def verifyArgon2ViaHasherService_def hashPasswordArgon2ViaService_def
        hash_service_error_def run_seq Let_def split: hash_method.splits option.splits if_splits)
  have upgrade: "raises ?P (case h of None \<Rightarrow> ret () | Some x \<Rightarrow> if x = [] then ret () else updateHash i x)" for h i
    by (auto simp: raises_def upgrade_run)
  have cred: "raises ?P (check_credential E meth presented)"
    unfolding check_credential_def by (intro raise verify upgrade) (auto simp: split_paired_all intro!: raise verify upgrade)
  have bind: "raises ?P (check_binding stored now)" for stored now
    unfolding check_binding_def by (intro raise) auto
  have "raises ?P (authenticate_api_key E meth presented)"
    unfolding authenticate_api_key_def by (intro raise cred) (auto intro!: raise bind)
  then show ?thesis by (rule raisesD) (rule assms)
qed

section \<open>A revoked key\<close>

lemma toISOString_not_empty [simp]: "toISOString n \<noteq> []"
  by (simp add: toISOString_def Let_def)

lemma revoke_key_row_simps [simp]:
  "ak_id (revoke_key_row i n r) = ak_id r" "ak_key_id (revoke_key_row i n r) = ak_key_id r"
  by (simp_all add: revoke_key_row_def)

lemma revoke_api_key_rows:
  assumes "revoke_api_key E i actor via w = (x, t)"
  shows "api_keys t = api_keys w \<and> (\<forall>k. api_key_by_id i w = Some k \<longrightarrow> truthy (k_revokedAt k))
     \<or> api_keys t = List.map (revoke_key_row i (toISOString (clock E (ticks w)))) (api_keys w)"
proof (cases "api_key_by_id i w")
  case None
  with assms show ?thesis by (simp add: revoke_api_key_def)
next
  case (Some k)
  show ?thesis
  proof (cases "truthy (k_revokedAt k)")
    case True
    with assms Some show ?thesis by (simp add: revoke_api_key_def)
  next
    case False
    let ?v = "w\<lparr>ticks := Suc (ticks w), api_keys := List.map (revoke_key_row i (toISOString (clock E (ticks w)))) (api_keys w)\<rparr>"
    have "evolves audit_grows (seq (logAction E a b c d e) (\<lambda>_. reads f))" for a b c d e and f :: "world \<Rightarrow> api_key option"
      by (intro audit_evolution.seq logAction_grows audit_evolution.keeps)
    from assms Some False evolvesD [OF this] have "audit_grows ?v t"
      by (auto simp: revoke_api_key_def revoke_api_key_row_def)
    then have "api_keys t = api_keys ?v" by (rule audit_grows_simps)
    then show ?thesis by simp
  qed
qed

text \<open>
  C34. A revoked key is dead: after revocation no text with its key id authenticates, in any
  later state with the same key rows, whatever the clock says.
\<close>

theorem revoked_api_key_dead:
  assumes "revoke_api_key E i actor via w = (x, t)" and "api_key_by_id i w = Some k"
    and "distinct (List.map ak_id (api_keys w))" and "distinct (List.map ak_key_id (api_keys w))"
    and "\<forall>r \<in> set (api_keys w). ak_revoked_at r \<noteq> Some []"
    and "api_keys u = api_keys t" and "parseApiKey presented = Some pk" and "pk_keyId pk = k_keyId k"
  shows "\<exists>e v. authenticate_api_key E meth presented u = (Inl e, v)"
proof (rule ccontr)
  assume "\<nexists>e v. authenticate_api_key E meth presented u = (Inl e, v)"
  then obtain a v where run: "authenticate_api_key E meth presented u = (Inr a, v)"
    by (cases "authenticate_api_key E meth presented u"; cases "fst (authenticate_api_key E meth presented u)") auto
  obtain k' r y where k': "parseApiKey presented = Some k'" "find (\<lambda>r. ak_key_id r = pk_keyId k') (api_keys u) = Some r"
    and op: "opens E meth k' r (toISOString (clock E (ticks u))) y"
    and "bound_to (toISOString (clock E (ticks u))) r (au_client a) (au_user a) u"
    and "au_apiKey a = rowToApiKey u r" and "au_scopeGrants a = key_scope_grants (ak_id r) u"
    and "v = u\<lparr>ticks := Suc (ticks u), api_keys := List.map (rehashed (ak_id r) (pv_rehash y)) (api_keys u)\<rparr>"
    by (rule authenticate_api_key_Inr [OF run])
  from assms(2) obtain s where s: "s \<in> set (api_keys w)" "ak_id s = i" "k = rowToApiKey w s"
    by (auto simp: api_key_by_id_def dest!: find_in_set)
  have key: "ak_key_id r = ak_key_id s" using find_in_set [OF k'(2)] k'(1) assms(7,8) s(3) by simp
  have r: "r \<in> set (api_keys t)" using find_in_set [OF k'(2)] assms(6) by simp
  from revoke_api_key_rows [OF assms(1)] have "truthy (ak_revoked_at r)"
  proof
    assume old: "api_keys t = api_keys w \<and> (\<forall>k. api_key_by_id i w = Some k \<longrightarrow> truthy (k_revokedAt k))"
    then have "r = s" using r s(1) key assms(4) by (auto simp: distinct_map inj_on_def)
    with old assms(2) s(3) show ?thesis by simp
  next
    assume new: "api_keys t = List.map (revoke_key_row i (toISOString (clock E (ticks w)))) (api_keys w)"
    with r obtain r0 where r0: "r0 \<in> set (api_keys w)" "r = revoke_key_row i (toISOString (clock E (ticks w))) r0" by auto
    with s(1) key assms(4) have "r0 = s" by (auto simp: distinct_map inj_on_def)
    with r0 s(1,2) assms(5) show ?thesis
      by (cases "ak_revoked_at s") (auto simp: revoke_key_row_def truthy_def)
  qed
  with op show False by (simp add: opens_def)
qed

section \<open>Exchanging a key\<close>

lemma key_issue_params_simps [simp]:
  "ip_clientId (key_issue_params a gs res) = c_id (au_client a)"
  "ip_clientScopeIds (key_issue_params a gs res) = List.map g_clientScopeId gs"
  "ip_scopeNames (key_issue_params a gs res) = List.map g_scopeName gs"
  "ip_subject (key_issue_params a gs res) = Some (u_id (au_user a))"
  "ip_resource (key_issue_params a gs res) = res" "\<not> ip_issueRefreshToken (key_issue_params a gs res)"
  "ip_apiKeyRowId (key_issue_params a gs res) = Some (k_id (au_apiKey a))"
  by (simp_all add: key_issue_params_def grant_params_def)

text \<open>
  C33. Exchanging a key adds exactly one access token row, marked with the key it came from, for
  the key's client and the requested resource, that lives one hour; its scopes are among the
  key's own subset. No refresh token is issued. The key was live and opened by the credential.
\<close>

theorem api_key_exchange_sound:
  assumes "exchangeApiKey E service apiKey scope resourceParam w = (Inr (resp, keyRowId, clientId), t)"
  shows "\<exists>meth presented k r row.
     service = Some meth \<and> apiKey = Some presented \<and> parseApiKey presented = Some k
     \<and> r \<in> set (api_keys w) \<and> ak_key_id r = pk_keyId k \<and> keyRowId = ak_id r
     \<and> \<not> truthy (ak_revoked_at r) \<and> \<not> expired_at (ak_expires_at r) (toISOString (clock E (ticks w)))
     \<and> tokens t = tokens w @ [row] \<and> token_names E (tr_access_token resp) (at_token_id row)
     \<and> at_api_key_id row = Some (ak_id r) \<and> at_client_id row = ak_client_id r
     \<and> normalizeResourceParam E resourceParam = Inr (at_resource row)
     \<and> at_expires_at row = toISOString (clock E (Suc (ticks w)) + 3600000)
     \<and> (\<forall>l \<in> set (drop (length (token_scopes w)) (token_scopes t)). lk_owner l = at_id row
          \<and> (\<exists>x \<in> set (api_key_scopes w). lk_owner x = ak_id r \<and> lk_client_scope_id x = lk_client_scope_id l))
     \<and> refresh_tokens t = refresh_tokens w \<and> tr_refresh_token resp = None"
proof -
  from assms obtain meth presented a s resource gs s2 where given: "service = Some meth" "apiKey = Some presented"
    and auth: "authenticate_api_key E meth presented w = (Inr a, s)"
    and res: "Inr resource = normalizeResourceParam E resourceParam"
    and sel: "selectScopeGrants (au_scopeGrants a) (parseScopeParam scope)
        ''Requested scopes are not allowed for this API key.'' s = (Inr gs, s2)"
    and issue2: "issueTokenPair E (key_issue_params a gs resource) s2 = (Inr resp, t)"
    and id: "keyRowId = k_id (au_apiKey a)"
    by (auto simp: exchangeApiKey_def prog_inv)
  have issue: "issueTokenPair E (key_issue_params a gs resource) s = (Inr resp, t)"
    using issue2 selectScopeGrants_run [OF sel] by simp
  obtain k r v where k: "parseApiKey presented = Some k" "find (\<lambda>r. ak_key_id r = pk_keyId k) (api_keys w) = Some r"
    and op: "opens E meth k r (toISOString (clock E (ticks w))) v"
    and bound: "bound_to (toISOString (clock E (ticks w))) r (au_client a) (au_user a) w"
    and a: "au_apiKey a = rowToApiKey w r" "au_scopeGrants a = key_scope_grants (ak_id r) w"
    and s: "s = w\<lparr>ticks := Suc (ticks w), api_keys := List.map (rehashed (ak_id r) (pv_rehash v)) (api_keys w)\<rparr>"
    by (rule authenticate_api_key_Inr [OF auth])
  from issue obtain row s' where iss: "issued (key_issue_params a gs resource) (clock E (ticks s)) row resp s' t"
    and s': "s' = s\<lparr>ticks := ticks s', draws := draws s'\<rparr>" "ticks s < ticks s'"
    and tok: "token_names E (tr_access_token resp) (at_token_id row)"
    by (rule issueTokenPair_Inr)
  have same: "tokens s' = tokens w" "token_scopes s' = token_scopes w" "refresh_tokens s' = refresh_tokens w"
    by (subst s'(1), simp add: s)+
  have client: "c_id (au_client a) = ak_client_id r"
    using bound client_by_id_Some [of "ak_client_id r" w "au_client a"] by (simp add: bound_to_def)
  obtain ls where ls: "token_scopes t = token_scopes w @ ls" "List.map lk_client_scope_id ls = List.map g_clientScopeId gs"
      "\<forall>l \<in> set ls. lk_owner l = at_id row"
    using iss by (auto simp: issued_def links_added_def same)
  have scopes: "\<exists>x \<in> set (api_key_scopes w). lk_owner x = ak_id r \<and> lk_client_scope_id x = lk_client_scope_id l"
    if "l \<in> set ls" for l
  proof -
    have "lk_client_scope_id l \<in> g_clientScopeId ` set gs" using ls(2) that by (metis image_eqI list.set_map)
    then obtain g where "g \<in> set gs" "g_clientScopeId g = lk_client_scope_id l" by auto
    then show ?thesis using selectScopeGrants_Inr(2) [OF sel] key_scope_grants_held [of g "ak_id r" w] by (auto simp: a(2))
  qed
  show ?thesis
    using given k op find_in_set [OF k(2)] iss tok res id a(1) client ls scopes
    by (intro exI [of _ meth] exI [of _ presented] exI [of _ k] exI [of _ r] exI [of _ row])
      (auto simp: issued_def opens_def same s ACCESS_TOKEN_TTL_SECONDS_def)
qed

section \<open>A created key works\<close>

lemma normalize_expiry_keeps: "evolves (\<lambda>s t :: world. t = s) (normalize_expiry E e)"
  by (auto simp: normalize_expiry_def split: option.splits)

lemma keeps_state:
  "evolves (\<lambda>s t :: world. t = s) (check_key_params E p)" "evolves (\<lambda>s t :: world. t = s) (resolve_key_grants i ns)"
  "evolves (\<lambda>s t :: world. t = s) (sendCreatedNotification E k cl mail gs)"
proof -
  show "evolves (\<lambda>s t :: world. t = s) (check_key_params E p)"
    unfolding check_key_params_def by (intro unchanged.seq unchanged.keeps normalize_expiry_keeps)
  show "evolves (\<lambda>s t :: world. t = s) (resolve_key_grants i ns)"
    unfolding resolve_key_grants_def Let_def
    by (intro unchanged.seq unchanged.keeps) (auto split: sum.splits)
  show "evolves (\<lambda>s t :: world. t = s) (sendCreatedNotification E k cl mail gs)"
    by (rule evolvesI) (auto simp: sendCreatedNotification_def split: option.splits if_splits)
qed

lemma hashPassword_keeps: "evolves (\<lambda>s t :: world. t = s) (hashPassword E meth plain)"
  by (rule evolvesI) (rule hashPassword_pure)

lemma seq_pure:
  assumes "evolves (\<lambda>s t. t = s) m"
  shows "seq m f w = (case fst (m w) of Inl e \<Rightarrow> (Inl e, w) | Inr x \<Rightarrow> f x w)"
  using assms by (cases "m w") (simp add: evolves_def run_seq split: sum.splits, metis snd_conv)

lemma insert_key_scopes_Inr:
  "each (\<lambda>l. guarded (key_scope_violated l) (\<lambda>w. w\<lparr>api_key_scopes := api_key_scopes w @ [l]\<rparr>)) ls w = (Inr u, t)
     \<Longrightarrow> t = w\<lparr>api_key_scopes := api_key_scopes w @ ls\<rparr>"
  by (induction ls arbitrary: w) (fastforce simp: prog_inv)+

lemma create_api_key_row_Inr:
  assumes "create_api_key_row E r cs w = (Inr u, t)"
  shows "api_keys_violated r w = None"
    and "\<exists>ls n. t = w\<lparr>draws := n, api_keys := api_keys w @ [r], api_key_scopes := api_key_scopes w @ ls\<rparr>
       \<and> List.map lk_client_scope_id ls = filter (\<lambda>i. i \<noteq> []) cs \<and> (\<forall>l \<in> set ls. lk_owner l = ak_id r)"
proof -
  let ?ids = "filter (\<lambda>i. i \<noteq> []) cs"
  let ?uuids = "List.map (uuid E) [draws w..<draws w + length ?ids]"
  let ?ls = "List.map (\<lambda>(i, cs). \<lparr>lk_id = i, lk_owner = ak_id r, lk_client_scope_id = cs\<rparr>) (zip ?uuids ?ids)"
  from assms have ok: "api_keys_violated r (w\<lparr>draws := draws w + length ?ids\<rparr>) = None"
    and run: "each (\<lambda>l. guarded (key_scope_violated l) (\<lambda>w. w\<lparr>api_key_scopes := api_key_scopes w @ [l]\<rparr>)) ?ls
       (w\<lparr>draws := draws w + length ?ids, api_keys := api_keys w @ [r]\<rparr>) = (Inr u, t)"
    by (auto simp: create_api_key_row_def Let_def prog_inv)
  show "api_keys_violated r w = None" using ok by (simp add: api_keys_violated_def cong: if_cong)
  have "List.map lk_client_scope_id ?ls = List.map snd (zip ?uuids ?ids)" by (simp add: comp_def case_prod_beta)
  then have "List.map lk_client_scope_id ?ls = ?ids" by (simp add: map_snd_zip)
  moreover have "\<forall>l \<in> set ?ls. lk_owner l = ak_id r" by auto
  ultimately show "\<exists>ls n. t = w\<lparr>draws := n, api_keys := api_keys w @ [r], api_key_scopes := api_key_scopes w @ ls\<rparr>
       \<and> List.map lk_client_scope_id ls = ?ids \<and> (\<forall>l \<in> set ls. lk_owner l = ak_id r)"
    using insert_key_scopes_Inr [OF run]
    by (intro exI [of _ ?ls] exI [of _ "draws w + length ?ids"]) simp
qed

lemma create_api_key_Inr:
  assumes "create_api_key E meth p actor via w = (Inr (k, presented), t)"
  obtains expiresAt grants g h i row ls s where
    "g = \<lparr>pk_keyId = hex_bytes (random_bytes E (draws w) 8), pk_secret = hex_bytes (random_bytes E (Suc (draws w)) 32)\<rparr>"
    and "presented = present g" and "hashPassword E meth (pk_secret g) s = (Inr h, s)"
    and "row = new_key_row p actor i g h expiresAt (toISOString (clock E (ticks w)))"
    and "normalize_expiry E (kp_expiresAt p) w = (Inr expiresAt, w)"
    and "resolve_key_grants (kp_clientRowId p) (kp_scopeNames p) w = (Inr grants, w)"
    and "ak_key_id row \<notin> set (List.map ak_key_id (api_keys w))" and "ak_id row \<notin> set (List.map ak_id (api_keys w))"
    and "api_keys t = api_keys w @ [row]" and "api_key_scopes t = api_key_scopes w @ ls"
    and "List.map lk_client_scope_id ls = filter (\<lambda>i. i \<noteq> []) (List.map g_clientScopeId grants)"
    and "\<forall>l \<in> set ls. lk_owner l = i" and "k_id k = i"
proof -
  let ?g = "\<lparr>pk_keyId = hex_bytes (random_bytes E (draws w) 8), pk_secret = hex_bytes (random_bytes E (Suc (draws w)) 32)\<rparr>"
  let ?s = "w\<lparr>draws := Suc (Suc (draws w))\<rparr>" and ?i = "uuid E (Suc (Suc (draws w)))"
  let ?v = "w\<lparr>draws := Suc (Suc (Suc (draws w))), ticks := Suc (ticks w)\<rparr>"
  note pure = seq_pure [OF keeps_state(1)] seq_pure [OF keeps_state(2)] seq_pure [OF hashPassword_keeps]
  from assms obtain cl user expiresAt where params: "fst (check_key_params E p w) = Inr (cl, user, expiresAt)"
    by (auto simp: create_api_key_def pure split: sum.splits)
  from assms params obtain grants where grants: "fst (resolve_key_grants (kp_clientRowId p) (kp_scopeNames p) w) = Inr grants"
    by (auto simp: create_api_key_def pure split: sum.splits)
  from assms params grants obtain h where h: "fst (hashPassword E meth (pk_secret ?g) ?s) = Inr h"
    by (auto simp: create_api_key_def pure run_seq [of "generateApiKey E"] generateApiKey_run Let_def split: sum.splits)
  let ?row = "new_key_row p actor ?i ?g h expiresAt (toISOString (clock E (ticks w)))"
  from assms params grants h obtain u v where
    row: "create_api_key_row E ?row (List.map g_clientScopeId grants) ?v = (Inr (), u)"
    and logged: "audit_grows u v" and k: "api_key_by_id ?i v = Some k" "presented = present ?g"
    and notice: "(if kp_notifyUser p then notify_created E k cl user grants else ret ()) v = (Inr (), t)"
    by (auto simp: create_api_key_def pure run_seq [of "generateApiKey E"] generateApiKey_run Let_def
        seq_Inr [of "create_api_key_row _ _ _"] seq_Inr [of "logAction _ _ _ _ _ _"] seq_Inr [of "need _ _"]
        seq_Inr [of "If _ _ _"] need_Inr dest: evolvesD [OF logAction_grows] split: sum.splits)
  have "t = v"
    using notice evolvesD [OF keeps_state(3)]
    by (fastforce simp: notify_created_def prog_inv split: if_splits)
  note v = audit_grows_simps [OF logged]
  obtain ls n where u: "u = ?v\<lparr>draws := n, api_keys := api_keys w @ [?row], api_key_scopes := api_key_scopes w @ ls\<rparr>"
    "List.map lk_client_scope_id ls = filter (\<lambda>i. i \<noteq> []) (List.map g_clientScopeId grants)"
    "\<forall>l \<in> set ls. lk_owner l = ?i"
    using create_api_key_row_Inr(2) [OF row] by (auto simp: new_key_row_def)
  have "ak_key_id ?row \<notin> set (List.map ak_key_id (api_keys w))" "ak_id ?row \<notin> set (List.map ak_id (api_keys w))"
    using create_api_key_row_Inr(1) [OF row] by (auto simp: api_keys_violated_def split: if_splits)
  moreover have "hashPassword E meth (pk_secret ?g) ?s = (Inr h, ?s)"
    using h evolvesD [OF hashPassword_keeps] by (metis prod.collapse)
  moreover have "normalize_expiry E (kp_expiresAt p) w = (Inr expiresAt, w)"
  proof -
    have "check_key_params E p w = (Inr (cl, user, expiresAt), w)"
      using params evolvesD [OF keeps_state(1)] by (metis prod.collapse)
    then obtain v where "normalize_expiry E (kp_expiresAt p) w = (Inr expiresAt, v)"
      by (auto simp: check_key_params_def prog_inv split: if_splits)
    with evolvesD [OF normalize_expiry_keeps this] show ?thesis by simp
  qed
  moreover have "resolve_key_grants (kp_clientRowId p) (kp_scopeNames p) w = (Inr grants, w)"
    using grants evolvesD [OF keeps_state(2)] by (metis prod.collapse)
  moreover have "k_id k = ?i" using k(1) by (auto simp: api_key_by_id_def dest!: find_in_set)
  ultimately show thesis
    using k(2) u(2,3) v(1,2) \<open>t = v\<close>
    by (intro that [of ?g ?s h ?row ?i expiresAt grants ls]) (simp_all add: u(1))
qed

lemma authenticate_opens:
  assumes "parseApiKey presented = Some k" and "find (\<lambda>r. ak_key_id r = pk_keyId k) (api_keys w) = Some r"
    and "opens E meth k r (toISOString (clock E (ticks w))) v" and "\<not> truthy (pv_rehash v)"
    and "bound_to (toISOString (clock E (ticks w))) r cl user w"
  shows "authenticate_api_key E meth presented w =
    (Inr \<lparr>au_apiKey = rowToApiKey w r, au_client = cl, au_user = user, au_scopeGrants = key_scope_grants (ak_id r) w\<rparr>,
     w\<lparr>ticks := Suc (ticks w)\<rparr>)"
proof -
  let ?w = "w\<lparr>ticks := Suc (ticks w)\<rparr>" and ?now = "toISOString (clock E (ticks w))"
  have "List.map (rehashed (ak_id r) (pv_rehash v)) (api_keys w) = api_keys w"
    using assms(4) by (intro map_idI) (simp add: rehashed_def)
  then have "check_credential E meth presented w = (Inr (rowToApiKey w r, ?now), ?w)"
    using assms(1-3) by (simp add: check_credential_def getByKeyId_def opens_def run_seq upgrade_run cong: seq_cong_first)
  moreover have "bound_to ?now r cl user ?w"
    using assms(5) by (simp add: bound_to_def client_by_id_def user_by_id_def user_environments_def rowToClient_def
        created_by_display_def cong: option.case_cong)
  then have "check_binding (rowToApiKey w r) ?now ?w = (Inr (cl, user), ?w)"
    by (subst check_binding_cases(1) [of _ r]) simp_all
  moreover have "key_scope_grants i ?w = key_scope_grants i w" for i
    by (simp add: key_scope_grants_def grants_of_row_def [abs_def] cong: option.case_cong)
  ultimately show ?thesis by (simp add: authenticate_api_key_def run_seq)
qed

text \<open>
  C35. The credential returned when a key is created opens that key, in every later state with
  the same key rows, until the key expires, as long as its user may use its client: no other
  row answers to it, and authenticating gives the created key with its own scopes. (The random
  source returns as many bytes as asked, the hash service verifies what it hashed, and MD5
  digests are lower-case hex.)
\<close>

theorem created_api_key_works:
  assumes "create_api_key E meth p actor via w = (Inr (k, presented), t)"
    and bytes: "\<And>n i. length (random_bytes E n i) = i"
    and service: "\<And>f s h. argon_hash E = Some f \<Longrightarrow> f s = Some h \<Longrightarrow> argon_verify E s h = Some True"
    and digest: "\<And>s. \<not> isArgon2StoredHash (md5 E s) \<and> isMd5HexStoredHash (md5 E s) \<and> js_lower (md5 E s) = md5 E s"
    and "api_keys u = api_keys t"
    and "normalize_expiry E (kp_expiresAt p) w = (Inr expiresAt, w)"
    and "\<not> expired_at expiresAt (toISOString (clock E (ticks u)))"
    and "\<exists>r \<in> set (api_keys u). ak_id r = k_id k \<and> bound_to (toISOString (clock E (ticks u))) r cl user u"
  shows "\<exists>a v. authenticate_api_key E meth presented u = (Inr a, v) \<and> k_id (au_apiKey a) = k_id k
     \<and> au_scopeGrants a = key_scope_grants (k_id k) u \<and> au_user a = user \<and> au_client a = cl"
proof -
  obtain exp grants g h i row ls s where
    g: "g = \<lparr>pk_keyId = hex_bytes (random_bytes E (draws w) 8), pk_secret = hex_bytes (random_bytes E (Suc (draws w)) 32)\<rparr>"
    and pres: "presented = present g" and hash: "hashPassword E meth (pk_secret g) s = (Inr h, s)"
    and row: "row = new_key_row p actor i g h exp (toISOString (clock E (ticks w)))"
    and exp: "normalize_expiry E (kp_expiresAt p) w = (Inr exp, w)"
    and "resolve_key_grants (kp_clientRowId p) (kp_scopeNames p) w = (Inr grants, w)"
    and fresh: "ak_key_id row \<notin> set (List.map ak_key_id (api_keys w))" "ak_id row \<notin> set (List.map ak_id (api_keys w))"
    and keys: "api_keys t = api_keys w @ [row]" and "api_key_scopes t = api_key_scopes w @ ls"
    and "List.map lk_client_scope_id ls = filter (\<lambda>i. i \<noteq> []) (List.map g_clientScopeId grants)"
    and "\<forall>l \<in> set ls. lk_owner l = i" and id: "k_id k = i"
    by (rule create_api_key_Inr [OF assms(1)])
  have "generateApiKey E w = (Inr (g, present g), w\<lparr>draws := Suc (Suc (draws w))\<rparr>)"
    by (simp add: generateApiKey_run g Let_def)
  from generated_well_formed(1) [OF bytes this] have parse: "parseApiKey presented = Some g"
    unfolding pres by (rule parse_present)
  have look: "find (\<lambda>r. ak_key_id r = pk_keyId g) (api_keys u) = Some row"
    using find_none_key [OF fresh(1)] by (simp add: assms(5) keys find_append row new_key_row_def)
  have "verifyPassword E meth (pk_secret g) h x = (Inr \<lparr>pv_ok = True, pv_rehash = None\<rparr>, x)" for x
    using hash_then_verify [OF hash] service digest by blast
  then have op: "opens E meth g row (toISOString (clock E (ticks u))) \<lparr>pv_ok = True, pv_rehash = None\<rparr>"
    using assms(6,7) exp by (simp add: opens_def row new_key_row_def truthy_def)
  have ids: "ak_id row = i" by (simp add: row new_key_row_def)
  from assms(8) have bound: "bound_to (toISOString (clock E (ticks u))) row cl user u"
    using fresh(2) by (auto simp: assms(5) keys id ids)
  show ?thesis
    using authenticate_opens [OF parse look op _ bound] by (simp add: truthy_def id ids)
qed

end
