(* ===== verification/Totp.thy ===== *)
theory Totp
  imports ClientAuth
begin

unbundle bit_operations_syntax

text \<open>
  RFC 6238 one-time passwords, \<open>auth/totp.ts\<close>: Base32 with the 32-bit accumulator the code
  shifts bytes through, the HOTP truncation, and the window of time steps a code is accepted
  in. HMAC-SHA1 is a parameter.
\<close>

section \<open>Base32\<close>

definition BASE32_ALPHABET :: string where
  "BASE32_ALPHABET = ''ABCDEFGHIJKLMNOPQRSTUVWXYZ234567''"

definition STEP_SECONDS :: nat where "STEP_SECONDS = 30"
definition DIGITS :: nat where "DIGITS = 6"

text \<open>
  JavaScript's \<open><<\<close>, \<open>|\<close>, \<open>>>>\<close> and \<open>&\<close> work on 32 bits: the accumulator \<open>value\<close> is never
  cleared, its older bits fall out on the left.
\<close>

definition b32_char :: "32 word \<Rightarrow> char" where
  "b32_char g = BASE32_ALPHABET ! unat g"

text \<open>The inner \<open>while (bits >= 5)\<close>: the characters it emits; it leaves \<open>bits mod 5\<close> bits.\<close>

function emit_quintets :: "nat \<Rightarrow> 32 word \<Rightarrow> string" where
  "emit_quintets bits value =
     (if bits \<ge> 5 then b32_char (drop_bit (bits - 5) value AND 31) # emit_quintets (bits - 5) value else [])"
  by pat_completeness auto
termination by (relation "measure fst") auto

declare emit_quintets.simps [simp del]

fun encode_bytes :: "8 word list \<Rightarrow> nat \<Rightarrow> 32 word \<Rightarrow> string" where
  "encode_bytes [] bits value = (if bits > 0 then [b32_char (push_bit (5 - bits) value AND 31)] else [])"
| "encode_bytes (b # bs) bits value =
     (let value = push_bit 8 value OR ucast b; bits = bits + 8
      in emit_quintets bits value @ encode_bytes bs (bits mod 5) value)"

definition base32Encode :: "8 word list \<Rightarrow> string" where
  "base32Encode bytes = encode_bytes bytes 0 0"

text \<open>
  \<open>toUpperCase\<close> on the code units below 256 (\<open>\<szlig>\<close>, unit 223, becomes \<open>SS\<close>; the two units whose
  upper case lies beyond 255 stay, they are no alphabet characters either way).
\<close>

definition js_upper_char :: "char \<Rightarrow> string" where
  "js_upper_char c =
     (let n = (of_char c :: nat)
      in if 97 \<le> n \<and> n \<le> 122 \<or> 224 \<le> n \<and> n \<le> 254 \<and> n \<noteq> 247 then [char_of (n - 32)]
         else if n = 223 then ''SS'' else [c])"

definition js_upper :: "string \<Rightarrow> string" where
  "js_upper s = concat (List.map js_upper_char s)"

definition strip_padding :: "string \<Rightarrow> string" where
  "strip_padding s = rev (dropWhile (\<lambda>c. c = CHR ''='') (rev s))"

definition clean_base32 :: "string \<Rightarrow> string" where
  "clean_base32 input = filter (\<lambda>c. \<not> js_space c) (strip_padding (js_upper input))"

fun index_of :: "char \<Rightarrow> string \<Rightarrow> nat option" where
  "index_of c [] = None"
| "index_of c (x # xs) = (if x = c then Some 0 else map_option Suc (index_of c xs))"

fun decode_chars :: "string \<Rightarrow> nat \<Rightarrow> 32 word \<Rightarrow> string + 8 word list" where
  "decode_chars [] bits value = Inr []"
| "decode_chars (ch # cs) bits value =
     (case index_of ch BASE32_ALPHABET of
        None \<Rightarrow> Inl ''Invalid base32 character.''
      | Some idx \<Rightarrow>
          let value = push_bit 5 value OR of_nat idx; bits = bits + 5
          in if bits \<ge> 8 then
               (case decode_chars cs (bits - 8) value of
                  Inl e \<Rightarrow> Inl e
                | Inr out \<Rightarrow> Inr (ucast (drop_bit (bits - 8) value AND 0xff) # out))
             else decode_chars cs bits value)"

definition base32Decode :: "string \<Rightarrow> string + 8 word list" where
  "base32Decode input = decode_chars (clean_base32 input) 0 0"

definition generateSecret :: "cfg \<Rightarrow> string m" where
  "generateSecret E = seq (getRandomValues E 20) (\<lambda>bytes. ret (base32Encode bytes))"

section \<open>Codes\<close>

text \<open>\<open>c & 0xff\<close> and \<open>Math.floor(c / 256)\<close> from the last byte to the first; the counter may be negative.\<close>

fun counter_bytes_from :: "nat \<Rightarrow> int \<Rightarrow> 8 word list" where
  "counter_bytes_from 0 c = []"
| "counter_bytes_from (Suc i) c = counter_bytes_from i (c div 256) @ [of_int (c mod 256)]"

definition counterBytes :: "int \<Rightarrow> 8 word list" where
  "counterBytes counter = counter_bytes_from 8 counter"

text \<open>\<open>sig[i] & m\<close> is 0 beyond the end of the signature.\<close>

definition sig_byte :: "8 word list \<Rightarrow> nat \<Rightarrow> 32 word" where
  "sig_byte sig i = (if i < length sig then ucast (sig ! i) else 0)"

definition truncate_sig :: "8 word list \<Rightarrow> 32 word" where
  "truncate_sig sig =
     (let off = unat (sig_byte sig 19 AND 0x0f)
      in push_bit 24 (sig_byte sig off AND 0x7f) OR push_bit 16 (sig_byte sig (off + 1) AND 0xff)
         OR push_bit 8 (sig_byte sig (off + 2) AND 0xff) OR (sig_byte sig (off + 3) AND 0xff))"

definition hotp :: "cfg \<Rightarrow> 8 word list \<Rightarrow> int \<Rightarrow> string" where
  "hotp E secretBytes counter =
     pad DIGITS (unat (truncate_sig (hmac_sha1 E secretBytes (counterBytes counter))) mod 10 ^ DIGITS)"

definition currentStep :: "nat \<Rightarrow> int" where
  "currentStep nowMs = int (nowMs div 1000 div STEP_SECONDS)"

definition totpCodeAt :: "cfg \<Rightarrow> string \<Rightarrow> int \<Rightarrow> string + string" where
  "totpCodeAt E secret step =
     (case base32Decode secret of Inl e \<Rightarrow> Inl e | Inr bytes \<Rightarrow> Inr (hotp E bytes step))"

definition six_digits :: "string \<Rightarrow> bool" where
  "six_digits s \<longleftrightarrow> length s = 6 \<and> list_all (\<lambda>c. CHR ''0'' \<le> c \<and> c \<le> CHR ''9'') s"

text \<open>The loop over the window: \<open>n\<close> candidates from the step \<open>s\<close> on.\<close>

fun any_step :: "cfg \<Rightarrow> 8 word list \<Rightarrow> string \<Rightarrow> int \<Rightarrow> nat \<Rightarrow> bool" where
  "any_step E bytes code s 0 = False"
| "any_step E bytes code s (Suc n) =
     (if timingSafeEqualUtf8 (hotp E bytes s) code then True else any_step E bytes code (s + 1) n)"

definition verifyTotp :: "cfg \<Rightarrow> string \<Rightarrow> string \<Rightarrow> nat \<Rightarrow> nat \<Rightarrow> string + bool" where
  "verifyTotp E secret code window nowMs =
     (let normalized = js_trim code
      in if \<not> six_digits normalized then Inr False
         else (case base32Decode secret of
                 Inl e \<Rightarrow> Inl e
               | Inr secretBytes \<Rightarrow>
                   Inr (any_step E secretBytes normalized (currentStep nowMs - int window) (2 * window + 1))))"

section \<open>Base32 facts\<close>

text \<open>The last \<open>n\<close> bits of a word, most significant first.\<close>

definition low_bits :: "nat \<Rightarrow> 'a::len word \<Rightarrow> bool list" where
  "low_bits n v = List.map (\<lambda>i. bit v (n - 1 - i)) [0..<n]"

lemma length_low_bits [simp]: "length (low_bits n v) = n"
  by (simp add: low_bits_def)

lemma low_bits_0 [simp]: "low_bits 0 v = []"
  by (simp add: low_bits_def)

lemma low_bits_append:
  "low_bits (n + k) v = low_bits n (drop_bit k v) @ low_bits k v"
  by (rule nth_equalityI) (auto simp: low_bits_def nth_append bit_drop_bit_eq add.commute)

lemma low_bits_push_or:
  fixes v u :: "32 word"
  assumes "n + k \<le> 32" and "\<And>j. j \<ge> k \<Longrightarrow> \<not> bit u j"
  shows "low_bits (n + k) (push_bit k v OR u) = low_bits n v @ low_bits k u"
proof (rule nth_equalityI)
  fix i assume i: "i < length (low_bits (n + k) (push_bit k v OR u))"
  show "low_bits (n + k) (push_bit k v OR u) ! i = (low_bits n v @ low_bits k u) ! i"
  proof (cases "i < n")
    case True
    then obtain j where j: "n = i + Suc j" by (metis add_Suc_right less_iff_Suc_add)
    then have "n + k - 1 - i = j + k" "n - 1 - i = j" "j + k < 32" using assms(1) by auto
    with True assms(2) show ?thesis
      by (simp add: low_bits_def nth_append bit_or_iff bit_push_bit_iff del: diff_diff_left)
  next
    case False
    with i have "n + k - Suc i = k - Suc (i - n)" "k - Suc (i - n) < k" by auto
    moreover have "i - n < k" using False i by simp
    ultimately show ?thesis using False i
      by (simp add: low_bits_def nth_append bit_or_iff bit_push_bit_iff)
  qed
qed simp

lemma low_bits_mask:
  fixes v :: "32 word"
  shows "low_bits k (v AND mask k) = low_bits k v"
  by (rule nth_equalityI) (auto simp: low_bits_def bit_and_iff bit_mask_iff dest: bit_imp_le_length)

lemma low_bits_byte:
  fixes v :: "32 word"
  shows "low_bits 8 (v AND 255) = low_bits 8 v"
  using low_bits_mask [of 8 v] by (simp add: mask_eq_exp_minus_1)

lemma low_bits_ucast: "n \<le> LENGTH('b) \<Longrightarrow> low_bits n (ucast (v :: 'a::len word) :: 'b::len word) = low_bits n v"
  by (rule nth_equalityI) (auto simp: low_bits_def bit_ucast_iff)

lemma low_bits_inject:
  fixes v u :: "8 word"
  assumes "low_bits 8 v = low_bits 8 u"
  shows "v = u"
proof (rule bit_word_eqI)
  fix n assume "n < LENGTH(8)"
  then have n: "7 - n < 8" "8 - Suc (7 - n) = n" by auto
  have "low_bits 8 v ! (7 - n) = low_bits 8 u ! (7 - n)" by (simp only: assms)
  with n show "bit v n \<longleftrightarrow> bit u n" by (simp add: low_bits_def)
qed

text \<open>The characters as groups of five bits.\<close>

definition quintet :: "32 word \<Rightarrow> bool" where
  "quintet g \<longleftrightarrow> unat g < 32"

lemma quintet_mask: "quintet (v AND 31)" "v AND 31 = v AND mask 5"
proof -
  show m: "v AND 31 = v AND mask 5" by (simp add: mask_eq_exp_minus_1)
  have "v AND mask 5 < 2 ^ 5" by (rule and_mask_less_size) (simp add: word_size)
  then have "unat (v AND mask 5) < unat (2 ^ 5 :: 32 word)" by (rule unat_mono)
  then show "quintet (v AND 31)" unfolding quintet_def m by simp
qed

lemma index_of_b32_char: "quintet g \<Longrightarrow> index_of (b32_char g) BASE32_ALPHABET = Some (unat g)"
proof -
  assume "quintet g"
  then have "unat g < 32" by (simp add: quintet_def)
  moreover have "\<forall>k \<in> {..<32}. index_of (BASE32_ALPHABET ! k) BASE32_ALPHABET = Some k" by code_simp
  ultimately show ?thesis by (simp add: b32_char_def)
qed

lemma emit_quintets_bits:
  "\<exists>gs. emit_quintets bits v = List.map b32_char gs \<and> list_all quintet gs
     \<and> low_bits bits v = concat (List.map (low_bits 5) gs) @ low_bits (bits mod 5) v"
proof (induction bits v rule: emit_quintets.induct)
  case (1 bits v)
  show ?case
  proof (cases "5 \<le> bits")
    case True
    from 1 [OF True] obtain gs where gs: "emit_quintets (bits - 5) v = List.map b32_char gs" "list_all quintet gs"
      "low_bits (bits - 5) v = concat (List.map (low_bits 5) gs) @ low_bits ((bits - 5) mod 5) v" by blast
    let ?g = "drop_bit (bits - 5) v AND 31"
    have "low_bits bits v = low_bits 5 ?g @ low_bits (bits - 5) v"
      using low_bits_append [of 5 "bits - 5" v] True by (simp add: quintet_mask(2) low_bits_mask)
    moreover have "(bits - 5) mod 5 = bits mod 5" using True by (metis le_mod_geq)
    moreover have "emit_quintets bits v = List.map b32_char (?g # gs)"
      using True gs(1) by (simp add: emit_quintets.simps [of bits v])
    ultimately show ?thesis using gs(2,3) quintet_mask(1) by (intro exI [of _ "?g # gs"]) simp
  next
    case False
    then show ?thesis by (intro exI [of _ "[]"]) (simp add: emit_quintets.simps [of bits v])
  qed
qed

lemma encode_bytes_bits:
  assumes "bits < 5"
  shows "\<exists>gs pad. encode_bytes bs bits v = List.map b32_char gs \<and> list_all quintet gs \<and> length pad < 5
     \<and> concat (List.map (low_bits 5) gs) = low_bits bits v @ concat (List.map (low_bits 8) bs) @ pad"
  using assms
proof (induction bs arbitrary: bits v)
  case Nil
  show ?case
  proof (cases "bits = 0")
    case True
    then show ?thesis by (intro exI [of _ "[]"]) simp
  next
    case False
    let ?g = "push_bit (5 - bits) v AND 31"
    have "low_bits 5 ?g = low_bits bits v @ low_bits (5 - bits) (0 :: 32 word)"
      using low_bits_push_or [of bits "5 - bits" 0 v] Nil by (simp add: quintet_mask(2) low_bits_mask)
    with False Nil quintet_mask(1) show ?thesis
      by (intro exI [of _ "[?g]"] exI [of _ "low_bits (5 - bits) (0 :: 32 word)"]) simp
  qed
next
  case (Cons b bs)
  let ?v = "push_bit 8 v OR ucast b :: 32 word"
  obtain gs where gs: "emit_quintets (bits + 8) ?v = List.map b32_char gs" "list_all quintet gs"
    "low_bits (bits + 8) ?v = concat (List.map (low_bits 5) gs) @ low_bits ((bits + 8) mod 5) ?v"
    using emit_quintets_bits by blast
  obtain hs pad where hs: "encode_bytes bs ((bits + 8) mod 5) ?v = List.map b32_char hs" "list_all quintet hs" "length pad < 5"
    "concat (List.map (low_bits 5) hs) = low_bits ((bits + 8) mod 5) ?v @ concat (List.map (low_bits 8) bs) @ pad"
    using Cons.IH [of "(bits + 8) mod 5" ?v] by auto
  have "\<not> bit (ucast b :: 32 word) j" if "8 \<le> j" for j
    using that by (auto simp: bit_ucast_iff dest: bit_imp_le_length)
  then have "low_bits (bits + 8) ?v = low_bits bits v @ low_bits 8 b"
    using low_bits_push_or [of bits 8 "ucast b" v] Cons.prems low_bits_ucast [of 8 b, where 'b = 32] by simp
  with gs hs show ?case
    by (intro exI [of _ "gs @ hs"] exI [of _ pad]) (simp add: Let_def)
qed

lemma decode_chars_bits:
  assumes "list_all quintet gs" and "bits < 8"
  shows "\<exists>bytes rest. decode_chars (List.map b32_char gs) bits v = Inr bytes \<and> length rest < 8
     \<and> low_bits bits v @ concat (List.map (low_bits 5) gs) = concat (List.map (low_bits 8) bytes) @ rest"
  using assms
proof (induction gs arbitrary: bits v)
  case Nil
  then show ?case by simp
next
  case (Cons g gs)
  let ?v = "push_bit 5 v OR of_nat (unat g) :: 32 word"
  have q: "quintet g" and all: "list_all quintet gs" using Cons.prems by simp_all
  have idx: "index_of (b32_char g) BASE32_ALPHABET = Some (unat g)" using q by (rule index_of_b32_char)
  have "\<not> bit g j" if "5 \<le> j" for j
  proof -
    have "g = g AND mask 5" using q by (simp add: quintet_def less_mask_eq word_less_nat_alt)
    with that show ?thesis by (metis bit_and_iff bit_mask_iff leD)
  qed
  then have step: "low_bits (bits + 5) ?v = low_bits bits v @ low_bits 5 g"
    using low_bits_push_or [of bits 5 g v] Cons.prems(2) by simp
  show ?case
  proof (cases "8 \<le> bits + 5")
    case True
    let ?b = "ucast (drop_bit (bits + 5 - 8) ?v AND 255) :: 8 word"
    have small: "bits + 5 - 8 < 8" using Cons.prems(2) by simp
    obtain bytes rest where ih: "decode_chars (List.map b32_char gs) (bits + 5 - 8) ?v = Inr bytes" "length rest < 8"
      "low_bits (bits + 5 - 8) ?v @ concat (List.map (low_bits 5) gs) = concat (List.map (low_bits 8) bytes) @ rest"
      using Cons.IH [OF all small, of ?v] by blast
    have "low_bits 8 ?b = low_bits 8 (drop_bit (bits + 5 - 8) ?v)"
      by (subst low_bits_ucast, simp, rule low_bits_byte)
    then have split: "low_bits (bits + 5) ?v = low_bits 8 ?b @ low_bits (bits + 5 - 8) ?v"
      using low_bits_append [of 8 "bits + 5 - 8" ?v] le_add_diff_inverse [OF True] by metis
    have "low_bits bits v @ concat (List.map (low_bits 5) (g # gs))
        = low_bits (bits + 5) ?v @ concat (List.map (low_bits 5) gs)" using step by simp
    also have "\<dots> = concat (List.map (low_bits 8) (?b # bytes)) @ rest"
      unfolding split append_assoc ih(3) by simp
    finally have bits: "low_bits bits v @ concat (List.map (low_bits 5) (g # gs)) = concat (List.map (low_bits 8) (?b # bytes)) @ rest" .
    moreover have "decode_chars (List.map b32_char (g # gs)) bits v = Inr (?b # bytes)"
      using ih(1) True by (simp add: idx Let_def)
    ultimately show ?thesis using ih(2) by blast
  next
    case False
    obtain bytes rest where ih: "decode_chars (List.map b32_char gs) (bits + 5) ?v = Inr bytes" "length rest < 8"
      "low_bits (bits + 5) ?v @ concat (List.map (low_bits 5) gs) = concat (List.map (low_bits 8) bytes) @ rest"
      using Cons.IH [OF all, of "bits + 5" ?v] False by auto
    with step False show ?thesis
      by (intro exI [of _ bytes] exI [of _ rest]) (simp add: idx Let_def)
  qed
qed

lemma concat_chunks_inject:
  fixes xs ys :: "8 word list"
  assumes "concat (List.map (low_bits 8) xs) @ p = concat (List.map (low_bits 8) ys) @ q"
    and "length p < 8" and "length q < 8"
  shows "xs = ys"
  using assms
proof (induction xs arbitrary: ys)
  case Nil
  then show ?case by (cases ys) (auto dest: arg_cong [where f = length])
next
  case (Cons x xs)
  show ?case
  proof (cases ys)
    case Nil
    with Cons.prems show ?thesis by (auto dest: arg_cong [where f = length])
  next
    case (Cons y zs)
    with Cons.prems(1) have "low_bits 8 x = low_bits 8 y"
      "concat (List.map (low_bits 8) xs) @ p = concat (List.map (low_bits 8) zs) @ q" by simp_all
    with Cons.IH [OF _ Cons.prems(2,3)] low_bits_inject Cons show ?thesis by blast
  qed
qed

lemma b32_char_shape:
  assumes "quintet g"
  shows "js_upper_char (b32_char g) = [b32_char g]" and "b32_char g \<noteq> CHR ''=''" and "\<not> js_space (b32_char g)"
proof -
  have "\<forall>c \<in> set BASE32_ALPHABET. js_upper_char c = [c] \<and> c \<noteq> CHR ''='' \<and> \<not> js_space c" by code_simp
  moreover have "length BASE32_ALPHABET = 32" by code_simp
  then have "b32_char g \<in> set BASE32_ALPHABET" using assms by (simp add: quintet_def b32_char_def)
  ultimately show "js_upper_char (b32_char g) = [b32_char g]" "b32_char g \<noteq> CHR ''=''" "\<not> js_space (b32_char g)"
    by blast+
qed

lemma clean_base32_chars: "list_all quintet gs \<Longrightarrow> clean_base32 (List.map b32_char gs) = List.map b32_char gs"
proof -
  assume gs: "list_all quintet gs"
  then have "js_upper (List.map b32_char gs) = List.map b32_char gs"
    by (induction gs) (auto simp: js_upper_def b32_char_shape)
  moreover have "dropWhile (\<lambda>c. c = CHR ''='') (rev (List.map b32_char gs)) = rev (List.map b32_char gs)"
    using gs b32_char_shape(2) by (cases gs rule: rev_cases) auto
  moreover have "filter (\<lambda>c. \<not> js_space c) (List.map b32_char gs) = List.map b32_char gs"
    using gs b32_char_shape(3) by (auto simp: filter_id_conv list_all_iff)
  ultimately show ?thesis by (simp add: clean_base32_def strip_padding_def)
qed

lemma base32_decodes: "base32Decode (base32Encode bs) = Inr bs"
proof -
  obtain gs pad where gs: "base32Encode bs = List.map b32_char gs" "list_all quintet gs" "length pad < 5"
    "concat (List.map (low_bits 5) gs) = concat (List.map (low_bits 8) bs) @ pad"
    using encode_bytes_bits [of 0 bs 0] by (auto simp: base32Encode_def)
  obtain bytes rest where d: "base32Decode (base32Encode bs) = Inr bytes" "length rest < 8"
    "concat (List.map (low_bits 5) gs) = concat (List.map (low_bits 8) bytes) @ rest"
    using decode_chars_bits [OF gs(2), of 0 0] clean_base32_chars [OF gs(2)]
    by (auto simp: base32Decode_def gs(1))
  have "bs = bytes" using gs(3,4) d(2,3) by (intro concat_chunks_inject [of bs pad bytes rest]) auto
  with d(1) show ?thesis by simp
qed

text \<open>
  Decoding what was encoded gives the bytes back, for byte strings of any length, although
  both loops push every byte through one 32-bit accumulator that overflows and is never
  cleared.
\<close>

theorem base32_roundtrip: "base32Decode (base32Encode bs) = Inr bs"
  by (rule base32_decodes)

section \<open>Code facts\<close>

lemma any_step_iff: "any_step E bytes code s n \<longleftrightarrow> (\<exists>k < n. hotp E bytes (s + int k) = code)"
proof (induction n arbitrary: s)
  case (Suc n)
  have "(\<exists>k < Suc n. hotp E bytes (s + int k) = code)
      \<longleftrightarrow> hotp E bytes s = code \<or> (\<exists>k < n. hotp E bytes (s + 1 + int k) = code)"
    unfolding Ex_less_Suc2 by (simp add: add.assoc)
  with Suc.IH show ?case by simp
qed simp

lemma any_step_window:
  "any_step E bytes code (s - int window) (2 * window + 1) \<longleftrightarrow>
     (\<exists>c. \<bar>c - s\<bar> \<le> int window \<and> hotp E bytes c = code)"
proof
  assume "any_step E bytes code (s - int window) (2 * window + 1)"
  then obtain k where "k < 2 * window + 1" "hotp E bytes (s - int window + int k) = code"
    unfolding any_step_iff by blast
  then show "\<exists>c. \<bar>c - s\<bar> \<le> int window \<and> hotp E bytes c = code"
    by (intro exI [of _ "s - int window + int k"]) auto
next
  assume "\<exists>c. \<bar>c - s\<bar> \<le> int window \<and> hotp E bytes c = code"
  then obtain c where c: "\<bar>c - s\<bar> \<le> int window" "hotp E bytes c = code" by blast
  then have "nat (c - s + int window) < 2 * window + 1" "s - int window + int (nat (c - s + int window)) = c" by auto
  with c(2) show "any_step E bytes code (s - int window) (2 * window + 1)"
    unfolding any_step_iff by metis
qed

lemma digit_range: "n < 10 \<Longrightarrow> CHR ''0'' \<le> digit n \<and> digit n \<le> CHR ''9''"
  by (auto simp: digit_def less_eq_char_def)

lemma pad_digits: "list_all (\<lambda>c. CHR ''0'' \<le> c \<and> c \<le> CHR ''9'') (pad n x)"
  by (induction n arbitrary: x) (auto simp: digit_range)

lemma hotp_six_digits: "six_digits (hotp E bytes c)"
  by (simp add: six_digits_def hotp_def DIGITS_def pad_digits)

text \<open>
  C38. For a secret with a valid Base32 text, a code is accepted exactly when, trimmed, it is the
  HOTP value of one of the time steps at most \<open>window\<close> away from the current one.
\<close>

theorem totp_window_exact:
  assumes "base32Decode secret = Inr bytes"
  shows "verifyTotp E secret code window nowMs =
     Inr (\<exists>c. \<bar>c - int (nowMs div 30000)\<bar> \<le> int window \<and> hotp E bytes c = js_trim code)"
proof -
  have step: "currentStep nowMs = int (nowMs div 30000)"
    by (simp add: currentStep_def STEP_SECONDS_def div_mult2_eq [symmetric])
  have "six_digits (js_trim code)" if "hotp E bytes c = js_trim code" for c
    using hotp_six_digits [of E bytes c] that by simp
  then show ?thesis
    using assms any_step_window [of E bytes "js_trim code" "int (nowMs div 30000)" window]
    unfolding verifyTotp_def Let_def step by (cases "six_digits (js_trim code)") auto
qed

end
