(* ===== verification/UserStore.thy ===== *)
theory UserStore
  imports Clients AuditLog
begin

text \<open>
  The user repository, \<open>admin.repository.d1.ts\<close>: creating, finding, updating and deleting
  users, and their grants of environments. Deleting a user cascades through the foreign keys
  of the schema.
\<close>

section \<open>Rows\<close>

definition user_violated :: "user_row \<Rightarrow> world \<Rightarrow> string option" where
  "user_violated r w =
     (if us_id r \<in> set (List.map us_id (users w)) then Some ''UNIQUE constraint failed: users.id''
      else if us_username r \<in> set (List.map us_username (users w))
        then Some ''UNIQUE constraint failed: users.username''
      else if us_is_test_user r \<and> us_is_admin r
        then Some ''CHECK constraint failed: is_test_user = 0 OR is_admin = 0''
      else None)"

definition create_user :: "user_row \<Rightarrow> unit m" where
  "create_user r = guarded (user_violated r) (\<lambda>w. w\<lparr>users := users w @ [r]\<rparr>)"

definition list_users :: "world \<Rightarrow> (user_record \<times> string list) list" where
  "list_users w =
     List.map (\<lambda>r. (rowToUser r, user_environments (us_id r) w)) (sort_key us_username (users w))"

definition findByUsername :: "string \<Rightarrow> world \<Rightarrow> user_row option" where
  "findByUsername name w = find (\<lambda>r. us_username r = name) (users w)"

text \<open>SQLite's \<open>trim\<close> removes blanks only, its \<open>lower\<close> maps ASCII letters only.\<close>

definition sql_trim :: "string \<Rightarrow> string" where
  "sql_trim s = rev (dropWhile (\<lambda>c. c = CHR '' '') (rev (dropWhile (\<lambda>c. c = CHR '' '') s)))"

definition findByEmail :: "string \<Rightarrow> world \<Rightarrow> user_row option" where
  "findByEmail email w =
     (let normalized = js_lower (js_trim email)
      in if normalized = [] then None
         else find (\<lambda>r. case us_email r of None \<Rightarrow> False
                        | Some e \<Rightarrow> List.map ascii_lower (sql_trim e) = normalized) (users w))"

section \<open>Updates\<close>

text \<open>A field that is \<open>None\<close> is left alone; a nullable column is set to the inner option.\<close>

record user_patch =
  up_username :: "string option"
  up_name :: "string option option"
  up_email :: "string option option"
  up_emailVerifiedAt :: "string option option"
  up_avatarKey :: "string option option"
  up_passwordHash :: "string option"
  up_passwordUpdatedAt :: "string option option"
  up_isAdmin :: "bool option"

definition no_patch :: user_patch where
  "no_patch =
     \<lparr>up_username = None, up_name = None, up_email = None, up_emailVerifiedAt = None, up_avatarKey = None,
      up_passwordHash = None, up_passwordUpdatedAt = None, up_isAdmin = None\<rparr>"

definition or_old :: "'a option \<Rightarrow> 'a \<Rightarrow> 'a" where
  "or_old v old = (case v of None \<Rightarrow> old | Some new \<Rightarrow> new)"

definition patch_user :: "user_patch \<Rightarrow> user_row \<Rightarrow> user_row" where
  "patch_user p r =
     r\<lparr>us_username := or_old (up_username p) (us_username r), us_name := or_old (up_name p) (us_name r),
       us_email := or_old (up_email p) (us_email r),
       us_email_verified_at := or_old (up_emailVerifiedAt p) (us_email_verified_at r),
       us_avatar_key := or_old (up_avatarKey p) (us_avatar_key r),
       us_password_hash := or_old (up_passwordHash p) (us_password_hash r),
       us_password_updated_at := or_old (up_passwordUpdatedAt p) (us_password_updated_at r),
       us_is_admin := or_old (up_isAdmin p) (us_is_admin r)\<rparr>"

definition patch_violated :: "string \<Rightarrow> user_patch \<Rightarrow> world \<Rightarrow> string option" where
  "patch_violated i p w =
     (case find (\<lambda>r. us_id r = i) (users w) of
        None \<Rightarrow> None
      | Some r \<Rightarrow>
          if us_username (patch_user p r) \<in> set (List.map us_username (filter (\<lambda>r. us_id r \<noteq> i) (users w)))
          then Some ''UNIQUE constraint failed: users.username''
          else if us_is_test_user r \<and> us_is_admin (patch_user p r)
            then Some ''CHECK constraint failed: is_test_user = 0 OR is_admin = 0''
          else None)"

definition update_user_row :: "string \<Rightarrow> user_patch \<Rightarrow> unit m" where
  "update_user_row i p =
     (if p = no_patch then ret ()
      else guarded (patch_violated i p)
        (\<lambda>w. w\<lparr>users := List.map (\<lambda>r. if us_id r = i then patch_user p r else r) (users w)\<rparr>))"

section \<open>Deletion\<close>

text \<open>\<open>DELETE FROM users WHERE id = ?\<close> with the foreign keys that cascade or are set to null.\<close>

definition delete_api_keys :: "(api_key_row \<Rightarrow> bool) \<Rightarrow> world \<Rightarrow> world" where
  "delete_api_keys P w =
     (let dead = List.map ak_id (filter P (api_keys w))
      in w\<lparr>api_keys := filter (\<lambda>r. \<not> P r) (api_keys w),
           api_key_scopes := filter (\<lambda>l. lk_owner l \<notin> set dead) (api_key_scopes w),
           tokens := List.map (\<lambda>t. case at_api_key_id t of
                                     None \<Rightarrow> t
                                   | Some k \<Rightarrow> if k \<in> set dead then t\<lparr>at_api_key_id := None\<rparr> else t) (tokens w)\<rparr>)"

definition delete_user_rows :: "string \<Rightarrow> world \<Rightarrow> world" where
  "delete_user_rows i w =
     (if i \<notin> set (List.map us_id (users w)) then w
      else (delete_api_keys (\<lambda>k. ak_user_id k = i) w)
        \<lparr>users := filter (\<lambda>r. us_id r \<noteq> i) (users w),
         users_environments := filter (\<lambda>r. ue_user_id r \<noteq> i) (users_environments w),
         user_consents := filter (\<lambda>r. co_user_id r \<noteq> i) (user_consents w),
         user_challenges := filter (\<lambda>r. ch_user_id r \<noteq> i) (user_challenges w),
         user_totp := filter (\<lambda>r. tp_user_id r \<noteq> i) (user_totp w),
         passkey_challenges := filter (\<lambda>r. pc_user_id r \<noteq> Some i) (passkey_challenges w),
         user_passkeys := filter (\<lambda>r. pk_user_id r \<noteq> i) (user_passkeys w),
         passkey_exchange_tokens := filter (\<lambda>r. ex_user_id r \<noteq> i) (passkey_exchange_tokens w),
         clients := List.map (\<lambda>c. if cl_created_by c = Some i then c\<lparr>cl_created_by := None\<rparr> else c) (clients w),
         api_keys := List.map (\<lambda>k. if ak_created_by k = Some i then k\<lparr>ak_created_by := None\<rparr> else k)
           (filter (\<lambda>k. ak_user_id k \<noteq> i) (api_keys w))\<rparr>)"

definition delete_user :: "string \<Rightarrow> unit m" where
  "delete_user i = writes (delete_user_rows i)"

definition deleteWithAudit :: "string \<Rightarrow> audit_row \<Rightarrow> unit m" where
  "deleteWithAudit i auditRow = transaction (seq (insert_audit auditRow) (\<lambda>_. delete_user i))"

section \<open>Environments\<close>

definition user_environment_violated :: "user_environment_row \<Rightarrow> world \<Rightarrow> string option" where
  "user_environment_violated r w =
     (if ue_id r \<in> set (List.map ue_id (users_environments w))
      then Some ''UNIQUE constraint failed: users_environments.id''
      else if ue_environment_id r \<in> set (user_environments (ue_user_id r) w)
        then Some ''UNIQUE constraint failed: users_environments.user_id, users_environments.environment_id''
      else if ue_user_id r \<notin> set (List.map us_id (users w)) then Some ''FOREIGN KEY constraint failed''
      else if ue_environment_id r \<notin> set (List.map env_id (environments w)) then Some ''FOREIGN KEY constraint failed''
      else None)"

definition setUserEnvironments :: "cfg \<Rightarrow> string \<Rightarrow> string list \<Rightarrow> unit m" where
  "setUserEnvironments E userId environmentIds =
     (let unique = uniq environmentIds
      in seq (randomUUIDs E (length unique)) (\<lambda>ids.
         transaction
           (seq (writes (\<lambda>w. w\<lparr>users_environments := filter (\<lambda>r. ue_user_id r \<noteq> userId) (users_environments w)\<rparr>)) (\<lambda>_.
            each (\<lambda>r. guarded (user_environment_violated r) (\<lambda>w. w\<lparr>users_environments := users_environments w @ [r]\<rparr>))
              (List.map (\<lambda>(i, e). \<lparr>ue_id = i, ue_user_id = userId, ue_environment_id = e\<rparr>) (zip ids unique))))))"

text \<open>The picker of a test client's sign-in page: \<open>COALESCE(NULLIF(TRIM(u.name), ''), u.username)\<close>.\<close>

definition picker_name :: "user_row \<Rightarrow> string" where
  "picker_name r = (case us_name r of None \<Rightarrow> us_username r
                    | Some n \<Rightarrow> if sql_trim n = [] then us_username r else sql_trim n)"

definition listTestUsersByEnvironment :: "string \<Rightarrow> world \<Rightarrow> user_record list" where
  "listTestUsersByEnvironment e w =
     List.map rowToUser (sort_key picker_name
       (concat (List.map (\<lambda>r. List.map (\<lambda>_. r)
            (filter (\<lambda>g. ue_user_id g = us_id r \<and> ue_environment_id g = e) (users_environments w)))
          (filter (\<lambda>r. us_is_test_user r \<and> \<not> us_is_admin r) (users w)))))"

section \<open>Facts\<close>

lemma or_old_simps [simp]: "or_old None x = x" "or_old (Some y) x = y"
  by (simp_all add: or_old_def)

lemma patch_user_simps [simp]:
  "us_id (patch_user p r) = us_id r" "us_is_test_user (patch_user p r) = us_is_test_user r"
  "us_is_admin (patch_user p r) = or_old (up_isAdmin p) (us_is_admin r)"
  by (simp_all add: patch_user_def)

lemma update_user_row_Inr:
  assumes "update_user_row i p w = (Inr u, t)"
  shows "users t = List.map (\<lambda>r. if us_id r = i then patch_user p r else r) (users w)"
proof -
  have "List.map (\<lambda>r. if us_id r = i then patch_user no_patch r else r) (users w) = users w"
    by (rule map_idI) (simp add: patch_user_def no_patch_def)
  with assms show ?thesis by (auto simp: update_user_row_def prog_inv split: if_splits)
qed

lemma user_by_id_Some:
  "user_by_id i w = Some u \<Longrightarrow> \<exists>r \<in> set (users w). us_id r = i \<and> u = rowToUser r"
  by (auto simp: user_by_id_def dest: find_in_set)

end
