(* ===== verification/AuthSecrets.thy ===== *)
theory AuthSecrets
  imports Issue
begin

text \<open>
  The server's own secret (\<open>auth/auth-secret.ts\<close>) and the encryption of secrets that must be
  recovered (\<open>crypto/secret-box.ts\<close>): AES-GCM, a parameter, under a key derived from it.
\<close>

definition getAuthSecret :: "cfg \<Rightarrow> failure + string" where
  "getAuthSecret E =
     (case process_env E ''AUTH_SECRET'' of
        Some (c # s) \<Rightarrow> Inr (c # s)
      | _ \<Rightarrow> (case process_env E ''NEXTAUTH_SECRET'' of
                Some (c # s) \<Rightarrow> Inr (c # s)
              | _ \<Rightarrow> Inl (JsError ''AUTH_SECRET (or NEXTAUTH_SECRET) is not configured.'')))"

definition getKey :: "cfg \<Rightarrow> failure + 8 word list" where
  "getKey E = (case getAuthSecret E of Inl e \<Rightarrow> Inl e | Inr s \<Rightarrow> Inr (sha256 E s))"

definition base64 :: "8 word list \<Rightarrow> string" where
  "base64 bytes = btoa (List.map unat bytes)"

definition encryptSecret :: "cfg \<Rightarrow> string \<Rightarrow> string m" where
  "encryptSecret E plaintext =
     seq (outcome (getKey E)) (\<lambda>key.
     seq (getRandomValues E 12) (\<lambda>iv.
     ret (base64 iv @ '':'' @ aes_encrypt E key iv plaintext)))"

definition decryptSecret :: "cfg \<Rightarrow> string \<Rightarrow> failure + string" where
  "decryptSecret E payload =
     (case split_on CHR '':'' payload of
        ivB64 # ctB64 # rest \<Rightarrow>
          if ivB64 = [] \<or> ctB64 = [] then Inl (JsError ''Malformed encrypted secret.'')
          else (case getKey E of
                  Inl e \<Rightarrow> Inl e
                | Inr key \<Rightarrow> (case aes_decrypt E key ivB64 ctB64 of
                                None \<Rightarrow> Inl (JsError ''OperationError'') | Some p \<Rightarrow> Inr p))
      | _ \<Rightarrow> Inl (JsError ''Malformed encrypted secret.''))"

section \<open>Facts\<close>

text \<open>What the cipher is relied on for: decryption inverts encryption, and its text is Base64.\<close>

definition cipher_ok :: "cfg \<Rightarrow> bool" where
  "cipher_ok E \<longleftrightarrow>
     (\<forall>k iv p. aes_decrypt E k (base64 iv) (aes_encrypt E k iv p) = Some p
        \<and> aes_encrypt E k iv p \<noteq> [] \<and> CHR '':'' \<notin> set (aes_encrypt E k iv p))"

lemma b64_char_not_colon: "b64_char n \<noteq> CHR '':''"
proof -
  have "(of_char (b64_char n) :: nat) \<noteq> 58"
    by (simp add: b64_char_def) arith
  then show ?thesis by auto
qed

lemma btoa_not_colon: "CHR '':'' \<notin> set (btoa ns)"
  by (induction ns rule: btoa.induct) (auto simp: b64_char_not_colon b64_char_not_colon [symmetric])

lemma encrypt_then_decrypt:
  assumes "cipher_ok E" and "encryptSecret E p w = (Inr c, t)" and "\<And>n. length (random_bytes E n 12) = 12"
  shows "decryptSecret E c = Inr p"
proof -
  from assms(2) obtain key where key: "getKey E = Inr key"
    and c: "c = base64 (random_bytes E (draws w) 12) @ '':'' @ aes_encrypt E key (random_bytes E (draws w) 12) p"
    by (auto simp: encryptSecret_def prog_inv dest: sym)
  let ?iv = "random_bytes E (draws w) 12"
  have free: "CHR '':'' \<notin> set (base64 ?iv)" unfolding base64_def by (rule btoa_not_colon)
  have "?iv \<noteq> []" using assms(3) [of "draws w"] by auto
  then have "base64 ?iv \<noteq> []" unfolding base64_def by (cases "List.map unat ?iv" rule: btoa.cases) auto
  with assms(1) free key show ?thesis
    by (simp add: decryptSecret_def c split_on_append split_on_free cipher_ok_def)
qed

end
