(* ===== verification/TotpEnrollment.thy ===== *)
theory TotpEnrollment
  imports Totp AuthSecrets
begin

text \<open>
  Enrolling an authenticator app, \<open>totp.service.ts\<close> and \<open>user-totp.repository.d1.ts\<close>: a pending
  secret is stored encrypted, activated by a first valid code, and only then counts at sign-in.
\<close>

section \<open>Repository\<close>

definition totp_of :: "string \<Rightarrow> world \<Rightarrow> totp_row option" where
  "totp_of userId w = find (\<lambda>r. tp_user_id r = userId) (user_totp w)"

definition set_totp :: "string \<Rightarrow> (totp_row \<Rightarrow> totp_row) \<Rightarrow> world \<Rightarrow> world" where
  "set_totp userId f w = w\<lparr>user_totp := List.map (\<lambda>r. if tp_user_id r = userId then f r else r) (user_totp w)\<rparr>"

definition upsertPending :: "string \<Rightarrow> string \<Rightarrow> string \<Rightarrow> unit m" where
  "upsertPending userId secretEnc createdAt =
     (let new = \<lparr>tp_user_id = userId, tp_secret_enc = secretEnc, tp_confirmed_at = None,
                 tp_created_at = createdAt, tp_last_used_at = None\<rparr>
      in (\<lambda>w. if totp_of userId w = None then
                guarded (\<lambda>w. if userId \<notin> set (List.map us_id (users w)) then Some ''FOREIGN KEY constraint failed'' else None)
                  (\<lambda>w. w\<lparr>user_totp := user_totp w @ [new]\<rparr>) w
              else (Inr (), set_totp userId (\<lambda>_. new) w)))"

definition confirm_totp :: "string \<Rightarrow> string \<Rightarrow> unit m" where
  "confirm_totp userId now = writes (set_totp userId (\<lambda>r. r\<lparr>tp_confirmed_at := Some now\<rparr>))"

definition delete_totp :: "string \<Rightarrow> unit m" where
  "delete_totp userId = writes (\<lambda>w. w\<lparr>user_totp := filter (\<lambda>r. tp_user_id r \<noteq> userId) (user_totp w)\<rparr>)"

definition touch_totp :: "string \<Rightarrow> string \<Rightarrow> unit m" where
  "touch_totp userId now = writes (set_totp userId (\<lambda>r. r\<lparr>tp_last_used_at := Some now\<rparr>))"

section \<open>Service\<close>

record totp_status =
  ts_enrolled :: bool
  ts_createdAt :: "string option"
  ts_lastUsedAt :: "string option"

definition getStatus :: "string \<Rightarrow> world \<Rightarrow> totp_status" where
  "getStatus userId w =
     (case totp_of userId w of
        Some r \<Rightarrow> if truthy (tp_confirmed_at r)
                  then \<lparr>ts_enrolled = True, ts_createdAt = Some (tp_created_at r), ts_lastUsedAt = tp_last_used_at r\<rparr>
                  else \<lparr>ts_enrolled = False, ts_createdAt = None, ts_lastUsedAt = None\<rparr>
      | None \<Rightarrow> \<lparr>ts_enrolled = False, ts_createdAt = None, ts_lastUsedAt = None\<rparr>)"

definition isEnrolled :: "string \<Rightarrow> world \<Rightarrow> bool" where
  "isEnrolled userId w = ts_enrolled (getStatus userId w)"

definition buildOtpauthUri :: "cfg \<Rightarrow> string \<Rightarrow> string \<Rightarrow> string \<Rightarrow> string" where
  "buildOtpauthUri E secret accountName issuer =
     ''otpauth://totp/'' @ uri_component E (issuer @ '':'' @ accountName) @ ''?''
     @ join_with ''&'' [''secret='' @ uri_component E secret, ''issuer='' @ uri_component E issuer,
                        ''algorithm=SHA1'', ''digits=6'', ''period=30'']"

definition beginEnrollment :: "cfg \<Rightarrow> string \<Rightarrow> string \<Rightarrow> string option \<Rightarrow> (string \<times> string) m" where
  "beginEnrollment E userId username email =
     seq (generateSecret E) (\<lambda>secret.
     seq (encryptSecret E secret) (\<lambda>secretEnc.
     seq (now_iso E) (\<lambda>now.
     seq (upsertPending userId secretEnc now) (\<lambda>_.
     seq (reads site_settings) (\<lambda>site.
     let issuer = (case nonblank (Option.bind site st_site_title) of None \<Rightarrow> ''Eetr Auth'' | Some t \<Rightarrow> t);
         accountName = (case nonblank email of None \<Rightarrow> username | Some e \<Rightarrow> e)
     in ret (buildOtpauthUri E secret accountName issuer, secret))))))"

text \<open>\<open>verifyTotp(secret, code)\<close> with the default window, at the time of the call; it reads the clock only for six digits.\<close>

definition verify_now :: "cfg \<Rightarrow> string \<Rightarrow> string \<Rightarrow> bool m" where
  "verify_now E secret code =
     (if \<not> six_digits (js_trim code) then ret False
      else seq (now_ms E) (\<lambda>now.
        case verifyTotp E secret code 1 now of Inl e \<Rightarrow> throw (JsError e) | Inr ok \<Rightarrow> ret ok))"

definition confirmEnrollment :: "cfg \<Rightarrow> string \<Rightarrow> string \<Rightarrow> bool m" where
  "confirmEnrollment E userId code =
     seq (reads (totp_of userId)) (\<lambda>found.
     case found of
       None \<Rightarrow> ret False
     | Some row \<Rightarrow>
       seq (outcome (decryptSecret E (tp_secret_enc row))) (\<lambda>secret.
       seq (verify_now E secret code) (\<lambda>ok.
       if \<not> ok then ret False
       else seq (now_iso E) (\<lambda>now. seq (confirm_totp userId now) (\<lambda>_. ret True)))))"

definition disable_totp :: "string \<Rightarrow> unit m" where
  "disable_totp userId = delete_totp userId"

definition verifyCode :: "cfg \<Rightarrow> string \<Rightarrow> string \<Rightarrow> bool m" where
  "verifyCode E userId code =
     seq (reads (totp_of userId)) (\<lambda>found.
     case found of
       None \<Rightarrow> ret False
     | Some row \<Rightarrow>
       if \<not> truthy (tp_confirmed_at row) then ret False
       else
         seq (outcome (decryptSecret E (tp_secret_enc row))) (\<lambda>secret.
         seq (verify_now E secret code) (\<lambda>ok.
         if \<not> ok then ret False
         else seq (now_iso E) (\<lambda>now. seq (touch_totp userId now) (\<lambda>_. ret True)))))"

section \<open>Facts\<close>

lemma totp_of_set:
  "(\<And>r. tp_user_id (f r) = tp_user_id r) \<Longrightarrow>
   totp_of j (set_totp i f w) = (if j = i then map_option f (totp_of j w) else totp_of j w)"
proof -
  assume keep: "\<And>r. tp_user_id (f r) = tp_user_id r"
  have "find (\<lambda>r. tp_user_id r = j) (List.map (\<lambda>r. if tp_user_id r = i then f r else r) rs) =
    (if j = i then map_option f (find (\<lambda>r. tp_user_id r = j) rs) else find (\<lambda>r. tp_user_id r = j) rs)" for rs
    by (induction rs) (auto simp: keep)
  then show ?thesis by (simp add: totp_of_def set_totp_def)
qed

lemma upsertPending_Inr:
  assumes "upsertPending i s c w = (Inr u, t)"
  shows "totp_of i t = Some \<lparr>tp_user_id = i, tp_secret_enc = s, tp_confirmed_at = None,
           tp_created_at = c, tp_last_used_at = None\<rparr>"
    and "j \<noteq> i \<Longrightarrow> totp_of j t = totp_of j w"
proof -
  let ?new = "\<lparr>tp_user_id = i, tp_secret_enc = s, tp_confirmed_at = None, tp_created_at = c, tp_last_used_at = None\<rparr>"
  show "totp_of i t = Some ?new"
  proof (cases "totp_of i w")
    case None
    with assms show ?thesis
      by (auto simp: upsertPending_def Let_def prog_inv totp_of_def find_append split: if_splits)
  next
    case (Some r)
    have keep: "find (\<lambda>r. tp_user_id r = i) (List.map (\<lambda>r. if tp_user_id r = i then ?new else r) rs) =
        map_option (\<lambda>_. ?new) (find (\<lambda>r. tp_user_id r = i) rs)" for rs by (induction rs) auto
    from assms Some show ?thesis
      by (auto simp: upsertPending_def Let_def totp_of_def set_totp_def keep)
  qed
  assume "j \<noteq> i"
  then have keep: "find (\<lambda>r. tp_user_id r = j) (List.map (\<lambda>r. if tp_user_id r = i then ?new else r) rs) =
        find (\<lambda>r. tp_user_id r = j) rs" for rs by (induction rs) auto
  from assms \<open>j \<noteq> i\<close> show "totp_of j t = totp_of j w"
    by (auto simp: upsertPending_def Let_def prog_inv totp_of_def set_totp_def keep find_append split: if_splits option.splits)
qed

text \<open>The codes of a secret around the current time step.\<close>

definition current_code :: "cfg \<Rightarrow> 8 word list \<Rightarrow> string \<Rightarrow> nat \<Rightarrow> bool" where
  "current_code E bytes code now \<longleftrightarrow> (\<exists>c. \<bar>c - int (now div 30000)\<bar> \<le> 1 \<and> hotp E bytes c = js_trim code)"

lemma verify_now_run:
  assumes "base32Decode secret = Inr bytes"
  shows "\<exists>n. verify_now E secret code w = (Inr (current_code E bytes code (clock E (ticks w))), w\<lparr>ticks := n\<rparr>)"
proof (cases "six_digits (js_trim code)")
  case True
  have step: "currentStep n = int (n div 30000)" for n
    by (simp add: currentStep_def STEP_SECONDS_def div_mult2_eq [symmetric])
  have "verifyTotp E secret code 1 now = Inr (current_code E bytes code now)" for now
    using True assms any_step_window [of E bytes "js_trim code" "int (now div 30000)" 1]
    by (simp add: verifyTotp_def Let_def step current_code_def)
  with True show ?thesis by (auto simp: verify_now_def run_seq)
next
  case False
  then have "\<not> current_code E bytes code now" for now
    using hotp_six_digits unfolding current_code_def by metis
  with False show ?thesis by (auto simp: verify_now_def intro: exI [of _ "ticks w"])
qed


text \<open>A pending or active row whose secret decrypts: what a first code and a sign-in code do.\<close>

lemma isEnrolled_iff:
  "isEnrolled u w \<longleftrightarrow> (\<exists>r. totp_of u w = Some r \<and> truthy (tp_confirmed_at r))"
  by (auto simp: isEnrolled_def getStatus_def split: option.splits)

lemma totp_of_ticks [simp]: "totp_of u (w\<lparr>ticks := n\<rparr>) = totp_of u w"
  by (simp add: totp_of_def)

lemma confirm_run:
  assumes "totp_of u w = Some r" and "decryptSecret E (tp_secret_enc r) = Inr secret"
    and "base32Decode secret = Inr bytes"
  shows "\<exists>t. confirmEnrollment E u code w = (Inr (current_code E bytes code (clock E (ticks w))), t)
    \<and> totp_of u t = Some (if current_code E bytes code (clock E (ticks w))
        then r\<lparr>tp_confirmed_at := Some (toISOString (clock E (ticks t - 1)))\<rparr> else r)"
proof -
  obtain n where run: "verify_now E secret code w =
      (Inr (current_code E bytes code (clock E (ticks w))), w\<lparr>ticks := n\<rparr>)"
    using verify_now_run [OF assms(3)] by blast
  have ticks: "ticks (set_totp u f v) = ticks v" for f v by (simp add: set_totp_def)
  show ?thesis
    using assms(1,2) run
    by (simp add: confirmEnrollment_def outcome_def run_seq confirm_totp_def totp_of_set ticks)
qed

lemma verifyCode_run:
  assumes "totp_of u w = Some r" and "truthy (tp_confirmed_at r)" and "decryptSecret E (tp_secret_enc r) = Inr secret"
    and "base32Decode secret = Inr bytes"
  shows "fst (verifyCode E u code w) = Inr (current_code E bytes code (clock E (ticks w)))"
proof -
  obtain n where "verify_now E secret code w = (Inr (current_code E bytes code (clock E (ticks w))), w\<lparr>ticks := n\<rparr>)"
    using verify_now_run [OF assms(4)] by blast
  with assms(1-3) show ?thesis
    by (simp add: verifyCode_def outcome_def run_seq touch_totp_def)
qed

lemma verifyCode_pending: "\<not> isEnrolled u w \<Longrightarrow> verifyCode E u code w = (Inr False, w)"
  by (auto simp: verifyCode_def isEnrolled_iff split: option.splits)

lemma beginEnrollment_Inr:
  assumes "beginEnrollment E u name email w = (Inr (uri, secret), t)"
    and "cipher_ok E" and "\<And>n. length (random_bytes E n 12) = 12"
  shows "\<exists>r bytes. totp_of u t = Some r \<and> tp_confirmed_at r = None
    \<and> decryptSecret E (tp_secret_enc r) = Inr secret \<and> base32Decode secret = Inr bytes"
proof -
  from assms(1) obtain enc a b now c where secret: "secret = base32Encode (random_bytes E (draws w) 20)"
    and enc: "encryptSecret E secret a = (Inr enc, b)" and row: "upsertPending u enc now c = (Inr (), t)"
    by (auto simp: beginEnrollment_def generateSecret_def prog_inv Let_def)
  then show ?thesis
    using encrypt_then_decrypt [OF assms(2) enc assms(3)] upsertPending_Inr(1) [OF row] base32_decodes
    by (metis totp_row.select_convs(2,3))
qed

section \<open>An active authenticator stays active\<close>

text \<open>
  What may happen to the authenticators while the one of a user is neither set up anew nor
  disabled by its owner: sign-in codes and confirmations of anyone, enrolments and removals of
  others, and steps that do not touch the table.
\<close>

inductive totp_step :: "cfg \<Rightarrow> string \<Rightarrow> world \<Rightarrow> world \<Rightarrow> bool" for E userId where
  code_checked: "verifyCode E u code s = (x, t) \<Longrightarrow> totp_step E userId s t"
| confirmed: "confirmEnrollment E u code s = (x, t) \<Longrightarrow> totp_step E userId s t"
| other_begun: "beginEnrollment E u name email s = (y, t) \<Longrightarrow> u \<noteq> userId \<Longrightarrow> totp_step E userId s t"
| other_disabled: "disable_totp u s = (z, t) \<Longrightarrow> u \<noteq> userId \<Longrightarrow> totp_step E userId s t"
| elsewhere: "user_totp t = user_totp s \<Longrightarrow> totp_step E userId s t"

definition active_secret :: "string \<Rightarrow> string \<Rightarrow> world \<Rightarrow> bool" where
  "active_secret i enc w \<longleftrightarrow> (\<exists>r. totp_of i w = Some r \<and> truthy (tp_confirmed_at r) \<and> tp_secret_enc r = enc)"

definition stays_active :: "string \<Rightarrow> string \<Rightarrow> world \<Rightarrow> world \<Rightarrow> bool" where
  "stays_active i enc s t \<longleftrightarrow> (active_secret i enc s \<longrightarrow> active_secret i enc t)"

interpretation active: evolution "stays_active i enc" for i enc
  by unfold_locales (auto simp: stays_active_def)

lemma stays_active_same: "totp_of i t = totp_of i s \<Longrightarrow> stays_active i enc s t"
  by (simp add: stays_active_def active_secret_def)

lemma active_clock: "evolves (stays_active i enc) (now_ms E)" "evolves (stays_active i enc) (now_iso E)"
  by (rule evolves_clock; rule stays_active_same; simp)+

lemma active_draw: "evolves (stays_active i enc) (getRandomValues E k)"
  by (rule evolves_random; rule stays_active_same; simp add: totp_of_def)

lemma active_writes:
  "evolves (stays_active i enc) (touch_totp u now)"
  "now \<noteq> [] \<Longrightarrow> evolves (stays_active i enc) (confirm_totp u now)"
  "u \<noteq> i \<Longrightarrow> evolves (stays_active i enc) (delete_totp u)"
proof -
  show "evolves (stays_active i enc) (touch_totp u now)"
    unfolding touch_totp_def by (rule active.writes) (auto simp: stays_active_def active_secret_def totp_of_set)
  show "evolves (stays_active i enc) (confirm_totp u now)" if "now \<noteq> []"
    unfolding confirm_totp_def using that
    by (intro active.writes) (auto simp: stays_active_def active_secret_def totp_of_set truthy_def)
  have "find (\<lambda>r. tp_user_id r = i) (filter (\<lambda>r. tp_user_id r \<noteq> u) rs) = find (\<lambda>r. tp_user_id r = i) rs" if "u \<noteq> i" for rs
    using that by (induction rs) auto
  then show "evolves (stays_active i enc) (delete_totp u)" if "u \<noteq> i"
    unfolding delete_totp_def using that by (intro active.writes stays_active_same) (simp add: totp_of_def)
qed

lemma stamp_not_empty: "toISOString n \<noteq> []"
  by (simp add: toISOString_def Let_def split: prod.split)

lemma active_confirm_now: "evolves (stays_active i enc) (seq (now_iso E) (\<lambda>now. seq (confirm_totp u now) (\<lambda>_. ret True)))"
  by (rule active.seq_value [OF active_clock(2)])
    (auto simp: now_iso_def prog_inv stamp_not_empty intro!: active.seq active_writes)

lemma active_verify_now: "evolves (stays_active i enc) (verify_now E secret code)"
  unfolding verify_now_def by (intro active.rules active_clock)

lemma active_upsert: "u \<noteq> i \<Longrightarrow> evolves (stays_active i enc) (upsertPending u s c)"
proof (rule evolvesI)
  fix w x t assume "u \<noteq> i" and run: "upsertPending u s c w = (x, t)"
  show "stays_active i enc w t"
  proof (cases x)
    case (Inl e)
    with run have "t = w" by (auto simp: upsertPending_def Let_def guarded_Inl split: if_splits)
    then show ?thesis by (simp add: stays_active_def)
  next
    case (Inr v)
    with run \<open>u \<noteq> i\<close> upsertPending_Inr(2) [of u s c w v t i] show ?thesis by (intro stays_active_same) simp
  qed
qed

lemma totp_step_active:
  assumes "totp_step E i s t"
  shows "stays_active i enc s t"
  using assms
proof cases
  case (code_checked u code x)
  have "evolves (stays_active i enc) (verifyCode E u code)"
    unfolding verifyCode_def by (intro active.rules active_clock active_verify_now active_writes(1))
  then show ?thesis using code_checked by (rule evolvesD)
next
  case (confirmed u code x)
  have "evolves (stays_active i enc) (confirmEnrollment E u code)"
    unfolding confirmEnrollment_def by (intro active.rules active_verify_now active_confirm_now)
  then show ?thesis using confirmed by (rule evolvesD)
next
  case (other_begun u name email y)
  have "evolves (stays_active i enc) (beginEnrollment E u name email)"
    unfolding beginEnrollment_def generateSecret_def encryptSecret_def Let_def
    by (intro active.rules active_clock active_draw active_upsert other_begun(2))
  then show ?thesis using other_begun(1) by (rule evolvesD)
next
  case (other_disabled u z)
  then show ?thesis using evolvesD [OF active_writes(3)] by (simp add: disable_totp_def)
next
  case elsewhere
  then show ?thesis by (intro stays_active_same) (simp add: totp_of_def)
qed

lemma totp_steps_active:
  assumes "(totp_step E i)\<^sup>*\<^sup>* s t" and "active_secret i enc s"
  shows "active_secret i enc t"
  using assms by (induction rule: rtranclp_induct) (auto dest: totp_step_active [where enc = enc] simp: stays_active_def)

lemma confirm_others:
  "confirmEnrollment E u code w = (x, t) \<Longrightarrow> j \<noteq> u \<Longrightarrow> totp_of j t = totp_of j w"
proof -
  assume run: "confirmEnrollment E u code w = (x, t)" and "j \<noteq> u"
  have "evolves (\<lambda>s t. totp_of j t = totp_of j s) (confirmEnrollment E u code)"
    unfolding confirmEnrollment_def verify_now_def confirm_totp_def using \<open>j \<noteq> u\<close>
    by (intro evolution.rules [OF evolution_unchanged] evolves_clock) (simp_all add: totp_of_set)
  then show ?thesis using run by (rule evolvesD)
qed

lemma begin_others:
  "beginEnrollment E u name email w = (Inr y, t) \<Longrightarrow> j \<noteq> u \<Longrightarrow> totp_of j t = totp_of j w"
proof -
  assume run: "beginEnrollment E u name email w = (Inr y, t)" and "j \<noteq> u"
  from run obtain enc now a where "upsertPending u enc now a = (Inr (), t)" and a: "user_totp a = user_totp w"
    by (auto simp: beginEnrollment_def generateSecret_def encryptSecret_def prog_inv Let_def)
  then have "totp_of j t = totp_of j a" using \<open>j \<noteq> u\<close> by (intro upsertPending_Inr(2))
  with a show ?thesis by (simp add: totp_of_def)
qed

text \<open>
  C27. Enrolling an authenticator needs proof of possession. While the user's row is as the
  enrolment left it, no code signs the user in, and a confirmation never fails with an exception
  but answers whether the code is one of the current codes of the returned secret; only then is
  the user enrolled. From then on, through any steps short of the user's own enrolling anew or
  disabling (sign-ins included), the user stays enrolled and sign-in codes are judged against that
  secret. Neither the enrolment nor the confirmation touches another user's authenticator.
  The hypotheses are that decryption inverts encryption and that the platform gives the
  random bytes it is asked for.
\<close>

theorem totp_enrollment_needs_possession:
  assumes "beginEnrollment E userId username email w = (Inr (uri, secret), t)"
    and "cipher_ok E" and "\<And>n. length (random_bytes E n 12) = 12"
  shows "\<exists>bytes. base32Decode secret = Inr bytes \<and> (\<forall>j. j \<noteq> userId \<longrightarrow> totp_of j t = totp_of j w)
    \<and> (\<forall>u. totp_of userId u = totp_of userId t \<longrightarrow>
         \<not> isEnrolled userId u \<and> (\<forall>code. verifyCode E userId code u = (Inr False, u))
       \<and> (\<forall>code. \<exists>v. confirmEnrollment E userId code u = (Inr (current_code E bytes code (clock E (ticks u))), v)
            \<and> (isEnrolled userId v \<longleftrightarrow> current_code E bytes code (clock E (ticks u)))
            \<and> (\<forall>j. j \<noteq> userId \<longrightarrow> totp_of j v = totp_of j u)
            \<and> (\<forall>x. current_code E bytes code (clock E (ticks u)) \<and> (totp_step E userId)\<^sup>*\<^sup>* v x \<longrightarrow>
                 isEnrolled userId x \<and> (\<forall>code'.
                    fst (verifyCode E userId code' x) = Inr (current_code E bytes code' (clock E (ticks x)))))))"
proof -
  obtain r bytes where r: "totp_of userId t = Some r" "tp_confirmed_at r = None"
    and secret: "decryptSecret E (tp_secret_enc r) = Inr secret" and bytes: "base32Decode secret = Inr bytes"
    using beginEnrollment_Inr [OF assms] by blast
  have fresh: "\<not> isEnrolled userId u" if "totp_of userId u = totp_of userId t" for u
    using that r by (simp add: isEnrolled_iff truthy_def)
  have later: "isEnrolled userId x \<and> (\<forall>code'. fst (verifyCode E userId code' x) = Inr (current_code E bytes code' (clock E (ticks x))))"
    if act: "active_secret userId (tp_secret_enc r) v" and steps: "(totp_step E userId)\<^sup>*\<^sup>* v x" for v x
  proof -
    obtain q where q: "totp_of userId x = Some q" "truthy (tp_confirmed_at q)" "tp_secret_enc q = tp_secret_enc r"
      using totp_steps_active [OF steps act] unfolding active_secret_def by blast
    with secret have "decryptSecret E (tp_secret_enc q) = Inr secret" by simp
    from verifyCode_run [OF q(1,2) this bytes] q show ?thesis by (auto simp: isEnrolled_iff)
  qed
  have "\<exists>v. confirmEnrollment E userId code u = (Inr (current_code E bytes code (clock E (ticks u))), v)
      \<and> (isEnrolled userId v \<longleftrightarrow> current_code E bytes code (clock E (ticks u)))
      \<and> (\<forall>j. j \<noteq> userId \<longrightarrow> totp_of j v = totp_of j u)
      \<and> (\<forall>x. current_code E bytes code (clock E (ticks u)) \<and> (totp_step E userId)\<^sup>*\<^sup>* v x \<longrightarrow>
           isEnrolled userId x \<and> (\<forall>code'. fst (verifyCode E userId code' x) = Inr (current_code E bytes code' (clock E (ticks x)))))"
    if u: "totp_of userId u = totp_of userId t" for code u
  proof -
    have "totp_of userId u = Some r" using u r by simp
    from confirm_run [OF this secret bytes, of code]
    obtain v where v: "confirmEnrollment E userId code u = (Inr (current_code E bytes code (clock E (ticks u))), v)"
      "totp_of userId v = Some (if current_code E bytes code (clock E (ticks u))
        then r\<lparr>tp_confirmed_at := Some (toISOString (clock E (ticks v - 1)))\<rparr> else r)" by blast
    then have "isEnrolled userId v \<longleftrightarrow> current_code E bytes code (clock E (ticks u))"
      and "current_code E bytes code (clock E (ticks u)) \<Longrightarrow> active_secret userId (tp_secret_enc r) v"
      using r by (auto simp: isEnrolled_iff active_secret_def truthy_def stamp_not_empty)
    with v(1) later confirm_others [OF v(1)] show ?thesis by blast
  qed
  with bytes fresh verifyCode_pending begin_others [OF assms(1)] show ?thesis by blast
qed

end
