(* ===== verification/Challenges.thy ===== *)
theory Challenges
  imports UserStore AuthSecrets PasswordHash Params ClientAuth
begin

text \<open>
  One-time codes: \<open>user-challenge.repository.d1.ts\<close> and the sign-in and e-mail verification
  codes of \<open>user-challenge.service.ts\<close>. A challenge keeps a digest of its code and counts
  wrong guesses; it is deleted when the code is right, too old, or guessed wrong too often.
\<close>

section \<open>Repository\<close>

definition challenge_by_id :: "string \<Rightarrow> world \<Rightarrow> challenge_row option" where
  "challenge_by_id i w = find (\<lambda>r. ch_id r = i) (user_challenges w)"

definition challenge_violated :: "challenge_row \<Rightarrow> world \<Rightarrow> string option" where
  "challenge_violated r w =
     (if ch_id r \<in> set (List.map ch_id (user_challenges w)) then Some ''UNIQUE constraint failed: user_challenges.id''
      else if ch_user_id r \<notin> set (List.map us_id (users w)) then Some ''FOREIGN KEY constraint failed''
      else None)"

definition insert_challenge :: "challenge_row \<Rightarrow> unit m" where
  "insert_challenge r = guarded (challenge_violated r) (\<lambda>w. w\<lparr>user_challenges := user_challenges w @ [r]\<rparr>)"

definition drop_challenges :: "(challenge_row \<Rightarrow> bool) \<Rightarrow> world \<Rightarrow> world" where
  "drop_challenges P w = w\<lparr>user_challenges := filter (\<lambda>r. \<not> P r) (user_challenges w)\<rparr>"

definition delete_challenge :: "string \<Rightarrow> unit m" where
  "delete_challenge i = writes (drop_challenges (\<lambda>r. ch_id r = i))"

definition deleteByUserIdAndKind :: "string \<Rightarrow> challenge_kind \<Rightarrow> unit m" where
  "deleteByUserIdAndKind userId kind = writes (drop_challenges (\<lambda>r. ch_user_id r = userId \<and> ch_kind r = kind))"

definition set_challenge :: "string \<Rightarrow> (challenge_row \<Rightarrow> challenge_row) \<Rightarrow> world \<Rightarrow> world" where
  "set_challenge i f w = w\<lparr>user_challenges := List.map (\<lambda>r. if ch_id r = i then f r else r) (user_challenges w)\<rparr>"

definition markConsumed :: "string \<Rightarrow> string \<Rightarrow> unit m" where
  "markConsumed i now = writes (set_challenge i (\<lambda>r. r\<lparr>ch_consumed_at := Some now\<rparr>))"

definition deleteExpiredBefore :: "string \<Rightarrow> nat m" where
  "deleteExpiredBefore cutoff =
     updating (\<lambda>w. length (filter (\<lambda>r. ch_expires_at r < cutoff) (user_challenges w)))
       (drop_challenges (\<lambda>r. ch_expires_at r < cutoff))"

definition counts_failures :: "challenge_row \<Rightarrow> bool" where
  "counts_failures r \<longleftrightarrow> ch_kind r = Mfa_otp \<or> ch_kind r = Email_verification"

definition incrementOtpFailedAttempts :: "string \<Rightarrow> nat option m" where
  "incrementOtpFailedAttempts i =
     updating
       (\<lambda>w. map_option (\<lambda>r. Suc (ch_otp_failed_attempts r))
              (find (\<lambda>r. ch_id r = i \<and> counts_failures r) (user_challenges w)))
       (set_challenge i (\<lambda>r. if counts_failures r
          then r\<lparr>ch_otp_failed_attempts := Suc (ch_otp_failed_attempts r)\<rparr> else r))"

section \<open>Settings\<close>

text \<open>
  \<open>parseInt(raw, 10)\<close>: an optional sign and the digits in front. Values that a double rounds
  to infinity are not finite; between \<open>2 ^ 53\<close> and there the code's number is rounded, which no
  count of attempts can reach.
\<close>

definition decimal :: "string \<Rightarrow> nat" where
  "decimal ds = foldl (\<lambda>n c. 10 * n + (of_char c - 48)) 0 ds"

definition parseInt :: "string \<Rightarrow> int option" where
  "parseInt s =
     (let (sign, rest) = (case s of
            c # cs \<Rightarrow> if c = CHR ''-'' then (- 1, cs) else if c = CHR ''+'' then (1, cs) else (1, s)
          | [] \<Rightarrow> (1, s));
          ds = takeWhile is_digit rest
      in if ds = [] then None else Some (sign * int (decimal ds)))"

definition resolveMfaOtpMaxAttempts :: "cfg \<Rightarrow> nat" where
  "resolveMfaOtpMaxAttempts E =
     (let raw = (case trimmed_env (ctx_env E) ''MFA_OTP_MAX_ATTEMPTS'' of
                   Some v \<Rightarrow> v
                 | None \<Rightarrow> (case trimmed_env (process_env E) ''MFA_OTP_MAX_ATTEMPTS'' of Some v \<Rightarrow> v | None \<Rightarrow> ''5''))
      in case parseInt raw of
           None \<Rightarrow> 5
         | Some n \<Rightarrow> if n < 1 \<or> 2 ^ 1024 - 2 ^ 970 \<le> n then 5 else nat n)"

section \<open>Mail\<close>

definition getResendApiKey :: "cfg \<Rightarrow> string option" where
  "getResendApiKey E =
     (case ctx_env E ''RESEND_API_KEY'' of
        Some v \<Rightarrow> if js_trim v \<noteq> [] then Some v
                  else (case process_env E ''RESEND_API_KEY'' of
                          Some p \<Rightarrow> if js_trim p \<noteq> [] then Some p else None | None \<Rightarrow> None)
      | None \<Rightarrow> (case process_env E ''RESEND_API_KEY'' of
                   Some p \<Rightarrow> if js_trim p \<noteq> [] then Some p else None | None \<Rightarrow> None))"

text \<open>The pattern \<open>^[^\s@]+@[^\s@]+\.[^\s@]+$\<close>.\<close>

definition plausible_address :: "string \<Rightarrow> bool" where
  "plausible_address s \<longleftrightarrow>
     \<not> list_ex js_space s
     \<and> (case split_on CHR ''@'' s of
          [user_part, host] \<Rightarrow> user_part \<noteq> [] \<and> host \<noteq> [] \<and> CHR ''.'' \<in> set (butlast (tl host))
        | _ \<Rightarrow> False)"

definition configuredFromAddress :: "cfg \<Rightarrow> failure + string option" where
  "configuredFromAddress E =
     (case trimmed_env (ctx_env E) ''EMAIL_FROM_ADDRESS'' of
        Some v \<Rightarrow> if plausible_address v then Inr (Some v)
                  else Inl (JsError ''EMAIL_FROM_ADDRESS must be a valid email address.'')
      | None \<Rightarrow> (case trimmed_env (process_env E) ''EMAIL_FROM_ADDRESS'' of
                   Some v \<Rightarrow> if plausible_address v then Inr (Some v)
                             else Inl (JsError ''EMAIL_FROM_ADDRESS must be a valid email address.'')
                 | None \<Rightarrow> Inr None))"

definition fromAddress :: "cfg \<Rightarrow> string \<Rightarrow> failure + string" where
  "fromAddress E siteUrlHttp =
     (case configuredFromAddress E of
        Inl e \<Rightarrow> Inl e
      | Inr (Some a) \<Rightarrow> Inr a
      | Inr None \<Rightarrow> (case parse_url E siteUrlHttp of
                      None \<Rightarrow> Inl (JsError ''Invalid URL'')
                    | Some u \<Rightarrow> Inr (''no-reply@'' @ url_hostname u)))"

definition send_mail :: "cfg \<Rightarrow> notice \<Rightarrow> unit m" where
  "send_mail E message =
     (case getResendApiKey E of
        None \<Rightarrow> throw (JsError ''RESEND_API_KEY is not configured.'')
      | Some k \<Rightarrow> (case send_notice E message of None \<Rightarrow> ret () | Some e \<Rightarrow> throw (JsError e)))"

definition http_url :: "string \<Rightarrow> string" where
  "http_url siteUrl = (if take 4 siteUrl = ''http'' then siteUrl else ''https://'' @ siteUrl)"

definition title_or :: "site_settings_row option \<Rightarrow> string \<Rightarrow> string" where
  "title_or site dflt = (case nonblank (Option.bind site st_site_title) of None \<Rightarrow> dflt | Some t \<Rightarrow> t)"

section \<open>Passwords\<close>

definition hash_policy :: "cfg \<Rightarrow> hash_method m" where
  "hash_policy E = (case resolveHashMethod E of Inl e \<Rightarrow> throw (JsError e) | Inr h \<Rightarrow> ret h)"

definition verifyUsernamePassword :: "cfg \<Rightarrow> string \<Rightarrow> string \<Rightarrow> user_row option m" where
  "verifyUsernamePassword E username password =
     seq (reads (findByUsername (js_trim username))) (\<lambda>found.
     case found of
       None \<Rightarrow> ret None
     | Some user \<Rightarrow>
       seq (hash_policy E) (\<lambda>meth.
       seq (verifyPassword E meth password (us_password_hash user)) (\<lambda>v.
       if \<not> pv_ok v then ret None
       else (case pv_rehash v of
               None \<Rightarrow> ret (Some user)
             | Some h \<Rightarrow>
               seq (update_user_row (us_id user) (no_patch\<lparr>up_passwordHash := Some h\<rparr>)) (\<lambda>_.
               ret (Some (user\<lparr>us_password_hash := h\<rparr>)))))))"

section \<open>Creating codes\<close>

definition MFA_OTP_TTL_MS :: nat where "MFA_OTP_TTL_MS = 10 * 60 * 1000"
definition EMAIL_VERIFICATION_TTL_MS :: nat where "EMAIL_VERIFICATION_TTL_MS = 10 * 60 * 1000"

text \<open>A \<open>Uint32Array\<close> of one element over four random bytes, the first the least significant.\<close>

definition uint32 :: "8 word list \<Rightarrow> nat" where
  "uint32 bs = foldr (\<lambda>b n. unat b + 256 * n) bs 0"

definition randomSixDigitCode :: "cfg \<Rightarrow> string m" where
  "randomSixDigitCode E = seq (getRandomValues E 4) (\<lambda>bs. ret (show_decimal (100000 + uint32 bs mod 900000)))"

definition hashMfaOtp :: "cfg \<Rightarrow> string \<Rightarrow> string \<Rightarrow> failure + string" where
  "hashMfaOtp E challengeId code =
     (case getAuthSecret E of
        Inl e \<Rightarrow> Inl e
      | Inr s \<Rightarrow> Inr (hex_bytes (sha256 E (challengeId @ '':'' @ code @ '':'' @ s))))"

definition code_challenge_row :: "challenge_kind \<Rightarrow> string \<Rightarrow> string \<Rightarrow> string \<Rightarrow> nat \<Rightarrow> nat \<Rightarrow> challenge_row" where
  "code_challenge_row kind i userId h now ttl =
     \<lparr>ch_id = i, ch_user_id = userId, ch_kind = kind, ch_code_hash = Some h, ch_expires_at = toISOString (now + ttl),
      ch_created_at = toISOString now, ch_consumed_at = None, ch_otp_failed_attempts = 0\<rparr>"

text \<open>The part the two kinds of code share: draw the code and the id, store the digest.\<close>

definition new_code_challenge :: "cfg \<Rightarrow> challenge_kind \<Rightarrow> nat \<Rightarrow> string \<Rightarrow> (string \<times> string) m" where
  "new_code_challenge E kind ttl userId =
     seq (randomSixDigitCode E) (\<lambda>code.
     seq (randomUUID E) (\<lambda>i.
     seq (now_ms E) (\<lambda>now.
     seq (outcome (hashMfaOtp E i code)) (\<lambda>codeHash.
     seq (insert_challenge (code_challenge_row kind i userId codeHash now ttl)) (\<lambda>_.
     ret (i, code))))))"

definition createMfaOtpAndSendEmail :: "cfg \<Rightarrow> user_row \<Rightarrow> string m" where
  "createMfaOtpAndSendEmail E user =
     seq (reads site_settings) (\<lambda>site.
     seq (need (nonblank (Option.bind site st_site_url)) (JsError ''Site URL is not configured.'')) (\<lambda>siteUrl.
     seq (need (nonblank (us_email user))
           (JsError ''Your account has no email address; MFA cannot be used.'')) (\<lambda>to.
     seq (new_code_challenge E Mfa_otp MFA_OTP_TTL_MS (us_id user)) (\<lambda>(challengeId, code).
     seq (outcome (fromAddress E (http_url siteUrl))) (\<lambda>from_addr.
     seq (send_mail E (CodeNotice Mfa_otp to (title_or site ''Sign in'') from_addr code)) (\<lambda>_.
     ret challengeId))))))"

definition createEmailVerificationOtpAndSendEmail :: "cfg \<Rightarrow> user_record \<Rightarrow> string m" where
  "createEmailVerificationOtpAndSendEmail E user =
     seq (reads site_settings) (\<lambda>site.
     seq (need (nonblank (Option.bind site st_site_url)) (JsError ''Site URL is not configured.'')) (\<lambda>siteUrl.
     seq (need (nonblank (u_email user))
           (JsError ''Your account has no email address; email verification cannot be used.'')) (\<lambda>to.
     seq (deleteByUserIdAndKind (u_id user) Email_verification) (\<lambda>_.
     seq (new_code_challenge E Email_verification EMAIL_VERIFICATION_TTL_MS (u_id user)) (\<lambda>(challengeId, code).
     seq (outcome (fromAddress E (http_url siteUrl))) (\<lambda>from_addr.
     seq (send_mail E (CodeNotice Email_verification to (title_or site ''Verify your email'') from_addr code)) (\<lambda>_.
     ret challengeId)))))))"

section \<open>Checking codes\<close>

datatype otp_failure =
    Challenge_missing_or_mismatch | Challenge_consumed | Challenge_expired | Otp_incorrect | Otp_max_attempts_exceeded

datatype otp_result = Otp_ok | Otp_refused otp_failure

text \<open>The two services verify in the same way; they differ in the kind of row they accept.\<close>

definition wrong_guess :: "cfg \<Rightarrow> string \<Rightarrow> otp_result m" where
  "wrong_guess E challengeId =
     seq (incrementOtpFailedAttempts challengeId) (\<lambda>newCount.
     if (case newCount of None \<Rightarrow> False | Some n \<Rightarrow> resolveMfaOtpMaxAttempts E \<le> n)
     then seq (delete_challenge challengeId) (\<lambda>_. ret (Otp_refused Otp_max_attempts_exceeded))
     else ret (Otp_refused Otp_incorrect))"

definition check_otp :: "cfg \<Rightarrow> challenge_kind \<Rightarrow> string \<Rightarrow> string \<Rightarrow> string \<Rightarrow> otp_result m" where
  "check_otp E kind challengeId userId code =
     seq (reads (challenge_by_id challengeId)) (\<lambda>found.
     case found of
       None \<Rightarrow> ret (Otp_refused Challenge_missing_or_mismatch)
     | Some row \<Rightarrow>
       if ch_kind row \<noteq> kind \<or> ch_user_id row \<noteq> userId then ret (Otp_refused Challenge_missing_or_mismatch)
       else if truthy (ch_consumed_at row) then ret (Otp_refused Challenge_consumed)
       else seq (now_iso E) (\<lambda>now.
         if ch_expires_at row \<le> now
         then seq (delete_challenge challengeId) (\<lambda>_. ret (Otp_refused Challenge_expired))
         else seq (outcome (hashMfaOtp E challengeId (js_trim code))) (\<lambda>expected.
           if \<not> timingSafeEqualHex expected (case ch_code_hash row of None \<Rightarrow> [] | Some h \<Rightarrow> h)
           then wrong_guess E challengeId
           else seq (delete_challenge challengeId) (\<lambda>_. ret Otp_ok))))"

definition verifyMfaOtpAndConsume :: "cfg \<Rightarrow> string \<Rightarrow> string \<Rightarrow> string \<Rightarrow> otp_result m" where
  "verifyMfaOtpAndConsume E challengeId userId code = check_otp E Mfa_otp challengeId userId code"

definition markEmailVerified :: "cfg \<Rightarrow> string \<Rightarrow> unit m" where
  "markEmailVerified E userId =
     seq (reads (user_by_id userId)) (\<lambda>found.
     case found of
       None \<Rightarrow> ret ()
     | Some user \<Rightarrow>
       if u_isAdmin user \<or> nonblank (u_email user) = None \<or> truthy (u_emailVerifiedAt user) then ret ()
       else seq (now_iso E) (\<lambda>now.
         update_user_row userId (no_patch\<lparr>up_emailVerifiedAt := Some (Some now)\<rparr>)))"

definition verifyEmailVerificationOtpAndConsume :: "cfg \<Rightarrow> string \<Rightarrow> string \<Rightarrow> string \<Rightarrow> otp_result m" where
  "verifyEmailVerificationOtpAndConsume E challengeId userId code =
     seq (check_otp E Email_verification challengeId userId code) (\<lambda>res.
     if res = Otp_ok then seq (markEmailVerified E userId) (\<lambda>_. ret Otp_ok) else ret res)"

definition requestEmailVerification :: "cfg \<Rightarrow> string \<Rightarrow> string option m" where
  "requestEmailVerification E userId =
     seq (reads (user_by_id userId)) (\<lambda>found.
     seq (need found (JsError ''User not found'')) (\<lambda>targetUser.
     if u_isAdmin targetUser then ret None
     else if nonblank (u_email targetUser) = None
       then throw (JsError ''Your account has no email address; email verification cannot be used.'')
     else if truthy (u_emailVerifiedAt targetUser) then ret None
     else seq (createEmailVerificationOtpAndSendEmail E targetUser) (\<lambda>i. ret (Some i))))"


section \<open>Facts\<close>

lemma challenge_rows [simp]:
  "challenge_by_id j (w\<lparr>ticks := n\<rparr>) = challenge_by_id j w"
  "challenge_by_id j (w\<lparr>draws := n\<rparr>) = challenge_by_id j w"
  "challenge_by_id j (w\<lparr>users := us\<rparr>) = challenge_by_id j w"
  "ticks (drop_challenges P w) = ticks w" "ticks (set_challenge i f w) = ticks w"
  by (simp_all add: challenge_by_id_def drop_challenges_def set_challenge_def)

lemma challenge_by_id_drop:
  "challenge_by_id j (drop_challenges (\<lambda>r. ch_id r = i) w) = (if j = i then None else challenge_by_id j w)"
proof -
  have "find (\<lambda>r. ch_id r = j) (filter (\<lambda>r. ch_id r \<noteq> i) rs) =
      (if j = i then None else find (\<lambda>r. ch_id r = j) rs)" for rs :: "challenge_row list" by (induction rs) auto
  then show ?thesis by (simp add: challenge_by_id_def drop_challenges_def)
qed

lemma challenge_by_id_set:
  "(\<And>r. ch_id (f r) = ch_id r) \<Longrightarrow>
   challenge_by_id j (set_challenge i f w) = (if j = i then map_option f (challenge_by_id j w) else challenge_by_id j w)"
proof -
  assume keep: "\<And>r. ch_id (f r) = ch_id r"
  have "find (\<lambda>r. ch_id r = j) (List.map (\<lambda>r. if ch_id r = i then f r else r) rs) =
    (if j = i then map_option f (find (\<lambda>r. ch_id r = j) rs) else find (\<lambda>r. ch_id r = j) rs)" for rs :: "challenge_row list"
    by (induction rs) (auto simp: keep)
  then show ?thesis by (simp add: challenge_by_id_def set_challenge_def)
qed

lemma insert_challenge_Inr:
  assumes "insert_challenge r w = (Inr u, t)"
  shows "t = w\<lparr>user_challenges := user_challenges w @ [r]\<rparr>" and "challenge_by_id (ch_id r) t = Some r"
    and "j \<noteq> ch_id r \<Longrightarrow> challenge_by_id j t = challenge_by_id j w"
  using assms find_none_key [of "ch_id r" ch_id "user_challenges w"]
  by (auto simp: insert_challenge_def prog_inv challenge_violated_def challenge_by_id_def find_append
      split: if_splits option.splits)

text \<open>The first row with an id is the one that is counted.\<close>

lemma increment_run:
  assumes "challenge_by_id i w = Some r" and "counts_failures r"
  shows "incrementOtpFailedAttempts i w =
    (Inr (Some (Suc (ch_otp_failed_attempts r))), snd (incrementOtpFailedAttempts i w))"
    and "challenge_by_id i (snd (incrementOtpFailedAttempts i w)) =
      Some (r\<lparr>ch_otp_failed_attempts := Suc (ch_otp_failed_attempts r)\<rparr>)"
proof -
  have "find (\<lambda>r. ch_id r = i \<and> counts_failures r) rs = Some r"
    if "find (\<lambda>r. ch_id r = i) rs = Some r" for rs :: "challenge_row list" using that assms(2) by (induction rs) (auto split: if_splits)
  with assms(1) show "incrementOtpFailedAttempts i w =
      (Inr (Some (Suc (ch_otp_failed_attempts r))), snd (incrementOtpFailedAttempts i w))"
    by (simp add: incrementOtpFailedAttempts_def challenge_by_id_def)
  show "challenge_by_id i (snd (incrementOtpFailedAttempts i w)) =
      Some (r\<lparr>ch_otp_failed_attempts := Suc (ch_otp_failed_attempts r)\<rparr>)"
    using assms by (simp add: incrementOtpFailedAttempts_def challenge_by_id_set)
qed

lemma wrong_guess_run:
  assumes "challenge_by_id i w = Some r" and "counts_failures r"
  shows "\<exists>t. wrong_guess E i w =
      (Inr (Otp_refused (if resolveMfaOtpMaxAttempts E \<le> Suc (ch_otp_failed_attempts r)
         then Otp_max_attempts_exceeded else Otp_incorrect)), t)
    \<and> challenge_by_id i t =
        (if resolveMfaOtpMaxAttempts E \<le> Suc (ch_otp_failed_attempts r) then None
         else Some (r\<lparr>ch_otp_failed_attempts := Suc (ch_otp_failed_attempts r)\<rparr>))"
  using increment_run [OF assms]
  by (cases "incrementOtpFailedAttempts i w")
    (simp add: wrong_guess_def run_seq delete_challenge_def challenge_by_id_drop)

text \<open>A check of an unused, live row of the user: what it answers, and what is left of the row.\<close>

definition matches :: "cfg \<Rightarrow> challenge_row \<Rightarrow> string \<Rightarrow> bool" where
  "matches E r code \<longleftrightarrow> (\<exists>h. hashMfaOtp E (ch_id r) (js_trim code) = Inr h
     \<and> timingSafeEqualHex h (case ch_code_hash r of None \<Rightarrow> [] | Some h \<Rightarrow> h))"

definition judged :: "otp_result \<Rightarrow> bool" where
  "judged res \<longleftrightarrow> res \<in> {Otp_ok, Otp_refused Otp_incorrect, Otp_refused Otp_max_attempts_exceeded}"

definition may_guess :: "challenge_kind \<Rightarrow> string \<Rightarrow> string \<Rightarrow> challenge_row \<Rightarrow> bool" where
  "may_guess kind userId now r \<longleftrightarrow>
     ch_kind r = kind \<and> ch_user_id r = userId \<and> \<not> truthy (ch_consumed_at r) \<and> now < ch_expires_at r"

lemma challenge_by_id_id: "challenge_by_id i w = Some r \<Longrightarrow> ch_id r = i"
  by (auto simp: challenge_by_id_def dest: find_in_set)

lemma check_otp_Inr:
  assumes run: "check_otp E kind i userId code w = (Inr res, t)" and otp: "kind \<noteq> Password_reset"
  shows "judged res \<longleftrightarrow> (\<exists>r. challenge_by_id i w = Some r \<and> may_guess kind userId (toISOString (clock E (ticks w))) r)"
    and "judged res \<Longrightarrow> \<exists>r. challenge_by_id i w = Some r
      \<and> (res = Otp_ok \<longleftrightarrow> matches E r code)
      \<and> challenge_by_id i t =
          (if res = Otp_refused Otp_incorrect
           then Some (r\<lparr>ch_otp_failed_attempts := Suc (ch_otp_failed_attempts r)\<rparr>) else None)
      \<and> (res = Otp_refused Otp_incorrect \<longrightarrow> Suc (ch_otp_failed_attempts r) < resolveMfaOtpMaxAttempts E)"
proof -
  let ?now = "toISOString (clock E (ticks w))"
  have both: "(judged res \<longleftrightarrow> (\<exists>r. challenge_by_id i w = Some r \<and> may_guess kind userId ?now r))
    \<and> (judged res \<longrightarrow> (\<exists>r. challenge_by_id i w = Some r
      \<and> (res = Otp_ok \<longleftrightarrow> matches E r code)
      \<and> challenge_by_id i t =
          (if res = Otp_refused Otp_incorrect
           then Some (r\<lparr>ch_otp_failed_attempts := Suc (ch_otp_failed_attempts r)\<rparr>) else None)
      \<and> (res = Otp_refused Otp_incorrect \<longrightarrow> Suc (ch_otp_failed_attempts r) < resolveMfaOtpMaxAttempts E)))"
  proof (cases "challenge_by_id i w")
    case None
    with run show ?thesis by (auto simp: check_otp_def judged_def)
  next
    case (Some r)
    show ?thesis
    proof (cases "may_guess kind userId ?now r")
      case False
      with run Some show ?thesis
        by (auto simp: check_otp_def judged_def may_guess_def run_seq delete_challenge_def split: if_splits)
    next
      case True
      then have live: "ch_kind r = kind" "ch_user_id r = userId" "\<not> truthy (ch_consumed_at r)" "\<not> ch_expires_at r \<le> ?now"
        by (auto simp: may_guess_def)
      then have "counts_failures r" using otp by (cases kind) (auto simp: counts_failures_def)
      then obtain v where guess: "wrong_guess E i (w\<lparr>ticks := Suc (ticks w)\<rparr>) =
          (Inr (Otp_refused (if resolveMfaOtpMaxAttempts E \<le> Suc (ch_otp_failed_attempts r)
             then Otp_max_attempts_exceeded else Otp_incorrect)), v)"
        "challenge_by_id i v = (if resolveMfaOtpMaxAttempts E \<le> Suc (ch_otp_failed_attempts r) then None
           else Some (r\<lparr>ch_otp_failed_attempts := Suc (ch_otp_failed_attempts r)\<rparr>))"
        using wrong_guess_run [of i "w\<lparr>ticks := Suc (ticks w)\<rparr>" r E] Some by auto
      from run Some live obtain h where h: "hashMfaOtp E i (js_trim code) = Inr h"
        by (cases "hashMfaOtp E i (js_trim code)") (auto simp: check_otp_def run_seq outcome_def)
      with run Some live True guess challenge_by_id_id [OF Some] show ?thesis
        by (auto simp: check_otp_def run_seq outcome_def matches_def judged_def delete_challenge_def
            challenge_by_id_drop split: if_splits)
    qed
  qed
  then show "judged res \<longleftrightarrow> (\<exists>r. challenge_by_id i w = Some r \<and> may_guess kind userId ?now r)"
    and "judged res \<Longrightarrow> \<exists>r. challenge_by_id i w = Some r
      \<and> (res = Otp_ok \<longleftrightarrow> matches E r code)
      \<and> challenge_by_id i t =
          (if res = Otp_refused Otp_incorrect
           then Some (r\<lparr>ch_otp_failed_attempts := Suc (ch_otp_failed_attempts r)\<rparr>) else None)
      \<and> (res = Otp_refused Otp_incorrect \<longrightarrow> Suc (ch_otp_failed_attempts r) < resolveMfaOtpMaxAttempts E)"
    by blast+
qed


text \<open>Anything else that happens to a challenge: it may be deleted or counted on, but its count does not fall.\<close>

definition challenge_fades :: "string \<Rightarrow> world \<Rightarrow> world \<Rightarrow> bool" where
  "challenge_fades i s t \<longleftrightarrow>
     (\<forall>r'. challenge_by_id i t = Some r' \<longrightarrow>
        (\<exists>r. challenge_by_id i s = Some r \<and> ch_otp_failed_attempts r \<le> ch_otp_failed_attempts r'))"

text \<open>
  The guesses at one challenge, in any order and by anyone, with any other steps between them:
  \<open>guessing E i s n t\<close> when \<open>n\<close> codes have been compared with the stored digest on the way
  from \<open>s\<close> to \<open>t\<close>.
\<close>

inductive guessing :: "cfg \<Rightarrow> string \<Rightarrow> world \<Rightarrow> nat \<Rightarrow> world \<Rightarrow> bool" for E i s where
  start: "guessing E i s 0 s"
| sign_in: "guessing E i s n t \<Longrightarrow> verifyMfaOtpAndConsume E i userId code t = (Inr res, u) \<Longrightarrow>
    guessing E i s (if judged res then Suc n else n) u"
| e_mail: "guessing E i s n t \<Longrightarrow> verifyEmailVerificationOtpAndConsume E i userId code t = (Inr res, u) \<Longrightarrow>
    guessing E i s (if judged res then Suc n else n) u"
| other: "guessing E i s n t \<Longrightarrow> challenge_fades i t u \<Longrightarrow> guessing E i s n u"

lemma update_user_row_challenges:
  "update_user_row j p w = (x, t) \<Longrightarrow> user_challenges t = user_challenges w"
  by (auto simp: update_user_row_def guarded_def split: if_splits option.splits)

lemma markEmailVerified_challenges:
  "markEmailVerified E userId w = (x, t) \<Longrightarrow> user_challenges t = user_challenges w"
  by (cases "user_by_id userId w")
    (fastforce simp: markEmailVerified_def split: if_splits dest: update_user_row_challenges)+

lemma verify_email_check:
  assumes "verifyEmailVerificationOtpAndConsume E i userId code w = (Inr res, t)"
  shows "\<exists>u. check_otp E Email_verification i userId code w = (Inr res, u) \<and> challenge_by_id j t = challenge_by_id j u"
proof -
  from assms obtain v u where run: "check_otp E Email_verification i userId code w = (Inr v, u)"
    and after: "(if v = Otp_ok then seq (markEmailVerified E userId) (\<lambda>_. ret Otp_ok) else ret v) u = (Inr res, t)"
    unfolding verifyEmailVerificationOtpAndConsume_def seq_Inr by blast
  then have "v = res" by (auto simp: seq_Inr split: if_splits)
  moreover have "challenge_by_id j t = challenge_by_id j u"
    using after unfolding challenge_by_id_def
    by (auto simp: seq_Inr split: if_splits dest: markEmailVerified_challenges)
  ultimately show ?thesis using run by blast
qed

lemma check_otp_unjudged:
  assumes "check_otp E kind i userId code w = (Inr res, t)" and "\<not> judged res"
  shows "challenge_by_id i t = None \<or> challenge_by_id i t = challenge_by_id i w"
  using assms
  by (auto simp: check_otp_def wrong_guess_def judged_def prog_inv delete_challenge_def challenge_by_id_drop
      split: option.splits if_splits)

text \<open>The bound that every guess keeps.\<close>

lemma guess_step:
  assumes run: "check_otp E kind i userId code w = (Inr res, t)" and otp: "kind \<noteq> Password_reset"
    and bound: "a + n \<le> M" "\<And>r. challenge_by_id i w = Some r \<Longrightarrow> a + n < M \<and> a + n \<le> ch_otp_failed_attempts r"
    and max: "M = resolveMfaOtpMaxAttempts E" and n': "n' = (if judged res then Suc n else n)"
  shows "a + n' \<le> M \<and> (\<forall>r. challenge_by_id i t = Some r \<longrightarrow> a + n' < M \<and> a + n' \<le> ch_otp_failed_attempts r)"
proof (cases "judged res")
  case True
  with check_otp_Inr(2) [OF run otp] obtain r where r: "challenge_by_id i w = Some r"
    "challenge_by_id i t = (if res = Otp_refused Otp_incorrect
       then Some (r\<lparr>ch_otp_failed_attempts := Suc (ch_otp_failed_attempts r)\<rparr>) else None)"
    "res = Otp_refused Otp_incorrect \<longrightarrow> Suc (ch_otp_failed_attempts r) < M" unfolding max by blast
  from bound(2) [OF r(1)] r(2,3) True show ?thesis by (auto simp: n')
next
  case False
  with check_otp_unjudged [OF run] bound show ?thesis by (auto simp: n')
qed

lemma guesses_bounded:
  assumes "guessing E i s n t"
    and "challenge_by_id i s = Some r" "ch_otp_failed_attempts r < resolveMfaOtpMaxAttempts E"
  defines "a \<equiv> ch_otp_failed_attempts r" and "M \<equiv> resolveMfaOtpMaxAttempts E"
  shows "a + n \<le> M \<and> (\<forall>r'. challenge_by_id i t = Some r' \<longrightarrow> a + n < M \<and> a + n \<le> ch_otp_failed_attempts r')"
  using assms(1)
proof (induction rule: guessing.induct)
  case start
  show ?case using assms(2,3) by (simp add: a_def M_def)
next
  case (sign_in n t userId code res u)
  then show ?case unfolding verifyMfaOtpAndConsume_def by (intro guess_step) (auto simp: M_def)
next
  case (e_mail n t userId code res u)
  obtain v where "check_otp E Email_verification i userId code t = (Inr res, v)"
    "challenge_by_id i u = challenge_by_id i v"
    using verify_email_check [OF e_mail.hyps(2)] by blast
  with e_mail.IH guess_step [of E Email_verification i userId code t res v a n M]
  show ?case by (auto simp: M_def)
next
  case (other n t u)
  then show ?case by (fastforce simp: challenge_fades_def)
qed

text \<open>
  C16. A one-time code cannot be searched: however many guesses at it are sent, by whomever and in
  whatever order, and whatever else happens to the row short of lowering its count, at most as
  many of them as the configured limit leaves over are compared with the stored digest.
\<close>

theorem otp_guesses_bounded:
  assumes "guessing E i s n t" and "challenge_by_id i s = Some r"
    and "ch_otp_failed_attempts r < resolveMfaOtpMaxAttempts E"
  shows "n \<le> resolveMfaOtpMaxAttempts E - ch_otp_failed_attempts r
    \<and> (n = resolveMfaOtpMaxAttempts E - ch_otp_failed_attempts r \<longrightarrow> challenge_by_id i t = None)"
  using guesses_bounded [OF assms] by (cases "challenge_by_id i t") auto


text \<open>The text of a new code: six decimal digits, which no trimming changes.\<close>

definition digit_text :: "string \<Rightarrow> bool" where
  "digit_text s \<longleftrightarrow> length s = 6 \<and> list_all (\<lambda>c. CHR ''0'' \<le> c \<and> c \<le> CHR ''9'') s"

lemma shown_digit_range: "n < 10 \<Longrightarrow> CHR ''0'' \<le> digit n \<and> digit n \<le> CHR ''9''"
  by (auto simp: digit_def less_eq_char_def)

lemma show_decimal_digits:
  "10 ^ k \<le> n \<Longrightarrow> n < 10 ^ Suc k \<Longrightarrow>
     length (show_decimal n) = Suc k \<and> list_all (\<lambda>c. CHR ''0'' \<le> c \<and> c \<le> CHR ''9'') (show_decimal n)"
proof (induction k arbitrary: n)
  case 0
  then show ?case by (simp add: show_decimal.simps [of n] shown_digit_range)
next
  case (Suc k)
  have "10 ^ k \<le> n div 10" "n div 10 < 10 ^ Suc k" using Suc.prems by auto
  moreover have "(1 :: nat) \<le> 10 ^ k" by simp
  then have "\<not> n < 10" using Suc.prems(1) by (simp only: power_Suc)
  ultimately show ?case using Suc.IH [of "n div 10"] by (simp add: show_decimal.simps [of n] shown_digit_range)
qed

lemma code_digit_text: "digit_text (show_decimal (100000 + n mod 900000))"
proof -
  have "n mod 900000 < 900000" by simp
  then show ?thesis using show_decimal_digits [of 5 "100000 + n mod 900000"] by (simp add: digit_text_def)
qed

lemma digit_text_trim:
  assumes "digit_text code" and "list_all js_space ps" and "list_all js_space qs"
  shows "js_trim (ps @ code @ qs) = code"
proof -
  have free: "\<forall>c \<in> set code. \<not> js_space c"
    using assms(1) by (auto simp: digit_text_def list_all_iff js_space_def less_eq_char_def)
  have "code \<noteq> []" using assms(1) by (auto simp: digit_text_def)
  have stop: "dropWhile js_space (xs @ ys) = xs @ ys" if "\<forall>c \<in> set xs. \<not> js_space c" "xs \<noteq> []" for xs ys
    using that by (cases xs) auto
  have "dropWhile js_space (rev code) = rev code" using stop [of "rev code" "[]"] free \<open>code \<noteq> []\<close> by simp
  moreover have "dropWhile js_space (code @ qs) = code @ qs" by (rule stop [OF free \<open>code \<noteq> []\<close>])
  moreover have "dropWhile js_space (zs @ ys) = dropWhile js_space ys" if "list_all js_space zs" for zs ys
    using that by (induction zs) auto
  from this [OF assms(2)] this [of "rev qs" "rev code"] have "dropWhile js_space (ps @ code @ qs) = dropWhile js_space (code @ qs)"
    "dropWhile js_space (rev qs @ rev code) = dropWhile js_space (rev code)" using assms(3) by (simp_all add: list_all_iff)
  ultimately show ?thesis by (simp add: js_trim_def)
qed

text \<open>What creating a sign-in code leaves behind.\<close>

lemma new_code_challenge_Inr:
  assumes "new_code_challenge E kind ttl userId w = (Inr (i, code), t)"
  shows "\<exists>h. digit_text code \<and> hashMfaOtp E i code = Inr h
    \<and> challenge_by_id i t = Some (code_challenge_row kind i userId h (clock E (ticks w)) ttl)"
proof -
  from assms obtain h v where "digit_text code" "hashMfaOtp E i code = Inr h"
    "insert_challenge (code_challenge_row kind i userId h (clock E (ticks w)) ttl) v = (Inr (), t)"
    by (auto simp: new_code_challenge_def randomSixDigitCode_def prog_inv code_digit_text dest: sym)
  then show ?thesis using insert_challenge_Inr(2) [of "code_challenge_row kind i userId h (clock E (ticks w)) ttl" v "()" t]
    by (auto simp: code_challenge_row_def)
qed

lemma send_mail_Inr: "send_mail E n w = (Inr u, t) \<Longrightarrow> send_notice E n = None \<and> t = w"
  by (auto simp: send_mail_def split: option.splits)

lemma createMfaOtp_Inr:
  assumes "createMfaOtpAndSendEmail E user w = (Inr i, t)"
  shows "\<exists>code h. digit_text code \<and> hashMfaOtp E i code = Inr h
    \<and> challenge_by_id i t = Some (code_challenge_row Mfa_otp i (us_id user) h (clock E (ticks w)) MFA_OTP_TTL_MS)
    \<and> (\<exists>to title from_addr. nonblank (us_email user) = Some to
         \<and> send_notice E (CodeNotice Mfa_otp to title from_addr code) = None)"
proof -
  from assms obtain to code title from_addr v where "nonblank (us_email user) = Some to"
      and made: "new_code_challenge E Mfa_otp MFA_OTP_TTL_MS (us_id user) w = (Inr (i, code), v)"
      and mail: "send_mail E (CodeNotice Mfa_otp to title from_addr code) v = (Inr (), t)"
    unfolding createMfaOtpAndSendEmail_def by (auto simp: prog_inv)
  with new_code_challenge_Inr [OF made] send_mail_Inr [OF mail] show ?thesis by blast
qed

lemma check_otp_total:
  assumes "getAuthSecret E = Inr k"
  shows "\<exists>res v. check_otp E kind i who guess u = (Inr res, v)"
  using assms
  by (auto simp: check_otp_def wrong_guess_def incrementOtpFailedAttempts_def delete_challenge_def hashMfaOtp_def
      run_seq outcome_def split: option.split)

lemma matches_code:
  assumes "hashMfaOtp E i code = Inr h" and "ch_id r = i" and "ch_code_hash r = Some h"
  shows "matches E r guess \<longleftrightarrow> hashMfaOtp E i (js_trim guess) = hashMfaOtp E i code"
  using assms by (auto simp: matches_def hashMfaOtp_def timingSafeEqualHex_bytes split: sum.splits)

text \<open>
  C26. The code that was mailed signs its user in, once. It is six digits, and until ten minutes
  after the moment it was made it is accepted from its user, with any white space around it, and
  the challenge is then gone; a check succeeds for nobody else, not later, and with no text whose
  digest differs from that of the code. This holds in every state in which the challenge is as it
  was made. The hypothesis is only that creating and mailing the code succeeded.
\<close>

theorem mfa_code_roundtrip:
  assumes "createMfaOtpAndSendEmail E user w = (Inr i, t)"
  shows "\<exists>code. digit_text code
    \<and> (\<exists>to title from_addr. nonblank (us_email user) = Some to
         \<and> send_notice E (CodeNotice Mfa_otp to title from_addr code) = None)
    \<and> (\<forall>u. challenge_by_id i u = challenge_by_id i t \<longrightarrow>
        (\<forall>ps qs. list_all js_space ps \<and> list_all js_space qs
            \<and> toISOString (clock E (ticks u)) < toISOString (clock E (ticks w) + 600000) \<longrightarrow>
          (\<exists>v. verifyMfaOtpAndConsume E i (us_id user) (ps @ code @ qs) u = (Inr Otp_ok, v)
            \<and> challenge_by_id i v = None))
      \<and> (\<forall>who guess v. verifyMfaOtpAndConsume E i who guess u = (Inr Otp_ok, v) \<longrightarrow>
          who = us_id user \<and> toISOString (clock E (ticks u)) < toISOString (clock E (ticks w) + 600000)
          \<and> hashMfaOtp E i (js_trim guess) = hashMfaOtp E i code))"
proof -
  obtain code h where h: "digit_text code" "hashMfaOtp E i code = Inr h"
    and r: "challenge_by_id i t = Some (code_challenge_row Mfa_otp i (us_id user) h (clock E (ticks w)) MFA_OTP_TTL_MS)"
      (is "_ = Some ?r")
    and sent: "\<exists>to title from_addr. nonblank (us_email user) = Some to
      \<and> send_notice E (CodeNotice Mfa_otp to title from_addr code) = None"
    using createMfaOtp_Inr [OF assms] by blast
  have row: "ch_id ?r = i" "ch_code_hash ?r = Some h" "ch_kind ?r = Mfa_otp" "ch_user_id ?r = us_id user"
    "ch_consumed_at ?r = None" "ch_expires_at ?r = toISOString (clock E (ticks w) + 600000)"
    by (simp_all add: code_challenge_row_def MFA_OTP_TTL_MS_def)
  obtain k where secret: "getAuthSecret E = Inr k" using h(2) by (auto simp: hashMfaOtp_def split: sum.splits)
  have check: "\<exists>res v. check_otp E Mfa_otp i who guess u = (Inr res, v)
      \<and> (res = Otp_ok \<longleftrightarrow> who = us_id user \<and> toISOString (clock E (ticks u)) < toISOString (clock E (ticks w) + 600000)
          \<and> hashMfaOtp E i (js_trim guess) = hashMfaOtp E i code)
      \<and> (res = Otp_ok \<longrightarrow> challenge_by_id i v = None)"
    if "challenge_by_id i u = challenge_by_id i t" for guess who u
  proof -
    have found: "challenge_by_id i u = Some ?r" using that r by simp
    obtain res v where run: "check_otp E Mfa_otp i who guess u = (Inr res, v)"
      using check_otp_total [OF secret] by blast
    note judge = check_otp_Inr [OF run, simplified found]
    have "res = Otp_ok \<longleftrightarrow> judged res \<and> matches E ?r guess"
      using judge(2) by (auto simp: judged_def)
    moreover have "judged res \<longleftrightarrow> who = us_id user \<and> toISOString (clock E (ticks u)) < ch_expires_at ?r"
      using judge(1) by (auto simp: may_guess_def row truthy_def)
    ultimately show ?thesis
      using run judge(2) matches_code [OF h(2) row(1,2)] row(6) by (auto simp: judged_def)
  qed
  have "\<exists>v. check_otp E Mfa_otp i (us_id user) (ps @ code @ qs) u = (Inr Otp_ok, v) \<and> challenge_by_id i v = None"
    if "challenge_by_id i u = challenge_by_id i t" "list_all js_space ps" "list_all js_space qs"
      "toISOString (clock E (ticks u)) < toISOString (clock E (ticks w) + 600000)" for ps qs u
    using check [OF that(1), of "us_id user" "ps @ code @ qs"] that(4) digit_text_trim [OF h(1) that(2,3)] by auto
  moreover have "who = us_id user \<and> toISOString (clock E (ticks u)) < toISOString (clock E (ticks w) + 600000)
      \<and> hashMfaOtp E i (js_trim guess) = hashMfaOtp E i code"
    if "challenge_by_id i u = challenge_by_id i t" "check_otp E Mfa_otp i who guess u = (Inr Otp_ok, v)" for who guess u v
    using check [OF that(1), of who guess] that(2) by auto
  ultimately show ?thesis using h sent unfolding verifyMfaOtpAndConsume_def by blast
qed

end
