(* ===== verification/PasswordReset.thy ===== *)
theory PasswordReset
  imports Challenges Introspect
begin

text \<open>
  Resetting a password by a mailed link: the signed token of \<open>auth/password-reset-jwt.ts\<close> and
  the methods of \<open>user-challenge.service.ts\<close> that request, complete and cancel a reset. The
  token names a challenge row; the link is dead when the row is consumed or gone.
\<close>

section \<open>The token\<close>

definition PASSWORD_RESET_JWT_PURPOSE :: string where "PASSWORD_RESET_JWT_PURPOSE = ''password_reset''"
definition PASSWORD_RESET_JWT_TTL_SECONDS :: nat where "PASSWORD_RESET_JWT_TTL_SECONDS = 3600"

definition reset_kid :: "cfg \<Rightarrow> string m" where
  "reset_kid E =
     (let envKid = env_or E ''JWT_KID'';
          key = (case ctx_env E ''JWKS_R2_KEY'' of Some k \<Rightarrow> k | None \<Rightarrow> ''jwks.json'');
          answer = (case auth_assets E of None \<Rightarrow> R2_missing | Some get \<Rightarrow> get key);
          fallback = (case envKid of Some e \<Rightarrow> e | None \<Rightarrow> ''default'')
      in case answer of
           R2_jwks ks \<Rightarrow>
             ret (case ks of
                    k # _ \<Rightarrow> (case jwk_kid k of Some kid \<Rightarrow> kid | None \<Rightarrow> fallback)
                  | [] \<Rightarrow> fallback)
         | R2_not_json \<Rightarrow> throw (JsError ''Unexpected token in JSON'')
         | R2_missing \<Rightarrow> need_text envKid
             (JsError ''JWKS not available: set JWT_KID or publish JWKS to R2 for password reset signing.''))"

definition reset_claims :: "cfg \<Rightarrow> string \<Rightarrow> string \<Rightarrow> nat \<Rightarrow> nat \<Rightarrow> claims" where
  "reset_claims E challengeId userId now expiresAt =
     [''purpose'' \<mapsto> JString PASSWORD_RESET_JWT_PURPOSE, ''iss'' \<mapsto> JString (resolveIssuerBaseUrl E),
      ''sub'' \<mapsto> JString userId, ''jti'' \<mapsto> JString challengeId,
      ''iat'' \<mapsto> JInt (int (now div 1000)), ''exp'' \<mapsto> JInt (int (expiresAt div 1000))]"

definition signPasswordResetJwt :: "cfg \<Rightarrow> string \<Rightarrow> string \<Rightarrow> nat \<Rightarrow> string m" where
  "signPasswordResetJwt E challengeId userId expiresAt =
     seq (need_text (env_or E ''JWT_PRIVATE_KEY'') (JsError ''JWT_PRIVATE_KEY is not configured.'')) (\<lambda>privateKeyPem.
     seq (reset_kid E) (\<lambda>kid.
     seq (need (import_pkcs8 E privateKeyPem) (JsError ''importPKCS8'')) (\<lambda>privateKey.
     seq (now_ms E) (\<lambda>now.
     ret (sign_jwt E privateKey \<lparr>hd_alg = ''RS256'', hd_kid = kid, hd_typ = None\<rparr>
            (reset_claims E challengeId userId now expiresAt))))))"

definition string_claim :: "claims \<Rightarrow> string \<Rightarrow> string" where
  "string_claim payload k = (case payload k of Some (JString s) \<Rightarrow> s | _ \<Rightarrow> [])"

definition verifyPasswordResetJwt :: "cfg \<Rightarrow> string \<Rightarrow> (string \<times> string) m" where
  "verifyPasswordResetJwt E token =
     seq (published_keys E) (\<lambda>jwks.
     seq (throw_when (jwks = []) (JsError ''JWKS not available for password reset verification.'')) (\<lambda>_.
     seq (now_ms E) (\<lambda>now.
     seq (need (jwt_verify_issued E now (resolveIssuerBaseUrl E) [''RS256''] jwks token) (JsError ''JWT verification failed'')) (\<lambda>payload.
     seq (throw_when (payload ''purpose'' \<noteq> Some (JString PASSWORD_RESET_JWT_PURPOSE)) (JsError ''Invalid token purpose.'')) (\<lambda>_.
     let challengeId = string_claim payload ''jti''; userId = string_claim payload ''sub''
     in if challengeId = [] \<or> userId = [] then throw (JsError ''Invalid token claims.'')
        else ret (challengeId, userId))))))"

section \<open>Requesting a reset\<close>

definition reset_challenge_row :: "string \<Rightarrow> string \<Rightarrow> nat \<Rightarrow> challenge_row" where
  "reset_challenge_row i userId now =
     \<lparr>ch_id = i, ch_user_id = userId, ch_kind = Password_reset, ch_code_hash = None,
      ch_expires_at = toISOString (now + PASSWORD_RESET_JWT_TTL_SECONDS * 1000),
      ch_created_at = toISOString now, ch_consumed_at = None, ch_otp_failed_attempts = 0\<rparr>"

definition reset_url :: "cfg \<Rightarrow> string \<Rightarrow> string \<Rightarrow> string" where
  "reset_url E path token = resolveIssuerBaseUrl E @ path @ ''?token='' @ uri_component E token"

text \<open>Store the challenge, sign its token, mail the two links.\<close>

definition send_reset :: "cfg \<Rightarrow> site_settings_row option \<Rightarrow> string \<Rightarrow> string \<Rightarrow> string \<Rightarrow> unit m" where
  "send_reset E site siteUrl userId to =
     seq (deleteByUserIdAndKind userId Password_reset) (\<lambda>_.
     seq (randomUUID E) (\<lambda>challengeId.
     seq (now_ms E) (\<lambda>now.
     seq (insert_challenge (reset_challenge_row challengeId userId now)) (\<lambda>_.
     seq (signPasswordResetJwt E challengeId userId (now + PASSWORD_RESET_JWT_TTL_SECONDS * 1000)) (\<lambda>token.
     seq (outcome (fromAddress E (http_url siteUrl))) (\<lambda>from_addr.
     send_mail E (ResetNotice to (title_or site ''Password reset'') from_addr
       (reset_url E ''/reset-password'' token) (reset_url E ''/reset-password/cancel'' token))))))))"

definition requestPasswordReset :: "cfg \<Rightarrow> string \<Rightarrow> unit m" where
  "requestPasswordReset E emailRaw =
     (let email = js_lower (js_trim emailRaw)
      in if email = [] then ret ()
         else seq (reads (findByEmail email)) (\<lambda>found.
           case found of
             None \<Rightarrow> ret ()
           | Some user \<Rightarrow>
             (case nonblank (us_email user) of
                None \<Rightarrow> ret ()
              | Some to \<Rightarrow>
                if us_is_test_user user then ret ()
                else seq (reads site_settings) (\<lambda>site.
                  case nonblank (Option.bind site st_site_url) of
                    None \<Rightarrow> ret ()
                  | Some siteUrl \<Rightarrow>
                    if getResendApiKey E = None then ret ()
                    else send_reset E site siteUrl (us_id user) to))))"

definition sendExpiredPasswordReset :: "cfg \<Rightarrow> user_row \<Rightarrow> bool m" where
  "sendExpiredPasswordReset E user =
     seq (reads site_settings) (\<lambda>site.
     case nonblank (us_email user) of
       None \<Rightarrow> ret False
     | Some to \<Rightarrow>
       if nonblank (Option.bind site st_site_url) = None \<or> getResendApiKey E = None then ret False
       else seq (requestPasswordReset E to) (\<lambda>_. ret True))"

section \<open>Completing and cancelling\<close>

text \<open>The link is verified and its row read and checked; then the password is set, the row consumed and an audit entry written.\<close>

definition check_reset_link :: "cfg \<Rightarrow> string \<Rightarrow> (string \<times> string) m" where
  "check_reset_link E token =
     seq (verifyPasswordResetJwt E token) (\<lambda>(challengeId, userId).
     seq (reads (challenge_by_id challengeId)) (\<lambda>found.
     seq (need found (JsError ''Invalid or expired reset link.'')) (\<lambda>row.
     seq (throw_when (ch_kind row \<noteq> Password_reset \<or> ch_user_id row \<noteq> userId)
           (JsError ''Invalid or expired reset link.'')) (\<lambda>_.
     seq (throw_when (truthy (ch_consumed_at row)) (JsError ''This reset link has already been used.'')) (\<lambda>_.
     seq (now_iso E) (\<lambda>now.
     seq (throw_when (ch_expires_at row \<le> now) (JsError ''This reset link has expired.'')) (\<lambda>_.
     ret (challengeId, userId))))))))"

definition set_new_password :: "cfg \<Rightarrow> string \<Rightarrow> string \<Rightarrow> unit m" where
  "set_new_password E userId newPassword =
     seq (hash_policy E) (\<lambda>meth.
     seq (hashPassword E meth newPassword) (\<lambda>hashed.
     seq (now_iso E) (\<lambda>changed.
     update_user_row userId
       (no_patch\<lparr>up_passwordHash := Some hashed, up_passwordUpdatedAt := Some (Some changed)\<rparr>))))"

definition completePasswordReset :: "cfg \<Rightarrow> string \<Rightarrow> string \<Rightarrow> unit m" where
  "completePasswordReset E token newPassword =
     seq (check_reset_link E token) (\<lambda>(challengeId, userId).
     seq (set_new_password E userId newPassword) (\<lambda>_.
     seq (now_iso E) (\<lambda>consumed.
     seq (markConsumed challengeId consumed) (\<lambda>_.
     logAction E (Some userId) (audit_action_name UserPasswordReset) (audit_resource_name UserResource) (Some userId)
       [(''challengeId'', DText challengeId)]))))"

definition cancelPasswordReset :: "cfg \<Rightarrow> string \<Rightarrow> unit m" where
  "cancelPasswordReset E token =
     seq (verifyPasswordResetJwt E token) (\<lambda>(challengeId, userId).
     seq (reads (challenge_by_id challengeId)) (\<lambda>found.
     case found of
       None \<Rightarrow> ret ()
     | Some row \<Rightarrow>
       if ch_kind row \<noteq> Password_reset \<or> ch_user_id row \<noteq> userId
       then throw (JsError ''Invalid or expired reset link.'')
       else if truthy (ch_consumed_at row) then throw (JsError ''This reset link is no longer valid.'')
       else delete_challenge challengeId))"


section \<open>Facts\<close>

text \<open>What a token says, whenever it is accepted.\<close>

definition reset_token_for :: "cfg \<Rightarrow> string \<Rightarrow> string \<Rightarrow> string \<Rightarrow> bool" where
  "reset_token_for E token i userId \<longleftrightarrow>
     (\<forall>now keys payload. jwt_verify_issued E now (resolveIssuerBaseUrl E) [''RS256''] keys token = Some payload \<longrightarrow>
        string_claim payload ''jti'' = i \<and> string_claim payload ''sub'' = userId)"

text \<open>Checking a token changes the clock only.\<close>

definition only_clock :: "world \<Rightarrow> world \<Rightarrow> bool" where
  "only_clock s t \<longleftrightarrow> (\<exists>n. t = s\<lparr>ticks := n\<rparr>)"

lemma only_clock_self [simp]: "only_clock w w"
  by (auto simp: only_clock_def intro: exI [of _ "ticks w"])

interpretation clock_only: evolution only_clock
  by unfold_locales (auto simp: only_clock_def)

lemma clock_only_steps: "evolves only_clock (now_ms E)" "evolves only_clock (now_iso E)"
  by (rule evolves_clock; auto simp: only_clock_def)+

lemma published_keys_clock: "evolves only_clock (published_keys E)"
  by (rule evolvesI) (auto dest: published_keys_state)

lemma verify_reset_clock: "evolves only_clock (verifyPasswordResetJwt E token)"
  unfolding verifyPasswordResetJwt_def Let_def
  by (intro clock_only.rules published_keys_clock clock_only_steps)

lemma verify_reset_Inr:
  assumes "verifyPasswordResetJwt E token w = (Inr (i, u), t)"
  shows "i \<noteq> []" "u \<noteq> []" "t = w\<lparr>ticks := Suc (ticks w)\<rparr>"
    "\<exists>keys payload. published_keys E w = (Inr keys, w) \<and> keys \<noteq> []
       \<and> jwt_verify_issued E (clock E (ticks w)) (resolveIssuerBaseUrl E) [''RS256''] keys token = Some payload
       \<and> payload ''purpose'' = Some (JString PASSWORD_RESET_JWT_PURPOSE)
       \<and> string_claim payload ''jti'' = i \<and> string_claim payload ''sub'' = u"
proof -
  from assms obtain keys v payload where keys: "published_keys E w = (Inr keys, v)" "keys \<noteq> []"
    and ok: "jwt_verify_issued E (clock E (ticks v)) (resolveIssuerBaseUrl E) [''RS256''] keys token = Some payload"
      "payload ''purpose'' = Some (JString PASSWORD_RESET_JWT_PURPOSE)" "string_claim payload ''jti'' = i" "string_claim payload ''sub'' = u"
    and parts: "i \<noteq> []" "u \<noteq> []" "t = v\<lparr>ticks := Suc (ticks v)\<rparr>"
    by (auto simp: verifyPasswordResetJwt_def Let_def prog_inv split: if_splits)
  have v: "v = w" using published_keys_state [OF keys(1)] .
  show "i \<noteq> []" "u \<noteq> []" "t = w\<lparr>ticks := Suc (ticks w)\<rparr>"
    "\<exists>keys payload. published_keys E w = (Inr keys, w) \<and> keys \<noteq> []
       \<and> jwt_verify_issued E (clock E (ticks w)) (resolveIssuerBaseUrl E) [''RS256''] keys token = Some payload
       \<and> payload ''purpose'' = Some (JString PASSWORD_RESET_JWT_PURPOSE)
       \<and> string_claim payload ''jti'' = i \<and> string_claim payload ''sub'' = u"
    using keys ok parts unfolding v by blast+
qed

lemma verify_reset_names:
  assumes "reset_token_for E token i u" and "verifyPasswordResetJwt E token w = (Inr (j, v), t)"
  shows "j = i \<and> v = u"
  using assms(1) verify_reset_Inr(4) [OF assms(2)] unfolding reset_token_for_def by blast

lemma hash_policy_state: "hash_policy E w = (r, t) \<Longrightarrow> t = w"
  by (auto simp: hash_policy_def split: sum.splits)

text \<open>The row a live link stands for.\<close>

definition live_link :: "string \<Rightarrow> string \<Rightarrow> world \<Rightarrow> bool" where
  "live_link i userId w \<longleftrightarrow>
     (\<exists>r. challenge_by_id i w = Some r \<and> ch_kind r = Password_reset \<and> ch_user_id r = userId \<and> \<not> truthy (ch_consumed_at r))"

lemma live_link_ticks [simp]: "live_link i u (w\<lparr>ticks := n\<rparr>) = live_link i u w"
  by (simp add: live_link_def)

lemma check_reset_link_Inr:
  assumes "check_reset_link E token w = (Inr (i, userId), t)"
  shows "t = w\<lparr>ticks := Suc (Suc (ticks w))\<rparr>"
    and "\<exists>v r. verifyPasswordResetJwt E token w = (Inr (i, userId), v)
      \<and> challenge_by_id i w = Some r \<and> live_link i userId w \<and> toISOString (clock E (Suc (ticks w))) < ch_expires_at r"
proof -
  from assms obtain v where v: "verifyPasswordResetJwt E token w = (Inr (i, userId), v)"
    and rest: "\<exists>r. challenge_by_id i v = Some r \<and> ch_kind r = Password_reset \<and> ch_user_id r = userId
      \<and> \<not> truthy (ch_consumed_at r) \<and> toISOString (clock E (ticks v)) < ch_expires_at r \<and> t = v\<lparr>ticks := Suc (ticks v)\<rparr>"
    by (auto simp: check_reset_link_def prog_inv not_le split: if_splits)
  note at = verify_reset_Inr(3) [OF v]
  from rest show "t = w\<lparr>ticks := Suc (Suc (ticks w))\<rparr>" by (auto simp: at)
  from v rest show "\<exists>v r. verifyPasswordResetJwt E token w = (Inr (i, userId), v)
      \<and> challenge_by_id i w = Some r \<and> live_link i userId w \<and> toISOString (clock E (Suc (ticks w))) < ch_expires_at r"
    by (auto simp: at live_link_def)
qed

lemma check_dead_link:
  assumes "reset_token_for E token i userId" and "\<not> live_link i userId w"
  shows "\<exists>e t. check_reset_link E token w = (Inl e, t) \<and> only_clock w t"
proof -
  have "evolves only_clock (check_reset_link E token)"
    unfolding check_reset_link_def prod.case_eq_if
    by (intro clock_only.rules verify_reset_clock clock_only_steps)
  then show ?thesis
  proof (cases "check_reset_link E token w")
    case (Pair x t)
    show ?thesis
    proof (cases x)
      case (Inr p)
      then obtain j who where "p = (j, who)" by (cases p)
      with Pair Inr check_reset_link_Inr [of E token w j who t] verify_reset_names [OF assms(1)] assms(2)
      show ?thesis by blast
    qed (use Pair \<open>evolves only_clock (check_reset_link E token)\<close> in \<open>auto dest: evolvesD\<close>)
  qed
qed

lemma dead_link_refused:
  assumes "reset_token_for E token i userId" and "\<not> live_link i userId w"
  shows "\<exists>e t. completePasswordReset E token pw w = (Inl e, t) \<and> only_clock w t"
  using check_dead_link [OF assms] by (auto simp: completePasswordReset_def run_seq)

lemma set_new_password_Inr:
  assumes "set_new_password E userId pw w = (Inr z, t)"
  shows "\<exists>meth h. resolveHashMethod E = Inr meth \<and> (\<forall>u. hashPassword E meth pw u = (Inr h, u))
    \<and> t = w\<lparr>ticks := Suc (ticks w), users := List.map (\<lambda>u. if us_id u = userId
         then u\<lparr>us_password_hash := h, us_password_updated_at := Some (toISOString (clock E (ticks w)))\<rparr> else u) (users w)\<rparr>"
proof -
  let ?p = "\<lambda>h now. no_patch\<lparr>up_passwordHash := Some h, up_passwordUpdatedAt := Some (Some now)\<rparr>"
  have patch: "patch_user (?p h now) u = u\<lparr>us_password_hash := h, us_password_updated_at := Some now\<rparr>" for h now u
    by (simp add: patch_user_def no_patch_def)
  have touched: "?p h now \<noteq> no_patch" for h now by (simp add: no_patch_def)
  from assms obtain meth h v where meth: "resolveHashMethod E = Inr meth" and hv: "hashPassword E meth pw w = (Inr h, v)"
    and upv: "update_user_row userId (?p h (toISOString (clock E (ticks v)))) (v\<lparr>ticks := Suc (ticks v)\<rparr>) = (Inr z, t)"
    by (auto simp: set_new_password_def prog_inv hash_policy_def split: sum.splits)
  from hashPassword_pure [OF hv] hv upv have h: "hashPassword E meth pw w = (Inr h, w)"
    and up: "update_user_row userId (?p h (toISOString (clock E (ticks w)))) (w\<lparr>ticks := Suc (ticks w)\<rparr>) = (Inr z, t)"
    by simp_all
  have "hashPassword E meth pw u = (Inr h, u)" for u
    using h by (auto simp: hashPassword_def hashPasswordArgon2ViaService_def split: hash_method.splits option.splits if_splits)
  with meth up touched show ?thesis
    by (auto simp: update_user_row_def prog_inv patch cong: if_cong)
qed

lemma toISOString_nonempty: "toISOString n \<noteq> []"
  by (simp add: toISOString_def Let_def split: prod.split)

text \<open>The effect of a completed reset on the tables; the clock was read twice for the checks before.\<close>

definition reset_effect :: "cfg \<Rightarrow> string \<Rightarrow> string \<Rightarrow> string \<Rightarrow> world \<Rightarrow> world \<Rightarrow> bool" where
  "reset_effect E i userId h w t \<longleftrightarrow>
     (let changed = toISOString (clock E (ticks w + 2)); consumed = toISOString (clock E (ticks w + 3))
      in \<exists>n d entry. al_action entry = ''user.password_reset'' \<and> al_actor_user_id entry = Some userId
       \<and> t = (set_challenge i (\<lambda>r. r\<lparr>ch_consumed_at := Some consumed\<rparr>) w)
           \<lparr>users := List.map (\<lambda>u. if us_id u = userId
              then u\<lparr>us_password_hash := h, us_password_updated_at := Some changed\<rparr> else u) (users w),
            admin_audit_log := admin_audit_log w @ [entry], ticks := n, draws := d\<rparr>)"

lemma completePasswordReset_Inr:
  assumes "completePasswordReset E token pw w = (Inr z, t)"
  shows "\<exists>i userId meth h v. check_reset_link E token w = (Inr (i, userId), v)
    \<and> resolveHashMethod E = Inr meth \<and> (\<forall>u. hashPassword E meth pw u = (Inr h, u)) \<and> reset_effect E i userId h w t"
proof -
  from assms obtain i userId v a where link: "check_reset_link E token w = (Inr (i, userId), v)"
    and set_pw: "set_new_password E userId pw v = (Inr (), a)"
    and logged: "logAction E (Some userId) ''user.password_reset'' ''user'' (Some userId) [(''challengeId'', DText i)]
      (set_challenge i (\<lambda>r. r\<lparr>ch_consumed_at := Some (toISOString (clock E (ticks a)))\<rparr>) (a\<lparr>ticks := Suc (ticks a)\<rparr>)) = (Inr z, t)"
    by (auto simp: completePasswordReset_def prog_inv markConsumed_def)
  note v = check_reset_link_Inr(1) [OF link]
  from set_new_password_Inr [OF set_pw] obtain meth h where pw: "resolveHashMethod E = Inr meth"
    "\<forall>u. hashPassword E meth pw u = (Inr h, u)"
    and a: "a = v\<lparr>ticks := Suc (ticks v), users := List.map (\<lambda>u. if us_id u = userId
         then u\<lparr>us_password_hash := h, us_password_updated_at := Some (toISOString (clock E (ticks v)))\<rparr> else u) (users v)\<rparr>" by blast
  have "reset_effect E i userId h w t"
    unfolding reset_effect_def Let_def using logAction_Inr [OF logged]
    by (intro exI [of _ "ticks t"] exI [of _ "draws t"] exI [of _ "last (admin_audit_log t)"] conjI)
      (simp_all add: a v set_challenge_def eval_nat_numeral cong: if_cong)
  with link pw show ?thesis by blast
qed

definition same_challenges :: "world \<Rightarrow> world \<Rightarrow> bool" where
  "same_challenges s t \<longleftrightarrow> user_challenges t = user_challenges s"

interpretation challenge_frame: evolution same_challenges
  by unfold_locales (auto simp: same_challenges_def)

lemma challenge_frame_steps:
  "evolves same_challenges (now_ms E)" "evolves same_challenges (reset_kid E)" "evolves same_challenges (send_mail E n)"
  unfolding reset_kid_def send_mail_def Let_def
  by (auto simp: evolves_def same_challenges_def need_text_def split: r2_answer.split option.split)

lemma signing_keeps_challenges: "evolves same_challenges (signPasswordResetJwt E i u e)"
  unfolding signPasswordResetJwt_def by (intro challenge_frame.rules challenge_frame_steps)

text \<open>After a new link was issued, at most the new row is a pending reset of the user.\<close>

lemma send_reset_rows:
  assumes "send_reset E site siteUrl userId to w = (x, t)"
  shows "\<exists>n. user_challenges t = filter (\<lambda>r. \<not> (ch_user_id r = userId \<and> ch_kind r = Password_reset)) (user_challenges w)
    \<or> user_challenges t = filter (\<lambda>r. \<not> (ch_user_id r = userId \<and> ch_kind r = Password_reset)) (user_challenges w)
        @ [reset_challenge_row (uuid E (draws w)) userId n]"
proof -
  let ?n = "clock E (ticks w)" and ?i = "uuid E (draws w)"
  let ?rest = "seq (signPasswordResetJwt E ?i userId (?n + PASSWORD_RESET_JWT_TTL_SECONDS * 1000)) (\<lambda>token.
     seq (outcome (fromAddress E (http_url siteUrl))) (\<lambda>from_addr.
     send_mail E (ResetNotice to (title_or site ''Password reset'') from_addr
       (reset_url E ''/reset-password'' token) (reset_url E ''/reset-password/cancel'' token))))"
  define v where "v = (drop_challenges (\<lambda>r. ch_user_id r = userId \<and> ch_kind r = Password_reset) w)
    \<lparr>draws := Suc (draws w), ticks := Suc (ticks w)\<rparr>"
  have run: "seq (insert_challenge (reset_challenge_row ?i userId ?n)) (\<lambda>_. ?rest) v = (x, t)"
    using assms by (simp add: send_reset_def deleteByUserIdAndKind_def v_def drop_challenges_def)
  have "evolves same_challenges ?rest"
    by (intro challenge_frame.rules signing_keeps_challenges challenge_frame_steps)
  then have keep: "?rest s = (x, t) \<Longrightarrow> user_challenges t = user_challenges s" for s
    by (auto dest: evolvesD simp: same_challenges_def)
  let ?row = "reset_challenge_row ?i userId ?n"
  have "user_challenges t = user_challenges v \<or> user_challenges t = user_challenges v @ [?row]"
  proof (cases "challenge_violated ?row v")
    case None
    with run have "?rest (v\<lparr>user_challenges := user_challenges v @ [?row]\<rparr>) = (x, t)"
      by (simp add: run_seq insert_challenge_def guarded_def)
    from keep [OF this] show ?thesis by simp
  next
    case (Some c)
    with run have "t = v" by (simp add: run_seq insert_challenge_def guarded_def)
    then show ?thesis by simp
  qed
  then show ?thesis by (auto simp: v_def drop_challenges_def)
qed

text \<open>
  C6. A completed reset was asked for by a token that verifies at the time of the request, under
  the keys published then and the issuer, with RS256 only and the purpose of a reset; the row it
  names was a reset of that very user, pending and not expired at the next reading of the clock.
  The user's password is then the hash of the new one, stamped with the time of the change, the
  row is consumed, one audit entry is added, and no other row of any table has changed.
\<close>

theorem password_reset_sound:
  assumes "completePasswordReset E token newPassword w = (Inr (), t)"
  shows "\<exists>i userId r meth h keys payload.
      published_keys E w = (Inr keys, w) \<and> keys \<noteq> []
    \<and> jwt_verify_issued E (clock E (ticks w)) (resolveIssuerBaseUrl E) [''RS256''] keys token = Some payload
    \<and> payload ''purpose'' = Some (JString ''password_reset'')
    \<and> payload ''jti'' = Some (JString i) \<and> payload ''sub'' = Some (JString userId)
    \<and> challenge_by_id i w = Some r \<and> ch_kind r = Password_reset \<and> ch_user_id r = userId
    \<and> \<not> truthy (ch_consumed_at r) \<and> toISOString (clock E (Suc (ticks w))) < ch_expires_at r
    \<and> resolveHashMethod E = Inr meth \<and> (\<forall>u. hashPassword E meth newPassword u = (Inr h, u))
    \<and> reset_effect E i userId h w t"
proof -
  obtain i userId meth h v where link: "check_reset_link E token w = (Inr (i, userId), v)"
    and rest: "resolveHashMethod E = Inr meth" "\<forall>u. hashPassword E meth newPassword u = (Inr h, u)"
      "reset_effect E i userId h w t"
    using completePasswordReset_Inr [OF assms] by blast
  obtain u r where tok: "verifyPasswordResetJwt E token w = (Inr (i, userId), u)"
    and r: "challenge_by_id i w = Some r" "live_link i userId w" and live: "toISOString (clock E (Suc (ticks w))) < ch_expires_at r"
    using check_reset_link_Inr(2) [OF link] by blast
  from r have row: "ch_kind r = Password_reset \<and> ch_user_id r = userId \<and> \<not> truthy (ch_consumed_at r)"
    by (simp add: live_link_def)
  have claim: "payload k = Some (JString c)" if "string_claim payload k = c" "c \<noteq> []" for payload k c
    using that by (auto simp: string_claim_def split: option.splits json.splits)
  from verify_reset_Inr [OF tok] obtain keys payload where "published_keys E w = (Inr keys, w)" "keys \<noteq> []"
    "jwt_verify_issued E (clock E (ticks w)) (resolveIssuerBaseUrl E) [''RS256''] keys token = Some payload"
    "payload ''purpose'' = Some (JString ''password_reset'')"
    "payload ''jti'' = Some (JString i)" "payload ''sub'' = Some (JString userId)"
    unfolding PASSWORD_RESET_JWT_PURPOSE_def by (blast intro: claim)
  with rest r(1) row live show ?thesis by blast
qed

section \<open>Dead links\<close>

text \<open>No row that the token of a link could name is pending.\<close>

definition link_dead :: "string \<Rightarrow> string \<Rightarrow> world \<Rightarrow> bool" where
  "link_dead i userId w \<longleftrightarrow>
     (\<forall>r \<in> set (user_challenges w). ch_id r = i \<and> ch_kind r = Password_reset \<and> ch_user_id r = userId
        \<longrightarrow> truthy (ch_consumed_at r))"

lemma link_dead_not_live: "link_dead i userId w \<Longrightarrow> \<not> live_link i userId w"
  by (auto simp: link_dead_def live_link_def challenge_by_id_def dest: find_in_set)

lemma completed_link_dead:
  assumes "reset_effect E i userId h w t"
  shows "link_dead i u t"
proof -
  have rows: "user_challenges t = List.map (\<lambda>r. if ch_id r = i
      then r\<lparr>ch_consumed_at := Some (toISOString (clock E (ticks w + 3)))\<rparr> else r) (user_challenges w)"
    using assms unfolding reset_effect_def set_challenge_def Let_def by (elim exE conjE) simp
  show ?thesis unfolding link_dead_def
  proof (intro ballI impI)
    fix r assume "r \<in> set (user_challenges t)" and i: "ch_id r = i \<and> ch_kind r = Password_reset \<and> ch_user_id r = u"
    then obtain s where "r = (if ch_id s = i then s\<lparr>ch_consumed_at := Some (toISOString (clock E (ticks w + 3)))\<rparr> else s)"
      unfolding rows set_map by blast
    with i show "truthy (ch_consumed_at r)" by (simp add: truthy_def toISOString_nonempty split: if_splits)
  qed
qed

lemma cancelled_link_dead:
  assumes "cancelPasswordReset E token w = (Inr z, t)" and "reset_token_for E token i userId"
  shows "link_dead i userId t"
proof -
  obtain x v where first: "verifyPasswordResetJwt E token w = (x, v)" by fastforce
  with assms(1) obtain j who where x: "x = Inr (j, who)"
    by (cases x) (auto simp: cancelPasswordReset_def run_seq)
  have names: "j = i" using verify_reset_names [OF assms(2)] first x by blast
  have gone: "\<forall>r \<in> set (user_challenges t). ch_id r \<noteq> i"
  proof (cases "challenge_by_id i v")
    case None
    then have "\<forall>r \<in> set (user_challenges v). ch_id r \<noteq> i"
      unfolding challenge_by_id_def find_None_iff by simp
    moreover have "t = v" using None first assms(1) x names by (simp add: cancelPasswordReset_def run_seq)
    ultimately show ?thesis by simp
  next
    case (Some r)
    with first assms(1) x names show ?thesis
      by (auto simp: cancelPasswordReset_def run_seq delete_challenge_def drop_challenges_def split: if_splits)
  qed
  then show ?thesis by (auto simp: link_dead_def)
qed

lemma superseded_link_dead:
  assumes "send_reset E site siteUrl userId to w = (x, t)" and "uuid E (draws w) \<noteq> i"
  shows "link_dead i userId t"
proof -
  have new: "ch_id (reset_challenge_row (uuid E (draws w)) userId n) \<noteq> i" for n
    using assms(2) by (simp add: reset_challenge_row_def)
  show ?thesis using send_reset_rows [OF assms(1)]
    by (elim exE disjE) (auto simp: link_dead_def new)
qed

end
