(* ===== verification/StagedUpload.thy ===== *)
theory StagedUpload
  imports Params ClientClaims
begin

text \<open>
  Uploaded pictures, \<open>uploads/staged-upload.ts\<close>: a file goes to a random key below
  \<open>staging/\<close> and is copied to its final key when the form around it is saved. The bucket is
  a map from keys to objects; the requests to it are taken not to fail.
\<close>

definition STAGING_PREFIX :: string where "STAGING_PREFIX = ''staging/''"
definition MAX_UPLOAD_BYTES :: nat where "MAX_UPLOAD_BYTES = 5 * 1024 * 1024"

definition extension_by_mime :: "string \<Rightarrow> string option" where
  "extension_by_mime ty =
     (if ty = ''image/jpeg'' then Some ''jpg'' else if ty = ''image/png'' then Some ''png''
      else if ty = ''image/webp'' then Some ''webp'' else None)"

text \<open>
  The table is a plain object, so a lookup also finds the members every object inherits: their
  names pass the type check. \<open>newStagedKey\<close> would put the text of the member into the key, which
  \<open>isStagedKey\<close> then rejects; the model stops at an empty extension, which it rejects as well.
\<close>

definition object_members :: "string list" where
  "object_members = [''constructor'', ''hasOwnProperty'', ''isPrototypeOf'', ''propertyIsEnumerable'', ''toLocaleString'',
     ''toString'', ''valueOf'', ''__proto__'', ''__defineGetter__'', ''__defineSetter__'', ''__lookupGetter__'', ''__lookupSetter__'']"

definition validateImageUpload :: "string \<Rightarrow> nat \<Rightarrow> string option" where
  "validateImageUpload ty bytes =
     (if extension_by_mime ty = None \<and> ty \<notin> set object_members then Some ''Unsupported image type. Use JPEG, PNG, or WEBP.''
      else if bytes > MAX_UPLOAD_BYTES then Some ''Image is too large. Maximum is 5MB.''
      else if bytes = 0 then Some ''The file is empty.''
      else None)"

definition newStagedKey :: "cfg \<Rightarrow> string \<Rightarrow> string m" where
  "newStagedKey E contentType =
     seq (randomUUID E) (\<lambda>i.
     ret (STAGING_PREFIX @ i @ ''.'' @ (case extension_by_mime contentType of
            Some e \<Rightarrow> e | None \<Rightarrow> if contentType \<in> set object_members then [] else ''bin'')))"

definition alphanumeric :: "char \<Rightarrow> bool" where
  "alphanumeric c \<longleftrightarrow> is_alpha c \<or> is_digit c"

text \<open>\<open>^[A-Za-z0-9-]+\.[A-Za-z0-9]+$\<close>, after the prefix and the tests for \<open>/\<close> and \<open>..\<close> (which the pattern excludes).\<close>

definition isStagedKey :: "string \<Rightarrow> bool" where
  "isStagedKey key \<longleftrightarrow>
     take 8 key = STAGING_PREFIX
     \<and> (let rest = drop 8 key
        in rest \<noteq> [] \<and> CHR ''/'' \<notin> set rest
           \<and> (case split_on CHR ''.'' rest of
                [name, ext] \<Rightarrow> name \<noteq> [] \<and> ext \<noteq> [] \<and> list_all (\<lambda>c. alphanumeric c \<or> c = CHR ''-'') name
                  \<and> list_all alphanumeric ext
              | _ \<Rightarrow> False))"

definition extensionOfStagedKey :: "string \<Rightarrow> string" where
  "extensionOfStagedKey key =
     (if isStagedKey key then rev (takeWhile (\<lambda>c. c \<noteq> CHR ''.'') (rev key)) else ''bin'')"

definition promoteStagedUpload :: "string \<Rightarrow> string \<Rightarrow> string m" where
  "promoteStagedUpload stagedKey finalKey =
     (if \<not> isStagedKey stagedKey then throw (JsError ''That upload reference is not valid.'')
      else seq (reads (\<lambda>w. assets w stagedKey)) (\<lambda>staged.
        seq (need staged (JsError ''That upload has expired. Please choose the file again.'')) (\<lambda>obj.
        seq (writes (\<lambda>w. w\<lparr>assets := (assets w)(finalKey \<mapsto> obj)\<rparr>)) (\<lambda>_.
        seq (writes (\<lambda>w. w\<lparr>assets := (assets w)(stagedKey := None)\<rparr>)) (\<lambda>_.
        ret finalKey)))))"

section \<open>Facts\<close>

lemma isStagedKey_prefix: "isStagedKey key \<Longrightarrow> \<exists>rest. key = ''staging/'' @ rest \<and> CHR ''/'' \<notin> set rest"
  using append_take_drop_id [of 8 key] unfolding isStagedKey_def STAGING_PREFIX_def Let_def by metis

lemma split_on_two: "split_on c s = [a, b] \<Longrightarrow> s = a @ c # b"
proof (induction s arbitrary: a)
  case (Cons x s)
  show ?case
  proof (cases "x = c")
    case True
    have "split_on c s = [t] \<Longrightarrow> s = t" for s t by (induction s arbitrary: t) (auto split: if_splits list.splits)
    with True Cons.prems show ?thesis by auto
  next
    case False
    with Cons show ?thesis by (auto split: list.splits)
  qed
qed simp

lemma bin_alphanumeric: "list_all alphanumeric ''bin''"
  by (simp add: alphanumeric_def is_alpha_def)

text \<open>The extension that ends up in the final key has letters and digits only.\<close>

lemma extension_alphanumeric: "list_all alphanumeric (extensionOfStagedKey key)"
proof (cases "isStagedKey key")
  case True
  then obtain name ext where parts: "split_on CHR ''.'' (drop 8 key) = [name, ext]" "list_all alphanumeric ext"
    by (auto simp: isStagedKey_def Let_def split: list.splits)
  have dots: "CHR ''.'' \<notin> set ext" using parts(2) by (auto simp: list_all_iff alphanumeric_def is_alpha_def is_digit_def)
  have "drop 8 key = name @ ''.'' @ ext" using split_on_two [OF parts(1)] by simp
  then have "key = (take 8 key @ name) @ ''.'' @ ext" using append_take_drop_id [of 8 key] by simp
  then have "rev key = rev ext @ CHR ''.'' # rev (take 8 key @ name)"
    by (metis append_Cons append_Nil rev.simps(2) rev_append rev_swap append.assoc)
  moreover have "takeWhile (\<lambda>c. c \<noteq> CHR ''.'') (rev ext @ CHR ''.'' # xs) = rev ext" for xs
    using dots by (subst takeWhile_append2) auto
  ultimately show ?thesis using True parts(2) by (simp add: extensionOfStagedKey_def list_all_iff)
qed (use bin_alphanumeric in \<open>simp add: extensionOfStagedKey_def\<close>)

lemma promote_Inr:
  assumes "promoteStagedUpload stagedKey finalKey w = (Inr k, t)"
  shows "k = finalKey" "isStagedKey stagedKey"
    "\<exists>obj. assets w stagedKey = Some obj \<and> t = w\<lparr>assets := ((assets w)(finalKey \<mapsto> obj))(stagedKey := None)\<rparr>"
  using assms by (auto simp: promoteStagedUpload_def prog_inv split: if_splits)

lemma promote_Inl: "promoteStagedUpload stagedKey finalKey w = (Inl e, t) \<Longrightarrow> t = w"
  by (auto simp: promoteStagedUpload_def prog_inv need_def split: if_splits option.splits)

end
