(* ===== verification/Users.thy ===== *)
theory Users
  imports StagedUpload Challenges
begin

text \<open>
  Administration of users, \<open>user.service.ts\<close>. The rules the service keeps, and that its
  constraints back, are proved in \<open>UserRules\<close>: there is always an administrator, and a test user
  has no password and is none.
\<close>

section \<open>Reading\<close>

definition resolveUser :: "string \<Rightarrow> world \<Rightarrow> user_record option" where
  "resolveUser idOrUsername w =
     (case user_by_id idOrUsername w of
        Some u \<Rightarrow> Some u
      | None \<Rightarrow> map_option rowToUser (findByUsername idOrUsername w))"

text \<open>The avatar URL that is added to a user record.\<close>

definition avatar_url :: "cfg \<Rightarrow> user_record \<Rightarrow> world \<Rightarrow> string option" where
  "avatar_url E user w =
     (case u_avatarKey user of
        None \<Rightarrow> None
      | Some key \<Rightarrow>
        if key = [] then None
        else Some (buildAssetUrl key (pickAssetCdnBaseUrl (Option.bind (site_settings w) st_cdn_url)
                     (strip_trailing CHR ''/'' (getAvatarCdnBaseUrl E)))))"

definition withAvatarUrl :: "cfg \<Rightarrow> user_record \<Rightarrow> world \<Rightarrow> user_record \<times> string option" where
  "withAvatarUrl E user w = (user, avatar_url E user w)"

definition listUsers :: "cfg \<Rightarrow> world \<Rightarrow> (user_record \<times> string option) list" where
  "listUsers E w = List.map (\<lambda>(u, envs). withAvatarUrl E u w) (list_users w)"

definition getByIdOrUsername :: "cfg \<Rightarrow> string \<Rightarrow> world \<Rightarrow> (user_record \<times> string option) option" where
  "getByIdOrUsername E idOrUsername w = map_option (\<lambda>u. withAvatarUrl E u w) (resolveUser idOrUsername w)"

definition listTestUsersForEnvironment :: "cfg \<Rightarrow> string \<Rightarrow> world \<Rightarrow> (user_record \<times> string option) list" where
  "listTestUsersForEnvironment E environmentId w =
     List.map (\<lambda>u. withAvatarUrl E u w) (listTestUsersByEnvironment environmentId w)"

section \<open>Creating\<close>

record new_user =
  nu_username :: string
  nu_password :: string
  nu_isAdmin :: bool
  nu_name :: "string option"
  nu_email :: "string option"
  nu_actorUserId :: "string option"
  nu_isTestUser :: bool

definition new_user_row :: "new_user \<Rightarrow> string \<Rightarrow> string \<Rightarrow> string option \<Rightarrow> string option \<Rightarrow> user_row" where
  "new_user_row p i passwordHash emailVerifiedAt passwordUpdatedAt =
     \<lparr>us_id = i, us_username = js_trim (nu_username p), us_name = nonblank (nu_name p), us_email = nonblank (nu_email p),
      us_email_verified_at = emailVerifiedAt, us_avatar_key = None, us_password_hash = passwordHash,
      us_password_updated_at = passwordUpdatedAt, us_is_admin = nu_isAdmin p, us_is_test_user = nu_isTestUser p\<rparr>"

definition createUser :: "cfg \<Rightarrow> hash_method \<Rightarrow> new_user \<Rightarrow> (user_record \<times> string option) m" where
  "createUser E meth p =
     (let username = js_trim (nu_username p) in
     seq (throw_when (username = []) (JsError ''Username is required'')) (\<lambda>_.
     seq (throw_when (nu_isTestUser p \<and> nu_isAdmin p) (JsError ''A test user cannot be an admin.'')) (\<lambda>_.
     seq (reads (findByUsername username)) (\<lambda>taken.
     seq (throw_when (taken \<noteq> None) (JsError ''That username is already taken.'')) (\<lambda>_.
     seq (randomUUID E) (\<lambda>i.
     seq (if nu_isTestUser p then ret [] else hashPassword E meth (nu_password p)) (\<lambda>passwordHash.
     seq (if nu_isAdmin p \<and> nonblank (nu_email p) \<noteq> None
          then seq (now_iso E) (\<lambda>now. ret (Some now)) else ret None) (\<lambda>emailVerifiedAt.
     seq (if nu_isTestUser p then ret None else seq (now_iso E) (\<lambda>now. ret (Some now))) (\<lambda>passwordUpdatedAt.
     let row = new_user_row p i passwordHash emailVerifiedAt passwordUpdatedAt in
     seq (create_user row) (\<lambda>_.
     seq (logAction E (nu_actorUserId p) (audit_action_name UserCreate) (audit_resource_name UserResource) (Some i)
           [(''username'', DText username), (''email'', dtext (us_email row)), (''name'', dtext (us_name row)),
            (''isAdmin'', DFlag (nu_isAdmin p)), (''isTestUser'', DFlag (nu_isTestUser p))]) (\<lambda>_.
     reads (withAvatarUrl E (rowToUser row)))))))))))))"

section \<open>Updating\<close>

record update_input =
  ui_username :: "string option"
  ui_name :: "string option option"
  ui_email :: "string option option"
  ui_password :: "string option"
  ui_isAdmin :: "bool option"
  ui_avatarKey :: "string option option"
  ui_avatarStagedKey :: "string option"
  ui_emailVerifiedAt :: "string option option"
  ui_environmentIds :: "string list option"

definition email_unverified :: "user_record \<Rightarrow> string option \<Rightarrow> bool" where
  "email_unverified current nextEmail \<longleftrightarrow>
     \<not> u_isAdmin current
     \<and> map_option (\<lambda>e. js_lower (js_trim e)) (u_email current) \<noteq> map_option (\<lambda>e. js_lower (js_trim e)) nextEmail"

text \<open>The profile fields of the patch; an explicit verification date wins over the reset.\<close>

definition profile_patch :: "user_record \<Rightarrow> update_input \<Rightarrow> user_patch" where
  "profile_patch current ups =
     no_patch
       \<lparr>up_username := map_option js_trim (ui_username ups),
        up_name := map_option nonblank (ui_name ups),
        up_email := map_option nonblank (ui_email ups),
        up_emailVerifiedAt :=
          (case ui_emailVerifiedAt ups of
             Some v \<Rightarrow> Some v
           | None \<Rightarrow> (case ui_email ups of
                        None \<Rightarrow> None
                      | Some e \<Rightarrow> if email_unverified current (nonblank e) then Some None else None))\<rparr>"

definition count_admins :: "world \<Rightarrow> nat" where
  "count_admins w = length (filter us_is_admin (users w))"

definition sets_password :: "update_input \<Rightarrow> bool" where
  "sets_password ups \<longleftrightarrow> (case ui_password ups of None \<Rightarrow> False | Some p \<Rightarrow> js_trim p \<noteq> [])"

definition password_patch :: "cfg \<Rightarrow> hash_method \<Rightarrow> user_record \<Rightarrow> update_input \<Rightarrow> user_patch \<Rightarrow> user_patch m" where
  "password_patch E meth current ups p =
     (if \<not> sets_password ups then ret p
      else
        seq (throw_when (u_isTestUser current) (JsError ''A test user cannot be given a password.'')) (\<lambda>_.
        seq (hashPassword E meth (case ui_password ups of Some s \<Rightarrow> s | None \<Rightarrow> [])) (\<lambda>h.
        seq (now_iso E) (\<lambda>now.
        ret (p\<lparr>up_passwordHash := Some h, up_passwordUpdatedAt := Some (Some now)\<rparr>)))))"

definition admin_patch :: "user_record \<Rightarrow> update_input \<Rightarrow> string \<Rightarrow> user_patch \<Rightarrow> user_patch m" where
  "admin_patch current ups actorUserId p =
     (case ui_isAdmin ups of
        None \<Rightarrow> ret p
      | Some isAdmin \<Rightarrow>
        seq (throw_when (u_isTestUser current \<and> isAdmin) (JsError ''A test user cannot be an admin.'')) (\<lambda>_.
        seq (throw_when (u_id current = actorUserId \<and> \<not> isAdmin)
              (JsError ''You cannot remove your own admin access'')) (\<lambda>_.
        seq (if u_isAdmin current \<and> \<not> isAdmin
             then seq (reads count_admins) (\<lambda>n. throw_when (n \<le> 1) (JsError ''Cannot remove the last admin''))
             else ret ()) (\<lambda>_.
        ret (p\<lparr>up_isAdmin := Some isAdmin\<rparr>)))))"

definition avatar_patch :: "user_record \<Rightarrow> update_input \<Rightarrow> user_patch \<Rightarrow> user_patch m" where
  "avatar_patch current ups p =
     (if truthy (ui_avatarStagedKey ups)
      then (let stagedKey = the (ui_avatarStagedKey ups) in
        seq (promoteStagedUpload stagedKey (''avatars/'' @ u_id current @ ''.'' @ extensionOfStagedKey stagedKey)) (\<lambda>k.
        ret (p\<lparr>up_avatarKey := Some (Some k)\<rparr>)))
      else ret p)"

text \<open>Everything that can still reject, in the order of the code, and the promotion of the picture at the end.\<close>

definition build_patch :: "cfg \<Rightarrow> hash_method \<Rightarrow> user_record \<Rightarrow> update_input \<Rightarrow> string \<Rightarrow> user_patch m" where
  "build_patch E meth current ups actorUserId =
     seq (throw_when (map_option js_trim (ui_username ups) = Some []) (JsError ''Username is required'')) (\<lambda>_.
     seq (password_patch E meth current ups (profile_patch current ups)) (\<lambda>p.
     seq (throw_when (truthy (ui_avatarStagedKey ups) \<and> auth_assets E = None)
           (JsError ''Avatar storage is not configured.'')) (\<lambda>_.
     seq (admin_patch current ups actorUserId
           (if truthy (ui_avatarStagedKey ups) then p else p\<lparr>up_avatarKey := ui_avatarKey ups\<rparr>)) (\<lambda>p.
     avatar_patch current ups p))))"

text \<open>The names of the fields of the patch, in the order they were set.\<close>

definition changed_fields :: "update_input \<Rightarrow> user_patch \<Rightarrow> string list" where
  "changed_fields ups p =
     (if up_username p \<noteq> None then [''username''] else [])
     @ (if up_name p \<noteq> None then [''name''] else [])
     @ (if up_email p \<noteq> None then [''email''] else [])
     @ (if up_emailVerifiedAt p \<noteq> None then [''emailVerifiedAt''] else [])
     @ (if up_passwordHash p \<noteq> None then [''password''] else [])
     @ (if up_avatarKey p \<noteq> None \<and> \<not> truthy (ui_avatarStagedKey ups) then [''avatarKey''] else [])
     @ (if up_isAdmin p \<noteq> None then [''isAdmin''] else [])
     @ (if up_avatarKey p \<noteq> None \<and> truthy (ui_avatarStagedKey ups) then [''avatarKey''] else [])
     @ (if ui_environmentIds ups \<noteq> None then [''environments''] else [])"

text \<open>The audit entries of an update: one for what changed, one more for a change of rights.\<close>

definition audit_update ::
  "cfg \<Rightarrow> user_record \<Rightarrow> update_input \<Rightarrow> user_patch \<Rightarrow> user_record \<Rightarrow> string \<Rightarrow> unit m" where
  "audit_update E current ups p updated actorUserId =
     (let fields = changed_fields ups p in
     seq (if fields = [] then ret ()
          else logAction E (Some actorUserId)
            (audit_action_name (if fields = [''password''] then UserPasswordChange else UserUpdate))
            (audit_resource_name UserResource) (Some (u_id current))
            ([(''username'', DText (u_username updated)), (''changedFields'', DTexts fields)]
             @ (case ui_environmentIds ups of None \<Rightarrow> [] | Some es \<Rightarrow> [(''environmentIds'', DTexts es)]))) (\<lambda>_.
     (case up_isAdmin p of
        None \<Rightarrow> ret ()
      | Some isAdmin \<Rightarrow>
        if isAdmin = u_isAdmin current then ret ()
        else logAction E (Some actorUserId) (audit_action_name (if isAdmin then UserAdminGrant else UserAdminRevoke))
          (audit_resource_name UserResource) (Some (u_id current))
          [(''username'', DText (u_username updated)), (''from'', DFlag (u_isAdmin current)), (''to'', DFlag isAdmin)])))"

text \<open>What happens once the row is written.\<close>

definition after_update ::
  "cfg \<Rightarrow> user_record \<Rightarrow> update_input \<Rightarrow> user_patch \<Rightarrow> string \<Rightarrow> (user_record \<times> string option) m" where
  "after_update E current ups p actorUserId =
     seq (if up_passwordHash p \<noteq> None then deleteByUserIdAndKind (u_id current) Password_reset else ret ()) (\<lambda>_.
     seq (case ui_environmentIds ups of None \<Rightarrow> ret () | Some es \<Rightarrow> setUserEnvironments E (u_id current) es) (\<lambda>_.
     seq (reads (user_by_id (u_id current))) (\<lambda>found.
     seq (need found (JsError ''User not found'')) (\<lambda>updated.
     seq (audit_update E current ups p updated actorUserId) (\<lambda>_.
     reads (withAvatarUrl E updated))))))"

definition updateUser ::
  "cfg \<Rightarrow> hash_method \<Rightarrow> string \<Rightarrow> update_input \<Rightarrow> string \<Rightarrow> (user_record \<times> string option) m" where
  "updateUser E meth idOrUsername ups actorUserId =
     seq (reads (resolveUser idOrUsername)) (\<lambda>found.
     seq (need found (JsError ''User not found'')) (\<lambda>current.
     seq (build_patch E meth current ups actorUserId) (\<lambda>p.
     seq (update_user_row (u_id current) p) (\<lambda>_.
     after_update E current ups p actorUserId))))"

section \<open>Deleting\<close>

definition deleteUser :: "cfg \<Rightarrow> string \<Rightarrow> string \<Rightarrow> unit m" where
  "deleteUser E idOrUsername actorUserId =
     seq (throw_when (idOrUsername = actorUserId) (JsError ''You cannot delete your own user'')) (\<lambda>_.
     seq (reads (resolveUser idOrUsername)) (\<lambda>found.
     seq (need found (JsError ''User not found'')) (\<lambda>current.
     seq (throw_when (u_id current = actorUserId) (JsError ''You cannot delete your own user'')) (\<lambda>_.
     seq (if u_isAdmin current
          then seq (reads count_admins) (\<lambda>n. throw_when (n \<le> 1) (JsError ''Cannot delete the last admin''))
          else ret ()) (\<lambda>_.
     seq (buildRow E (Some actorUserId) (audit_action_name UserDelete) (audit_resource_name UserResource)
           (Some (u_id current))
           [(''username'', DText (u_username current)), (''email'', dtext (u_email current)),
            (''name'', dtext (u_name current)), (''isAdmin'', DFlag (u_isAdmin current))]) (\<lambda>auditRow.
     deleteWithAudit (u_id current) auditRow))))))"

end
