(* ===== verification/UserRules.thy ===== *)
theory UserRules
  imports Users PasswordReset
begin

text \<open>
  The rules about users that the services together keep: ids are unique, there is an
  administrator, a test user is no administrator and has no password, and no pending password
  reset belongs to a test user. Every operation on users and challenges preserves them,
  however it ends.
\<close>

definition users_ok :: "world \<Rightarrow> bool" where
  "users_ok w \<longleftrightarrow>
     distinct (List.map us_id (users w))
     \<and> (\<exists>u \<in> set (users w). us_is_admin u)
     \<and> (\<forall>u \<in> set (users w). us_is_test_user u \<longrightarrow> \<not> us_is_admin u \<and> us_password_hash u = [])
     \<and> (\<forall>c \<in> set (user_challenges w). ch_kind c = Password_reset \<longrightarrow>
          (\<exists>u \<in> set (users w). us_id u = ch_user_id c \<and> \<not> us_is_test_user u))"

section \<open>Frames\<close>

definition same_users :: "world \<Rightarrow> world \<Rightarrow> bool" where
  "same_users s t \<longleftrightarrow> users t = users s \<and> user_challenges t = user_challenges s"

interpretation user_frame: evolution same_users
  by unfold_locales (auto simp: same_users_def)

definition keeps_rules :: "world \<Rightarrow> world \<Rightarrow> bool" where
  "keeps_rules s t \<longleftrightarrow> (users_ok s \<longrightarrow> users_ok t)"

interpretation rules: evolution keeps_rules
  by unfold_locales (auto simp: keeps_rules_def)

lemma same_users_ok: "same_users s t \<Longrightarrow> users_ok t \<longleftrightarrow> users_ok s"
  by (simp add: same_users_def users_ok_def)

lemma frame_keeps: "evolves same_users m \<Longrightarrow> evolves keeps_rules m"
  by (auto simp: evolves_def keeps_rules_def dest: same_users_ok)

lemma run_frame: "evolves same_users m \<Longrightarrow> m s = (x, t) \<Longrightarrow> users t = users s \<and> user_challenges t = user_challenges s"
  by (drule (1) evolvesD) (simp add: same_users_def)

text \<open>A sequence of two methods, with what is known in between.\<close>

lemma seq_ends:
  assumes "seq m f s = (x, u)" and "\<And>e t. m s = (Inl e, t) \<Longrightarrow> I t"
    and "\<And>y t. m s = (Inr y, t) \<Longrightarrow> f y t = (x, u) \<Longrightarrow> I u"
  shows "I u"
  using assms by (cases "m s"; cases "fst (m s)") (auto simp: run_seq)

lemma same_users_clock: "only_clock s t \<Longrightarrow> same_users s t"
  by (auto simp: only_clock_def same_users_def)

lemma clock_frame: "evolves only_clock m \<Longrightarrow> evolves same_users m"
  by (auto simp: evolves_def dest: same_users_clock)

lemma same_users_audit: "audit_grows s t \<Longrightarrow> same_users s t"
proof -
  assume grows: "audit_grows s t"
  then obtain rs where t: "t = s\<lparr>draws := draws t, ticks := ticks t, admin_audit_log := admin_audit_log s @ rs\<rparr>"
    by (auto simp: audit_grows_def)
  have "user_challenges t = user_challenges s" by (subst t) simp
  with audit_grows_simps(3) [OF grows] show ?thesis by (simp add: same_users_def)
qed

lemma user_platform_frame:
  "evolves same_users (now_ms E)" "evolves same_users (now_iso E)" "evolves same_users (randomUUID E)"
  "evolves same_users (getRandomValues E n)" "evolves same_users (randomUUIDs E n)"
  "evolves same_users (hashPassword E meth pw)" "evolves same_users (hash_policy E)"
  "evolves same_users (verifyPassword E meth pw h)" "evolves same_users (logAction E a b c d e)"
  "evolves same_users (buildRow E a b c d e)" "evolves same_users (insert_audit r)" "evolves same_users (send_mail E msg)"
proof -
  show "evolves same_users (hashPassword E meth pw)"
    by (rule evolvesI) (auto dest!: hashPassword_pure simp: same_users_def)
  show "evolves same_users (verifyPassword E meth pw h)"
    by (rule evolvesI) (auto dest!: verifyPassword_pure simp: same_users_def)
  show "evolves same_users (hash_policy E)"
    by (rule evolvesI) (auto dest!: hash_policy_state simp: same_users_def)
  show audit: "evolves same_users (insert_audit r)"
    unfolding insert_audit_def by (rule evolves_guarded) (auto simp: same_users_def)
  show build: "evolves same_users (buildRow E a b c d e)"
    by (rule evolvesI) (auto simp: buildRow_def same_users_def)
  show "evolves same_users (logAction E a b c d e)"
    unfolding logAction_def insert_audit_def
    by (intro user_frame.seq build evolves_guarded) (auto simp: same_users_def)
  show "evolves same_users (send_mail E msg)"
    unfolding send_mail_def by (intro user_frame.rules)+
qed (auto simp: evolves_def same_users_def)

section \<open>Rows\<close>

text \<open>With unique ids, a second administrator has another id.\<close>

lemma another_admin:
  assumes "distinct (List.map us_id us)" and "length (filter us_is_admin us) > 1"
  shows "\<exists>u \<in> set us. us_is_admin u \<and> us_id u \<noteq> i"
proof (rule ccontr)
  assume none: "\<not> ?thesis"
  have sub: "set (List.map us_id (filter us_is_admin us)) \<subseteq> {i}" using none by auto
  have "distinct (List.map us_id (filter us_is_admin us))" using assms(1) by (rule distinct_map_filter)
  then have "card (set (List.map us_id (filter us_is_admin us))) = length (filter us_is_admin us)"
    by (simp only: distinct_card length_map)
  moreover have "card (set (List.map us_id (filter us_is_admin us))) \<le> card {i}"
    using sub by (intro card_mono) simp_all
  ultimately show False using assms(2) by simp
qed

lemma patched_rows:
  assumes "us = List.map (\<lambda>r. if us_id r = i then patch_user p r else r) vs"
  shows "List.map us_id us = List.map us_id vs"
    and "u \<in> set us \<Longrightarrow> \<exists>v \<in> set vs. us_id u = us_id v \<and> us_is_test_user u = us_is_test_user v
      \<and> (if us_id v = i then u = patch_user p v else u = v)"
    and "v \<in> set vs \<Longrightarrow> \<exists>u \<in> set us. us_id u = us_id v \<and> us_is_test_user u = us_is_test_user v
      \<and> (if us_id v = i then u = patch_user p v else u = v)"
proof -
  show "List.map us_id us = List.map us_id vs" unfolding assms by simp
  show "\<exists>v \<in> set vs. us_id u = us_id v \<and> us_is_test_user u = us_is_test_user v
      \<and> (if us_id v = i then u = patch_user p v else u = v)" if "u \<in> set us"
    using that unfolding assms by auto
  show "\<exists>u \<in> set us. us_id u = us_id v \<and> us_is_test_user u = us_is_test_user v
      \<and> (if us_id v = i then u = patch_user p v else u = v)" if "v \<in> set vs"
    using that unfolding assms by (intro bexI [of _ "if us_id v = i then patch_user p v else v"]) auto
qed

definition safe_patch :: "string \<Rightarrow> user_patch \<Rightarrow> world \<Rightarrow> bool" where
  "safe_patch i p w \<longleftrightarrow>
     (\<forall>r \<in> set (users w). us_id r = i \<longrightarrow>
        (us_is_test_user r \<longrightarrow> up_passwordHash p = None \<and> up_isAdmin p \<noteq> Some True)
      \<and> (us_is_admin r \<and> up_isAdmin p = Some False \<longrightarrow> count_admins w > 1))"

lemma users_ok_patched:
  assumes ok: "users_ok w" and safe: "safe_patch i p w"
    and t: "users t = List.map (\<lambda>r. if us_id r = i then patch_user p r else r) (users w)"
    and same: "user_challenges t = user_challenges w"
  shows "users_ok t"
proof -
  note rows = patched_rows [OF t]
  have "\<exists>u \<in> set (users t). us_is_admin u"
  proof (cases "\<exists>v \<in> set (users w). us_is_admin v \<and> us_id v \<noteq> i")
    case True
    then show ?thesis using rows(3) by metis
  next
    case False
    with ok obtain v where v: "v \<in> set (users w)" "us_is_admin v" "us_id v = i" by (auto simp: users_ok_def)
    have "\<not> count_admins w > 1"
      using another_admin [of "users w" i] ok False unfolding count_admins_def users_ok_def by blast
    with safe v have "up_isAdmin p \<noteq> Some False" by (auto simp: safe_patch_def)
    with v have admin: "us_is_admin (patch_user p v)" by (cases "up_isAdmin p") auto
    obtain u where "u \<in> set (users t)" "u = patch_user p v" using rows(3) [OF v(1)] v(3) by auto
    with admin show ?thesis by blast
  qed
  moreover have "\<not> us_is_admin u \<and> us_password_hash u = []" if u: "u \<in> set (users t)" "us_is_test_user u" for u
  proof -
    obtain v where v: "v \<in> set (users w)" "us_is_test_user v" "if us_id v = i then u = patch_user p v else u = v"
      using rows(2) [OF u(1)] u(2) by auto
    then have old: "\<not> us_is_admin v" "us_password_hash v = []" using ok by (auto simp: users_ok_def)
    show ?thesis
    proof (cases "us_id v = i")
      case True
      with safe v have "up_passwordHash p = None" "up_isAdmin p \<noteq> Some True" by (auto simp: safe_patch_def)
      with v old True show ?thesis by (cases "up_isAdmin p") (auto simp: patch_user_def)
    qed (use v old in simp)
  qed
  moreover have "\<exists>u \<in> set (users t). us_id u = ch_user_id c \<and> \<not> us_is_test_user u"
    if "c \<in> set (user_challenges w)" "ch_kind c = Password_reset" for c
    using ok that rows(3) unfolding users_ok_def by metis
  ultimately show ?thesis
    using ok rows(1) by (simp add: users_ok_def same)
qed

lemma update_user_row_ok:
  assumes "users_ok w" and "safe_patch i p w" and "update_user_row i p w = (x, t)"
  shows "users_ok t"
proof (cases x)
  case (Inl e)
  with assms(1,3) show ?thesis by (auto simp: update_user_row_def prog_inv split: if_splits)
next
  case (Inr u)
  with assms show ?thesis
    using users_ok_patched [OF assms(1,2)] update_user_row_Inr update_user_row_challenges by blast
qed

lemma users_ok_deleted:
  assumes ok: "users_ok w" and safe: "\<And>r. r \<in> set (users w) \<Longrightarrow> us_id r = i \<Longrightarrow> us_is_admin r \<Longrightarrow> count_admins w > 1"
  shows "users_ok (delete_user_rows i w)"
proof (cases "i \<in> set (List.map us_id (users w))")
  case True
  have rows: "users (delete_user_rows i w) = filter (\<lambda>r. us_id r \<noteq> i) (users w)"
    "user_challenges (delete_user_rows i w) = filter (\<lambda>r. ch_user_id r \<noteq> i) (user_challenges w)"
    using True by (simp_all add: delete_user_rows_def delete_api_keys_def)
  have "\<exists>u \<in> set (users w). us_is_admin u \<and> us_id u \<noteq> i"
  proof (rule ccontr)
    assume none: "\<not> ?thesis"
    with ok obtain v where "v \<in> set (users w)" "us_id v = i" "us_is_admin v" by (auto simp: users_ok_def)
    then have "count_admins w > 1" by (rule safe)
    with another_admin [of "users w" i] ok none show False unfolding count_admins_def users_ok_def by blast
  qed
  moreover have "\<exists>u \<in> set (users (delete_user_rows i w)). us_id u = ch_user_id c \<and> \<not> us_is_test_user u"
    if "c \<in> set (user_challenges (delete_user_rows i w))" "ch_kind c = Password_reset" for c
    using ok that unfolding users_ok_def rows by simp metis
  ultimately show ?thesis using ok unfolding users_ok_def rows
    by (auto simp: distinct_map_filter)
qed (use ok in \<open>simp add: delete_user_rows_def\<close>)


section \<open>Creating\<close>

lemma users_ok_created:
  assumes "us_is_test_user r \<Longrightarrow> \<not> us_is_admin r \<and> us_password_hash r = []"
  shows "evolves keeps_rules (create_user r)"
proof (rule evolvesI)
  fix s x t assume run: "create_user r s = (x, t)"
  show "keeps_rules s t"
  proof (cases "user_violated r s")
    case None
    with run have t: "t = s\<lparr>users := users s @ [r]\<rparr>" by (simp add: create_user_def guarded_def)
    from None have "us_id r \<notin> us_id ` set (users s)" by (auto simp: user_violated_def split: if_splits)
    then show ?thesis using assms unfolding keeps_rules_def users_ok_def t by auto
  next
    case (Some c)
    with run show ?thesis by (simp add: create_user_def guarded_def keeps_rules_def)
  qed
qed

lemma createUser_keeps: "evolves keeps_rules (createUser E meth p)"
  unfolding createUser_def Let_def
  by (intro rules.seq_value rules.keeps rules.branch rules.writes users_ok_created frame_keeps user_platform_frame)
    (auto simp: new_user_row_def split: if_splits)

section \<open>Updating\<close>

lemma resolveUser_row:
  "resolveUser i w = Some u \<Longrightarrow> \<exists>r \<in> set (users w). u = rowToUser r"
  by (auto simp: resolveUser_def findByUsername_def dest!: user_by_id_Some find_in_set split: option.splits)

lemma row_of_id: "users_ok w \<Longrightarrow> r \<in> set (users w) \<Longrightarrow> s \<in> set (users w) \<Longrightarrow> us_id r = us_id s \<Longrightarrow> r = s"
  unfolding users_ok_def by (metis distinct_map inj_onD)

text \<open>What a patch that passed the checks may do, for the row it was built for.\<close>

lemma password_patch_Inr:
  assumes "password_patch E meth current ups p w = (Inr q, t)"
  shows "up_isAdmin q = up_isAdmin p" "u_isTestUser current \<Longrightarrow> up_passwordHash p = None \<Longrightarrow> up_passwordHash q = None"
    and "users t = users w \<and> user_challenges t = user_challenges w"
proof -
  have "evolves same_users (password_patch E meth current ups p)"
    unfolding password_patch_def by (intro user_frame.rules user_platform_frame)
  then show "users t = users w \<and> user_challenges t = user_challenges w" using assms by (rule run_frame)
  show "up_isAdmin q = up_isAdmin p" "u_isTestUser current \<Longrightarrow> up_passwordHash p = None \<Longrightarrow> up_passwordHash q = None"
    using assms by (auto simp: password_patch_def prog_inv split: if_splits)
qed

lemma admin_patch_Inr:
  assumes "admin_patch current ups actor p w = (Inr q, t)" and "up_isAdmin p = None"
  shows "up_passwordHash q = up_passwordHash p" "t = w" "u_isTestUser current \<Longrightarrow> up_isAdmin q \<noteq> Some True"
    and "u_isAdmin current \<Longrightarrow> up_isAdmin q = Some False \<Longrightarrow> count_admins w > 1"
  using assms by (auto simp: admin_patch_def prog_inv split: option.splits if_splits)

lemma avatar_patch_Inr:
  assumes "avatar_patch current ups p w = (Inr q, t)"
  shows "up_passwordHash q = up_passwordHash p" "up_isAdmin q = up_isAdmin p"
    and "users t = users w \<and> user_challenges t = user_challenges w"
  using assms by (auto simp: avatar_patch_def Let_def prog_inv dest!: promote_Inr(3) split: if_splits)

lemma build_patch_Inr:
  assumes "build_patch E meth current ups actor w = (Inr p, t)"
  shows "users t = users w \<and> user_challenges t = user_challenges w"
    and "u_isTestUser current \<Longrightarrow> up_passwordHash p = None \<and> up_isAdmin p \<noteq> Some True"
    and "u_isAdmin current \<Longrightarrow> up_isAdmin p = Some False \<Longrightarrow> count_admins w > 1"
proof -
  let ?key = "\<lambda>q. if truthy (ui_avatarStagedKey ups) then q else q\<lparr>up_avatarKey := ui_avatarKey ups\<rparr>"
  from assms obtain q u r v where pw: "password_patch E meth current ups (profile_patch current ups) w = (Inr q, u)"
    and adm: "admin_patch current ups actor (?key q) u = (Inr r, v)"
    and av: "avatar_patch current ups r v = (Inr p, t)"
    unfolding build_patch_def seq_Inr throw_when_Inr by blast
  have start: "up_passwordHash (profile_patch current ups) = None" "up_isAdmin (profile_patch current ups) = None"
    by (simp_all add: profile_patch_def no_patch_def)
  note pw = password_patch_Inr [OF pw]
  have none: "up_isAdmin (?key q) = None" using pw(1) start by simp
  note adm = admin_patch_Inr [OF adm none]
  note av = avatar_patch_Inr [OF av]
  have key: "up_passwordHash (?key q) = up_passwordHash q" by simp
  have count: "count_admins u = count_admins w" using pw(3) by (simp add: count_admins_def)
  show "users t = users w \<and> user_challenges t = user_challenges w" using pw(3) adm(2) av(3) by simp
  show "up_passwordHash p = None \<and> up_isAdmin p \<noteq> Some True" if "u_isTestUser current"
    using pw(2) [OF that start(1)] adm(1) adm(3) [OF that] av(1,2) key by simp
  show "count_admins w > 1" if "u_isAdmin current" "up_isAdmin p = Some False"
    using adm(4) that av(2) count by simp
qed

lemma build_patch_frame: "evolves same_users (build_patch E meth current ups actor)"
proof -
  have "evolves same_users (avatar_patch current ups p)" for p
    unfolding avatar_patch_def promoteStagedUpload_def Let_def
    by (intro user_frame.rules) (auto simp: same_users_def)
  moreover have "evolves same_users (password_patch E meth current ups p)" for p
    unfolding password_patch_def by (intro user_frame.rules user_platform_frame)
  moreover have "evolves same_users (admin_patch current ups actor p)" for p
    unfolding admin_patch_def by (intro user_frame.rules)
  ultimately show ?thesis unfolding build_patch_def by (intro user_frame.rules)
qed

text \<open>Deleting challenges and replacing the environments of a user.\<close>

lemma drop_challenges_keeps: "evolves keeps_rules (writes (drop_challenges P))"
  by (rule rules.writes) (auto simp: keeps_rules_def users_ok_def drop_challenges_def)

lemma deletes_keep: "evolves keeps_rules (delete_challenge i)" "evolves keeps_rules (deleteByUserIdAndKind u k)"
  unfolding delete_challenge_def deleteByUserIdAndKind_def by (rule drop_challenges_keeps)+

lemma transaction_frame:
  assumes "evolves same_users m"
  shows "evolves same_users (transaction m)"
proof (rule evolvesI)
  fix s x t assume "transaction m s = (x, t)"
  then have "t = s \<or> m s = (x, t)" by (auto simp: transaction_def split: sum.splits prod.splits)
  then show "same_users s t" using evolvesD [OF assms] by (auto simp: same_users_def)
qed

lemma setUserEnvironments_frame: "evolves same_users (setUserEnvironments E i es)"
  unfolding setUserEnvironments_def Let_def
  by (intro user_frame.rules user_platform_frame transaction_frame evolves_guarded) (auto simp: same_users_def)

lemma after_update_keeps: "evolves keeps_rules (after_update E current ups p actor)"
  unfolding after_update_def audit_update_def Let_def
  by (intro rules.rules deletes_keep frame_keeps user_platform_frame setUserEnvironments_frame)

lemma updateUser_keeps: "evolves keeps_rules (updateUser E meth idOrUsername ups actor)"
proof (rule evolvesI)
  fix w x t assume run: "updateUser E meth idOrUsername ups actor w = (x, t)"
  show "keeps_rules w t" unfolding keeps_rules_def
  proof
    assume ok: "users_ok w"
    show "users_ok t"
    proof (cases "resolveUser idOrUsername w")
      case None
      with run ok show ?thesis by (simp add: updateUser_def run_seq)
    next
      case (Some current)
      then obtain r where r: "r \<in> set (users w)" "current = rowToUser r" using resolveUser_row by blast
      from run Some have "seq (build_patch E meth current ups actor) (\<lambda>p.
          seq (update_user_row (u_id current) p) (\<lambda>_. after_update E current ups p actor)) w = (x, t)"
        by (simp add: updateUser_def run_seq)
      then show ?thesis
      proof (rule seq_ends)
        fix e v assume "build_patch E meth current ups actor w = (Inl e, v)"
        from run_frame [OF build_patch_frame this] ok show "users_ok v" by (simp add: users_ok_def)
      next
        fix p v assume built: "build_patch E meth current ups actor w = (Inr p, v)"
          and rest: "seq (update_user_row (u_id current) p) (\<lambda>_. after_update E current ups p actor) v = (x, t)"
        note patch = build_patch_Inr [OF built]
        have v: "users_ok v" using ok patch(1) by (simp add: users_ok_def)
        have "r' = r" if "r' \<in> set (users v)" "us_id r' = u_id current" for r'
          using row_of_id [OF ok, of r' r] that r patch(1) by (simp add: rowToUser_def)
        then have safe: "safe_patch (u_id current) p v"
          using patch(2,3) r(2) patch(1) by (auto simp: safe_patch_def rowToUser_def count_admins_def)
        from rest show "users_ok t"
        proof (rule seq_ends)
          fix y u assume up: "update_user_row (u_id current) p v = (Inr y, u)"
            and after: "after_update E current ups p actor u = (x, t)"
          show "users_ok t"
            using evolvesD [OF after_update_keeps after] update_user_row_ok [OF v safe up] by (simp add: keeps_rules_def)
        qed (rule update_user_row_ok [OF v safe])
      qed
    qed
  qed
qed


section \<open>Deleting\<close>

lemma deleteUser_keeps: "evolves keeps_rules (deleteUser E idOrUsername actor)"
proof (rule evolvesI)
  fix w x t assume run: "deleteUser E idOrUsername actor w = (x, t)"
  show "keeps_rules w t" unfolding keeps_rules_def
  proof
    assume ok: "users_ok w"
    show "users_ok t"
    proof (cases "resolveUser idOrUsername w")
      case None
      with run ok show ?thesis by (auto simp: deleteUser_def run_seq split: if_splits)
    next
      case (Some current)
      then obtain r where r: "r \<in> set (users w)" "current = rowToUser r" using resolveUser_row by blast
      let ?i = "u_id current"
      let ?build = "buildRow E (Some actor) (audit_action_name UserDelete) (audit_resource_name UserResource) (Some ?i)
           [(''username'', DText (u_username current)), (''email'', dtext (u_email current)),
            (''name'', dtext (u_name current)), (''isAdmin'', DFlag (u_isAdmin current))]"
      from run Some consider "t = w" | "seq ?build (deleteWithAudit ?i) w = (x, t)" "u_isAdmin current \<longrightarrow> count_admins w > 1"
        by (auto simp: deleteUser_def run_seq split: if_splits)
      then show ?thesis
      proof cases
        case 2
        have "evolves same_users ?build" by (rule user_platform_frame)
        from 2(1) show ?thesis
        proof (rule seq_ends)
          fix e v assume "?build w = (Inl e, v)"
          with run_frame [OF \<open>evolves same_users ?build\<close>] ok show "users_ok v" by (simp add: users_ok_def)
        next
          fix row v assume b: "?build w = (Inr row, v)" and del: "deleteWithAudit ?i row v = (x, t)"
          have same: "users v = users w" "user_challenges v = user_challenges w"
            using run_frame [OF \<open>evolves same_users ?build\<close> b] by simp_all
          then have v: "users_ok v" using ok by (simp add: users_ok_def)
          from del have "t = v \<or> (\<exists>u. insert_audit row v = (Inr (), u) \<and> t = delete_user_rows ?i u)"
            by (auto simp: deleteWithAudit_def delete_user_def transaction_def run_seq split: sum.splits prod.splits)
          then show "users_ok t"
          proof
            assume "\<exists>u. insert_audit row v = (Inr (), u) \<and> t = delete_user_rows ?i u"
            then obtain u where u: "insert_audit row v = (Inr (), u)" and t: "t = delete_user_rows ?i u" by blast
            have us: "users u = users w" "user_challenges u = user_challenges w"
              using run_frame [OF user_platform_frame(11) u] same by simp_all
            show ?thesis unfolding t
            proof (rule users_ok_deleted)
              show "users_ok u" using ok us by (simp add: users_ok_def)
              fix r' assume "r' \<in> set (users u)" "us_id r' = ?i" "us_is_admin r'"
              with row_of_id [OF ok, of r' r] r us 2(2) show "count_admins u > 1"
                by (auto simp: rowToUser_def count_admins_def)
            qed
          qed (use v in simp)
        qed
      qed (use ok in simp)
    qed
  qed
qed

end
