(* ===== verification/UserInvariant.thy ===== *)
theory UserInvariant
  imports UserRules
begin

text \<open>
  The sign-in, code and reset methods keep the rules about users too, so the rules hold in every
  state that any sequence of these operations reaches.
\<close>

section \<open>Challenges\<close>

lemma set_challenge_keeps:
  "(\<And>r. ch_kind (f r) = ch_kind r \<and> ch_user_id (f r) = ch_user_id r) \<Longrightarrow> keeps_rules w (set_challenge i f w)"
  by (auto simp: keeps_rules_def users_ok_def set_challenge_def)

lemma insert_code_keeps: "kind \<noteq> Password_reset \<Longrightarrow> evolves keeps_rules (insert_challenge (code_challenge_row kind i u h now ttl))"
  unfolding insert_challenge_def
  by (rule evolves_guarded) (auto simp: keeps_rules_def users_ok_def code_challenge_row_def)

lemma new_code_keeps: "kind \<noteq> Password_reset \<Longrightarrow> evolves keeps_rules (new_code_challenge E kind ttl u)"
  unfolding new_code_challenge_def randomSixDigitCode_def
  by (intro rules.seq rules.keeps insert_code_keeps frame_keeps user_platform_frame)

lemma createMfaOtp_keeps: "evolves keeps_rules (createMfaOtpAndSendEmail E user)"
  unfolding createMfaOtpAndSendEmail_def
  by (intro rules.seq rules.keeps rules.branch_pair new_code_keeps frame_keeps user_platform_frame) simp

lemma requestEmailVerification_keeps: "evolves keeps_rules (requestEmailVerification E i)"
  unfolding requestEmailVerification_def createEmailVerificationOtpAndSendEmail_def
  by (intro rules.seq rules.keeps rules.branch rules.branch_pair new_code_keeps deletes_keep frame_keeps user_platform_frame) simp

lemma wrong_guess_keeps: "evolves keeps_rules (wrong_guess E i)"
  unfolding wrong_guess_def incrementOtpFailedAttempts_def
  by (intro rules.seq rules.branch rules.keeps deletes_keep evolves_updating set_challenge_keeps) auto

lemma check_otp_keeps: "evolves keeps_rules (check_otp E kind i u code)"
  unfolding check_otp_def
  by (intro rules.seq rules.branch rules.branch_option rules.keeps deletes_keep wrong_guess_keeps frame_keeps user_platform_frame)

lemma verified_patch_safe:
  "safe_patch i (no_patch\<lparr>up_emailVerifiedAt := v\<rparr>) w"
  by (simp add: safe_patch_def no_patch_def)

lemma verified_keeps: "evolves keeps_rules (update_user_row i (no_patch\<lparr>up_emailVerifiedAt := v\<rparr>))"
  by (rule evolvesI) (auto simp: keeps_rules_def intro: update_user_row_ok verified_patch_safe)

lemma verifyEmail_keeps: "evolves keeps_rules (verifyEmailVerificationOtpAndConsume E i u code)"
  unfolding verifyEmailVerificationOtpAndConsume_def markEmailVerified_def
  by (intro rules.seq rules.branch rules.branch_option rules.keeps check_otp_keeps verified_keeps frame_keeps user_platform_frame)

section \<open>Passwords\<close>

text \<open>Setting a password is safe for a user who is no test user.\<close>

definition real_user :: "string \<Rightarrow> world \<Rightarrow> bool" where
  "real_user i w \<longleftrightarrow> (\<exists>u \<in> set (users w). us_id u = i \<and> \<not> us_is_test_user u)"

lemma password_patch_safe:
  assumes "users_ok w" and "real_user i w" and "up_isAdmin p = None"
  shows "safe_patch i p w"
  using assms row_of_id [OF assms(1)] by (auto simp: safe_patch_def real_user_def)

lemma stored_password_not_empty:
  assumes "verifyPassword E meth pw stored w = (Inr v, t)" and "pv_ok v"
  shows "stored \<noteq> []"
  using verifyPassword_ok [OF assms] by (auto simp: isArgon2StoredHash_def isMd5HexStoredHash_def js_trim_def)

text \<open>A password sign-in never finds a test user, and keeps the rules when it upgrades a stored hash.\<close>

lemma verifyPassword_at: "verifyPassword E meth pw h s = (y, v) \<Longrightarrow> v = s"
  by (rule verifyPassword_pure)

lemma verifyUsernamePassword_keeps: "evolves keeps_rules (verifyUsernamePassword E name pw)"
proof (rule evolvesI)
  fix w x t assume run: "verifyUsernamePassword E name pw w = (x, t)"
  show "keeps_rules w t" unfolding keeps_rules_def
  proof
    assume ok: "users_ok w"
    show "users_ok t"
    proof (cases "findByUsername (js_trim name) w")
      case None
      with run ok show ?thesis by (auto simp: verifyUsernamePassword_def)
    next
      case (Some r)
      let ?after = "\<lambda>v. if \<not> pv_ok v then ret None
         else (case pv_rehash v of None \<Rightarrow> ret (Some r)
           | Some h \<Rightarrow> seq (update_user_row (us_id r) (no_patch\<lparr>up_passwordHash := Some h\<rparr>)) (\<lambda>_.
               ret (Some (r\<lparr>us_password_hash := h\<rparr>))))"
      from run Some have "seq (hash_policy E) (\<lambda>meth. seq (verifyPassword E meth pw (us_password_hash r)) ?after) w = (x, t)"
        by (simp add: verifyUsernamePassword_def)
      then show ?thesis
      proof (rule seq_ends)
        show "users_ok v" if "hash_policy E w = (Inl e, v)" for e v using hash_policy_state [OF that] ok by simp
        fix meth s assume "hash_policy E w = (Inr meth, s)"
          and rest: "seq (verifyPassword E meth pw (us_password_hash r)) ?after s = (x, t)"
        then have s: "s = w" by (auto dest: hash_policy_state)
        from rest [unfolded s] show "users_ok t"
        proof (rule seq_ends)
          show "users_ok v" if "verifyPassword E meth pw (us_password_hash r) w = (Inl e, v)" for e v
            using verifyPassword_at [OF that] ok by simp
          fix v u assume v: "verifyPassword E meth pw (us_password_hash r) w = (Inr v, u)" and after: "?after v u = (x, t)"
          have u: "u = w" using v by (rule verifyPassword_at)
          show "users_ok t"
          proof (cases "pv_ok v")
            case True
            with v stored_password_not_empty have "us_password_hash r \<noteq> []" by blast
            moreover have r: "r \<in> set (users w)" using Some by (auto simp: findByUsername_def dest: find_in_set)
            ultimately have real: "real_user (us_id r) w" using ok by (auto simp: users_ok_def real_user_def)
            have "safe_patch (us_id r) (no_patch\<lparr>up_passwordHash := Some h\<rparr>) w" for h
              by (intro password_patch_safe [OF ok real]) (simp add: no_patch_def)
            with ok after u True show ?thesis
              by (auto simp: run_seq split: option.splits sum.splits prod.splits intro: update_user_row_ok)
          qed (use after u ok in simp)
        qed
      qed
    qed
  qed
qed

lemma verifyUsernamePassword_real:
  assumes run: "verifyUsernamePassword E name pw w = (Inr (Some user), t)" and ok: "users_ok w"
  shows "\<not> us_is_test_user user"
proof -
  from run obtain r meth v s s' where r: "findByUsername (js_trim name) w = Some r"
    and v: "verifyPassword E meth pw (us_password_hash r) s = (Inr v, s')" "pv_ok v"
    and user: "us_is_test_user user = us_is_test_user r"
    unfolding verifyUsernamePassword_def
    by (auto simp: seq_Inr split: option.splits if_splits)
  from r have "r \<in> set (users w)" by (auto simp: findByUsername_def dest: find_in_set)
  moreover have "us_password_hash r \<noteq> []" using v by (rule stored_password_not_empty)
  ultimately show ?thesis using ok user by (auto simp: users_ok_def)
qed

section \<open>Resets\<close>

lemma send_reset_keeps:
  assumes run: "send_reset E site siteUrl i to w = (x, t)" and ok: "users_ok w" and real: "real_user i w"
  shows "users_ok t"
proof -
  let ?sign = "\<lambda>c e. seq (signPasswordResetJwt E c i e) (\<lambda>token.
     seq (outcome (fromAddress E (http_url siteUrl))) (\<lambda>from_addr.
     send_mail E (ResetNotice to (title_or site ''Password reset'') from_addr
       (reset_url E ''/reset-password'' token) (reset_url E ''/reset-password/cancel'' token))))"
  have kid: "evolves same_users (reset_kid E)"
    unfolding reset_kid_def need_text_def Let_def
    by (auto simp: evolves_def same_users_def split: r2_answer.split option.split)
  have sign: "evolves keeps_rules (?sign c e)" for c e
    unfolding signPasswordResetJwt_def
    by (intro rules.seq rules.keeps frame_keeps user_platform_frame kid)
  have store: "users_ok (s\<lparr>user_challenges := user_challenges s @ [reset_challenge_row c i n]\<rparr>)"
    if "users_ok s" "real_user i s" for s c n
    using that unfolding users_ok_def real_user_def reset_challenge_row_def by auto
  let ?v = "(drop_challenges (\<lambda>r. ch_user_id r = i \<and> ch_kind r = Password_reset) w)\<lparr>draws := Suc (draws w), ticks := Suc (ticks w)\<rparr>"
  let ?row = "reset_challenge_row (uuid E (draws w)) i (clock E (ticks w))"
  have v: "users_ok ?v" "real_user i ?v"
    using ok real by (auto simp: users_ok_def real_user_def drop_challenges_def)
  have "seq (insert_challenge ?row) (\<lambda>_. ?sign (uuid E (draws w)) (clock E (ticks w) + PASSWORD_RESET_JWT_TTL_SECONDS * 1000)) ?v = (x, t)"
    using run by (simp add: send_reset_def deleteByUserIdAndKind_def drop_challenges_def)
  then show ?thesis
  proof (rule seq_ends)
    fix e s assume "insert_challenge ?row ?v = (Inl e, s)"
    then have "s = ?v" by (simp add: insert_challenge_def guarded_Inl)
    with v(1) show "users_ok s" by simp
  next
    fix y s assume "insert_challenge ?row ?v = (Inr y, s)"
      and rest: "?sign (uuid E (draws w)) (clock E (ticks w) + PASSWORD_RESET_JWT_TTL_SECONDS * 1000) s = (x, t)"
    then have "s = ?v\<lparr>user_challenges := user_challenges ?v @ [?row]\<rparr>" by (simp add: insert_challenge_def guarded_Inr)
    with store [OF v] have "users_ok s" by blast
    with evolvesD [OF sign rest] show "users_ok t" by (simp add: keeps_rules_def)
  qed
qed

lemma requestPasswordReset_keeps: "evolves keeps_rules (requestPasswordReset E addr)"
proof (rule evolvesI)
  fix w x t assume run: "requestPasswordReset E addr w = (x, t)"
  show "keeps_rules w t"
  proof (cases "t = w")
    case False
    with run obtain user site siteUrl to where "findByEmail (js_lower (js_trim addr)) w = Some user" "\<not> us_is_test_user user"
      and sent: "send_reset E site siteUrl (us_id user) to w = (x, t)"
      by (auto simp: requestPasswordReset_def Let_def split: if_splits option.splits)
    then have "real_user (us_id user) w"
      by (auto simp: findByEmail_def Let_def real_user_def dest!: find_in_set split: if_splits)
    with send_reset_keeps [OF sent] show ?thesis by (simp add: keeps_rules_def)
  qed (simp add: keeps_rules_def)
qed

lemma sendExpired_keeps: "evolves keeps_rules (sendExpiredPasswordReset E user)"
  unfolding sendExpiredPasswordReset_def
  by (intro rules.seq rules.keeps rules.branch rules.branch_option requestPasswordReset_keeps)

lemma cancel_keeps: "evolves keeps_rules (cancelPasswordReset E token)"
  unfolding cancelPasswordReset_def
  by (intro rules.seq rules.keeps rules.branch rules.branch_option rules.branch_pair deletes_keep frame_keeps
      clock_frame verify_reset_clock)

lemma live_link_real: "users_ok w \<Longrightarrow> live_link i u w \<Longrightarrow> real_user u w"
  unfolding users_ok_def live_link_def real_user_def challenge_by_id_def by (blast dest: find_in_set)

lemma check_reset_link_clock: "evolves only_clock (check_reset_link E token)"
  unfolding check_reset_link_def
  by (intro clock_only.rules verify_reset_clock clock_only_steps)

lemma set_new_password_ok:
  assumes run: "set_new_password E i pw w = (x, t)" and ok: "users_ok w" and real: "real_user i w"
  shows "users_ok t"
proof -
  have step: "users_ok t'" if "update_user_row i (no_patch\<lparr>up_passwordHash := Some h, up_passwordUpdatedAt := v\<rparr>) s = (y, t')"
    and "same_users w s" for h v s y t'
  proof -
    have s: "users_ok s" "real_user i s" using that(2) ok real by (auto simp: same_users_def users_ok_def real_user_def)
    then have "safe_patch i (no_patch\<lparr>up_passwordHash := Some h, up_passwordUpdatedAt := v\<rparr>) s"
      by (rule password_patch_safe) (simp add: no_patch_def)
    from update_user_row_ok [OF s(1) this that(1)] show ?thesis .
  qed
  have hash: "evolves same_users (hash_policy E)" "\<And>meth. evolves same_users (hashPassword E meth pw)"
    by (intro user_platform_frame)+
  from run [unfolded set_new_password_def] show ?thesis
  proof (rule seq_ends)
    show "users_ok v" if "hash_policy E w = (Inl e, v)" for e v
      using run_frame [OF hash(1) that] ok by (simp add: users_ok_def)
    fix meth s assume p: "hash_policy E w = (Inr meth, s)"
      and rest: "seq (hashPassword E meth pw) (\<lambda>hashed. seq (now_iso E) (\<lambda>changed.
        update_user_row i (no_patch\<lparr>up_passwordHash := Some hashed, up_passwordUpdatedAt := Some (Some changed)\<rparr>))) s = (x, t)"
    have s: "same_users w s" using run_frame [OF hash(1) p] by (simp add: same_users_def)
    from rest show "users_ok t"
    proof (rule seq_ends)
      show "users_ok v" if "hashPassword E meth pw s = (Inl e, v)" for e v
        using run_frame [OF hash(2) that] s ok by (simp add: users_ok_def same_users_def)
      fix h v assume h: "hashPassword E meth pw s = (Inr h, v)"
        and up: "seq (now_iso E) (\<lambda>changed.
          update_user_row i (no_patch\<lparr>up_passwordHash := Some h, up_passwordUpdatedAt := Some (Some changed)\<rparr>)) v = (x, t)"
      have "same_users w (v\<lparr>ticks := Suc (ticks v)\<rparr>)" using run_frame [OF hash(2) h] s by (simp add: same_users_def)
      with step up show "users_ok t" by simp
    qed
  qed
qed

lemma complete_keeps: "evolves keeps_rules (completePasswordReset E token pw)"
proof (rule evolvesI)
  fix w x t assume run: "completePasswordReset E token pw w = (x, t)"
  show "keeps_rules w t" unfolding keeps_rules_def
  proof
    assume ok: "users_ok w"
    have after: "evolves keeps_rules (seq (now_iso E) (\<lambda>consumed. seq (markConsumed i consumed) (\<lambda>_. logAction E a b c d e)))"
      for i a b c d e
      unfolding markConsumed_def
      by (intro rules.seq rules.writes set_challenge_keeps frame_keeps user_platform_frame) simp
    from run show "users_ok t"
      unfolding completePasswordReset_def
    proof (rule seq_ends)
      show "users_ok v" if "check_reset_link E token w = (Inl e, v)" for e v
        using run_frame [OF clock_frame [OF check_reset_link_clock] that] ok by (simp add: users_ok_def)
      fix p v assume link: "check_reset_link E token w = (Inr p, v)"
        and rest: "(case p of (challengeId, userId) \<Rightarrow> seq (set_new_password E userId pw) (\<lambda>_.
           seq (now_iso E) (\<lambda>consumed. seq (markConsumed challengeId consumed) (\<lambda>_.
           logAction E (Some userId) (audit_action_name UserPasswordReset) (audit_resource_name UserResource) (Some userId)
             [(''challengeId'', DText challengeId)])))) v = (x, t)"
      obtain i u where p: "p = (i, u)" by (cases p)
      have same: "users v = users w" "user_challenges v = user_challenges w"
        using run_frame [OF clock_frame [OF check_reset_link_clock] link] by simp_all
      have "live_link i u w" using check_reset_link_Inr(2) [of E token w i u v] link p by auto
      then have "real_user u w" by (rule live_link_real [OF ok])
      then have v: "users_ok v" "real_user u v" using ok same by (auto simp: users_ok_def real_user_def)
      from rest [unfolded p prod.case] show "users_ok t"
      proof (rule seq_ends)
        show "users_ok s" if "set_new_password E u pw v = (Inl e, s)" for e s
          using set_new_password_ok [OF that v] .
        fix y s assume set_pw: "set_new_password E u pw v = (Inr y, s)"
          and "seq (now_iso E) (\<lambda>consumed. seq (markConsumed i consumed) (\<lambda>_.
             logAction E (Some u) (audit_action_name UserPasswordReset) (audit_resource_name UserResource) (Some u)
               [(''challengeId'', DText i)])) s = (x, t)"
        from evolvesD [OF after this(2)] set_new_password_ok [OF set_pw v] show "users_ok t"
          by (simp add: keeps_rules_def)
      qed
    qed
  qed
qed


section \<open>Reachable states\<close>

text \<open>
  One step: any of the operations on users and challenges, however it ends, or anything else
  that leaves those two tables alone.
\<close>

inductive user_step :: "cfg \<Rightarrow> hash_method \<Rightarrow> world \<Rightarrow> world \<Rightarrow> bool" for E meth where
  create: "createUser E meth p w = (x, t) \<Longrightarrow> user_step E meth w t"
| update: "updateUser E meth idOrUsername ups actor w = (x, t) \<Longrightarrow> user_step E meth w t"
| delete: "deleteUser E idOrUsername actor w = (y, t) \<Longrightarrow> user_step E meth w t"
| sign_in: "verifyUsernamePassword E name pw w = (v, t) \<Longrightarrow> user_step E meth w t"
| send_code: "createMfaOtpAndSendEmail E user w = (c, t) \<Longrightarrow> user_step E meth w t"
| check_code: "verifyMfaOtpAndConsume E i u code w = (r, t) \<Longrightarrow> user_step E meth w t"
| send_verification: "requestEmailVerification E u w = (d, t) \<Longrightarrow> user_step E meth w t"
| check_verification: "verifyEmailVerificationOtpAndConsume E i u code w = (r, t) \<Longrightarrow> user_step E meth w t"
| request_reset: "requestPasswordReset E addr w = (y, t) \<Longrightarrow> user_step E meth w t"
| expired_reset: "sendExpiredPasswordReset E user w = (b, t) \<Longrightarrow> user_step E meth w t"
| complete_reset: "completePasswordReset E token pw w = (y, t) \<Longrightarrow> user_step E meth w t"
| cancel_reset: "cancelPasswordReset E token w = (y, t) \<Longrightarrow> user_step E meth w t"
| expire: "deleteExpiredBefore cutoff w = (n, t) \<Longrightarrow> user_step E meth w t"
| elsewhere: "same_users w t \<Longrightarrow> user_step E meth w t"

inductive_cases user_stepE: "user_step E meth w t"

lemma deleteExpiredBefore_keeps: "evolves keeps_rules (deleteExpiredBefore cutoff)"
  unfolding deleteExpiredBefore_def
  by (rule evolves_updating) (auto simp: keeps_rules_def users_ok_def drop_challenges_def)

lemmas operations_keep =
  createUser_keeps updateUser_keeps deleteUser_keeps verifyUsernamePassword_keeps createMfaOtp_keeps
  check_otp_keeps [of E Mfa_otp for E, folded verifyMfaOtpAndConsume_def] requestEmailVerification_keeps
  verifyEmail_keeps requestPasswordReset_keeps sendExpired_keeps complete_keeps cancel_keeps deleteExpiredBefore_keeps

lemma user_step_keeps: "user_step E meth w t \<Longrightarrow> keeps_rules w t"
  by (elim user_stepE; (drule operations_keep [THEN evolvesD])?)
    (auto simp: keeps_rules_def dest: same_users_ok)

text \<open>
  C7. From a database that keeps the rules about users, no sequence of operations on users,
  one-time codes and password resets (successful or not, in any order, with anything else in
  between) leaves them: there is always an administrator, ids stay unique, a test user is never
  an administrator, never has a password and never a pending reset, and so no password signs a
  test user in.
\<close>

theorem user_rules_invariant:
  assumes "(user_step E meth)\<^sup>*\<^sup>* w t" and "users_ok w"
  shows "users_ok t \<and> (\<exists>u \<in> set (users t). us_is_admin u)
    \<and> (\<forall>name pw user s. verifyUsernamePassword E name pw t = (Inr (Some user), s) \<longrightarrow> \<not> us_is_test_user user)"
proof -
  from assms have "users_ok t"
    by (induction rule: rtranclp_induct) (auto dest: user_step_keeps simp: keeps_rules_def)
  then show ?thesis using verifyUsernamePassword_real by (auto simp: users_ok_def)
qed

end
