(* ===== verification/ResetLinks.thy ===== *)
theory ResetLinks
  imports UserInvariant
begin

text \<open>
  What becomes of a password reset link: once it is dead (used, cancelled or superseded), no
  operation on users, codes and resets brings it back, because a new pending row has a new id.
\<close>

section \<open>Steps that leave the challenges alone\<close>

text \<open>The random source is never read backwards.\<close>

definition calm :: "world \<Rightarrow> world \<Rightarrow> bool" where
  "calm s t \<longleftrightarrow> user_challenges t = user_challenges s \<and> draws s \<le> draws t"

interpretation calm: evolution calm
  by unfold_locales (auto simp: calm_def)

lemma calm_self [simp]: "calm w w"
  by (simp add: calm_def)

lemma calm_pure: "(\<And>s r t. m s = (r, t) \<Longrightarrow> t = s) \<Longrightarrow> evolves calm m"
  by (rule evolvesI) (auto simp: calm_def)

lemma calm_platform:
  "evolves calm (now_ms E)" "evolves calm (now_iso E)" "evolves calm (randomUUID E)"
  "evolves calm (getRandomValues E n)" "evolves calm (randomUUIDs E n)"
  "evolves calm (hashPassword E meth pw)" "evolves calm (hash_policy E)" "evolves calm (verifyPassword E meth pw h)"
  "evolves calm (send_mail E msg)" "evolves calm (insert_audit r)" "evolves calm (buildRow E a b c d e)"
proof -
  show "evolves calm (insert_audit r)" unfolding insert_audit_def by (rule evolves_guarded) (auto simp: calm_def)
  show "evolves calm (buildRow E a b c d e)" by (rule evolvesI) (auto simp: buildRow_def calm_def)
  show "evolves calm (send_mail E msg)" unfolding send_mail_def by (intro calm.rules)
  show "evolves calm (hashPassword E meth pw)" by (rule calm_pure) (rule hashPassword_pure)
  show "evolves calm (verifyPassword E meth pw h)" by (rule calm_pure) (rule verifyPassword_pure)
  show "evolves calm (hash_policy E)" by (rule calm_pure) (rule hash_policy_state)
qed (auto simp: evolves_def calm_def)

lemma calm_audit: "evolves calm (logAction E a b c d e)"
  unfolding logAction_def by (intro calm.rules calm_platform)

lemma calm_user_rows: "evolves calm (create_user r)" "evolves calm (update_user_row i p)"
  unfolding create_user_def update_user_row_def
  by (intro calm.rules evolves_guarded; simp add: calm_def)+

lemma calm_transaction: "evolves calm m \<Longrightarrow> evolves calm (transaction m)"
  by (rule evolvesI) (auto simp: transaction_def calm_def split: sum.splits prod.splits dest: evolvesD)

lemma calm_environments: "evolves calm (setUserEnvironments E i es)"
  unfolding setUserEnvironments_def Let_def
  by (intro calm.rules calm_platform calm_transaction evolves_guarded) (auto simp: calm_def)

lemma calm_patch: "evolves calm (build_patch E meth current ups actor)"
  unfolding build_patch_def password_patch_def admin_patch_def avatar_patch_def promoteStagedUpload_def Let_def
  by (intro calm.rules calm_platform) (auto simp: calm_def)

lemma calm_create: "evolves calm (createUser E meth p)"
  unfolding createUser_def Let_def
  by (intro calm.rules calm_platform calm_user_rows calm_audit)

lemma calm_sign_in: "evolves calm (verifyUsernamePassword E name pw)"
  unfolding verifyUsernamePassword_def by (intro calm.rules calm_platform calm_user_rows)

lemma calm_signing: "evolves calm (signPasswordResetJwt E i u e)"
proof -
  have "evolves calm (reset_kid E)"
    unfolding reset_kid_def Let_def by (auto simp: evolves_def need_text_def split: r2_answer.split option.split)
  then show ?thesis unfolding signPasswordResetJwt_def by (intro calm.rules calm_platform)
qed

lemma calm_link_check: "evolves calm (check_reset_link E token)" "evolves calm (verifyPasswordResetJwt E token)"
  by (rule evolves_stronger [OF check_reset_link_clock], force simp: only_clock_def calm_def,
      rule evolves_stronger [OF verify_reset_clock], force simp: only_clock_def calm_def)

section \<open>Dead links stay dead\<close>

text \<open>From draw \<open>d\<close> on.\<close>

definition link_fades :: "nat \<Rightarrow> string \<Rightarrow> string \<Rightarrow> world \<Rightarrow> world \<Rightarrow> bool" where
  "link_fades d i u s t \<longleftrightarrow> (d \<le> draws s \<longrightarrow> d \<le> draws t \<and> (link_dead i u s \<longrightarrow> link_dead i u t))"

interpretation fading: evolution "link_fades d i u" for d i u
  by unfold_locales (auto simp: link_fades_def)

lemma calm_fades: "evolves calm m \<Longrightarrow> evolves (link_fades d i u) m"
  by (erule evolves_stronger) (auto simp: calm_def link_fades_def link_dead_def)

lemmas calls_fade = calm_platform [THEN calm_fades] calm_audit [THEN calm_fades] calm_user_rows [THEN calm_fades]
  calm_environments [THEN calm_fades] calm_patch [THEN calm_fades] calm_signing [THEN calm_fades]
  calm_link_check [THEN calm_fades]

lemma dropping_fades: "link_fades d i u w (drop_challenges P w)"
  by (auto simp: link_fades_def link_dead_def drop_challenges_def)

lemma deletes_fade: "evolves (link_fades d i u) (delete_challenge j)" "evolves (link_fades d i u) (deleteByUserIdAndKind v k)"
  unfolding delete_challenge_def deleteByUserIdAndKind_def by (intro fading.writes dropping_fades)+

lemma changing_fades:
  assumes "\<And>r. ch_id (f r) = ch_id r \<and> ch_kind (f r) = ch_kind r \<and> ch_user_id (f r) = ch_user_id r"
    and "\<And>r. truthy (ch_consumed_at r) \<Longrightarrow> truthy (ch_consumed_at (f r))"
  shows "link_fades d i u w (set_challenge j f w)"
  unfolding link_fades_def
proof (intro impI conjI)
  assume "d \<le> draws w"
  then show "d \<le> draws (set_challenge j f w)" by (simp add: set_challenge_def)
  assume dead: "link_dead i u w"
  show "link_dead i u (set_challenge j f w)" unfolding link_dead_def
  proof (intro ballI impI)
    fix r assume "r \<in> set (user_challenges (set_challenge j f w))" and r: "ch_id r = i \<and> ch_kind r = Password_reset \<and> ch_user_id r = u"
    then obtain s where "s \<in> set (user_challenges w)" "r = (if ch_id s = j then f s else s)"
      by (auto simp: set_challenge_def)
    with dead r assms show "truthy (ch_consumed_at r)" by (auto simp: link_dead_def split: if_splits)
  qed
qed

lemma insert_fades:
  "ch_kind r \<noteq> Password_reset \<or> ch_id r \<noteq> i \<Longrightarrow> evolves (link_fades d i u) (insert_challenge r)"
  unfolding insert_challenge_def by (rule evolves_guarded) (auto simp: link_fades_def link_dead_def)

lemma new_code_fades: "kind \<noteq> Password_reset \<Longrightarrow> evolves (link_fades d i u) (new_code_challenge E kind ttl v)"
  unfolding new_code_challenge_def randomSixDigitCode_def
  by (intro fading.rules calls_fade insert_fades) (simp add: code_challenge_row_def)

lemma codes_fade:
  "evolves (link_fades d i u) (createMfaOtpAndSendEmail E user)" "evolves (link_fades d i u) (requestEmailVerification E v)"
  unfolding createMfaOtpAndSendEmail_def requestEmailVerification_def createEmailVerificationOtpAndSendEmail_def
  by (intro fading.rules calls_fade deletes_fade new_code_fades; simp)+

lemma check_fades: "evolves (link_fades d i u) (check_otp E kind j v code)"
  unfolding check_otp_def wrong_guess_def incrementOtpFailedAttempts_def
  by (intro fading.rules calls_fade deletes_fade evolves_updating changing_fades) auto

lemma verification_fades: "evolves (link_fades d i u) (verifyEmailVerificationOtpAndConsume E j v code)"
  unfolding verifyEmailVerificationOtpAndConsume_def markEmailVerified_def
  by (intro fading.rules calls_fade check_fades)

lemma update_fades: "evolves (link_fades d i u) (updateUser E meth who ups actor)"
  unfolding updateUser_def after_update_def audit_update_def Let_def
  by (intro fading.rules calls_fade deletes_fade)

lemma delete_user_fades: "evolves (link_fades d i u) (deleteUser E who actor)"
proof -
  have rows: "link_fades d i u w (delete_user_rows j w)" for j w
    by (auto simp: link_fades_def link_dead_def delete_user_rows_def delete_api_keys_def Let_def)
  have batch: "evolves (link_fades d i u) (transaction m)" if "evolves (link_fades d i u) m" for m :: "unit m"
    by (rule evolvesI) (auto simp: transaction_def fading.refl split: sum.splits prod.splits dest: evolvesD [OF that])
  show ?thesis unfolding deleteUser_def deleteWithAudit_def delete_user_def
    by (intro fading.rules calls_fade batch rows)
qed

text \<open>A new link has a new id.\<close>

lemma send_reset_fades:
  assumes "\<forall>n \<ge> d. uuid E n \<noteq> i"
  shows "evolves (link_fades d i u) (send_reset E site siteUrl v to)"
proof -
  have new: "evolves (link_fades d i u) (seq (randomUUID E) (\<lambda>c. seq (now_ms E) (\<lambda>now.
      seq (insert_challenge (reset_challenge_row c v now)) (f c now))))"
    if "\<And>c now x. evolves (link_fades d i u) (f c now x)" for f
  proof (rule evolvesI)
    fix s r t assume run: "seq (randomUUID E) (\<lambda>c. seq (now_ms E) (\<lambda>now.
      seq (insert_challenge (reset_challenge_row c v now)) (f c now))) s = (r, t)"
    show "link_fades d i u s t"
    proof (cases "d \<le> draws s")
      case True
      let ?c = "uuid E (draws s)" and ?now = "clock E (ticks s)"
      let ?s = "s\<lparr>draws := Suc (draws s), ticks := Suc (ticks s)\<rparr>"
      have "evolves (link_fades d i u) (seq (insert_challenge (reset_challenge_row ?c v ?now)) (f ?c ?now))"
        using assms True that by (intro fading.seq insert_fades) (simp_all add: reset_challenge_row_def)
      moreover have "seq (insert_challenge (reset_challenge_row ?c v ?now)) (f ?c ?now) ?s = (r, t)" using run by simp
      ultimately have "link_fades d i u ?s t" by (rule evolvesD)
      moreover have "link_fades d i u s ?s" by (auto simp: link_fades_def link_dead_def)
      ultimately show ?thesis by (rule fading.trans [rotated])
    qed (simp add: link_fades_def)
  qed
  show ?thesis unfolding send_reset_def
    by (intro fading.seq deletes_fade new calls_fade fading.keeps)
qed

lemma request_fades:
  assumes "\<forall>n \<ge> d. uuid E n \<noteq> i"
  shows "evolves (link_fades d i u) (requestPasswordReset E addr)" "evolves (link_fades d i u) (sendExpiredPasswordReset E user)"
proof -
  show request: "evolves (link_fades d i u) (requestPasswordReset E addr)" for addr
    unfolding requestPasswordReset_def Let_def by (intro fading.rules send_reset_fades assms)
  show "evolves (link_fades d i u) (sendExpiredPasswordReset E user)"
    unfolding sendExpiredPasswordReset_def by (intro fading.rules request)
qed

lemma complete_fades: "evolves (link_fades d i u) (completePasswordReset E token pw)"
proof -
  have mark: "evolves (link_fades d i u) (seq (now_iso E) (\<lambda>consumed. seq (markConsumed j consumed) f))"
    if "\<And>x. evolves (link_fades d i u) (f x)" for j f
    by (rule fading.seq_value [OF calls_fade(2)])
      (auto simp: markConsumed_def now_iso_def prog_inv truthy_def toISOString_nonempty
        intro!: fading.seq fading.writes changing_fades that)
  show ?thesis unfolding completePasswordReset_def set_new_password_def
    by (intro fading.seq fading.branch_pair calls_fade mark)
qed

lemma cancel_fades: "evolves (link_fades d i u) (cancelPasswordReset E token)"
  unfolding cancelPasswordReset_def by (intro fading.rules calls_fade deletes_fade)

lemma expire_fades: "evolves (link_fades d i u) (deleteExpiredBefore cutoff)"
  unfolding deleteExpiredBefore_def by (intro evolves_updating dropping_fades)

lemma user_step_fades:
  assumes "user_step E meth s t" and "draws s \<le> draws t" and new: "\<forall>n \<ge> d. uuid E n \<noteq> i"
  shows "link_fades d i u s t"
  using assms(1)
proof cases
  case elsewhere
  with assms(2) show ?thesis by (auto simp: link_fades_def link_dead_def same_users_def)
qed (erule evolvesD [OF calm_fades [OF calm_create]] evolvesD [OF update_fades] evolvesD [OF delete_user_fades]
       evolvesD [OF calm_fades [OF calm_sign_in]] evolvesD [OF codes_fade(1)]
       evolvesD [OF check_fades [of d i u E Mfa_otp, folded verifyMfaOtpAndConsume_def]] evolvesD [OF codes_fade(2)]
       evolvesD [OF verification_fades] evolvesD [OF request_fades(1) [OF new]] evolvesD [OF request_fades(2) [OF new]]
       evolvesD [OF complete_fades] evolvesD [OF cancel_fades] evolvesD [OF expire_fades])+

lemma user_steps_fade:
  assumes "(\<lambda>s t. user_step E meth s t \<and> draws s \<le> draws t)\<^sup>*\<^sup>* s t" and "\<forall>n \<ge> d. uuid E n \<noteq> i"
  shows "link_fades d i u s t"
  using assms(1)
proof (induction rule: rtranclp_induct)
  case (step s' t)
  then show ?case using user_step_fades assms(2) fading.trans by blast
qed (rule fading.refl)

text \<open>
  C20. A reset link dies when it is used, when it is cancelled, and when its user is sent a newer
  one: from then on, whatever operations on users, one-time codes and resets follow (with anything
  in between that leaves users and challenges alone), completing a reset with its token is refused
  and changes nothing but the clock. The hypotheses say which row and user the token names, and
  that the ids drawn from then on are new: none of them is the link's (the number of draws only grows).
\<close>

theorem dead_reset_link:
  assumes "reset_token_for E token i userId"
    and "completePasswordReset E token newPassword w = (Inr (), t)
      \<or> cancelPasswordReset E token w = (Inr (), t)
      \<or> send_reset E site siteUrl userId to w = (x, t)"
    and "\<forall>n \<ge> draws w. uuid E n \<noteq> i"
    and "(\<lambda>s t. user_step E meth s t \<and> draws s \<le> draws t)\<^sup>*\<^sup>* t u"
  shows "\<exists>e v. completePasswordReset E token otherPassword u = (Inl e, v) \<and> only_clock u v"
proof (rule dead_link_refused [OF assms(1)])
  have "link_dead i userId t"
    using assms(2)
  proof (elim disjE)
    assume "completePasswordReset E token newPassword w = (Inr (), t)"
    then obtain j who h v where "check_reset_link E token w = (Inr (j, who), v)" and eff: "reset_effect E j who h w t"
      using completePasswordReset_Inr by blast
    then obtain v' where "verifyPasswordResetJwt E token w = (Inr (j, who), v')"
      using check_reset_link_Inr(2) by blast
    with verify_reset_names [OF assms(1)] eff completed_link_dead show ?thesis by blast
  next
    assume "send_reset E site siteUrl userId to w = (x, t)"
    then show ?thesis using superseded_link_dead assms(3) by blast
  qed (use cancelled_link_dead [OF _ assms(1)] in blast)
  moreover have "link_fades (draws w) i userId w t"
    using assms(2)
    by (elim disjE) (erule evolvesD [OF complete_fades] evolvesD [OF cancel_fades] evolvesD [OF send_reset_fades [OF assms(3)]])+
  moreover have "link_fades (draws w) i userId t u" by (rule user_steps_fade [OF assms(4) assms(3)])
  ultimately show "\<not> live_link i userId u" by (intro link_dead_not_live) (auto simp: link_fades_def)
qed

end
