(* ===== verification/ClientAdmin.thy ===== *)
theory ClientAdmin
  imports Issue ClientAuth AuditLog CodeStore UserStore Params
begin

text \<open>
  Administration of clients: \<open>client.service.ts\<close>, the writing half of
  \<open>client.repository.d1.ts\<close> with the cascades of the schema, and \<open>config/client-key-prefix.ts\<close>.
\<close>

section \<open>Repository\<close>

definition client_violated :: "client_row \<Rightarrow> world \<Rightarrow> string option" where
  "client_violated r w =
     (if cl_id r \<in> set (List.map cl_id (clients w)) then Some ''UNIQUE constraint failed: clients.id''
      else if cl_client_id r \<in> set (List.map cl_client_id (clients w))
        then Some ''UNIQUE constraint failed: clients.client_id''
      else if cl_is_test r \<and> cl_is_dynamic r then Some ''CHECK constraint failed: is_test = 0 OR is_dynamic = 0''
      else if cl_environment_id r \<notin> set (List.map env_id (environments w)) then Some ''FOREIGN KEY constraint failed''
      else if (case cl_created_by r of None \<Rightarrow> False | Some u \<Rightarrow> u \<notin> set (List.map us_id (users w)))
        then Some ''FOREIGN KEY constraint failed''
      else None)"

definition create_client :: "client_row \<Rightarrow> unit m" where
  "create_client r = guarded (client_violated r) (\<lambda>w. w\<lparr>clients := clients w @ [r]\<rparr>)"

definition list_clients :: "string option \<Rightarrow> world \<Rightarrow> client list" where
  "list_clients environmentId w =
     List.map (rowToClient w) (sort_key cl_client_id
       (case environmentId of
          None \<Rightarrow> clients w | Some e \<Rightarrow> filter (\<lambda>r. cl_environment_id r = e) (clients w)))"

text \<open>Deleting grants deletes the scope links of everything that was issued or registered under them.\<close>

definition drop_client_scopes :: "(client_scope_row \<Rightarrow> bool) \<Rightarrow> world \<Rightarrow> world" where
  "drop_client_scopes P w =
     (let dead = List.map cs_id (filter P (client_scopes w));
          live = filter (\<lambda>l. lk_client_scope_id l \<notin> set dead)
      in w\<lparr>client_scopes := filter (\<lambda>r. \<not> P r) (client_scopes w),
           token_scopes := live (token_scopes w),
           authorization_code_scopes := live (authorization_code_scopes w),
           refresh_token_scopes := live (refresh_token_scopes w),
           api_key_scopes := live (api_key_scopes w)\<rparr>)"

definition delete_client_rows :: "string \<Rightarrow> world \<Rightarrow> world" where
  "delete_client_rows i w =
     (if i \<notin> set (List.map cl_id (clients w)) then w
      else
        (let w = delete_api_keys (\<lambda>k. ak_client_id k = i) w;
             w = delete_tokens (\<lambda>t. at_client_id t = i) w;
             w = delete_refresh (\<lambda>r. rt_client_id r = i) w;
             w = delete_codes (\<lambda>r. ac_client_id r = i) w;
             w = drop_client_scopes (\<lambda>r. cs_client_id r = i) w
         in w\<lparr>clients := filter (\<lambda>r. cl_id r \<noteq> i) (clients w),
              redirect_uris := filter (\<lambda>r. ru_client_id r \<noteq> i) (redirect_uris w),
              client_claims := filter (\<lambda>r. cc_client_id r \<noteq> i) (client_claims w),
              user_consents := filter (\<lambda>r. co_client_id r \<noteq> i) (user_consents w),
              site_admin_api_clients := filter (\<lambda>c. c \<noteq> i) (site_admin_api_clients w)\<rparr>))"

definition delete_client_by_id :: "string \<Rightarrow> unit m" where
  "delete_client_by_id i = writes (delete_client_rows i)"

definition redirect_uri_violated :: "redirect_uri_row \<Rightarrow> world \<Rightarrow> string option" where
  "redirect_uri_violated r w =
     (if ru_id r \<in> set (List.map ru_id (redirect_uris w)) then Some ''UNIQUE constraint failed: redirect_uris.id''
      else if ru_client_id r \<notin> set (List.map cl_id (clients w)) then Some ''FOREIGN KEY constraint failed''
      else None)"

definition insert_redirect_uri :: "cfg \<Rightarrow> string \<Rightarrow> string \<Rightarrow> unit m" where
  "insert_redirect_uri E i uri =
     (if js_trim uri = [] then ret ()
      else seq (randomUUID E) (\<lambda>j.
        let r = \<lparr>ru_id = j, ru_client_id = i, ru_redirect_uri = js_trim uri\<rparr>
        in guarded (redirect_uri_violated r) (\<lambda>w. w\<lparr>redirect_uris := redirect_uris w @ [r]\<rparr>)))"

definition setRedirectUris :: "cfg \<Rightarrow> string \<Rightarrow> string list \<Rightarrow> unit m" where
  "setRedirectUris E i uris =
     seq (writes (\<lambda>w. w\<lparr>redirect_uris := filter (\<lambda>r. ru_client_id r \<noteq> i) (redirect_uris w)\<rparr>)) (\<lambda>_.
     each (insert_redirect_uri E i) uris)"

definition getClientScopes :: "string \<Rightarrow> world \<Rightarrow> string list" where
  "getClientScopes i w = List.map cs_scope_id (filter (\<lambda>r. cs_client_id r = i) (client_scopes w))"

definition client_scope_violated :: "client_scope_row \<Rightarrow> world \<Rightarrow> string option" where
  "client_scope_violated r w =
     (if cs_id r \<in> set (List.map cs_id (client_scopes w)) then Some ''UNIQUE constraint failed: client_scopes.id''
      else if cs_scope_id r \<in> set (getClientScopes (cs_client_id r) w)
        then Some ''UNIQUE constraint failed: client_scopes.client_id, client_scopes.scope_id''
      else if cs_client_id r \<notin> set (List.map cl_id (clients w)) then Some ''FOREIGN KEY constraint failed''
      else if cs_scope_id r \<notin> set (List.map sc_id (scopes w)) then Some ''FOREIGN KEY constraint failed''
      else None)"

definition insert_client_scope :: "cfg \<Rightarrow> string \<Rightarrow> string \<Rightarrow> unit m" where
  "insert_client_scope E i scopeId =
     (if scopeId = [] then ret ()
      else seq (randomUUID E) (\<lambda>j.
        let r = \<lparr>cs_id = j, cs_client_id = i, cs_scope_id = scopeId\<rparr>
        in guarded (client_scope_violated r) (\<lambda>w. w\<lparr>client_scopes := client_scopes w @ [r]\<rparr>)))"

definition setClientScopes :: "cfg \<Rightarrow> string \<Rightarrow> string list \<Rightarrow> unit m" where
  "setClientScopes E i scopeIds =
     seq (writes (drop_client_scopes (\<lambda>r. cs_client_id r = i))) (\<lambda>_. each (insert_client_scope E i) scopeIds)"

definition update_client :: "string \<Rightarrow> (client_row \<Rightarrow> client_row) \<Rightarrow> unit m" where
  "update_client i f = writes (\<lambda>w. w\<lparr>clients := List.map (\<lambda>r. if cl_id r = i then f r else r) (clients w)\<rparr>)"

text \<open>\<open>COALESCE(c.home_display_name, c.name, c.client_id)\<close>\<close>

definition home_order :: "client_row \<Rightarrow> string" where
  "home_order r =
     (case cl_home_display_name r of
        Some d \<Rightarrow> d
      | None \<Rightarrow> (case cl_name r of Some n \<Rightarrow> n | None \<Rightarrow> cl_client_id r))"

definition home_clients :: "string \<Rightarrow> world \<Rightarrow> client list" where
  "home_clients now w =
     List.map (rowToClient w) (sort_key home_order
       (filter (\<lambda>r. cl_show_on_home r \<and> cl_home_url r \<noteq> None \<and> \<not> cl_is_test r
          \<and> (case cl_expires_at r of None \<Rightarrow> True | Some e \<Rightarrow> e > now)) (clients w)))"

section \<open>New identifiers and secrets\<close>

definition normalizeClientKeyPrefix :: "string \<Rightarrow> string option" where
  "normalizeClientKeyPrefix v =
     (let normalized = filter (\<lambda>c. CHR ''a'' \<le> c \<and> c \<le> CHR ''z'' \<or> is_digit c) (js_lower (js_trim v))
      in if normalized = [] then None else Some normalized)"

definition resolveClientKeyPrefix :: "cfg \<Rightarrow> string" where
  "resolveClientKeyPrefix E =
     (case Option.bind (ctx_env E ''CLIENT_KEY_PREFIX'') normalizeClientKeyPrefix of
        Some p \<Rightarrow> p
      | None \<Rightarrow> (case Option.bind (process_env E ''CLIENT_KEY_PREFIX'') normalizeClientKeyPrefix of
                   Some p \<Rightarrow> p | None \<Rightarrow> ''eetr''))"

definition client_id_chars :: string where "client_id_chars = ''abcdefghijklmnopqrstuvwxyz0123456789''"

text \<open>\<open>s += chars[...]\<close>: an index out of range would append the text \<open>undefined\<close>.\<close>

fun random_chars :: "cfg \<Rightarrow> nat \<Rightarrow> string m" where
  "random_chars E 0 = ret []"
| "random_chars E (Suc n) =
     seq (\<lambda>w. (Inr (math_random E (draws w) (length client_id_chars)), w\<lparr>draws := Suc (draws w)\<rparr>)) (\<lambda>k.
     seq (random_chars E n) (\<lambda>cs.
     ret ((if k < length client_id_chars then [client_id_chars ! k] else ''undefined'') @ cs)))"

definition generateClientId :: "cfg \<Rightarrow> string \<Rightarrow> string m" where
  "generateClientId E pre = seq (random_chars E 24) (\<lambda>cs. ret (pre @ ''_'' @ cs))"

definition generateClientSecret :: "cfg \<Rightarrow> string m" where
  "generateClientSecret E = seq (getRandomValues E 32) (\<lambda>bytes. ret (hex_bytes bytes))"

section \<open>Home links\<close>

record home_input =
  hi_homeUrl :: "string option"
  hi_homeDisplayName :: "string option"
  hi_showOnHome :: bool

definition HOME_DISPLAY_NAME_MAX_LENGTH :: nat where "HOME_DISPLAY_NAME_MAX_LENGTH = 80"

definition home_url_error :: "cfg \<Rightarrow> string \<Rightarrow> string option" where
  "home_url_error E homeUrl =
     (case parse_url E homeUrl of
        None \<Rightarrow> Some ''The home URL is not a valid URL.''
      | Some u \<Rightarrow> if url_protocol u \<noteq> ''https:'' \<and> url_protocol u \<noteq> ''http:''
                  then Some ''The home URL must start with http:// or https://.'' else None)"

definition normalizeClientHome :: "cfg \<Rightarrow> home_input \<Rightarrow> failure + home_input" where
  "normalizeClientHome E input =
     (let homeUrl = nonblank (hi_homeUrl input); homeDisplayName = nonblank (hi_homeDisplayName input);
          url_error = Option.bind homeUrl (home_url_error E)
      in case url_error of
           Some e \<Rightarrow> Inl (JsError e)
         | None \<Rightarrow>
           if hi_showOnHome input \<and> homeUrl = None
           then Inl (JsError ''Set a home URL before showing the client on the home page.'')
           else if (case homeDisplayName of None \<Rightarrow> False | Some d \<Rightarrow> length d > HOME_DISPLAY_NAME_MAX_LENGTH)
           then Inl (JsError ''The home display name can be at most 80 characters.'')
           else Inr \<lparr>hi_homeUrl = homeUrl, hi_homeDisplayName = homeDisplayName, hi_showOnHome = hi_showOnHome input\<rparr>)"

definition home_details :: "home_input \<Rightarrow> (string \<times> detail) list" where
  "home_details h =
     [(''homeUrl'', dtext (hi_homeUrl h)), (''homeDisplayName'', dtext (hi_homeDisplayName h)),
      (''showOnHome'', DFlag (hi_showOnHome h))]"

record home_link =
  hl_id :: string
  hl_label :: string
  hl_url :: string

definition listHomeLinks :: "cfg \<Rightarrow> home_link list m" where
  "listHomeLinks E =
     seq (now_iso E) (\<lambda>now.
     reads (\<lambda>w. [\<lparr>hl_id = c_id cl,
                  hl_label = (case nonblank (c_homeDisplayName cl) of
                     Some d \<Rightarrow> d
                   | None \<Rightarrow> (case nonblank (c_name cl) of Some n \<Rightarrow> n | None \<Rightarrow> c_clientId cl)),
                  hl_url = the (c_homeUrl cl)\<rparr>.
                 cl \<leftarrow> home_clients now w, truthy (c_homeUrl cl)]))"

section \<open>Service\<close>

record client_details =
  cd_client :: client
  cd_redirectUris :: "string list"
  cd_scopeIds :: "string list"
  cd_claims :: "client_claim_row list"

definition getClientWithDetails :: "string \<Rightarrow> world \<Rightarrow> client_details option" where
  "getClientWithDetails i w =
     map_option (\<lambda>c. \<lparr>cd_client = c, cd_redirectUris = redirect_uris_of i w, cd_scopeIds = getClientScopes i w,
                       cd_claims = claims_by_client i w\<rparr>) (client_by_id i w)"

record new_client =
  nc_environmentId :: string
  nc_createdBy :: "string option"
  nc_redirectUris :: "string list"
  nc_scopeIds :: "string list"
  nc_expiresAt :: "string option"
  nc_name :: "string option"
  nc_tokenEndpointAuthMethod :: "string option"
  nc_isDynamic :: bool
  nc_isTest :: bool
  nc_home :: home_input

definition auth_method :: "new_client \<Rightarrow> string" where
  "auth_method p = (case nc_tokenEndpointAuthMethod p of Some x \<Rightarrow> x | None \<Rightarrow> ''client_secret_basic'')"

definition new_client_row :: "new_client \<Rightarrow> string \<Rightarrow> string \<Rightarrow> string \<Rightarrow> home_input \<Rightarrow> client_row" where
  "new_client_row p i clientId stored home =
     \<lparr>cl_id = i, cl_client_id = clientId, cl_client_secret = stored, cl_environment_id = nc_environmentId p,
      cl_created_by = nc_createdBy p, cl_expires_at = nc_expiresAt p, cl_name = nc_name p,
      cl_token_endpoint_auth_method = auth_method p, cl_is_dynamic = nc_isDynamic p, cl_is_test = nc_isTest p,
      cl_home_url = hi_homeUrl home, cl_home_display_name = hi_homeDisplayName home,
      cl_show_on_home = hi_showOnHome home\<rparr>"

text \<open>The secret and what is stored of it; a public client has neither.\<close>

definition new_secret :: "cfg \<Rightarrow> new_client \<Rightarrow> (string \<times> string) m" where
  "new_secret E p =
     (if auth_method p = ''none'' then ret ([], [])
      else
        seq (need (resolveHmacKey E) (JsError
          ''HMAC_KEY is required to create OAuth clients (set in Wrangler secrets or .dev.vars).'')) (\<lambda>hmacKey.
        seq (generateClientSecret E) (\<lambda>clientSecret.
        ret (clientSecret, hashClientSecretForStorage E clientSecret hmacKey))))"

text \<open>Storing the row, its redirect URIs and grants, reading it back, and the audit entry.\<close>

definition write_client ::
  "cfg \<Rightarrow> new_client \<Rightarrow> string \<Rightarrow> string \<Rightarrow> string \<Rightarrow> home_input \<Rightarrow> client_details option m" where
  "write_client E p i clientId stored home =
     (let uris = filter (\<lambda>u. js_trim u \<noteq> []) (nc_redirectUris p);
          scopeIds = filter (\<lambda>s. s \<noteq> []) (nc_scopeIds p)
      in seq (create_client (new_client_row p i clientId stored home)) (\<lambda>_.
         seq (if uris = [] then ret () else setRedirectUris E i uris) (\<lambda>_.
         seq (if scopeIds = [] then ret () else setClientScopes E i scopeIds) (\<lambda>_.
         seq (reads (getClientWithDetails i)) (\<lambda>details.
         seq (logAction E (nc_createdBy p) (audit_action_name ClientCreate) (audit_resource_name ClientResource) (Some i)
               ([(''clientId'', DText clientId), (''name'', dtext (nc_name p)),
                 (''environmentId'', DText (nc_environmentId p)), (''redirectUris'', DTexts uris),
                 (''scopeIds'', DTexts scopeIds), (''tokenEndpointAuthMethod'', DText (auth_method p)),
                 (''isDynamic'', DFlag (nc_isDynamic p)), (''isTest'', DFlag (nc_isTest p))] @ home_details home)) (\<lambda>_.
         ret details))))))"

definition createClient :: "cfg \<Rightarrow> new_client \<Rightarrow> (client_details option \<times> string) m" where
  "createClient E p =
     seq (throw_when (nc_isTest p \<and> nc_isDynamic p)
           (JsError ''A dynamically registered client cannot be a test client.'')) (\<lambda>_.
     seq (outcome (normalizeClientHome E (nc_home p))) (\<lambda>home.
     seq (randomUUID E) (\<lambda>i.
     seq (generateClientId E (resolveClientKeyPrefix E)) (\<lambda>clientId.
     seq (new_secret E p) (\<lambda>(clientSecret, stored).
     seq (write_client E p i clientId stored home) (\<lambda>details.
     ret (details, clientSecret)))))))"

text \<open>The updates share their shape: look the client up, write, log, read the client again.\<close>

definition with_client ::
  "cfg \<Rightarrow> string \<Rightarrow> string option \<Rightarrow> (client \<Rightarrow> (string \<times> detail) list m) \<Rightarrow> client_details option m" where
  "with_client E i actorUserId change =
     seq (reads (client_by_id i)) (\<lambda>found.
     case found of
       None \<Rightarrow> ret None
     | Some cl \<Rightarrow>
       seq (change cl) (\<lambda>details.
       seq (logAction E actorUserId (audit_action_name ClientUpdate) (audit_resource_name ClientResource) (Some i)
             ((''clientId'', DText (c_clientId cl)) # details)) (\<lambda>_.
       reads (getClientWithDetails i))))"

definition updateRedirectUris :: "cfg \<Rightarrow> string \<Rightarrow> string list \<Rightarrow> string option \<Rightarrow> client_details option m" where
  "updateRedirectUris E i uris actorUserId =
     with_client E i actorUserId (\<lambda>cl.
       let nextUris = filter (\<lambda>u. js_trim u \<noteq> []) uris
       in seq (setRedirectUris E i nextUris) (\<lambda>_.
          ret [(''field'', DText ''redirectUris''), (''redirectUris'', DTexts nextUris)]))"

definition updateScopes :: "cfg \<Rightarrow> string \<Rightarrow> string list \<Rightarrow> string option \<Rightarrow> client_details option m" where
  "updateScopes E i scopeIds actorUserId =
     with_client E i actorUserId (\<lambda>cl.
       let nextScopeIds = filter (\<lambda>s. s \<noteq> []) scopeIds
       in seq (setClientScopes E i nextScopeIds) (\<lambda>_.
          ret [(''field'', DText ''scopeIds''), (''scopeIds'', DTexts nextScopeIds)]))"

definition updateName :: "cfg \<Rightarrow> string \<Rightarrow> string option \<Rightarrow> string option \<Rightarrow> client_details option m" where
  "updateName E i name actorUserId =
     with_client E i actorUserId (\<lambda>cl.
       seq (update_client i (\<lambda>r. r\<lparr>cl_name := name\<rparr>)) (\<lambda>_.
       ret [(''field'', DText ''name''), (''from'', dtext (c_name cl)), (''to'', dtext name)]))"

definition updateHome :: "cfg \<Rightarrow> string \<Rightarrow> home_input \<Rightarrow> string option \<Rightarrow> client_details option m" where
  "updateHome E i input actorUserId =
     with_client E i actorUserId (\<lambda>cl.
       seq (outcome (normalizeClientHome E input)) (\<lambda>home.
       seq (update_client i (\<lambda>r. r\<lparr>cl_home_url := hi_homeUrl home, cl_home_display_name := hi_homeDisplayName home,
              cl_show_on_home := hi_showOnHome home\<rparr>)) (\<lambda>_.
       ret [(''field'', DText ''home''),
            (''from'', DObject [(''homeUrl'', dtext (c_homeUrl cl)), (''homeDisplayName'', dtext (c_homeDisplayName cl)),
                               (''showOnHome'', DFlag (c_showOnHome cl))]),
            (''to'', DObject (home_details home))])))"

definition updateClaims :: "cfg \<Rightarrow> string \<Rightarrow> claim_input list \<Rightarrow> string option \<Rightarrow> bool m" where
  "updateClaims E i cls actorUserId =
     seq (reads (client_by_id i)) (\<lambda>found.
     if found = None then ret False
     else seq (setClientClaims E i cls) (\<lambda>_.
       seq (logAction E actorUserId (audit_action_name ClientUpdate) (audit_resource_name ClientResource) (Some i)
             [(''claims'', DTexts (sort (List.map ci_claimName cls)))]) (\<lambda>_.
       ret True)))"

definition deleteClient :: "cfg \<Rightarrow> string \<Rightarrow> string option \<Rightarrow> bool m" where
  "deleteClient E i actorUserId =
     seq (reads (client_by_id i)) (\<lambda>found.
     case found of
       None \<Rightarrow> ret False
     | Some cl \<Rightarrow>
       seq (delete_client_by_id i) (\<lambda>_.
       seq (logAction E actorUserId (audit_action_name ClientDelete) (audit_resource_name ClientResource) (Some i)
             [(''clientId'', DText (c_clientId cl)), (''name'', dtext (c_name cl)),
              (''environmentId'', DText (c_environmentId cl))]) (\<lambda>_.
       ret True)))"

definition rotateSecret :: "cfg \<Rightarrow> string \<Rightarrow> string option \<Rightarrow> (client \<times> string) option m" where
  "rotateSecret E i actorUserId =
     seq (need (resolveHmacKey E) (JsError
       ''HMAC_KEY is required to rotate OAuth client secrets (set in Wrangler secrets or .dev.vars).'')) (\<lambda>hmacKey.
     seq (reads (client_by_id i)) (\<lambda>found.
     case found of
       None \<Rightarrow> ret None
     | Some cl \<Rightarrow>
       seq (generateClientSecret E) (\<lambda>newSecret.
       seq (updateSecret i (hashClientSecretForStorage E newSecret hmacKey)) (\<lambda>_.
       seq (reads (client_by_id i)) (\<lambda>again.
       case again of
         None \<Rightarrow> ret None
       | Some updated \<Rightarrow>
         seq (logAction E actorUserId (audit_action_name ClientSecretRotate) (audit_resource_name ClientResource) (Some i)
               [(''clientId'', DText (c_clientId cl))]) (\<lambda>_.
         ret (Some (updated, newSecret))))))))"


section \<open>Secrets\<close>

text \<open>A secret stored as its HMAC is checked against exactly that HMAC.\<close>

lemma check_stored_secret:
  assumes "c_clientSecret cl = hashClientSecretForStorage E secret key" and "resolveHmacKey E = Some key"
    and "c_tokenEndpointAuthMethod cl \<noteq> ''none''"
  shows "check_secret E cl (Some presented) w =
    (if presented = [] then (Inl (oauth Invalid_client ''Missing client credentials.'' 401), w)
     else if hmac_sha256 E presented key = hmac_sha256 E secret key then (Inr (), w)
     else (Inl (oauth Invalid_client ''Invalid client credentials.'' 401), w))"
  using assms
  by (simp add: check_secret_def verifyClientSecretAgainstStored_def hashClientSecretForStorage_def starts_with_def
      hmacSha256Hex_def timingSafeEqualHex_bytes run_seq Let_def)

lemma authenticate_stored_secret:
  assumes "client_by_identifier (c_clientId cl) w = Some cl" and "c_clientId cl \<noteq> []"
    and "c_clientSecret cl = hashClientSecretForStorage E secret key" and "resolveHmacKey E = Some key"
    and "c_tokenEndpointAuthMethod cl \<noteq> ''none''"
  shows "(\<exists>v. authenticateClient E (Some (c_clientId cl)) (Some presented) w = (Inr cl, v)) \<longleftrightarrow>
    presented \<noteq> [] \<and> hmac_sha256 E presented key = hmac_sha256 E secret key
    \<and> \<not> expired_at (c_expiresAt cl) (toISOString (clock E (ticks w)))"
  using assms(1,2) by (simp add: authenticateClient_def run_seq check_stored_secret [OF assms(3-5)])

section \<open>Frames of the writes\<close>

definition same_clients :: "world \<Rightarrow> world \<Rightarrow> bool" where
  "same_clients s t \<longleftrightarrow> clients t = clients s \<and> users t = users s"

interpretation client_frame: evolution same_clients
  by unfold_locales (auto simp: same_clients_def)

lemma audit_client_frame: "evolves same_clients (logAction E a b c d e)"
  by (rule evolvesI) (auto simp: same_clients_def dest: evolvesD [OF logAction_grows] audit_grows_simps)

lemma uris_client_frame: "evolves same_clients (setRedirectUris E i uris)"
  unfolding setRedirectUris_def insert_redirect_uri_def Let_def
  by (intro client_frame.rules evolves_random evolves_guarded) (auto simp: same_clients_def)

lemma scopes_client_frame: "evolves same_clients (setClientScopes E i ids)"
  unfolding setClientScopes_def insert_client_scope_def drop_client_scopes_def Let_def
  by (intro client_frame.rules evolves_random evolves_guarded) (auto simp: same_clients_def)

lemma client_by_id_same: "same_clients s t \<Longrightarrow> client_by_id i t = client_by_id i s"
  unfolding same_clients_def client_by_id_def rowToClient_def created_by_display_def by presburger

lemma create_client_Inr:
  assumes "create_client r w = (Inr u, t)"
  shows "client_by_id (cl_id r) t = Some (rowToClient t r)" "t = w\<lparr>clients := clients w @ [r]\<rparr>"
  using assms find_none_key [of "cl_id r" cl_id "clients w"]
  by (auto simp: create_client_def prog_inv client_violated_def client_by_id_def find_append split: if_splits option.splits)

lemma skipped: "evolves same_clients m \<Longrightarrow> (if c then ret () else m) s = (x, t) \<Longrightarrow> same_clients s t"
  by (auto simp: client_frame.refl dest: evolvesD split: if_splits)

lemma write_client_Inr:
  assumes "write_client E p i cid stored home w = (Inr details, t)"
  shows "\<exists>s3 s4 s5. create_client (new_client_row p i cid stored home) w = (Inr (), s3)
    \<and> (if filter (\<lambda>u. js_trim u \<noteq> []) (nc_redirectUris p) = [] then ret ()
       else setRedirectUris E i (filter (\<lambda>u. js_trim u \<noteq> []) (nc_redirectUris p))) s3 = (Inr (), s4)
    \<and> (if filter (\<lambda>s. s \<noteq> []) (nc_scopeIds p) = [] then ret ()
       else setClientScopes E i (filter (\<lambda>s. s \<noteq> []) (nc_scopeIds p))) s4 = (Inr (), s5)
    \<and> details = getClientWithDetails i s5 \<and> (\<exists>a b c d e. logAction E a b c d e s5 = (Inr (), t))
    \<and> client_by_id i s5 = Some (rowToClient s3 (new_client_row p i cid stored home))"
proof -
  let ?us = "filter (\<lambda>u. js_trim u \<noteq> []) (nc_redirectUris p)" and ?ids = "filter (\<lambda>s. s \<noteq> []) (nc_scopeIds p)"
  let ?log = "logAction E (nc_createdBy p) (audit_action_name ClientCreate) (audit_resource_name ClientResource) (Some i)
     ([(''clientId'', DText cid), (''name'', dtext (nc_name p)),
       (''environmentId'', DText (nc_environmentId p)), (''redirectUris'', DTexts ?us),
       (''scopeIds'', DTexts ?ids), (''tokenEndpointAuthMethod'', DText (auth_method p)),
       (''isDynamic'', DFlag (nc_isDynamic p)), (''isTest'', DFlag (nc_isTest p))] @ home_details home)"
  from assms obtain s3 s4 s5 where
      made: "create_client (new_client_row p i cid stored home) w = (Inr (), s3)"
    and uris: "(if ?us = [] then ret () else setRedirectUris E i ?us) s3 = (Inr (), s4)"
    and scps: "(if ?ids = [] then ret () else setClientScopes E i ?ids) s4 = (Inr (), s5)"
    and read: "seq (reads (getClientWithDetails i)) (\<lambda>details. seq ?log (\<lambda>_. ret details)) s5 = (Inr details, t)"
    unfolding write_client_def Let_def seq_Inr [where m = "create_client r" for r]
      seq_Inr [where m = "if c then ret () else f" for c f] by auto
  from read have "details = getClientWithDetails i s5" and logged: "?log s5 = (Inr (), t)"
    unfolding seq_reads seq_Inr by (simp_all del: audit_action_name.simps audit_resource_name.simps)
  then have rest: "details = getClientWithDetails i s5 \<and> (\<exists>a b c d e. logAction E a b c d e s5 = (Inr (), t))"
    by blast
  have same: "same_clients s3 s5"
    by (rule client_frame.trans [OF skipped [OF uris_client_frame uris] skipped [OF scopes_client_frame scps]])
  have "client_by_id i s5 = Some (rowToClient s3 (new_client_row p i cid stored home))"
    using client_by_id_same [OF same, of i] create_client_Inr(1) [OF made] by (simp add: new_client_row_def)
  with made uris scps rest show ?thesis by blast
qed

lemma createClient_Inr:
  assumes "createClient E p w = (Inr (details, secret), t)" and "auth_method p \<noteq> ''none''"
  shows "\<exists>d key. details = Some d \<and> resolveHmacKey E = Some key
    \<and> c_clientSecret (cd_client d) = hashClientSecretForStorage E secret key
    \<and> c_tokenEndpointAuthMethod (cd_client d) = auth_method p"
proof -
  from assms(1) obtain i cid stored home s1 s2 s3 where
      sec: "new_secret E p s1 = (Inr (secret, stored), s2)"
    and made: "write_client E p i cid stored home s2 = (Inr details, s3)"
    unfolding createClient_def by (auto simp: seq_Inr throw_when_Inr simp del: run_throw_when split: prod.splits)
  from sec assms(2) obtain key where key: "resolveHmacKey E = Some key"
    "stored = hashClientSecretForStorage E secret key"
    by (auto simp: new_secret_def prog_inv)
  from write_client_Inr [OF made] key show ?thesis
    by (auto simp: getClientWithDetails_def rowToClient_def new_client_row_def)
qed

lemma rotateSecret_Inr:
  assumes "rotateSecret E i actor w = (Inr (Some (cl, secret)), t)"
  shows "\<exists>key. resolveHmacKey E = Some key \<and> c_clientSecret cl = hashClientSecretForStorage E secret key"
proof -
  from assms obtain key s1 s2 where key: "resolveHmacKey E = Some key"
    and upd: "updateSecret i (hashClientSecretForStorage E secret key) s1 = (Inr (), s2)"
    and found: "client_by_id i s2 = Some cl"
    unfolding rotateSecret_def by (auto simp: prog_inv split: option.splits)
  have "c_clientSecret cl = hashClientSecretForStorage E secret key"
  proof -
    have "find (\<lambda>r. cl_id r = i) (List.map (\<lambda>r. if cl_id r = i then r\<lparr>cl_client_secret := s\<rparr> else r) rs) =
        map_option (\<lambda>r. r\<lparr>cl_client_secret := s\<rparr>) (find (\<lambda>r. cl_id r = i) rs)" for rs :: "client_row list" and s
      by (induction rs) auto
    with upd found show ?thesis by (auto simp: updateSecret_def client_by_id_def rowToClient_def)
  qed
  with key show ?thesis by blast
qed

text \<open>
  C28. The secret that is shown when a client is created, or when its secret is rotated, is the one
  that authenticates the client from then on, and the only one up to collisions of the HMAC; in
  particular a secret from before the rotation does not, nor does an empty one. The hypotheses
  say that the client is confidential, has an identifier and is still stored as it was returned.
\<close>

theorem issued_secret_exact:
  assumes "createClient E p w = (Inr (Some d, secret), t) \<and> cl = cd_client d \<and> auth_method p \<noteq> ''none''
      \<or> rotateSecret E i actor w = (Inr (Some (cl, secret)), t)"
    and "client_by_identifier (c_clientId cl) u = Some cl" and "c_clientId cl \<noteq> []"
    and "c_tokenEndpointAuthMethod cl \<noteq> ''none''"
  shows "\<exists>key. resolveHmacKey E = Some key
    \<and> (\<forall>presented. (\<exists>v. authenticateClient E (Some (c_clientId cl)) (Some presented) u = (Inr cl, v)) \<longleftrightarrow>
         presented \<noteq> [] \<and> hmac_sha256 E presented key = hmac_sha256 E secret key
         \<and> \<not> expired_at (c_expiresAt cl) (toISOString (clock E (ticks u))))"
proof -
  obtain key where key: "resolveHmacKey E = Some key" "c_clientSecret cl = hashClientSecretForStorage E secret key"
    using assms(1) createClient_Inr rotateSecret_Inr by blast
  with authenticate_stored_secret [OF assms(2,3) key(2,1) assms(4)] show ?thesis by blast
qed

end
