(* ===== verification/Setup.thy ===== *)
theory Setup
  imports ClientAdmin
begin

text \<open>
  Environments and scopes: \<open>environment.service.ts\<close>, \<open>scope.service.ts\<close> and their repositories.
  Neither can be deleted while a client uses it; the foreign keys of the schema say so as well.
\<close>

section \<open>Environments\<close>

definition list_environments :: "world \<Rightarrow> environment_row list" where
  "list_environments w = sort_key env_name (environments w)"

definition create_environment_row :: "environment_row \<Rightarrow> unit m" where
  "create_environment_row r =
     guarded (\<lambda>w. if env_id r \<in> set (List.map env_id (environments w))
                  then Some ''UNIQUE constraint failed: environments.id'' else None)
       (\<lambda>w. w\<lparr>environments := environments w @ [r]\<rparr>)"

definition update_environment_row :: "string \<Rightarrow> string \<Rightarrow> string option \<Rightarrow> unit m" where
  "update_environment_row i name displayName =
     writes (\<lambda>w. w\<lparr>environments :=
       List.map (\<lambda>r. if env_id r = i then r\<lparr>env_name := name, env_display_name := displayName\<rparr> else r) (environments w)\<rparr>)"

text \<open>The grants of users and the assignments of password policies cascade; a client that is still there makes the statement fail.\<close>

definition delete_environment_row :: "string \<Rightarrow> unit m" where
  "delete_environment_row i =
     guarded (\<lambda>w. if i \<in> set (List.map env_id (environments w)) \<and> i \<in> set (List.map cl_environment_id (clients w))
                  then Some ''FOREIGN KEY constraint failed'' else None)
       (\<lambda>w. if i \<in> set (List.map env_id (environments w))
             then w\<lparr>environments := filter (\<lambda>r. env_id r \<noteq> i) (environments w),
                    users_environments := filter (\<lambda>r. ue_environment_id r \<noteq> i) (users_environments w),
                    password_policy_environments := filter (\<lambda>r. pe_environment_id r \<noteq> i) (password_policy_environments w)\<rparr>
             else w)"

definition countClientsByEnvironment :: "string \<Rightarrow> world \<Rightarrow> nat" where
  "countClientsByEnvironment i w = length (filter (\<lambda>r. cl_environment_id r = i) (clients w))"

definition environmentLabel :: "environment_row \<Rightarrow> string" where
  "environmentLabel r = (case nonblank (env_display_name r) of Some d \<Rightarrow> d | None \<Rightarrow> env_name r)"

definition createEnvironment :: "cfg \<Rightarrow> string \<Rightarrow> string option \<Rightarrow> string option \<Rightarrow> environment_row m" where
  "createEnvironment E name displayName actorUserId =
     seq (randomUUID E) (\<lambda>i.
     let r = \<lparr>env_id = i, env_name = js_trim name, env_display_name = nonblank displayName\<rparr> in
     seq (create_environment_row r) (\<lambda>_.
     seq (logAction E actorUserId (audit_action_name EnvironmentCreate) (audit_resource_name EnvironmentResource) (Some i)
           [(''name'', DText (env_name r)), (''displayName'', dtext (env_display_name r))]) (\<lambda>_.
     ret r)))"

definition updateEnvironment ::
  "cfg \<Rightarrow> string \<Rightarrow> string \<Rightarrow> string option \<Rightarrow> string option \<Rightarrow> environment_row option m" where
  "updateEnvironment E i name displayName actorUserId =
     seq (reads (environment_by_id i)) (\<lambda>found.
     case found of
       None \<Rightarrow> ret None
     | Some existing \<Rightarrow>
       let r = \<lparr>env_id = i, env_name = js_trim name, env_display_name = nonblank displayName\<rparr> in
       seq (update_environment_row i (env_name r) (env_display_name r)) (\<lambda>_.
       seq (logAction E actorUserId (audit_action_name EnvironmentUpdate) (audit_resource_name EnvironmentResource) (Some i)
             [(''from'', DObject [(''name'', DText (env_name existing)), (''displayName'', dtext (env_display_name existing))]),
              (''to'', DObject [(''name'', DText (env_name r)), (''displayName'', dtext (env_display_name r))])]) (\<lambda>_.
       ret (Some r))))"

definition deleteEnvironment :: "cfg \<Rightarrow> string \<Rightarrow> string option \<Rightarrow> (string + unit) m" where
  "deleteEnvironment E i actorUserId =
     seq (reads (countClientsByEnvironment i)) (\<lambda>n.
     if n > 0 then ret (Inl ''Cannot delete environment that has clients'')
     else
       seq (reads (environment_by_id i)) (\<lambda>existing.
       seq (delete_environment_row i) (\<lambda>_.
       seq (logAction E actorUserId (audit_action_name EnvironmentDelete) (audit_resource_name EnvironmentResource) (Some i)
             [(''name'', dtext (map_option env_name existing))]) (\<lambda>_.
       ret (Inr ())))))"

section \<open>Scopes\<close>

definition list_scopes :: "world \<Rightarrow> scope_row list" where
  "list_scopes w = sort_key sc_scope_name (scopes w)"

definition scope_by_id :: "string \<Rightarrow> world \<Rightarrow> scope_row option" where
  "scope_by_id i w = find (\<lambda>r. sc_id r = i) (scopes w)"

definition listByNames :: "string list \<Rightarrow> world \<Rightarrow> scope_row list" where
  "listByNames names w =
     (if names = [] then [] else sort_key sc_scope_name (filter (\<lambda>r. sc_scope_name r \<in> set names) (scopes w)))"

definition scope_violated :: "scope_row \<Rightarrow> world \<Rightarrow> string option" where
  "scope_violated r w =
     (if sc_id r \<in> set (List.map sc_id (scopes w)) then Some ''UNIQUE constraint failed: scopes.id''
      else if sc_scope_name r \<in> set (List.map sc_scope_name (scopes w))
        then Some ''UNIQUE constraint failed: scopes.scope_name''
      else None)"

definition create_scope_row :: "scope_row \<Rightarrow> unit m" where
  "create_scope_row r = guarded (scope_violated r) (\<lambda>w. w\<lparr>scopes := scopes w @ [r]\<rparr>)"

definition update_scope_row :: "string \<Rightarrow> string option \<Rightarrow> string option \<Rightarrow> unit m" where
  "update_scope_row i displayName description =
     writes (\<lambda>w. w\<lparr>scopes := List.map (\<lambda>r. if sc_id r = i
        then r\<lparr>sc_display_name := displayName, sc_description := description\<rparr> else r) (scopes w)\<rparr>)"

definition delete_scope_row :: "string \<Rightarrow> unit m" where
  "delete_scope_row i =
     guarded (\<lambda>w. if i \<in> set (List.map sc_id (scopes w)) \<and> i \<in> set (List.map cs_scope_id (client_scopes w))
                  then Some ''FOREIGN KEY constraint failed'' else None)
       (\<lambda>w. w\<lparr>scopes := filter (\<lambda>r. sc_id r \<noteq> i) (scopes w)\<rparr>)"

definition countClientScopes :: "string \<Rightarrow> world \<Rightarrow> nat" where
  "countClientScopes i w = length (filter (\<lambda>r. cs_scope_id r = i) (client_scopes w))"

definition createScope :: "cfg \<Rightarrow> string \<Rightarrow> string option \<Rightarrow> string option \<Rightarrow> string option \<Rightarrow> scope_row m" where
  "createScope E scopeName displayName description actorUserId =
     seq (randomUUID E) (\<lambda>i.
     let r = \<lparr>sc_id = i, sc_scope_name = js_trim scopeName, sc_display_name = nonblank displayName,
              sc_description = nonblank description\<rparr> in
     seq (create_scope_row r) (\<lambda>_.
     seq (logAction E actorUserId (audit_action_name ScopeCreate) (audit_resource_name ScopeResource) (Some i)
           [(''scopeName'', DText (sc_scope_name r)), (''displayName'', dtext (sc_display_name r)),
            (''description'', dtext (sc_description r))]) (\<lambda>_.
     ret r)))"

definition updateScope :: "cfg \<Rightarrow> string \<Rightarrow> string option \<Rightarrow> string option \<Rightarrow> string option \<Rightarrow> scope_row option m" where
  "updateScope E i displayName description actorUserId =
     seq (reads (scope_by_id i)) (\<lambda>found.
     case found of
       None \<Rightarrow> ret None
     | Some existing \<Rightarrow>
       let r = existing\<lparr>sc_display_name := nonblank displayName, sc_description := nonblank description\<rparr> in
       seq (update_scope_row i (sc_display_name r) (sc_description r)) (\<lambda>_.
       seq (logAction E actorUserId (audit_action_name ScopeUpdate) (audit_resource_name ScopeResource) (Some i)
             [(''scopeName'', DText (sc_scope_name existing)),
              (''from'', DObject [(''displayName'', dtext (sc_display_name existing)), (''description'', dtext (sc_description existing))]),
              (''to'', DObject [(''displayName'', dtext (sc_display_name r)), (''description'', dtext (sc_description r))])]) (\<lambda>_.
       ret (Some r))))"

definition deleteScope :: "cfg \<Rightarrow> string \<Rightarrow> string option \<Rightarrow> (string + unit) m" where
  "deleteScope E i actorUserId =
     seq (reads (countClientScopes i)) (\<lambda>n.
     if n > 0 then ret (Inl ''Cannot delete scope that is assigned to clients'')
     else
       seq (reads (scope_by_id i)) (\<lambda>existing.
       seq (delete_scope_row i) (\<lambda>_.
       seq (logAction E actorUserId (audit_action_name ScopeDelete) (audit_resource_name ScopeResource) (Some i)
             [(''scopeName'', dtext (map_option sc_scope_name existing))]) (\<lambda>_.
       ret (Inr ())))))"

end
