(* ===== verification/Dcr.thy ===== *)
theory Dcr
  imports Setup Challenges
begin

text \<open>
  Dynamic client registration (RFC 7591): the daily limit per address, the request parser, the
  service and the route that puts them in this order: \<open>dcr-rate-limit.*\<close>,
  \<open>app/api/register/parse-request.ts\<close>, \<open>dcr.service.ts\<close> and \<open>app/api/register/route.ts\<close>.
\<close>

section \<open>Errors\<close>

datatype dcr_failure = DcrServiceError string string nat | OtherFailure failure

type_synonym 'a dcr = "(world, dcr_failure, 'a) prog"

text \<open>A call of a service whose exceptions pass through.\<close>

definition lifted :: "'a m \<Rightarrow> 'a dcr" where
  "lifted p = (\<lambda>w. case p w of (Inl e, w') \<Rightarrow> (Inl (OtherFailure e), w') | (Inr x, w') \<Rightarrow> (Inr x, w'))"

section \<open>The daily limit\<close>

definition dcr_attempts :: "string \<Rightarrow> string \<Rightarrow> world \<Rightarrow> nat" where
  "dcr_attempts ip day w =
     (case find (\<lambda>r. dr_ip r = ip \<and> dr_day r = day) (dcr_rate_limit w) of None \<Rightarrow> 0 | Some r \<Rightarrow> dr_count r)"

definition count_attempt :: "string \<Rightarrow> string \<Rightarrow> world \<Rightarrow> world" where
  "count_attempt ip day w =
     (if \<exists>r \<in> set (dcr_rate_limit w). dr_ip r = ip \<and> dr_day r = day
      then w\<lparr>dcr_rate_limit := List.map (\<lambda>r. if dr_ip r = ip \<and> dr_day r = day
             then r\<lparr>dr_count := Suc (dr_count r)\<rparr> else r) (dcr_rate_limit w)\<rparr>
      else w\<lparr>dcr_rate_limit := dcr_rate_limit w @ [\<lparr>dr_ip = ip, dr_day = day, dr_count = 1\<rparr>]\<rparr>)"

definition incrementAndGet :: "string \<Rightarrow> string \<Rightarrow> nat m" where
  "incrementAndGet ip day = seq (writes (count_attempt ip day)) (\<lambda>_. reads (dcr_attempts ip day))"

definition deleteOlderThan :: "string \<Rightarrow> nat m" where
  "deleteOlderThan day =
     updating (\<lambda>w. length (filter (\<lambda>r. dr_day r < day) (dcr_rate_limit w)))
       (\<lambda>w. w\<lparr>dcr_rate_limit := filter (\<lambda>r. \<not> dr_day r < day) (dcr_rate_limit w)\<rparr>)"

definition resolveDcrRateLimitPerDay :: "cfg \<Rightarrow> nat" where
  "resolveDcrRateLimitPerDay E =
     (case trimmed_env (ctx_env E) ''DCR_RATE_LIMIT_PER_DAY'' of
        None \<Rightarrow> 10
      | Some raw \<Rightarrow> (case parseInt raw of
                       None \<Rightarrow> 10
                     | Some n \<Rightarrow> if n > 0 \<and> n < 2 ^ 1024 - 2 ^ 970 then nat n else 10))"

record rate_result =
  rl_allowed :: bool
  rl_limit :: nat
  rl_attempts :: nat

definition recordAttempt :: "cfg \<Rightarrow> string option \<Rightarrow> rate_result m" where
  "recordAttempt E ip =
     seq (now_iso E) (\<lambda>now.
     seq (incrementAndGet (case ip of Some a \<Rightarrow> a | None \<Rightarrow> ''unknown'') (take 10 now)) (\<lambda>attempts.
     ret \<lparr>rl_allowed = (attempts \<le> resolveDcrRateLimitPerDay E), rl_limit = resolveDcrRateLimitPerDay E,
          rl_attempts = attempts\<rparr>))"

section \<open>The request\<close>

text \<open>
  What the parser can tell apart in a JSON value: a string, an array of strings, \<open>null\<close>, and
  anything else. A body is an object with such values, JSON that is not an object, or no JSON.
\<close>

datatype meta = MText string | MTexts "string list" | MNull | MOther

datatype dcr_body = Dcr_object "string \<rightharpoonup> meta" | Dcr_not_object | Dcr_not_json

record dcr_request =
  dq_redirectUris :: "string list"
  dq_tokenEndpointAuthMethod :: string
  dq_grantTypes :: "string list"
  dq_responseTypes :: "string list"
  dq_clientName :: "string option"
  dq_scopeNames :: "string list"

definition MAX_REDIRECT_URIS :: nat where "MAX_REDIRECT_URIS = 5"
definition SUPPORTED_GRANT_TYPES :: "string list" where
  "SUPPORTED_GRANT_TYPES = [''authorization_code'', ''refresh_token'']"
definition SUPPORTED_RESPONSE_TYPES :: "string list" where "SUPPORTED_RESPONSE_TYPES = [''code'']"
definition SUPPORTED_AUTH_METHODS :: "string list" where
  "SUPPORTED_AUTH_METHODS = [''none'', ''client_secret_basic'', ''client_secret_post'']"

definition isValidRedirectUri :: "cfg \<Rightarrow> string \<Rightarrow> bool" where
  "isValidRedirectUri E v \<longleftrightarrow>
     (case parse_url E v of
        None \<Rightarrow> False
      | Some u \<Rightarrow> url_hash u = []
          \<and> (url_protocol u = ''https:'' \<or> url_protocol u = ''http:'' \<and> isLoopbackHostname (url_hostname u)))"

definition asStringArray :: "meta option \<Rightarrow> string list option" where
  "asStringArray v = (case v of Some (MTexts xs) \<Rightarrow> Some xs | _ \<Rightarrow> None)"

definition metadata_error :: "string \<Rightarrow> dcr_failure" where
  "metadata_error msg = DcrServiceError ''invalid_client_metadata'' msg 400"

definition redirect_error :: "string \<Rightarrow> dcr_failure" where
  "redirect_error msg = DcrServiceError ''invalid_redirect_uri'' msg 400"

definition parse_redirect_uris :: "cfg \<Rightarrow> meta option \<Rightarrow> dcr_failure + string list" where
  "parse_redirect_uris E v =
     (case asStringArray v of
        None \<Rightarrow> Inl (redirect_error ''redirect_uris is required and must be a non-empty array.'')
      | Some uris \<Rightarrow>
        if uris = [] then Inl (redirect_error ''redirect_uris is required and must be a non-empty array.'')
        else if length uris > MAX_REDIRECT_URIS then Inl (redirect_error ''At most 5 redirect_uris are allowed.'')
        else (case find (\<lambda>u. \<not> isValidRedirectUri E u) uris of
                Some u \<Rightarrow> Inl (redirect_error (''Invalid redirect_uri '' @ [CHR 34] @ u @ [CHR 34]
                  @ '': must be an https URL (http allowed only for localhost) with no fragment.''))
              | None \<Rightarrow> Inr uris))"

definition subset_or :: "meta option \<Rightarrow> string list \<Rightarrow> string list \<Rightarrow> string list option" where
  "subset_or v supported dflt =
     (case (if v = None then Some dflt else asStringArray v) of
        None \<Rightarrow> None
      | Some xs \<Rightarrow> if set xs \<subseteq> set supported then Some xs else None)"

definition parse_auth_method :: "meta option \<Rightarrow> string option" where
  "parse_auth_method v =
     (case (if v = None \<or> v = Some MNull then Some (MText ''none'') else v) of
        Some (MText x) \<Rightarrow> if x \<in> set SUPPORTED_AUTH_METHODS then Some x else None
      | _ \<Rightarrow> None)"

definition parse_scope_names :: "meta option \<Rightarrow> string list" where
  "parse_scope_names v =
     (case v of
        Some (MText s) \<Rightarrow> uniq (filter (\<lambda>x. x \<noteq> []) (List.map js_trim (split_spaces s)))
      | _ \<Rightarrow> [])"

definition parse_client_name :: "meta option \<Rightarrow> string option" where
  "parse_client_name v = (case v of Some (MText s) \<Rightarrow> nonblank (Some s) | _ \<Rightarrow> None)"

definition parseDcrRegistrationRequest :: "cfg \<Rightarrow> dcr_body \<Rightarrow> dcr_failure + dcr_request" where
  "parseDcrRegistrationRequest E body =
     (case body of
        Dcr_object req \<Rightarrow>
          (case parse_redirect_uris E (req ''redirect_uris'') of
             Inl e \<Rightarrow> Inl e
           | Inr redirectUris \<Rightarrow>
             (case parse_auth_method (req ''token_endpoint_auth_method'') of
                None \<Rightarrow> Inl (metadata_error
                  ''Unsupported token_endpoint_auth_method. Supported: none, client_secret_basic, client_secret_post.'')
              | Some authMethod \<Rightarrow>
                (case subset_or (req ''grant_types'') SUPPORTED_GRANT_TYPES SUPPORTED_GRANT_TYPES of
                   None \<Rightarrow> Inl (metadata_error ''Unsupported grant_types. Supported: authorization_code, refresh_token.'')
                 | Some grantTypes \<Rightarrow>
                   (case subset_or (req ''response_types'') SUPPORTED_RESPONSE_TYPES SUPPORTED_RESPONSE_TYPES of
                      None \<Rightarrow> Inl (metadata_error (''Only response_type '' @ [CHR 34] @ ''code'' @ [CHR 34] @ '' is supported.''))
                    | Some responseTypes \<Rightarrow>
                      Inr \<lparr>dq_redirectUris = redirectUris, dq_tokenEndpointAuthMethod = authMethod,
                           dq_grantTypes = grantTypes, dq_responseTypes = responseTypes,
                           dq_clientName = parse_client_name (req ''client_name''),
                           dq_scopeNames = parse_scope_names (req ''scope'')\<rparr>))))
      | _ \<Rightarrow> Inl (metadata_error ''Request body must be a JSON object.''))"

section \<open>Registration\<close>

record dcr_response =
  dp_client_id :: string
  dp_client_id_issued_at :: nat
  dp_redirect_uris :: "string list"
  dp_grant_types :: "string list"
  dp_response_types :: "string list"
  dp_token_endpoint_auth_method :: string
  dp_scope :: "string option"
  dp_client_secret :: "string option"
  dp_client_secret_expires_at :: "nat option"

definition not_enabled :: dcr_failure where
  "not_enabled = DcrServiceError ''access_denied'' ''Dynamic client registration is not enabled.'' 403"

text \<open>The configuration of the registry: on unless switched off, in a configured environment.\<close>

definition dcr_environment :: "cfg \<Rightarrow> string option" where
  "dcr_environment E =
     (if trimmed_env (ctx_env E) ''DCR_ENABLED'' = Some ''false'' then None
      else trimmed_env (ctx_env E) ''DCR_ENVIRONMENT_ID'')"

definition resolve_scope_ids :: "string list \<Rightarrow> world \<Rightarrow> dcr_failure + string list" where
  "resolve_scope_ids names w =
     (let byName = map_of (rev (List.map (\<lambda>s. (sc_scope_name s, sc_id s)) (list_scopes w)));
          unknown = filter (\<lambda>n. byName n = None) names
      in if unknown \<noteq> [] then Inl (metadata_error (''Unknown scope(s): '' @ join_with '', '' unknown @ ''.''))
         else Inr (List.map (\<lambda>n. the (byName n)) names))"

definition dcr_client :: "dcr_request \<Rightarrow> string \<Rightarrow> string list \<Rightarrow> new_client" where
  "dcr_client q environmentId scopeIds =
     \<lparr>nc_environmentId = environmentId, nc_createdBy = None, nc_redirectUris = dq_redirectUris q,
      nc_scopeIds = scopeIds, nc_expiresAt = None, nc_name = dq_clientName q,
      nc_tokenEndpointAuthMethod = Some (dq_tokenEndpointAuthMethod q), nc_isDynamic = True, nc_isTest = False,
      nc_home = \<lparr>hi_homeUrl = None, hi_homeDisplayName = None, hi_showOnHome = False\<rparr>\<rparr>"

definition register :: "cfg \<Rightarrow> dcr_request \<Rightarrow> dcr_response dcr" where
  "register E q =
     seq (need (dcr_environment E) not_enabled) (\<lambda>environmentId.
     seq (\<lambda>w. (resolve_scope_ids (dq_scopeNames q) w, w)) (\<lambda>scopeIds.
     seq (reads (environment_by_id environmentId)) (\<lambda>environment.
     seq (need environment not_enabled) (\<lambda>_.
     seq (lifted (createClient E (dcr_client q environmentId scopeIds))) (\<lambda>(details, clientSecret).
     seq (lifted (now_ms E)) (\<lambda>now.
     seq (need details (OtherFailure (JsError ''Cannot read properties of null''))) (\<lambda>d.
     ret \<lparr>dp_client_id = c_clientId (cd_client d), dp_client_id_issued_at = now div 1000,
          dp_redirect_uris = cd_redirectUris d, dp_grant_types = dq_grantTypes q,
          dp_response_types = dq_responseTypes q, dp_token_endpoint_auth_method = dq_tokenEndpointAuthMethod q,
          dp_scope = (if dq_scopeNames q = [] then None else Some (join_with '' '' (dq_scopeNames q))),
          dp_client_secret = (if dq_tokenEndpointAuthMethod q = ''none'' then None else Some clientSecret),
          dp_client_secret_expires_at = (if dq_tokenEndpointAuthMethod q = ''none'' then None else Some 0)\<rparr>)))))))"

text \<open>The route: the attempt is counted before the body is looked at.\<close>

definition rate_message :: "nat \<Rightarrow> string" where
  "rate_message limit = ''Registration rate limit exceeded ('' @ show_decimal limit @ '' per day).''"

datatype dcr_http = Registered dcr_response | Refused string string nat

definition post_register :: "cfg \<Rightarrow> string option \<Rightarrow> dcr_body \<Rightarrow> dcr_http m" where
  "post_register E ip body =
     seq (recordAttempt E ip) (\<lambda>rate.
     if \<not> rl_allowed rate
     then ret (Refused ''too_many_requests'' (rate_message (rl_limit rate)) 429)
     else (case body of
       Dcr_not_json \<Rightarrow> ret (Refused ''invalid_client_metadata'' ''Request body must be valid JSON.'' 400)
     | _ \<Rightarrow>
       (\<lambda>w. case seq (outcome (parseDcrRegistrationRequest E body)) (register E) w of
              (Inr r, w') \<Rightarrow> (Inr (Registered r), w')
            | (Inl (DcrServiceError c msg s), w') \<Rightarrow> (Inr (Refused c msg s), w')
            | (Inl (OtherFailure e), w') \<Rightarrow> (Inr (Refused ''server_error'' ''Unexpected registration error.'' 500), w'))))"

section \<open>Facts\<close>

lemma dcr_attempts_count:
  "dcr_attempts ip day (count_attempt ip' day' w) =
     dcr_attempts ip day w + (if ip = ip' \<and> day = day' then 1 else 0)"
proof -
  let ?P = "\<lambda>ip day r. dr_ip r = ip \<and> dr_day r = day"
  have upd: "find (?P ip day) (List.map (\<lambda>r. if dr_ip r = ip' \<and> dr_day r = day' then r\<lparr>dr_count := Suc (dr_count r)\<rparr> else r) rs) =
      map_option (\<lambda>r. if ip = ip' \<and> day = day' then r\<lparr>dr_count := Suc (dr_count r)\<rparr> else r) (find (?P ip day) rs)"
    for rs :: "dcr_rate_row list" by (induction rs) auto
  have none: "find (?P ip day) rs = None" if "\<not> (\<exists>r \<in> set rs. ?P ip day r)" for rs :: "dcr_rate_row list"
    using that by (induction rs) auto
  have some: "\<exists>r. find (?P ip day) rs = Some r" if "\<exists>r \<in> set rs. ?P ip day r" for rs :: "dcr_rate_row list"
    using that by (induction rs) auto
  show ?thesis
  proof (cases "\<exists>r \<in> set (dcr_rate_limit w). ?P ip' day' r")
    case True
    then have "dcr_attempts ip day (count_attempt ip' day' w) =
      (case map_option (\<lambda>r. if ip = ip' \<and> day = day' then r\<lparr>dr_count := Suc (dr_count r)\<rparr> else r)
          (find (?P ip day) (dcr_rate_limit w)) of None \<Rightarrow> 0 | Some r \<Rightarrow> dr_count r)"
      unfolding dcr_attempts_def count_attempt_def upd [symmetric] by simp
    moreover have "find (?P ip day) (dcr_rate_limit w) \<noteq> None" if "ip = ip' \<and> day = day'"
      using True that some [of "dcr_rate_limit w"] by blast
    ultimately show ?thesis by (auto simp: dcr_attempts_def split: option.splits)
  next
    case False
    then show ?thesis
      using none [of "dcr_rate_limit w"]
      by (cases "ip = ip' \<and> day = day'")
        (auto simp: dcr_attempts_def count_attempt_def find_append split: option.split)
  qed
qed

lemma recordAttempt_run:
  "recordAttempt E ip w =
     (let day = take 10 (toISOString (clock E (ticks w))); a = (case ip of Some a \<Rightarrow> a | None \<Rightarrow> ''unknown'');
          n = Suc (dcr_attempts a day w)
      in (Inr \<lparr>rl_allowed = (n \<le> resolveDcrRateLimitPerDay E), rl_limit = resolveDcrRateLimitPerDay E, rl_attempts = n\<rparr>,
          count_attempt a day (w\<lparr>ticks := Suc (ticks w)\<rparr>)))"
proof -
  have "dcr_attempts a day (w\<lparr>ticks := n\<rparr>) = dcr_attempts a day w" for a day n by (simp add: dcr_attempts_def)
  then show ?thesis
    by (simp add: recordAttempt_def incrementAndGet_def run_seq dcr_attempts_count Let_def)
qed

text \<open>Nothing but the counter itself changes the counts.\<close>

definition counts_grow :: "string \<Rightarrow> string \<Rightarrow> world \<Rightarrow> world \<Rightarrow> bool" where
  "counts_grow ip day s t \<longleftrightarrow> dcr_attempts ip day s \<le> dcr_attempts ip day t"

definition same_counts :: "world \<Rightarrow> world \<Rightarrow> bool" where
  "same_counts s t \<longleftrightarrow> dcr_rate_limit t = dcr_rate_limit s"

interpretation counts: evolution same_counts
  by unfold_locales (auto simp: same_counts_def)

lemma audit_counts: "evolves same_counts (logAction E a b c d e)"
  unfolding logAction_def buildRow_def insert_audit_def
  by (intro counts.rules evolves_clock evolves_random evolves_guarded) (auto simp: same_counts_def)

lemma random_chars_counts: "evolves same_counts (random_chars E n)"
proof (induction n)
  case (Suc n)
  have "evolves same_counts (\<lambda>w. (Inr (f w) :: failure + nat, w\<lparr>draws := Suc (draws w)\<rparr>))" for f
    by (simp add: evolves_def same_counts_def)
  with Suc show ?case by (auto intro!: counts.rules)
qed (auto simp: evolves_def same_counts_def)

lemma createClient_counts: "evolves same_counts (createClient E p)"
proof -
  have "evolves same_counts (generateClientId E c)" "evolves same_counts (new_secret E p)" for c
    unfolding generateClientId_def new_secret_def generateClientSecret_def
    by (intro counts.rules random_chars_counts evolves_random; simp add: same_counts_def)+
  moreover have "evolves same_counts (setRedirectUris E i us)" "evolves same_counts (setClientScopes E i us)"
    "evolves same_counts (create_client r)" for i us r
    unfolding setRedirectUris_def insert_redirect_uri_def setClientScopes_def insert_client_scope_def
      drop_client_scopes_def create_client_def Let_def
    by (intro counts.rules evolves_random evolves_guarded; auto simp: same_counts_def)+
  ultimately show ?thesis
    unfolding createClient_def write_client_def Let_def
    by (intro counts.rules evolves_random audit_counts) (auto simp: same_counts_def)
qed

lemma lifted_counts: "evolves same_counts p \<Longrightarrow> evolves same_counts (lifted p)"
  by (auto simp: evolves_def lifted_def split: sum.splits prod.splits) (metis snd_conv)+

lemma register_counts: "evolves same_counts (register E q)"
proof -
  have "evolves same_counts (\<lambda>w. (resolve_scope_ids ns w, w))" for ns by (simp add: evolves_def same_counts_def)
  moreover have "evolves same_counts (lifted (now_ms E))"
    by (intro lifted_counts evolves_clock) (simp add: same_counts_def)
  ultimately show ?thesis
    unfolding register_def
    by (intro counts.rules lifted_counts createClient_counts evolves_clock) (simp_all add: same_counts_def)
qed



section \<open>The daily budget\<close>

definition address :: "string option \<Rightarrow> string" where
  "address ip = (case ip of Some a \<Rightarrow> a | None \<Rightarrow> ''unknown'')"

definition day_of :: "cfg \<Rightarrow> world \<Rightarrow> string" where
  "day_of E w = take 10 (toISOString (clock E (ticks w)))"

lemma post_register_run:
  "post_register E ip body w =
     (let t = count_attempt (address ip) (day_of E w) (w\<lparr>ticks := Suc (ticks w)\<rparr>)
      in if \<not> Suc (dcr_attempts (address ip) (day_of E w) w) \<le> resolveDcrRateLimitPerDay E
         then (Inr (Refused ''too_many_requests'' (rate_message (resolveDcrRateLimitPerDay E)) 429), t)
         else (case body of
            Dcr_not_json \<Rightarrow> (Inr (Refused ''invalid_client_metadata'' ''Request body must be valid JSON.'' 400), t)
          | _ \<Rightarrow> (case seq (outcome (parseDcrRegistrationRequest E body)) (register E) t of
              (Inr r, w') \<Rightarrow> (Inr (Registered r), w')
            | (Inl (DcrServiceError c msg s), w') \<Rightarrow> (Inr (Refused c msg s), w')
            | (Inl (OtherFailure e), w') \<Rightarrow> (Inr (Refused ''server_error'' ''Unexpected registration error.'' 500), w'))))"
  by (simp add: post_register_def run_seq recordAttempt_run Let_def address_def day_of_def split: dcr_body.split)

lemma post_register_attempts:
  assumes "post_register E ip body w = (x, t)"
  shows "dcr_attempts a day t = dcr_attempts a day w + (if a = address ip \<and> day = day_of E w then 1 else 0)"
proof -
  let ?u = "count_attempt (address ip) (day_of E w) (w\<lparr>ticks := Suc (ticks w)\<rparr>)"
  have "evolves same_counts (seq (outcome (parseDcrRegistrationRequest E body)) (register E))"
    by (intro counts.rules register_counts)
  then have keep: "dcr_rate_limit v = dcr_rate_limit ?u"
    if "seq (outcome (parseDcrRegistrationRequest E body)) (register E) ?u = (y, v)" for y v
    using that by (auto dest: evolvesD simp: same_counts_def)
  have "dcr_rate_limit t = dcr_rate_limit ?u"
    using assms keep by (simp add: post_register_run Let_def split: if_splits dcr_body.splits prod.splits sum.splits dcr_failure.splits)
  then have "dcr_attempts a day t = dcr_attempts a day ?u" by (simp add: dcr_attempts_def)
  also have "\<dots> = dcr_attempts a day w + (if a = address ip \<and> day = day_of E w then 1 else 0)"
    by (simp add: dcr_attempts_count) (simp add: dcr_attempts_def)
  finally show ?thesis .
qed

lemma post_register_allowed:
  assumes "post_register E ip body w = (Inr (Registered r), t)"
  shows "Suc (dcr_attempts (address ip) (day_of E w) w) \<le> resolveDcrRateLimitPerDay E"
  using assms by (auto simp: post_register_run Let_def split: if_splits)

text \<open>
  The requests of one address on one day, with requests of others and any other steps that do not
  lower the count between them: \<open>registrations E a day s n t\<close> when \<open>n\<close> of them registered a client.
\<close>

inductive registrations :: "cfg \<Rightarrow> string \<Rightarrow> string \<Rightarrow> world \<Rightarrow> nat \<Rightarrow> world \<Rightarrow> bool" for E a day s where
  start: "registrations E a day s 0 s"
| registered: "registrations E a day s n t \<Longrightarrow> post_register E ip body t = (Inr (Registered r), u) \<Longrightarrow>
    registrations E a day s (if address ip = a \<and> day_of E t = day then Suc n else n) u"
| refused: "registrations E a day s n t \<Longrightarrow> post_register E ip body t = (Inr (Refused c msg st), u) \<Longrightarrow>
    registrations E a day s n u"
| other: "registrations E a day s n t \<Longrightarrow> counts_grow a day t u \<Longrightarrow> registrations E a day s n u"

lemma registrations_bounded:
  "registrations E a day s n t \<Longrightarrow>
     dcr_attempts a day s + n \<le> dcr_attempts a day t \<and> (n = 0 \<or> dcr_attempts a day s + n \<le> resolveDcrRateLimitPerDay E)"
proof (induction rule: registrations.induct)
  case (registered n t ip body r u)
  note count = post_register_attempts [OF registered.hyps(2), of a day] and allowed = post_register_allowed [OF registered.hyps(2)]
  show ?case
  proof (cases "address ip = a \<and> day_of E t = day")
    case True
    then have "dcr_attempts a day u = Suc (dcr_attempts a day t)" "Suc (dcr_attempts a day t) \<le> resolveDcrRateLimitPerDay E"
      using count allowed by auto
    with registered.IH True show ?thesis by simp
  next
    case False
    then have "dcr_attempts a day t \<le> dcr_attempts a day u" using count by simp
    with registered.IH False show ?thesis by auto
  qed
next
  case (refused n t ip body c msg st u)
  have "dcr_attempts a day t \<le> dcr_attempts a day u"
    using post_register_attempts [OF refused.hyps(2), of a day] by simp
  with refused.IH show ?case by auto
next
  case (other n t u)
  then show ?case by (auto simp: counts_grow_def)
qed simp

text \<open>
  C32. One address registers at most the configured number of clients on one day, less the attempts
  it had already made, in any history of requests: malformed ones and requests of other addresses
  included, as long as nothing lowers the count.
\<close>

theorem dcr_daily_budget:
  assumes "registrations E a day s n t"
  shows "n \<le> resolveDcrRateLimitPerDay E - dcr_attempts a day s"
  using registrations_bounded [OF assms] by auto

end
