(* ===== verification/DcrClient.thy ===== *)
theory DcrClient
  imports Dcr
begin

text \<open>
  What a dynamic registration creates: one client with the limits the parser and the service put
  on it. The lemmas say what \<open>createClient\<close> leaves in the tables of clients, redirect URIs and
  grants.
\<close>

section \<open>What creating a client writes\<close>

definition setup_same :: "world \<Rightarrow> world \<Rightarrow> bool" where
  "setup_same s t \<longleftrightarrow> users t = users s \<and> scopes t = scopes s \<and> environments t = environments s"

interpretation setup_frame: evolution setup_same
  by unfold_locales (auto simp: setup_same_def)

definition uris_same :: "world \<Rightarrow> world \<Rightarrow> bool" where
  "uris_same s t \<longleftrightarrow> redirect_uris t = redirect_uris s"

interpretation uris_frame: evolution uris_same
  by unfold_locales (auto simp: uris_same_def)

definition grants_same :: "world \<Rightarrow> world \<Rightarrow> bool" where
  "grants_same s t \<longleftrightarrow> client_scopes t = client_scopes s"

interpretation grants_frame: evolution grants_same
  by unfold_locales (auto simp: grants_same_def)

lemma audit_frames:
  "evolves setup_same (logAction E a b c d e)" "evolves uris_same (logAction E a b c d e)"
  "evolves grants_same (logAction E a b c d e)"
  by (rule evolvesI;
      auto simp: setup_same_def uris_same_def grants_same_def dest: evolvesD [OF logAction_grows] audit_grows_simps)+

lemma set_uris_frames: "evolves setup_same (setRedirectUris E i us)" "evolves grants_same (setRedirectUris E i us)"
  unfolding setRedirectUris_def insert_redirect_uri_def Let_def
  by (intro setup_frame.rules grants_frame.rules evolves_random evolves_guarded;
      auto simp: setup_same_def grants_same_def)+

lemma set_scopes_frames: "evolves setup_same (setClientScopes E i us)" "evolves uris_same (setClientScopes E i us)"
  unfolding setClientScopes_def insert_client_scope_def drop_client_scopes_def Let_def
  by (intro setup_frame.rules uris_frame.rules evolves_random evolves_guarded;
      auto simp: setup_same_def uris_same_def)+

text \<open>The new redirect URIs and grants of a client are exactly those that were given.\<close>

definition uris_of :: "string \<Rightarrow> world \<Rightarrow> string list" where
  "uris_of i w = List.map ru_redirect_uri (filter (\<lambda>r. ru_client_id r = i) (redirect_uris w))"

lemma redirect_uris_of_sorted: "redirect_uris_of i w = sort (uris_of i w)"
  by (simp add: redirect_uris_of_def uris_of_def)

lemma each_uris:
  "each (insert_redirect_uri E i) us w = (Inr u, t) \<Longrightarrow>
     uris_of i t = uris_of i w @ List.map js_trim (filter (\<lambda>v. js_trim v \<noteq> []) us)"
proof (induction us arbitrary: w)
  case (Cons v us)
  then obtain x s where one: "insert_redirect_uri E i v w = (Inr x, s)" and rest: "each (insert_redirect_uri E i) us s = (Inr u, t)"
    by (auto simp: seq_Inr)
  have "uris_of i s = uris_of i w @ List.map js_trim (filter (\<lambda>v. js_trim v \<noteq> []) [v])"
    using one by (auto simp: insert_redirect_uri_def Let_def guarded_Inr uris_of_def split: if_splits)
  with Cons.IH [OF rest] show ?case by simp
qed simp

lemma setRedirectUris_Inr:
  assumes "setRedirectUris E i us w = (Inr u, t)"
  shows "uris_of i t = List.map js_trim (filter (\<lambda>v. js_trim v \<noteq> []) us)"
proof -
  have "uris_of i (w\<lparr>redirect_uris := filter (\<lambda>r. ru_client_id r \<noteq> i) (redirect_uris w)\<rparr>) = []"
    by (simp add: uris_of_def filter_empty_conv)
  with assms each_uris show ?thesis by (fastforce simp: setRedirectUris_def)
qed

lemma each_scopes:
  "each (insert_client_scope E i) ids w = (Inr u, t) \<Longrightarrow>
     getClientScopes i t = getClientScopes i w @ filter (\<lambda>s. s \<noteq> []) ids"
proof (induction ids arbitrary: w)
  case (Cons v ids)
  then obtain x s where one: "insert_client_scope E i v w = (Inr x, s)" and rest: "each (insert_client_scope E i) ids s = (Inr u, t)"
    by (auto simp: seq_Inr)
  have "getClientScopes i s = getClientScopes i w @ filter (\<lambda>s. s \<noteq> []) [v]"
    using one by (auto simp: insert_client_scope_def Let_def guarded_Inr getClientScopes_def split: if_splits)
  with Cons.IH [OF rest] show ?case by simp
qed simp

lemma setClientScopes_Inr:
  assumes "setClientScopes E i ids w = (Inr u, t)"
  shows "getClientScopes i t = filter (\<lambda>s. s \<noteq> []) ids"
proof -
  have "getClientScopes i (drop_client_scopes (\<lambda>r. cs_client_id r = i) w) = []"
    by (simp add: getClientScopes_def drop_client_scopes_def Let_def filter_empty_conv)
  with assms each_scopes show ?thesis by (fastforce simp: setClientScopes_def)
qed

definition only_draws :: "world \<Rightarrow> world \<Rightarrow> bool" where
  "only_draws s t \<longleftrightarrow> (\<exists>n. t = s\<lparr>draws := n\<rparr>)"

interpretation draw_frame: evolution only_draws
proof
  show "only_draws s s" for s :: world by (auto simp: only_draws_def intro: exI [of _ "draws s"])
qed (auto simp: only_draws_def)

lemma random_chars_draws: "evolves only_draws (random_chars E n)"
proof (induction n)
  case (Suc n)
  have "evolves only_draws (\<lambda>w. (Inr (f w) :: failure + nat, w\<lparr>draws := Suc (draws w)\<rparr>))" for f
    by (auto simp: evolves_def only_draws_def)
  with Suc show ?case by (auto intro!: draw_frame.rules)
qed (simp only: random_chars.simps draw_frame.keeps)

lemma identifiers_draw: "evolves only_draws (generateClientId E c)" "evolves only_draws (new_secret E p)"
  unfolding generateClientId_def new_secret_def generateClientSecret_def
  by (intro draw_frame.rules random_chars_draws evolves_random; auto simp: only_draws_def)+

text \<open>A new client, with no stale rows of its id: what is in the tables afterwards.\<close>

lemma createClient_effect:
  assumes run: "createClient E p w = (Inr (details, secret), t)"
    and uris: "\<exists>v \<in> set (nc_redirectUris p). js_trim v \<noteq> []"
  shows "\<exists>i cid stored home d. clients t = clients w @ [new_client_row p i cid stored home] \<and> setup_same w t
    \<and> nc_environmentId p \<in> env_id ` set (environments w)
    \<and> uris_of i t = List.map js_trim (filter (\<lambda>v. js_trim v \<noteq> []) (nc_redirectUris p))
    \<and> getClientScopes i t = (if filter (\<lambda>s. s \<noteq> []) (nc_scopeIds p) = [] then getClientScopes i w
        else filter (\<lambda>s. s \<noteq> []) (nc_scopeIds p))
    \<and> i \<notin> cl_id ` set (clients w)
    \<and> details = Some d \<and> c_clientId (cd_client d) = cid \<and> cd_redirectUris d = redirect_uris_of i t"
proof -
  let ?us = "filter (\<lambda>u. js_trim u \<noteq> []) (nc_redirectUris p)" and ?ids = "filter (\<lambda>s. s \<noteq> []) (nc_scopeIds p)"
  from run obtain i cid stored home s1 s2 where
      gen: "generateClientId E (resolveClientKeyPrefix E) (w\<lparr>draws := Suc (draws w)\<rparr>) = (Inr cid, s1)"
    and sec: "new_secret E p s1 = (Inr (secret, stored), s2)"
    and written: "write_client E p i cid stored home s2 = (Inr details, t)"
    unfolding createClient_def
    by (auto simp: seq_Inr throw_when_Inr simp del: run_throw_when split: prod.splits)
  have "only_draws w (w\<lparr>draws := Suc (draws w)\<rparr>)" by (auto simp: only_draws_def)
  then have "only_draws w s2"
    using evolvesD [OF identifiers_draw(1) gen] evolvesD [OF identifiers_draw(2) sec] draw_frame.trans by blast
  then have s2: "clients s2 = clients w" "setup_same w s2" by (auto simp: only_draws_def setup_same_def)
  obtain s3 s4 s5 where made: "create_client (new_client_row p i cid stored home) s2 = (Inr (), s3)"
    and us: "(if ?us = [] then ret () else setRedirectUris E i ?us) s3 = (Inr (), s4)"
    and ids: "(if ?ids = [] then ret () else setClientScopes E i ?ids) s4 = (Inr (), s5)"
    and det: "details = getClientWithDetails i s5" and logs: "\<exists>a b c d e. logAction E a b c d e s5 = (Inr (), t)"
    and found: "client_by_id i s5 = Some (rowToClient s3 (new_client_row p i cid stored home))"
    using write_client_Inr [OF written] by blast
  from logs obtain a b c d e where logged: "logAction E a b c d e s5 = (Inr (), t)" by blast
  note row = create_client_Inr(2) [OF made] and last = audit_frames [THEN evolvesD, OF logged]
  have nonempty: "?us \<noteq> []" using uris by (auto simp: filter_empty_conv)
  with us have us: "setRedirectUris E i ?us s3 = (Inr (), s4)" by simp
  have "same_clients s3 t"
    using evolvesD [OF uris_client_frame us] skipped [OF scopes_client_frame ids] evolvesD [OF audit_client_frame logged]
      client_frame.trans by blast
  then have "clients t = clients w @ [new_client_row p i cid stored home]"
    using row s2(1) by (simp add: same_clients_def)
  moreover have grants: "setup_same s4 s5 \<and> uris_same s4 s5"
    using ids evolvesD [OF set_scopes_frames(1)] evolvesD [OF set_scopes_frames(2)]
    by (auto split: if_splits simp: setup_same_def uris_same_def)
  then have "setup_same w t"
    using s2 row evolvesD [OF set_uris_frames(1) us] last(1) by (auto simp: setup_same_def)
  moreover have "uris_of i t = List.map js_trim ?us"
    using setRedirectUris_Inr [OF us] grants last(2) by (simp add: uris_of_def uris_same_def)
  moreover have "getClientScopes i t = (if ?ids = [] then getClientScopes i w else ?ids)"
    using ids setClientScopes_Inr [of E i ?ids s4 "()" s5] last(3) evolvesD [OF set_uris_frames(2) us] row \<open>only_draws w s2\<close>
    by (auto simp: getClientScopes_def grants_same_def only_draws_def)
  moreover have "i \<notin> cl_id ` set (clients w)"
    using made s2(1) by (auto simp: create_client_def guarded_Inr client_violated_def new_client_row_def split: if_splits)
  moreover have "nc_environmentId p \<in> env_id ` set (environments w)"
    using made s2(2) by (auto simp: create_client_def guarded_Inr client_violated_def new_client_row_def setup_same_def split: if_splits)
  moreover have "redirect_uris_of i s5 = redirect_uris_of i t"
    using last(2) by (simp add: redirect_uris_of_def uris_same_def)
  moreover obtain d where "details = Some d" "c_clientId (cd_client d) = cid" "cd_redirectUris d = redirect_uris_of i s5"
    by (simp add: det getClientWithDetails_def found rowToClient_def new_client_row_def)
  ultimately show ?thesis by metis
qed


section \<open>A registered client\<close>

lemma lifted_Inr [simp]: "lifted p w = (Inr x, t) \<longleftrightarrow> p w = (Inr x, t)"
  by (auto simp: lifted_def split: prod.splits sum.splits)

lemma lifted_apply:
  "p w = (Inr x, s) \<Longrightarrow> lifted p w = (Inr x, s)" "p w = (Inl e, s) \<Longrightarrow> lifted p w = (Inl (OtherFailure e), s)"
  by (simp_all add: lifted_def)

lemma parse_redirect_uris_Inr:
  assumes "parse_redirect_uris E v = Inr us"
  shows "us \<noteq> []" "length us \<le> 5" "\<forall>u \<in> set us. isValidRedirectUri E u"
  using assms
  by (auto simp: parse_redirect_uris_def MAX_REDIRECT_URIS_def find_None_iff split: option.splits if_splits)

lemma parse_request_Inr:
  assumes "parseDcrRegistrationRequest E body = Inr q"
  shows "dq_redirectUris q \<noteq> []" "length (dq_redirectUris q) \<le> 5" "\<forall>u \<in> set (dq_redirectUris q). isValidRedirectUri E u"
    and "dq_tokenEndpointAuthMethod q \<in> {''none'', ''client_secret_basic'', ''client_secret_post''}"
  using assms parse_redirect_uris_Inr
  by (auto simp: parseDcrRegistrationRequest_def parse_auth_method_def SUPPORTED_AUTH_METHODS_def
      split: dcr_body.splits sum.splits option.splits meta.splits if_splits)

lemma resolve_scope_ids_known:
  assumes "resolve_scope_ids names w = Inr ids"
  shows "set ids \<subseteq> sc_id ` set (scopes w)"
proof -
  let ?m = "map_of (rev (List.map (\<lambda>s. (sc_scope_name s, sc_id s)) (list_scopes w)))"
  have "ids = List.map (\<lambda>n. the (?m n)) names" and known: "\<forall>n \<in> set names. ?m n \<noteq> None"
    using assms by (auto simp: resolve_scope_ids_def Let_def filter_empty_conv split: if_splits)
  moreover have "the (?m n) \<in> sc_id ` set (scopes w)" if known: "?m n \<noteq> None" for n
  proof -
    obtain i where i: "?m n = Some i" using known by auto
    from map_of_SomeD [OF i] have "i \<in> sc_id ` set (list_scopes w)" by auto
    with i show ?thesis by (simp add: list_scopes_def)
  qed
  ultimately show ?thesis by auto
qed

lemma dcr_client_fields [simp]:
  "nc_environmentId (dcr_client q env ids) = env" "nc_redirectUris (dcr_client q env ids) = dq_redirectUris q"
  "nc_scopeIds (dcr_client q env ids) = ids" "nc_isDynamic (dcr_client q env ids)" "\<not> nc_isTest (dcr_client q env ids)"
  "nc_createdBy (dcr_client q env ids) = None" "auth_method (dcr_client q env ids) = dq_tokenEndpointAuthMethod q"
  by (simp_all add: dcr_client_def auth_method_def)

lemma register_Inr:
  assumes "register E q w = (Inr r, t)"
  shows "\<exists>env ids d secret s. dcr_environment E = Some env \<and> resolve_scope_ids (dq_scopeNames q) w = Inr ids
    \<and> createClient E (dcr_client q env ids) w = (Inr (Some d, secret), s) \<and> (\<exists>n. t = s\<lparr>ticks := n\<rparr>)
    \<and> dp_client_id r = c_clientId (cd_client d) \<and> dp_redirect_uris r = cd_redirectUris d"
proof -
  let ?after = "\<lambda>details secret. seq (lifted (now_ms E)) (\<lambda>now. seq (need details (OtherFailure (JsError ''Cannot read properties of null''))) (\<lambda>d.
       ret \<lparr>dp_client_id = c_clientId (cd_client d), dp_client_id_issued_at = now div 1000,
          dp_redirect_uris = cd_redirectUris d, dp_grant_types = dq_grantTypes q,
          dp_response_types = dq_responseTypes q, dp_token_endpoint_auth_method = dq_tokenEndpointAuthMethod q,
          dp_scope = (if dq_scopeNames q = [] then None else Some (join_with '' '' (dq_scopeNames q))),
          dp_client_secret = (if dq_tokenEndpointAuthMethod q = ''none'' then None else Some secret),
          dp_client_secret_expires_at = (if dq_tokenEndpointAuthMethod q = ''none'' then None else Some 0)\<rparr>))"
  obtain env where env: "dcr_environment E = Some env"
    using assms by (cases "dcr_environment E") (simp_all add: register_def run_seq)
  obtain ids where ids: "resolve_scope_ids (dq_scopeNames q) w = Inr ids"
    using assms env by (cases "resolve_scope_ids (dq_scopeNames q) w") (simp_all add: register_def run_seq)
  obtain e where e: "environment_by_id env w = Some e"
    using assms env ids by (cases "environment_by_id env w") (simp_all add: register_def run_seq)
  have "seq (lifted (createClient E (dcr_client q env ids))) (\<lambda>(details, secret). ?after details secret) w = (Inr r, t)"
    using assms env ids e by (simp add: register_def run_seq)
  moreover obtain x s where "createClient E (dcr_client q env ids) w = (x, s)" by fastforce
  ultimately obtain details secret where c: "createClient E (dcr_client q env ids) w = (Inr (details, secret), s)"
    and rest: "?after details secret s = (Inr r, t)"
    by (cases x) (auto simp: run_seq [of "lifted (createClient E (dcr_client q env ids))"] lifted_apply)
  have now: "lifted (now_ms E) s = (Inr (clock E (ticks s)), s\<lparr>ticks := Suc (ticks s)\<rparr>)" by (simp add: lifted_apply)
  obtain d where d: "details = Some d" using rest now by (cases details) (simp_all add: run_seq)
  have "t = s\<lparr>ticks := Suc (ticks s)\<rparr> \<and> dp_client_id r = c_clientId (cd_client d) \<and> dp_redirect_uris r = cd_redirectUris d"
    using rest now d by (clarsimp simp: run_seq)
  with env ids c d show ?thesis by blast
qed

text \<open>
  C15. A dynamic registration adds exactly one client: a dynamic one without a creator, never a test
  client, in the configured environment, which exists. All its redirect URIs are ones the parser
  accepted (an https URL, or http on the loopback interface, without a fragment), one to five of
  them, and its grants are scopes this server defines. No user, scope or environment changes. The
  hypotheses say that blank text is no URL and that grants belong to clients that exist.
\<close>

theorem dcr_client_constrained:
  assumes "post_register E ip body w = (Inr (Registered r), t)"
    and "\<forall>u. js_trim u = [] \<longrightarrow> parse_url E u = None"
    and "\<forall>g \<in> set (client_scopes w). cs_client_id g \<in> cl_id ` set (clients w)"
  shows "\<exists>row env. dcr_environment E = Some env \<and> env \<in> env_id ` set (environments w)
    \<and> clients t = clients w @ [row] \<and> cl_client_id row = dp_client_id r \<and> cl_environment_id row = env
    \<and> cl_is_dynamic row \<and> \<not> cl_is_test row \<and> cl_created_by row = None
    \<and> cl_token_endpoint_auth_method row \<in> {''none'', ''client_secret_basic'', ''client_secret_post''}
    \<and> redirect_uris_of (cl_id row) t = dp_redirect_uris r \<and> 1 \<le> length (dp_redirect_uris r) \<and> length (dp_redirect_uris r) \<le> 5
    \<and> (\<forall>v \<in> set (dp_redirect_uris r). \<exists>u. v = js_trim u \<and> isValidRedirectUri E u)
    \<and> set (getClientScopes (cl_id row) t) \<subseteq> sc_id ` set (scopes w)
    \<and> users t = users w \<and> scopes t = scopes w \<and> environments t = environments w"
proof -
  let ?u = "count_attempt (address ip) (day_of E w) (w\<lparr>ticks := Suc (ticks w)\<rparr>)"
  obtain q where q: "parseDcrRegistrationRequest E body = Inr q" and reg: "register E q ?u = (Inr r, t)"
    using assms(1)
    by (auto simp: post_register_run Let_def seq_Inr split: if_splits dcr_body.splits prod.splits sum.splits dcr_failure.splits dest: sym)
  note parsed = parse_request_Inr [OF q]
  obtain env ids d secret s where env: "dcr_environment E = Some env" and ids: "resolve_scope_ids (dq_scopeNames q) ?u = Inr ids"
    and made: "createClient E (dcr_client q env ids) ?u = (Inr (Some d, secret), s)" and t: "\<exists>n. t = s\<lparr>ticks := n\<rparr>"
    and resp: "dp_client_id r = c_clientId (cd_client d)" "dp_redirect_uris r = cd_redirectUris d"
    using register_Inr [OF reg] by blast
  have valid: "js_trim v \<noteq> []" if "v \<in> set (dq_redirectUris q)" for v
    using parsed(3) that assms(2) by (auto simp: isValidRedirectUri_def split: option.splits)
  have "\<exists>v \<in> set (nc_redirectUris (dcr_client q env ids)). js_trim v \<noteq> []"
    using parsed(1) valid by (cases "dq_redirectUris q") auto
  from createClient_effect [OF made this] obtain i cid stored home where
      cl: "clients s = clients ?u @ [new_client_row (dcr_client q env ids) i cid stored home]" and same: "setup_same ?u s"
    and exists: "env \<in> env_id ` set (environments ?u)"
    and uris: "uris_of i s = List.map js_trim (filter (\<lambda>v. js_trim v \<noteq> []) (dq_redirectUris q))"
    and grants: "getClientScopes i s = (if filter (\<lambda>s. s \<noteq> []) ids = [] then getClientScopes i ?u
       else filter (\<lambda>s. s \<noteq> []) ids)" and fresh: "i \<notin> cl_id ` set (clients ?u)"
    and det: "c_clientId (cd_client d) = cid" "cd_redirectUris d = redirect_uris_of i s"
    unfolding dcr_client_fields by blast
  have all: "filter (\<lambda>v. js_trim v \<noteq> []) (dq_redirectUris q) = dq_redirectUris q" using valid by (simp add: filter_id_conv)
  let ?row = "new_client_row (dcr_client q env ids) i cid stored home"
  have row: "cl_id ?row = i" "cl_client_id ?row = cid" "cl_environment_id ?row = env" "cl_is_dynamic ?row" "\<not> cl_is_test ?row"
    "cl_created_by ?row = None" "cl_token_endpoint_auth_method ?row = dq_tokenEndpointAuthMethod q"
    by (simp_all add: new_client_row_def)
  have u: "clients ?u = clients w" "users ?u = users w" "scopes ?u = scopes w" "environments ?u = environments w"
    by (simp_all add: count_attempt_def)
  have t_rows: "clients t = clients s" "redirect_uris_of i t = redirect_uris_of i s" "getClientScopes i t = getClientScopes i s"
    "users t = users s" "scopes t = scopes s" "environments t = environments s"
    using t by (auto simp: redirect_uris_of_def getClientScopes_def)
  have len: "length (dp_redirect_uris r) = length (dq_redirectUris q)" "set (dp_redirect_uris r) = js_trim ` set (dq_redirectUris q)"
    using resp det uris all by (simp_all add: redirect_uris_of_sorted)
  show ?thesis
  proof (intro exI conjI)
    show "dcr_environment E = Some env" by (rule env)
    show "clients t = clients w @ [?row]" using cl t_rows(1) u(1) by simp
    show "1 \<le> length (dp_redirect_uris r)" using parsed(1) len(1) by (cases "dq_redirectUris q") simp_all
    have "client_scopes ?u = client_scopes w" by (simp add: count_attempt_def)
    then have "getClientScopes i ?u = []"
      using fresh assms(3) u(1) by (auto simp: getClientScopes_def filter_empty_conv)
    then show "set (getClientScopes (cl_id ?row) t) \<subseteq> sc_id ` set (scopes w)"
      using grants resolve_scope_ids_known [OF ids] u(3) t_rows(3) row(1) by auto
  qed (use exists u row det resp t_rows parsed len same in \<open>auto simp: setup_same_def\<close>)
qed

end
