(* ===== verification/SetupRules.thy ===== *)
theory SetupRules
  imports DcrClient
begin

text \<open>
  The well-formedness of the setup tables: identifiers are unique and every reference from a
  client, a grant, a redirect URI or a scope link has a row to point to. Every operation on
  environments, scopes and clients, and dynamic registration, preserves it however it ends.
\<close>

definition scope_links :: "world \<Rightarrow> scope_link set" where
  "scope_links w = set (token_scopes w) \<union> set (authorization_code_scopes w) \<union> set (refresh_token_scopes w)
     \<union> set (api_key_scopes w)"

definition refs_ok :: "world \<Rightarrow> bool" where
  "refs_ok w \<longleftrightarrow>
     distinct (List.map env_id (environments w)) \<and> distinct (List.map sc_id (scopes w))
     \<and> distinct (List.map sc_scope_name (scopes w)) \<and> distinct (List.map cl_id (clients w))
     \<and> distinct (List.map cl_client_id (clients w)) \<and> distinct (List.map cs_id (client_scopes w))
     \<and> (\<forall>c \<in> set (clients w). cl_environment_id c \<in> env_id ` set (environments w) \<and> \<not> (cl_is_test c \<and> cl_is_dynamic c))
     \<and> (\<forall>g \<in> set (client_scopes w). cs_client_id g \<in> cl_id ` set (clients w) \<and> cs_scope_id g \<in> sc_id ` set (scopes w))
     \<and> (\<forall>u \<in> set (redirect_uris w). ru_client_id u \<in> cl_id ` set (clients w))
     \<and> (\<forall>l \<in> scope_links w. lk_client_scope_id l \<in> cs_id ` set (client_scopes w))"

definition same_refs :: "world \<Rightarrow> world \<Rightarrow> bool" where
  "same_refs s t \<longleftrightarrow> environments t = environments s \<and> scopes t = scopes s \<and> clients t = clients s
     \<and> client_scopes t = client_scopes s \<and> redirect_uris t = redirect_uris s \<and> token_scopes t = token_scopes s
     \<and> authorization_code_scopes t = authorization_code_scopes s \<and> refresh_token_scopes t = refresh_token_scopes s
     \<and> api_key_scopes t = api_key_scopes s"

interpretation refs_frame: evolution same_refs
  by unfold_locales (auto simp: same_refs_def)

definition keeps_refs :: "world \<Rightarrow> world \<Rightarrow> bool" where
  "keeps_refs s t \<longleftrightarrow> (refs_ok s \<longrightarrow> refs_ok t)"

interpretation refs: evolution keeps_refs
  by unfold_locales (auto simp: keeps_refs_def)

lemma same_refs_ok: "same_refs s t \<Longrightarrow> refs_ok t \<longleftrightarrow> refs_ok s"
  by (simp add: same_refs_def refs_ok_def scope_links_def)

lemma refs_frame_keeps: "evolves same_refs m \<Longrightarrow> evolves keeps_refs m"
  by (auto simp: evolves_def keeps_refs_def dest: same_refs_ok)

section \<open>Frames\<close>

lemma refs_platform:
  "evolves same_refs (now_ms E)" "evolves same_refs (now_iso E)" "evolves same_refs (randomUUID E)"
  "evolves same_refs (getRandomValues E n)" "evolves same_refs (randomUUIDs E n)"
  by (auto simp: evolves_def same_refs_def)

lemma refs_audit: "evolves same_refs (logAction E a b c d e)"
  unfolding logAction_def buildRow_def insert_audit_def
  by (intro refs_frame.rules refs_platform evolves_guarded) (auto simp: same_refs_def)

lemma refs_identifiers:
  "evolves same_refs (generateClientId E c)" "evolves same_refs (new_secret E p)" "evolves same_refs (generateClientSecret E)"
proof -
  have "only_draws s t \<Longrightarrow> same_refs s t" for s t by (auto simp: only_draws_def same_refs_def)
  then have draw: "evolves only_draws m \<Longrightarrow> evolves same_refs m" for m :: "'a m" by (auto simp: evolves_def)
  show "evolves same_refs (generateClientId E c)" "evolves same_refs (new_secret E p)"
    by (rule draw, rule identifiers_draw)+
  show "evolves same_refs (generateClientSecret E)"
    unfolding generateClientSecret_def by (intro refs_frame.rules refs_platform)
qed

lemma refs_claims: "evolves same_refs (setClientClaims E i cls)"
proof -
  have tr: "evolves same_refs m \<Longrightarrow> evolves same_refs (transaction m)" for m :: "'a m"
    by (rule evolvesI) (auto simp: transaction_def split: sum.splits prod.splits dest: evolvesD intro: refs_frame.refl)
  have "evolves same_refs (replaceClientClaims E i cs)" for cs
    unfolding replaceClientClaims_def
    by (intro refs_frame.rules refs_platform tr evolves_guarded) (auto simp: same_refs_def)
  then show ?thesis unfolding setClientClaims_def by (intro refs_frame.rules)
qed

section \<open>Rows\<close>

lemma keys_left: "f ` {r \<in> set rs. f r \<noteq> i} = f ` set rs - {i}"
  by auto

lemma create_environment_keeps: "evolves keeps_refs (create_environment_row r)"
  unfolding create_environment_row_def
  by (rule evolves_guarded) (auto simp: keeps_refs_def refs_ok_def scope_links_def split: if_splits)

lemma update_environment_keeps: "evolves keeps_refs (update_environment_row i n d)"
proof -
  have ids: "List.map env_id (List.map (\<lambda>r. if env_id r = i then r\<lparr>env_name := n, env_display_name := d\<rparr> else r) rs) = List.map env_id rs"
    for rs :: "environment_row list" by (induction rs) auto
  then have "env_id ` set (List.map (\<lambda>r. if env_id r = i then r\<lparr>env_name := n, env_display_name := d\<rparr> else r) rs) = env_id ` set rs"
    for rs :: "environment_row list" by (metis list.set_map)
  with ids show ?thesis unfolding update_environment_row_def
    by (intro refs.writes) (simp add: keeps_refs_def refs_ok_def scope_links_def del: List.map_map set_map)
qed

lemma delete_environment_keeps: "evolves keeps_refs (delete_environment_row i)"
  unfolding delete_environment_row_def
proof (rule evolves_guarded)
  fix w :: world
  assume none: "(if i \<in> set (List.map env_id (environments w)) \<and> i \<in> set (List.map cl_environment_id (clients w))
                 then Some ''FOREIGN KEY constraint failed'' else None) = None"
  show "keeps_refs w (if i \<in> set (List.map env_id (environments w))
             then w\<lparr>environments := filter (\<lambda>r. env_id r \<noteq> i) (environments w),
                    users_environments := filter (\<lambda>r. ue_environment_id r \<noteq> i) (users_environments w),
                    password_policy_environments := filter (\<lambda>r. pe_environment_id r \<noteq> i) (password_policy_environments w)\<rparr>
             else w)"
  proof (cases "i \<in> set (List.map env_id (environments w))")
    case True
    with none have "i \<notin> set (List.map cl_environment_id (clients w))" by (simp split: if_splits)
    then have "\<forall>c \<in> set (clients w). cl_environment_id c \<noteq> i" by auto
    with True show ?thesis
      by (auto simp: keeps_refs_def refs_ok_def scope_links_def distinct_map_filter keys_left)
  qed (simp add: refs.refl)
qed (rule refs.refl)

lemma create_scope_keeps: "evolves keeps_refs (create_scope_row r)"
  unfolding create_scope_row_def
  by (rule evolves_guarded) (auto simp: keeps_refs_def refs_ok_def scope_links_def scope_violated_def split: if_splits)

lemma update_scope_keeps: "evolves keeps_refs (update_scope_row i n d)"
proof -
  let ?f = "\<lambda>r. if sc_id r = i then r\<lparr>sc_display_name := n, sc_description := d\<rparr> else r"
  have ids: "List.map sc_id (List.map ?f rs) = List.map sc_id rs" "List.map sc_scope_name (List.map ?f rs) = List.map sc_scope_name rs"
    for rs :: "scope_row list" by (induction rs) auto
  then have "sc_id ` set (List.map ?f rs) = sc_id ` set rs" for rs :: "scope_row list" by (metis list.set_map)
  with ids show ?thesis unfolding update_scope_row_def
    by (intro refs.writes) (simp add: keeps_refs_def refs_ok_def scope_links_def del: List.map_map set_map)
qed

lemma delete_scope_keeps: "evolves keeps_refs (delete_scope_row i)"
  unfolding delete_scope_row_def
  by (rule evolves_guarded)
    (auto simp: keeps_refs_def refs_ok_def scope_links_def distinct_map_filter keys_left split: if_splits)

lemma create_client_keeps: "evolves keeps_refs (create_client r)"
  unfolding create_client_def
  by (rule evolves_guarded) (auto simp: keeps_refs_def refs_ok_def scope_links_def client_violated_def split: if_splits)


lemma update_client_keeps:
  assumes "\<And>r. cl_id (f r) = cl_id r \<and> cl_client_id (f r) = cl_client_id r \<and> cl_environment_id (f r) = cl_environment_id r
    \<and> cl_is_test (f r) = cl_is_test r \<and> cl_is_dynamic (f r) = cl_is_dynamic r"
  shows "evolves keeps_refs (update_client i f)"
proof -
  let ?f = "\<lambda>r. if cl_id r = i then f r else r"
  have ids: "List.map cl_id (List.map ?f rs) = List.map cl_id rs" "List.map cl_client_id (List.map ?f rs) = List.map cl_client_id rs"
    for rs by (induction rs) (auto simp: assms)
  then have keys: "cl_id ` set (List.map ?f rs) = cl_id ` set rs" for rs by (metis list.set_map)
  have rows: "\<forall>c \<in> set (List.map ?f rs). P c" if "\<forall>c \<in> set rs. P c"
    "P = (\<lambda>c. cl_environment_id c \<in> S \<and> \<not> (cl_is_test c \<and> cl_is_dynamic c))" for rs P S
    using that assms by auto
  show ?thesis unfolding update_client_def
    by (intro refs.writes)
      (simp add: keeps_refs_def refs_ok_def scope_links_def ids keys assms del: List.map_map set_map;
       use assms in auto)
qed

lemma updateSecret_keeps: "evolves keeps_refs (updateSecret i s)"
  using update_client_keeps [of "\<lambda>r. r\<lparr>cl_client_secret := s\<rparr>" i] by (simp add: updateSecret_def update_client_def)

lemma insert_uri_keeps: "evolves keeps_refs (insert_redirect_uri E i u)"
proof -
  have g: "evolves keeps_refs (guarded (redirect_uri_violated r) (\<lambda>w. w\<lparr>redirect_uris := redirect_uris w @ [r]\<rparr>))" for r
    by (rule evolves_guarded)
      (auto simp: keeps_refs_def refs_ok_def scope_links_def redirect_uri_violated_def split: if_splits)
  then show ?thesis unfolding insert_redirect_uri_def Let_def
    by (intro refs.rules g refs_frame_keeps [OF refs_platform(3)])
qed

lemma setRedirectUris_keeps: "evolves keeps_refs (setRedirectUris E i us)"
  unfolding setRedirectUris_def
  by (intro refs.rules insert_uri_keeps) (auto simp: keeps_refs_def refs_ok_def scope_links_def)

lemma insert_grant_keeps: "evolves keeps_refs (insert_client_scope E i s)"
proof -
  have g: "evolves keeps_refs (guarded (client_scope_violated r) (\<lambda>w. w\<lparr>client_scopes := client_scopes w @ [r]\<rparr>))" for r
    by (rule evolves_guarded)
      (auto simp: keeps_refs_def refs_ok_def scope_links_def client_scope_violated_def split: if_splits)
  then show ?thesis unfolding insert_client_scope_def Let_def
    by (intro refs.rules g refs_frame_keeps [OF refs_platform(3)])
qed

text \<open>Dropping grants drops their links; what stays still has its grant.\<close>

lemma grants_left:
  "distinct (List.map cs_id gs) \<Longrightarrow> cs_id ` set (filter (\<lambda>g. \<not> P g) gs) = cs_id ` set gs - cs_id ` set (filter P gs)"
  by (induction gs) auto

lemma drop_client_scopes_keeps: "keeps_refs w (drop_client_scopes P w)"
  unfolding keeps_refs_def
proof
  assume ok: "refs_ok w"
  then have left: "cs_id ` set (filter (\<lambda>g. \<not> P g) (client_scopes w)) = cs_id ` set (client_scopes w) - cs_id ` set (filter P (client_scopes w))"
    by (intro grants_left) (simp add: refs_ok_def)
  have "lk_client_scope_id l \<in> cs_id ` set (client_scopes (drop_client_scopes P w))" if "l \<in> scope_links (drop_client_scopes P w)" for l
  proof -
    from that have "l \<in> scope_links w" "lk_client_scope_id l \<notin> cs_id ` set (filter P (client_scopes w))"
      by (auto simp: scope_links_def drop_client_scopes_def Let_def)
    with ok left show ?thesis by (auto simp: refs_ok_def drop_client_scopes_def Let_def)
  qed
  with ok show "refs_ok (drop_client_scopes P w)"
    by (auto simp: refs_ok_def drop_client_scopes_def Let_def distinct_map_filter)
qed

lemma setClientScopes_keeps: "evolves keeps_refs (setClientScopes E i ids)"
  unfolding setClientScopes_def
  by (intro refs.rules insert_grant_keeps drop_client_scopes_keeps)

lemma delete_client_keeps: "evolves keeps_refs (delete_client_by_id i)"
  unfolding delete_client_by_id_def
proof (rule refs.writes)
  fix w
  show "keeps_refs w (delete_client_rows i w)"
  proof (cases "i \<in> set (List.map cl_id (clients w))")
    case True
    define v where "v = delete_codes (\<lambda>r. ac_client_id r = i) (delete_refresh (\<lambda>r. rt_client_id r = i)
      (delete_tokens (\<lambda>t. at_client_id t = i) (delete_api_keys (\<lambda>k. ak_client_id k = i) w)))"
    define u where "u = drop_client_scopes (\<lambda>r. cs_client_id r = i) v"
    have t: "delete_client_rows i w = u\<lparr>clients := filter (\<lambda>r. cl_id r \<noteq> i) (clients u),
        redirect_uris := filter (\<lambda>r. ru_client_id r \<noteq> i) (redirect_uris u),
        client_claims := filter (\<lambda>r. cc_client_id r \<noteq> i) (client_claims u),
        user_consents := filter (\<lambda>r. co_client_id r \<noteq> i) (user_consents u),
        site_admin_api_clients := filter (\<lambda>c. c \<noteq> i) (site_admin_api_clients u)\<rparr>"
      using True by (simp add: delete_client_rows_def Let_def u_def v_def)
    have "keeps_refs w v"
      by (auto simp: keeps_refs_def refs_ok_def scope_links_def v_def delete_codes_def delete_refresh_def delete_tokens_def
          delete_api_keys_def Let_def)
    then have "keeps_refs w u" unfolding u_def using drop_client_scopes_keeps refs.trans by blast
    moreover have "\<forall>g \<in> set (client_scopes u). cs_client_id g \<noteq> i"
      by (auto simp: u_def drop_client_scopes_def Let_def)
    ultimately show ?thesis unfolding t
      by (auto simp: keeps_refs_def refs_ok_def scope_links_def distinct_map_filter keys_left)
  qed (simp add: delete_client_rows_def keeps_refs_def)
qed

section \<open>Operations\<close>

lemma logs_keep: "evolves keeps_refs (logAction E a b c d e)"
  by (rule refs_frame_keeps, rule refs_audit)

lemmas refs_calls = logs_keep refs_platform [THEN refs_frame_keeps] refs_identifiers [THEN refs_frame_keeps]
  refs_claims [THEN refs_frame_keeps]

lemma environment_operations_keep:
  "evolves keeps_refs (createEnvironment E n d a)" "evolves keeps_refs (updateEnvironment E i n d a)"
  "evolves keeps_refs (deleteEnvironment E i a)"
  unfolding createEnvironment_def updateEnvironment_def deleteEnvironment_def Let_def
  by (intro refs.rules refs_calls create_environment_keeps update_environment_keeps delete_environment_keeps)+

lemma scope_operations_keep:
  "evolves keeps_refs (createScope E n d s a)" "evolves keeps_refs (updateScope E i d s a)"
  "evolves keeps_refs (deleteScope E i a)"
  unfolding createScope_def updateScope_def deleteScope_def Let_def
  by (intro refs.rules refs_calls create_scope_keeps update_scope_keeps delete_scope_keeps)+

lemma createClient_keeps: "evolves keeps_refs (createClient E p)"
  unfolding createClient_def write_client_def Let_def
  by (intro refs.rules refs_calls create_client_keeps setRedirectUris_keeps setClientScopes_keeps)

lemma with_client_keeps:
  "(\<And>cl. evolves keeps_refs (change cl)) \<Longrightarrow> evolves keeps_refs (with_client E i a change)"
  unfolding with_client_def by (intro refs.rules refs_calls)

lemma client_updates_keep:
  "evolves keeps_refs (updateRedirectUris E i us a)" "evolves keeps_refs (updateScopes E i ids a)"
  "evolves keeps_refs (updateName E i n a)" "evolves keeps_refs (updateHome E i h a)"
  "evolves keeps_refs (updateClaims E i cls a)"
  unfolding updateRedirectUris_def updateScopes_def updateName_def updateHome_def updateClaims_def Let_def
  by (intro with_client_keeps refs.rules refs_calls setRedirectUris_keeps setClientScopes_keeps update_client_keeps; simp)+

lemma client_removal_keeps:
  "evolves keeps_refs (deleteClient E i a)" "evolves keeps_refs (rotateSecret E i a)"
  unfolding deleteClient_def rotateSecret_def
  by (intro refs.rules refs_calls delete_client_keeps updateSecret_keeps)+

lemma lifted_keeps: "evolves keeps_refs p \<Longrightarrow> evolves keeps_refs (lifted p)"
  by (rule evolvesI) (auto simp: lifted_def dest: evolvesD split: prod.splits sum.splits)

lemma register_keeps: "evolves keeps_refs (register E q)"
  unfolding register_def
  by (intro refs.rules lifted_keeps createClient_keeps refs_calls) (simp add: evolves_def refs.refl)

lemma recordAttempt_keeps: "evolves keeps_refs (recordAttempt E ip)"
  unfolding recordAttempt_def incrementAndGet_def
  by (intro refs.rules refs_calls) (auto simp: keeps_refs_def refs_ok_def scope_links_def count_attempt_def)

lemma post_register_keeps: "evolves keeps_refs (post_register E ip body)"
proof -
  have "evolves keeps_refs (seq (outcome (parseDcrRegistrationRequest E body)) (register E))" for body
    by (intro refs.rules register_keeps)
  then have all: "evolves keeps_refs (\<lambda>w. case seq (outcome (parseDcrRegistrationRequest E body)) (register E) w of
      (Inr r, w') \<Rightarrow> (Inr (Registered r), w')
    | (Inl (DcrServiceError c msg s), w') \<Rightarrow> (Inr (Refused c msg s), w')
    | (Inl (OtherFailure e), w') \<Rightarrow> (Inr (Refused ''server_error'' ''Unexpected registration error.'' 500), w'))" for body
    by (intro evolvesI) (auto dest: evolvesD split: prod.splits sum.splits dcr_failure.splits)
  then show ?thesis unfolding post_register_def
    by (intro refs.rules recordAttempt_keeps) (use all in \<open>auto split: dcr_body.split\<close>)
qed

section \<open>The setup as a transition system\<close>

inductive setup_step :: "cfg \<Rightarrow> world \<Rightarrow> world \<Rightarrow> bool" for E where
  environment_created: "createEnvironment E n d a w = (x, t) \<Longrightarrow> setup_step E w t"
| environment_updated: "updateEnvironment E i n d a w = (x', t) \<Longrightarrow> setup_step E w t"
| environment_deleted: "deleteEnvironment E i a w = (x'', t) \<Longrightarrow> setup_step E w t"
| scope_created: "createScope E n d s a w = (y, t) \<Longrightarrow> setup_step E w t"
| scope_updated: "updateScope E i d s a w = (y', t) \<Longrightarrow> setup_step E w t"
| scope_deleted: "deleteScope E i a w = (y'', t) \<Longrightarrow> setup_step E w t"
| client_created: "createClient E p w = (z, t) \<Longrightarrow> setup_step E w t"
| client_uris: "updateRedirectUris E i us a w = (c, t) \<Longrightarrow> setup_step E w t"
| client_scoped: "updateScopes E i ids a w = (c', t) \<Longrightarrow> setup_step E w t"
| client_named: "updateName E i m a w = (c'', t) \<Longrightarrow> setup_step E w t"
| client_home: "updateHome E i h a w = (b, t) \<Longrightarrow> setup_step E w t"
| client_claimed: "updateClaims E i cls a w = (b', t) \<Longrightarrow> setup_step E w t"
| client_deleted: "deleteClient E i a w = (b'', t) \<Longrightarrow> setup_step E w t"
| secret_rotated: "rotateSecret E i a w = (r, t) \<Longrightarrow> setup_step E w t"
| registered: "post_register E ip body w = (r', t) \<Longrightarrow> setup_step E w t"

lemmas setup_operations_keep = environment_operations_keep scope_operations_keep createClient_keeps client_updates_keep
  client_removal_keeps post_register_keeps

lemma setup_step_keeps: "setup_step E w t \<Longrightarrow> keeps_refs w t"
  by (induction rule: setup_step.induct) (erule setup_operations_keep [THEN evolvesD])+

lemma setup_steps_keep: "(setup_step E)\<^sup>*\<^sup>* w t \<Longrightarrow> refs_ok w \<Longrightarrow> refs_ok t"
  by (induction rule: rtranclp_induct) (auto dest: setup_step_keeps simp: keeps_refs_def)

text \<open>What is in use is refused by the service, before the database is asked; what is not goes alone.\<close>

lemma used_environment_refused:
  "i \<in> cl_environment_id ` set (clients w) \<Longrightarrow>
     deleteEnvironment E i a w = (Inr (Inl ''Cannot delete environment that has clients''), w)"
  by (auto simp: deleteEnvironment_def countClientsByEnvironment_def filter_empty_conv)

lemma used_scope_refused:
  "i \<in> cs_scope_id ` set (client_scopes w) \<Longrightarrow>
     deleteScope E i a w = (Inr (Inl ''Cannot delete scope that is assigned to clients''), w)"
  by (auto simp: deleteScope_def countClientScopes_def filter_empty_conv)

lemma logged_same_refs: "logAction E a b c d e w = (x, t) \<Longrightarrow> same_refs w t"
  by (rule evolvesD [OF refs_audit])

lemma environment_gone:
  assumes "deleteEnvironment E i a w = (Inr (Inr ()), t)"
  shows "environments t = filter (\<lambda>r. env_id r \<noteq> i) (environments w) \<and> clients t = clients w"
proof -
  obtain s b c d e f where "delete_environment_row i w = (Inr (), s)" and logged: "logAction E b c d e f s = (Inr (), t)"
    using assms by (auto simp: deleteEnvironment_def prog_inv split: if_splits)
  moreover have "filter (\<lambda>r. env_id r \<noteq> i) (environments w) = environments w" if "i \<notin> env_id ` set (environments w)"
    using that by (auto simp: filter_id_conv)
  ultimately show ?thesis using logged_same_refs [OF logged]
    by (auto simp: delete_environment_row_def guarded_Inr same_refs_def split: if_splits)
qed

lemma scope_gone:
  assumes "deleteScope E i a w = (Inr (Inr ()), t)"
  shows "scopes t = filter (\<lambda>r. sc_id r \<noteq> i) (scopes w) \<and> client_scopes t = client_scopes w"
proof -
  obtain s b c d e f where "delete_scope_row i w = (Inr (), s)" and logged: "logAction E b c d e f s = (Inr (), t)"
    using assms by (auto simp: deleteScope_def prog_inv split: if_splits)
  with logged_same_refs [OF logged] show ?thesis
    by (auto simp: delete_scope_row_def guarded_Inr same_refs_def)
qed

lemma dynamic_test_refused:
  "nc_isTest p \<and> nc_isDynamic p \<Longrightarrow>
     createClient E p w = (Inl (JsError ''A dynamically registered client cannot be a test client.''), w)"
  by (simp add: createClient_def run_seq)

text \<open>
  C24. No reference dangles. Whatever administrators do to environments, scopes and clients and
  whoever registers dynamically, in any order and however each operation ends, every client is in
  an environment that exists, every grant and every redirect URI belongs to a client that exists,
  every grant is of a scope that exists, every scope link of a token, code, refresh token or API
  key has its grant, identifiers and names stay unique, and no client is both dynamic and a test
  client. The services see to it themselves and not only the constraints of the database: to
  delete an environment or a scope that is in use is refused with the reason and changes nothing,
  as is to create a dynamic test client, and a deletion that goes through removes that row of its
  table and no client or grant.
\<close>

theorem references_never_dangle:
  assumes "(setup_step E)\<^sup>*\<^sup>* w t" and "refs_ok w"
  shows "refs_ok t
    \<and> (\<forall>i a. i \<in> cl_environment_id ` set (clients t) \<longrightarrow>
         deleteEnvironment E i a t = (Inr (Inl ''Cannot delete environment that has clients''), t))
    \<and> (\<forall>i a s. deleteEnvironment E i a t = (Inr (Inr ()), s) \<longrightarrow>
         environments s = filter (\<lambda>r. env_id r \<noteq> i) (environments t) \<and> clients s = clients t)
    \<and> (\<forall>i a. i \<in> cs_scope_id ` set (client_scopes t) \<longrightarrow>
         deleteScope E i a t = (Inr (Inl ''Cannot delete scope that is assigned to clients''), t))
    \<and> (\<forall>i a s. deleteScope E i a t = (Inr (Inr ()), s) \<longrightarrow>
         scopes s = filter (\<lambda>r. sc_id r \<noteq> i) (scopes t) \<and> client_scopes s = client_scopes t)
    \<and> (\<forall>p. nc_isTest p \<and> nc_isDynamic p \<longrightarrow>
         createClient E p t = (Inl (JsError ''A dynamically registered client cannot be a test client.''), t))"
proof (intro conjI allI impI)
  show "refs_ok t" by (rule setup_steps_keep [OF assms])
qed (erule used_environment_refused used_scope_refused dynamic_test_refused
       environment_gone [THEN conjunct1] environment_gone [THEN conjunct2] scope_gone [THEN conjunct1] scope_gone [THEN conjunct2])+

section \<open>Saving the scopes of a client\<close>

definition link_tables :: "(world \<Rightarrow> scope_link list) set" where
  "link_tables = {token_scopes, authorization_code_scopes, refresh_token_scopes, api_key_scopes}"

definition same_links :: "world \<Rightarrow> world \<Rightarrow> bool" where
  "same_links s t \<longleftrightarrow> (\<forall>links \<in> link_tables. links t = links s)"

interpretation link_frame: evolution same_links
  by unfold_locales (auto simp: same_links_def)

lemma same_refs_links: "same_refs s t \<Longrightarrow> same_links s t"
  by (simp add: same_refs_def same_links_def link_tables_def)

lemma insert_grants_links: "evolves same_links (each (insert_client_scope E i) ids)"
  unfolding insert_client_scope_def Let_def
  by (intro link_frame.rules evolves_random evolves_guarded) (auto simp: same_links_def link_tables_def)

lemma dropped_links:
  "links \<in> link_tables \<Longrightarrow>
   links (drop_client_scopes P w) = filter (\<lambda>l. lk_client_scope_id l \<notin> cs_id ` set (filter P (client_scopes w))) (links w)"
  by (auto simp: link_tables_def drop_client_scopes_def Let_def)

lemma updateScopes_Inr:
  assumes "updateScopes E i ids a w = (Inr (Some d), t)"
  shows "\<exists>s. setClientScopes E i (filter (\<lambda>s. s \<noteq> []) ids) w = (Inr (), s) \<and> same_refs s t
    \<and> (\<forall>links \<in> link_tables. links t = links (drop_client_scopes (\<lambda>r. cs_client_id r = i) w))"
proof -
  obtain s a' b c e f where set: "setClientScopes E i (filter (\<lambda>s. s \<noteq> []) ids) w = (Inr (), s)"
    and logged: "logAction E a' b c e f s = (Inr (), t)"
    using assms(1) by (auto simp: updateScopes_def with_client_def prog_inv Let_def split: option.splits)
  have rest: "each (insert_client_scope E i) (filter (\<lambda>s. s \<noteq> []) ids)
      (drop_client_scopes (\<lambda>r. cs_client_id r = i) w) = (Inr (), s)"
    using set by (simp add: setClientScopes_def run_seq)
  note same = logged_same_refs [OF logged]
  have "links t = links (drop_client_scopes (\<lambda>r. cs_client_id r = i) w)" if "links \<in> link_tables" for links
    using evolvesD [OF insert_grants_links rest] same_refs_links [OF same] that unfolding same_links_def by metis
  with set same show ?thesis by blast
qed

text \<open>The grants of the other clients, and the rows of the clients and the scopes.\<close>

definition other_grants :: "string \<Rightarrow> world \<Rightarrow> client_scope_row list" where
  "other_grants i w = filter (\<lambda>r. cs_client_id r \<noteq> i) (client_scopes w)"

definition same_others :: "string \<Rightarrow> world \<Rightarrow> world \<Rightarrow> bool" where
  "same_others i s t \<longleftrightarrow> other_grants i t = other_grants i s \<and> clients t = clients s \<and> scopes t = scopes s"

interpretation other_frame: evolution "same_others i" for i
  by unfold_locales (auto simp: same_others_def)

lemma insert_grant_others: "evolves (same_others i) (insert_client_scope E i s)"
  unfolding insert_client_scope_def Let_def
  by (intro other_frame.rules evolves_random evolves_guarded) (auto simp: same_others_def other_grants_def)

lemma set_scopes_others: "evolves (same_others i) (setClientScopes E i ids)"
  unfolding setClientScopes_def
  by (intro other_frame.rules insert_grant_others)
    (auto simp: same_others_def other_grants_def drop_client_scopes_def Let_def filter_id_conv)

text \<open>
  C31. Saving the scopes of a client leaves it exactly the wanted grants, in the order given and
  without the empty ids. The grants of every other client keep their rows, every scope link of a
  token, code, refresh token or API key that rests on one of those is kept, and the clients and
  the scopes stay as they are.
\<close>

theorem saved_scopes_exact:
  assumes "updateScopes E i ids a w = (Inr (Some d), t)"
  shows "getClientScopes i t = filter (\<lambda>s. s \<noteq> []) ids
    \<and> filter (\<lambda>r. cs_client_id r \<noteq> i) (client_scopes t) = filter (\<lambda>r. cs_client_id r \<noteq> i) (client_scopes w)
    \<and> (\<forall>links \<in> {token_scopes, authorization_code_scopes, refresh_token_scopes, api_key_scopes}. \<forall>l \<in> set (links w).
         lk_client_scope_id l \<notin> cs_id ` {g \<in> set (client_scopes w). cs_client_id g = i} \<longrightarrow> l \<in> set (links t))
    \<and> clients t = clients w \<and> scopes t = scopes w"
proof -
  obtain s where set: "setClientScopes E i (filter (\<lambda>s. s \<noteq> []) ids) w = (Inr (), s)" and same: "same_refs s t"
    and links: "\<forall>links \<in> link_tables. links t = links (drop_client_scopes (\<lambda>r. cs_client_id r = i) w)"
    using updateScopes_Inr [OF assms] by blast
  have "l \<in> set (links t)" if "links \<in> link_tables" "l \<in> set (links w)"
    "lk_client_scope_id l \<notin> cs_id ` {g \<in> set (client_scopes w). cs_client_id g = i}" for links l
    using that by (simp add: links dropped_links)
  then show ?thesis
    using setClientScopes_Inr [OF set] evolvesD [OF set_scopes_others set] same
    unfolding link_tables_def by (auto simp: same_others_def other_grants_def same_refs_def getClientScopes_def)
qed

text \<open>
  The links that rest on the client's own grants do not survive: every grant of it is deleted and
  inserted anew, so everything already issued or registered under its grants carries no scope any
  more, whichever scopes were saved, the very same ones included. The guides say otherwise of API
  keys (a key keeps its scopes as long as the client has them).
\<close>

lemma saved_scopes_strip_issued:
  assumes "updateScopes E i ids a w = (Inr (Some d), t)" and "links \<in> link_tables"
    and "\<forall>l \<in> set (links w). lk_owner l = owner \<longrightarrow>
           lk_client_scope_id l \<in> cs_id ` {g \<in> set (client_scopes w). cs_client_id g = i}"
  shows "scope_names_of t (links t) owner = []"
proof -
  have "links t = links (drop_client_scopes (\<lambda>r. cs_client_id r = i) w)"
    using updateScopes_Inr [OF assms(1)] assms(2) by blast
  then have "\<forall>l \<in> set (links t). lk_owner l \<noteq> owner"
    using assms(2,3) by (auto simp: dropped_links)
  then have "linked_scope_names t (links t) owner = []"
    by (simp add: linked_scope_names_def)
  then show ?thesis by (simp add: scope_names_of_def group_concat_distinct_def scope_names_csv_def)
qed

end
