(* ===== verification/Refinement.thy ===== *)
theory Refinement
  imports Consent RefreshStore "HOL-Library.While_Combinator"
begin

text \<open>
  Two abstractions. The consent service refines a map from users and clients to sets of scope
  names, with granting and withdrawing as its operations; the search for a rotation family, a
  loop over a work list in the code, returns, and what it returns is \<open>collectFamilyIds\<close>.
\<close>

section \<open>Consent as a map\<close>

datatype consent_op = Grant string string "string list" | Withdraw string string

type_synonym consent_map = "string \<times> string \<Rightarrow> string set option"

definition agreed :: "consent_map \<Rightarrow> string \<times> string \<Rightarrow> string set" where
  "agreed m k = (case m k of None \<Rightarrow> {} | Some s \<Rightarrow> s)"

fun consent_spec :: "consent_op \<Rightarrow> consent_map \<Rightarrow> consent_map" where
  "consent_spec (Grant u c names) m = m((u, c) \<mapsto> agreed m (u, c) \<union> set names)"
| "consent_spec (Withdraw u c) m = m((u, c) := None)"

text \<open>What the table says: the abstraction of a state.\<close>

definition consent_abs :: "world \<Rightarrow> consent_map" where
  "consent_abs w = (\<lambda>(u, c). map_option (\<lambda>r. set (cn_scopeNames r)) (get_consent u c w))"

text \<open>A run of the service, with steps that leave the table of consents alone between its calls.\<close>

inductive consent_run :: "cfg \<Rightarrow> consent_op list \<Rightarrow> world \<Rightarrow> world \<Rightarrow> bool" for E where
  done_run: "consent_run E [] w w"
| granted: "consent_run E ops s t \<Longrightarrow> record_consent E u c names t = (Inr x, v) \<Longrightarrow> \<forall>n \<in> set names. scope_word n \<Longrightarrow>
    consent_run E (ops @ [Grant u c names]) s v"
| withdrawn: "consent_run E ops s t \<Longrightarrow> revoke_consent E u c actor t = (Inr res, v) \<Longrightarrow>
    consent_run E (ops @ [Withdraw u c]) s v"
| elsewhere: "consent_run E ops s t \<Longrightarrow> user_consents v = user_consents t \<Longrightarrow> consent_run E ops s v"

lemma agreed_abs: "agreed (consent_abs w) (u, c) = set (getConsentedScopeNames u c w)"
  by (simp add: agreed_def consent_abs_def getConsentedScopeNames_def split: option.split)

lemma record_refines:
  assumes "record_consent E u c names w = (Inr x, t)" and "\<forall>n \<in> set names. scope_word n"
  shows "consent_abs t = consent_spec (Grant u c names) (consent_abs w)"
proof
  fix k :: "string \<times> string"
  obtain new v where "co_user_id new = u" "co_client_id new = c" "upsert_consent new v = (Inr x, t)"
    using assms(1) by (rule record_consent_run)
  then have "get_consent u c t \<noteq> None" using get_upsert(1) by fastforce
  then have at: "consent_abs t (u, c) = Some (set (getConsentedScopeNames u c t))"
    by (auto simp: consent_abs_def getConsentedScopeNames_def)
  show "consent_abs t k = consent_spec (Grant u c names) (consent_abs w) k"
  proof (cases "k = (u, c)")
    case True
    with at record_consent_effect(1) [OF assms] show ?thesis by (simp add: agreed_abs merge_scope_names_props)
  next
    case False
    with record_consent_effect(2) [OF assms, of "fst k" "snd k"] show ?thesis
      by (cases k) (auto simp: consent_abs_def)
  qed
qed

lemma get_consent_rows: "user_consents v = user_consents t \<Longrightarrow> get_consent u c v = get_consent u c t"
  by (simp add: get_consent_def)

lemma withdraw_refines:
  assumes "revoke_consent E u c actor w = (Inr res, t)"
  shows "consent_abs t = consent_spec (Withdraw u c) (consent_abs w)"
proof
  fix k :: "string \<times> string"
  have rows: "user_consents t = filter (\<lambda>r. \<not> consent_of u c r) (user_consents w)"
    using assms by (rule revoke_consent_tables)
  have "find (consent_of u' c') (filter (\<lambda>r. \<not> consent_of u c r) rs) =
      (if (u', c') = (u, c) then None else find (consent_of u' c') rs)" for u' c' rs
    by (induction rs) (auto simp: consent_of_def [abs_def])
  then show "consent_abs t k = consent_spec (Withdraw u c) (consent_abs w) k"
    by (auto simp: consent_abs_def get_consent_def rows split: prod.split)
qed

text \<open>
  C29. The consent service refines its specification: after any sequence of successful grants and
  withdrawals, with other activity between them, the table represents exactly the map that the
  specification reaches by the same operations, and the questions the service answers (what a
  user has agreed to, what still needs consent) are lookups in that map. (Scope names are words.)
\<close>

theorem consent_refines_map:
  assumes "consent_run E ops w t"
  shows "consent_abs t = fold consent_spec ops (consent_abs w)
    \<and> set (getConsentedScopeNames u c t) = agreed (consent_abs t) (u, c)
    \<and> set (getUnconsentedScopeNames u c names t) = set names - agreed (fold consent_spec ops (consent_abs w)) (u, c)"
proof -
  have "consent_abs t = fold consent_spec ops (consent_abs w)"
    using assms
  proof induction
    case elsewhere
    then show ?case by (simp add: consent_abs_def get_consent_rows [OF elsewhere.hyps(2)])
  qed (simp_all add: record_refines withdraw_refines)
  then show ?thesis by (auto simp: agreed_abs [symmetric] getUnconsentedScopeNames_def)
qed

section \<open>The search for a rotation family\<close>

text \<open>The body of the loop, as the code has it: take the first id off the queue, skip it when it was seen.\<close>

definition family_body :: "refresh_row list \<Rightarrow> string list \<times> string list \<Rightarrow> string list \<times> string list" where
  "family_body rs = (\<lambda>(seen, queue).
     (let current = hd queue; queue = tl queue
      in if current \<in> set seen then (seen, queue)
         else (seen @ [current], queue @ family_next rs (seen @ [current]) current)))"

definition family_loop :: "refresh_row list \<Rightarrow> string list \<times> string list \<Rightarrow> (string list \<times> string list) option" where
  "family_loop rs = while_option (\<lambda>(seen, queue). queue \<noteq> []) (family_body rs)"

lemma family_loop_collects: "family_loop rs (seen, queue) = Some (collect_family rs seen queue, [])"
proof (induction rs seen queue rule: collect_family.induct)
  case (1 rs seen)
  show ?case unfolding family_loop_def by (subst while_option_unfold) simp
next
  case (2 rs seen i queue)
  have "family_loop rs (seen, i # queue) = family_loop rs (family_body rs (seen, i # queue))"
    unfolding family_loop_def by (subst while_option_unfold) simp
  with 2 show ?case by (simp add: family_body_def)
qed

lemma collect_family_within:
  "set seen \<subseteq> U \<Longrightarrow> set queue \<subseteq> U \<Longrightarrow> family_universe rs \<subseteq> U \<Longrightarrow> set (collect_family rs seen queue) \<subseteq> U"
proof (induction rs seen queue rule: collect_family.induct)
  case (2 rs seen i queue)
  have "set (family_next rs (seen @ [i]) i) \<subseteq> U"
    using family_next_universe [of rs "seen @ [i]" i] "2.prems"(3) by blast
  with 2 show ?case by auto
qed simp

lemma card_family_universe: "card (family_universe rs) \<le> 2 * length rs"
proof -
  have "family_universe rs \<subseteq> set (List.map rt_id rs) \<union> set (List.map (\<lambda>r. the (rt_rotated_from_id r)) rs)"
    by (force simp: family_universe_def)
  then have "card (family_universe rs) \<le> card (set (List.map rt_id rs @ List.map (\<lambda>r. the (rt_rotated_from_id r)) rs))"
    by (intro card_mono) auto
  also have "\<dots> \<le> 2 * length rs" using card_length [of "List.map rt_id rs @ List.map (\<lambda>r. the (rt_rotated_from_id r)) rs"] by simp
  finally show ?thesis .
qed

text \<open>
  C40. The breadth-first search over a rotation family always returns, whatever the table holds,
  cycles included: it ends with an empty queue and the ids it saw, each of them once, the root
  among them; every other one is a row of the table or the id another row was rotated from, so
  there are at most two per row and the root.
\<close>

theorem family_search_terminates:
  "\<exists>ids. family_loop rs ([], [root]) = Some (ids, []) \<and> ids = collectFamilyIds rs root
     \<and> distinct ids \<and> root \<in> set ids \<and> length ids \<le> 2 * length rs + 1"
proof -
  let ?ids = "collectFamilyIds rs root"
  have d: "distinct ?ids" by (simp add: collectFamilyIds_def collect_family_distinct)
  have "set ?ids \<subseteq> insert root (family_universe rs)"
    unfolding collectFamilyIds_def by (rule collect_family_within) auto
  then have "card (set ?ids) \<le> card (insert root (family_universe rs))" by (rule card_mono [rotated]) simp
  also have "\<dots> \<le> Suc (card (family_universe rs))" by (simp add: card_insert_if)
  also have "\<dots> \<le> 2 * length rs + 1" using card_family_universe [of rs] by simp
  finally have "length ?ids \<le> 2 * length rs + 1" using d by (simp add: distinct_card)
  with d show ?thesis
    using family_loop_collects [of rs "[]" "[root]"] collectFamilyIds_root by (auto simp: collectFamilyIds_def)
qed

end
