(* ===== verification/PasswordPolicy.thy ===== *)
theory PasswordPolicy
  imports UserStore
begin

text \<open>
  Password policies: the check of a password against one policy and its messages
  (\<open>auth/password-policy-validation.ts\<close>), the policy tables
  (\<open>password-policy.repository.d1.ts\<close>) and the service that edits policies and decides which
  of them a sign-in has to meet (\<open>password-policy.service.ts\<close>).
\<close>

section \<open>Checking a password\<close>

datatype violation =
    Too_short int | Too_long int | Too_few_uppercase int int | Too_few_lowercase int int
  | Too_few_number int int | Too_few_special int int | Contains_identifier

record identifiers =
  id_username :: "string option"
  id_email :: "string option"

record policy_check =
  ck_ok :: bool
  ck_violations :: "violation list"

definition MIN_IDENTIFIER_LENGTH :: nat where "MIN_IDENTIFIER_LENGTH = 3"

definition emailLocalPart :: "string \<Rightarrow> string" where
  "emailLocalPart email = takeWhile (\<lambda>c. c \<noteq> CHR ''@'') email"

text \<open>The four patterns match single code units.\<close>

definition upper_ascii :: "char \<Rightarrow> bool" where "upper_ascii c \<longleftrightarrow> CHR ''A'' \<le> c \<and> c \<le> CHR ''Z''"
definition lower_ascii :: "char \<Rightarrow> bool" where "lower_ascii c \<longleftrightarrow> CHR ''a'' \<le> c \<and> c \<le> CHR ''z''"
definition digit_ascii :: "char \<Rightarrow> bool" where "digit_ascii c \<longleftrightarrow> CHR ''0'' \<le> c \<and> c \<le> CHR ''9''"

definition special_char :: "char \<Rightarrow> bool" where
  "special_char c \<longleftrightarrow> \<not> upper_ascii c \<and> \<not> lower_ascii c \<and> \<not> digit_ascii c"

definition countMatches :: "string \<Rightarrow> (char \<Rightarrow> bool) \<Rightarrow> int" where
  "countMatches password pattern = int (length (filter pattern password))"

text \<open>\<open>haystack.includes(needle)\<close>\<close>

fun js_includes :: "string \<Rightarrow> string \<Rightarrow> bool" where
  "js_includes [] needle = (needle = [])"
| "js_includes (c # cs) needle = (take (length needle) (c # cs) = needle \<or> js_includes cs needle)"

definition too_few :: "(int \<Rightarrow> int \<Rightarrow> violation) \<Rightarrow> int \<Rightarrow> (char \<Rightarrow> bool) \<Rightarrow> string \<Rightarrow> violation list" where
  "too_few code required pattern password =
     (if 0 < required \<and> countMatches password pattern < required
      then [code required (countMatches password pattern)] else [])"

definition identifier_candidates :: "identifiers \<Rightarrow> string list" where
  "identifier_candidates ids =
     (case id_username ids of None \<Rightarrow> [] | Some u \<Rightarrow> if u = [] then [] else [js_lower (js_trim u)])
     @ (case id_email ids of None \<Rightarrow> [] | Some e \<Rightarrow> if e = [] then [] else [js_lower (js_trim (emailLocalPart e))])"

definition validatePasswordAgainstPolicy :: "policy_row \<Rightarrow> string \<Rightarrow> identifiers \<Rightarrow> policy_check" where
  "validatePasswordAgainstPolicy p password ids =
     (if \<not> pp_enabled p then \<lparr>ck_ok = True, ck_violations = []\<rparr>
      else
        let vs =
          (if int (length password) < pp_min_length p then [Too_short (pp_min_length p)] else [])
          @ (case pp_max_length p of None \<Rightarrow> [] | Some n \<Rightarrow> if n < int (length password) then [Too_long n] else [])
          @ too_few Too_few_uppercase (pp_min_uppercase p) upper_ascii password
          @ too_few Too_few_lowercase (pp_min_lowercase p) lower_ascii password
          @ too_few Too_few_number (pp_min_number p) digit_ascii password
          @ too_few Too_few_special (pp_min_special p) special_char password
          @ (if pp_reject_contains_identifier p
                \<and> list_ex (\<lambda>c. MIN_IDENTIFIER_LENGTH \<le> length c \<and> js_includes (js_lower password) c)
                    (identifier_candidates ids)
             then [Contains_identifier] else [])
        in \<lparr>ck_ok = (vs = []), ck_violations = vs\<rparr>)"

section \<open>Messages\<close>

definition plural :: "int \<Rightarrow> string \<Rightarrow> string" where
  "plural n noun = show_int n @ '' '' @ noun @ (if n = 1 then [] else ''s'')"

fun violationRequirement :: "violation \<Rightarrow> string" where
  "violationRequirement (Too_short n) = ''at least '' @ plural n ''character''"
| "violationRequirement (Too_long n) = ''at most '' @ plural n ''character''"
| "violationRequirement (Too_few_uppercase n found) = ''at least '' @ plural n ''uppercase letter''"
| "violationRequirement (Too_few_lowercase n found) = ''at least '' @ plural n ''lowercase letter''"
| "violationRequirement (Too_few_number n found) = ''at least '' @ plural n ''number''"
| "violationRequirement (Too_few_special n found) = ''at least '' @ plural n ''special character''"
| "violationRequirement Contains_identifier = ''no part of your username or email address''"

fun violation_code :: "violation \<Rightarrow> string" where
  "violation_code (Too_short n) = ''too_short''"
| "violation_code (Too_long n) = ''too_long''"
| "violation_code (Too_few_uppercase n found) = ''too_few_uppercase''"
| "violation_code (Too_few_lowercase n found) = ''too_few_lowercase''"
| "violation_code (Too_few_number n found) = ''too_few_number''"
| "violation_code (Too_few_special n found) = ''too_few_special''"
| "violation_code Contains_identifier = ''contains_identifier''"

text \<open>The checklist a form shows: a code and its label for every rule of the policy.\<close>

definition listPolicyRequirements :: "policy_row \<Rightarrow> (string \<times> string) list" where
  "listPolicyRequirements p =
     (if \<not> pp_enabled p then []
      else
        [(''too_short'', ''At least '' @ plural (pp_min_length p) ''character'')]
        @ (case pp_max_length p of None \<Rightarrow> [] | Some n \<Rightarrow> [(''too_long'', ''At most '' @ plural n ''character'')])
        @ (if 0 < pp_min_uppercase p
           then [(''too_few_uppercase'', ''At least '' @ plural (pp_min_uppercase p) ''uppercase letter'')] else [])
        @ (if 0 < pp_min_lowercase p
           then [(''too_few_lowercase'', ''At least '' @ plural (pp_min_lowercase p) ''lowercase letter'')] else [])
        @ (if 0 < pp_min_number p
           then [(''too_few_number'', ''At least '' @ plural (pp_min_number p) ''number'')] else [])
        @ (if 0 < pp_min_special p
           then [(''too_few_special'', ''At least '' @ plural (pp_min_special p) ''special character'')] else [])
        @ (if pp_reject_contains_identifier p
           then [(''contains_identifier'', ''No part of your username or email address'')] else []))"

definition summarizePasswordPolicyViolations :: "violation list \<Rightarrow> string" where
  "summarizePasswordPolicyViolations vs =
     (if vs = [] then []
      else ''Password does not meet the policy: it must contain ''
        @ join_with '', '' (List.map violationRequirement vs) @ ''.'')"

section \<open>The tables\<close>

definition list_policies :: "world \<Rightarrow> policy_row list" where
  "list_policies w = sort_key pp_name (password_policies w)"

definition policy_environments :: "string \<Rightarrow> world \<Rightarrow> string list" where
  "policy_environments i w =
     List.map pe_environment_id (filter (\<lambda>r. pe_policy_id r = i) (password_policy_environments w))"

definition listWithEnvironments :: "world \<Rightarrow> (policy_row \<times> string list) list" where
  "listWithEnvironments w = List.map (\<lambda>p. (p, policy_environments (pp_id p) w)) (list_policies w)"

definition policy_by_id :: "string \<Rightarrow> world \<Rightarrow> policy_row option" where
  "policy_by_id i w = find (\<lambda>p. pp_id p = i) (password_policies w)"

definition getWithEnvironments :: "string \<Rightarrow> world \<Rightarrow> (policy_row \<times> string list) option" where
  "getWithEnvironments i w = map_option (\<lambda>p. (p, policy_environments i w)) (policy_by_id i w)"

definition policy_violated :: "policy_row \<Rightarrow> world \<Rightarrow> string option" where
  "policy_violated p w =
     (if pp_id p \<in> set (List.map pp_id (password_policies w)) then Some ''UNIQUE constraint failed: password_policies.id''
      else if pp_name p \<in> set (List.map pp_name (password_policies w))
        then Some ''UNIQUE constraint failed: password_policies.name''
      else None)"

definition insert_policy :: "policy_row \<Rightarrow> unit m" where
  "insert_policy p = guarded (policy_violated p) (\<lambda>w. w\<lparr>password_policies := password_policies w @ [p]\<rparr>)"

definition rename_violated :: "string \<Rightarrow> (policy_row \<Rightarrow> policy_row) \<Rightarrow> world \<Rightarrow> string option" where
  "rename_violated i f w =
     (case policy_by_id i w of
        None \<Rightarrow> None
      | Some p \<Rightarrow>
        if pp_name (f p) \<in> set (List.map pp_name (filter (\<lambda>q. pp_id q \<noteq> i) (password_policies w)))
        then Some ''UNIQUE constraint failed: password_policies.name'' else None)"

definition update_policy :: "string \<Rightarrow> (policy_row \<Rightarrow> policy_row) \<Rightarrow> unit m" where
  "update_policy i f =
     guarded (rename_violated i f)
       (\<lambda>w. w\<lparr>password_policies := List.map (\<lambda>p. if pp_id p = i then f p else p) (password_policies w)\<rparr>)"

text \<open>The assignments cascade, and the site settings forget the policy.\<close>

definition delete_policy_rows :: "string \<Rightarrow> world \<Rightarrow> world" where
  "delete_policy_rows i w =
     (if i \<notin> set (List.map pp_id (password_policies w)) then w
      else w\<lparr>password_policies := filter (\<lambda>p. pp_id p \<noteq> i) (password_policies w),
             password_policy_environments := filter (\<lambda>r. pe_policy_id r \<noteq> i) (password_policy_environments w),
             site_settings := map_option (\<lambda>s. if st_admin_password_policy_id s = Some i
               then s\<lparr>st_admin_password_policy_id := None\<rparr> else s) (site_settings w)\<rparr>)"

definition delete_policy :: "string \<Rightarrow> unit m" where
  "delete_policy i = writes (delete_policy_rows i)"

definition assignment_violated :: "policy_environment_row \<Rightarrow> world \<Rightarrow> string option" where
  "assignment_violated r w =
     (if pe_id r \<in> set (List.map pe_id (password_policy_environments w))
      then Some ''UNIQUE constraint failed: password_policy_environments.id''
      else if pe_environment_id r \<in> set (List.map pe_environment_id (password_policy_environments w))
        then Some ''UNIQUE constraint failed: password_policy_environments.environment_id''
      else if pe_policy_id r \<notin> set (List.map pp_id (password_policies w)) then Some ''FOREIGN KEY constraint failed''
      else if pe_environment_id r \<notin> set (List.map env_id (environments w)) then Some ''FOREIGN KEY constraint failed''
      else None)"

definition insert_assignment :: "policy_environment_row \<Rightarrow> unit m" where
  "insert_assignment r = guarded (assignment_violated r)
     (\<lambda>w. w\<lparr>password_policy_environments := password_policy_environments w @ [r]\<rparr>)"

definition setEnvironments :: "cfg \<Rightarrow> string \<Rightarrow> string list \<Rightarrow> unit m" where
  "setEnvironments E policyId environmentIds =
     seq (randomUUIDs E (length environmentIds)) (\<lambda>ids.
     transaction
       (seq (writes (\<lambda>w. w\<lparr>password_policy_environments :=
               filter (\<lambda>r. pe_policy_id r \<noteq> policyId) (password_policy_environments w)\<rparr>)) (\<lambda>_.
        each insert_assignment
          (List.map (\<lambda>(i, e). \<lparr>pe_id = i, pe_policy_id = policyId, pe_environment_id = e\<rparr>) (zip ids environmentIds)))))"

definition getPolicyForEnvironment :: "string \<Rightarrow> world \<Rightarrow> policy_row option" where
  "getPolicyForEnvironment environmentId w =
     (case [p. e \<leftarrow> password_policy_environments w, pe_environment_id e = environmentId,
               p \<leftarrow> password_policies w, pp_id p = pe_policy_id e] of
        [] \<Rightarrow> None | p # ps \<Rightarrow> Some p)"

definition getAdminPolicy :: "world \<Rightarrow> policy_row option" where
  "getAdminPolicy w =
     (case Option.bind (site_settings w) st_admin_password_policy_id of
        None \<Rightarrow> None | Some i \<Rightarrow> policy_by_id i w)"

text \<open>The enabled policies assigned to an environment the user may enter.\<close>

definition granted_policies :: "string \<Rightarrow> world \<Rightarrow> policy_row list" where
  "granted_policies userId w =
     [p. ue \<leftarrow> users_environments w, ue_user_id ue = userId,
         pe \<leftarrow> password_policy_environments w, pe_environment_id pe = ue_environment_id ue,
         p \<leftarrow> password_policies w, pp_id p = pe_policy_id pe, pp_enabled p]"

definition getStrictestEnabledMaxAgeDaysForUser :: "string \<Rightarrow> world \<Rightarrow> int option" where
  "getStrictestEnabledMaxAgeDaysForUser userId w =
     (let ages = filter (\<lambda>n. 0 < n) (List.map pp_max_password_age_days (granted_policies userId w))
      in if ages = [] then None else Some (Min (set ages)))"

definition getEnabledPoliciesForUser :: "string \<Rightarrow> world \<Rightarrow> policy_row list" where
  "getEnabledPoliciesForUser userId w = uniq (granted_policies userId w)"

end
