(* ===== verification/PolicyService.thy ===== *)
theory PolicyService
  imports PasswordPolicy Issue
begin

text \<open>
  The service over the policies, \<open>password-policy.service.ts\<close>: editing them, and which of them a
  password has to meet. Numbers of an input may be any JavaScript number; only whole ones get past
  \<open>validateRules\<close> and into the table.
\<close>

section \<open>Input\<close>

datatype js_number = Whole int | Not_whole

definition js_whole :: "js_number \<Rightarrow> int" where
  "js_whole n = (case n of Whole i \<Rightarrow> i | Not_whole \<Rightarrow> 0)"

definition whole_from :: "int \<Rightarrow> js_number \<Rightarrow> bool" where
  "whole_from k n = (case n of Whole i \<Rightarrow> k \<le> i | Not_whole \<Rightarrow> False)"

text \<open>A field that is left out is \<open>None\<close>; \<open>maxLength\<close> may also be given as \<open>null\<close>.\<close>

record policy_input =
  pi_name :: "string option"
  pi_enabled :: "bool option"
  pi_minLength :: "js_number option"
  pi_maxLength :: "js_number option option"
  pi_minUppercase :: "js_number option"
  pi_minLowercase :: "js_number option"
  pi_minNumber :: "js_number option"
  pi_minSpecial :: "js_number option"
  pi_rejectContainsIdentifier :: "bool option"
  pi_maxPasswordAgeDays :: "js_number option"

definition bad_count :: "js_number option \<Rightarrow> bool" where
  "bad_count v = (case v of None \<Rightarrow> False | Some n \<Rightarrow> \<not> whole_from 0 n)"

definition validateRules :: "policy_input \<Rightarrow> string option" where
  "validateRules p =
     (if (case pi_name p of None \<Rightarrow> False | Some n \<Rightarrow> js_trim n = []) then Some ''Policy name is required''
      else if (case pi_minLength p of None \<Rightarrow> False | Some n \<Rightarrow> \<not> whole_from 1 n)
        then Some ''Minimum length must be a whole number of at least 1''
      else if bad_count (pi_minUppercase p) then Some ''Minimum uppercase must be a whole number of 0 or more''
      else if bad_count (pi_minLowercase p) then Some ''Minimum lowercase must be a whole number of 0 or more''
      else if bad_count (pi_minNumber p) then Some ''Minimum numbers must be a whole number of 0 or more''
      else if bad_count (pi_minSpecial p) then Some ''Minimum special characters must be a whole number of 0 or more''
      else if (case pi_maxLength p of Some (Some n) \<Rightarrow> \<not> whole_from 1 n | _ \<Rightarrow> False)
        then Some ''Maximum length must be a whole number of at least 1''
      else if (case (pi_maxLength p, pi_minLength p) of
                 (Some (Some hi), Some lo) \<Rightarrow> js_whole hi < js_whole lo | _ \<Rightarrow> False)
        then Some ''Maximum length cannot be less than minimum length''
      else if bad_count (pi_maxPasswordAgeDays p)
        then Some ''Max password age must be a whole number of days (0 = no expiry)''
      else None)"

definition duplicateNameError :: "string \<Rightarrow> string" where
  "duplicateNameError name = ''A policy named \"'' @ name @ ''\" already exists''"

text \<open>The pattern \<open>/UNIQUE constraint failed:\s*password_policies\.name/i\<close>, on the lower-cased message.\<close>

fun names_collision :: "string \<Rightarrow> bool" where
  "names_collision [] = False"
| "names_collision (c # cs) =
     (take 25 (c # cs) = ''unique constraint failed:''
        \<and> take 22 (dropWhile js_space (drop 25 (c # cs))) = ''password_policies.name''
      \<or> names_collision cs)"

definition isDuplicateNameViolation :: "failure \<Rightarrow> bool" where
  "isDuplicateNameViolation e =
     names_collision (js_lower (case e of OAuthServiceError c txt s u st \<Rightarrow> txt | D1Error txt \<Rightarrow> txt | JsError txt \<Rightarrow> txt))"

section \<open>Editing\<close>

datatype policy_result = Policy_refused string | Policy_saved "(policy_row \<times> string list) option"

fun findEnvironmentConflict :: "string list \<Rightarrow> string option \<Rightarrow> world \<Rightarrow> string option" where
  "findEnvironmentConflict [] policyId w = None"
| "findEnvironmentConflict (e # es) policyId w =
     (case getPolicyForEnvironment e w of
        Some owner \<Rightarrow>
          if Some (pp_id owner) \<noteq> policyId
          then Some (''Environment is already assigned to policy \"'' @ pp_name owner @ ''\"'')
          else findEnvironmentConflict es policyId w
      | None \<Rightarrow> findEnvironmentConflict es policyId w)"

definition findNameConflict :: "string \<Rightarrow> string option \<Rightarrow> world \<Rightarrow> string option" where
  "findNameConflict name policyId w =
     (case find (\<lambda>p. Some (pp_id p) \<noteq> policyId \<and> pp_name p = js_trim name) (list_policies w) of
        None \<Rightarrow> None | Some clash \<Rightarrow> Some (duplicateNameError (js_trim name)))"

text \<open>What \<open>POST\<close> of a new policy carries: every field is there.\<close>

record new_policy =
  np_name :: string
  np_enabled :: bool
  np_minLength :: js_number
  np_maxLength :: "js_number option"
  np_minUppercase :: js_number
  np_minLowercase :: js_number
  np_minNumber :: js_number
  np_minSpecial :: js_number
  np_rejectContainsIdentifier :: bool
  np_maxPasswordAgeDays :: js_number

definition input_of :: "new_policy \<Rightarrow> policy_input" where
  "input_of p =
     \<lparr>pi_name = Some (np_name p), pi_enabled = Some (np_enabled p), pi_minLength = Some (np_minLength p),
      pi_maxLength = Some (np_maxLength p), pi_minUppercase = Some (np_minUppercase p),
      pi_minLowercase = Some (np_minLowercase p), pi_minNumber = Some (np_minNumber p),
      pi_minSpecial = Some (np_minSpecial p), pi_rejectContainsIdentifier = Some (np_rejectContainsIdentifier p),
      pi_maxPasswordAgeDays = Some (np_maxPasswordAgeDays p)\<rparr>"

definition policy_row_of :: "new_policy \<Rightarrow> string \<Rightarrow> string \<Rightarrow> policy_row" where
  "policy_row_of p i now =
     \<lparr>pp_id = i, pp_name = js_trim (np_name p), pp_enabled = np_enabled p, pp_min_length = js_whole (np_minLength p),
      pp_max_length = map_option js_whole (np_maxLength p), pp_min_uppercase = js_whole (np_minUppercase p),
      pp_min_lowercase = js_whole (np_minLowercase p), pp_min_number = js_whole (np_minNumber p),
      pp_min_special = js_whole (np_minSpecial p), pp_reject_contains_identifier = np_rejectContainsIdentifier p,
      pp_max_password_age_days = js_whole (np_maxPasswordAgeDays p), pp_created_at = now, pp_updated_at = now\<rparr>"

text \<open>The rest of a write once the row is there; a collision of names is answered, any other failure thrown.\<close>

definition or_duplicate :: "string \<Rightarrow> unit m \<Rightarrow> policy_result m \<Rightarrow> policy_result m" where
  "or_duplicate name write rest =
     (\<lambda>w. case write w of
            (Inr u, w') \<Rightarrow> rest w'
          | (Inl e, w') \<Rightarrow>
              if isDuplicateNameViolation e then (Inr (Policy_refused (duplicateNameError name)), w')
              else (Inl e, w'))"

definition refuse_or :: "string option \<Rightarrow> policy_result m \<Rightarrow> policy_result m" where
  "refuse_or problem go = (case problem of Some e \<Rightarrow> ret (Policy_refused e) | None \<Rightarrow> go)"

definition create_policy :: "cfg \<Rightarrow> new_policy \<Rightarrow> string list \<Rightarrow> string option \<Rightarrow> policy_result m" where
  "create_policy E input environmentIds actorUserId =
     refuse_or (validateRules (input_of input))
     (seq (reads (findNameConflict (np_name input) None)) (\<lambda>taken. refuse_or taken
     (seq (reads (findEnvironmentConflict environmentIds None)) (\<lambda>conflict. refuse_or conflict
     (seq (randomUUID E) (\<lambda>i.
      seq (now_iso E) (\<lambda>now.
      or_duplicate (js_trim (np_name input)) (insert_policy (policy_row_of input i now))
     (seq (if environmentIds = [] then ret () else setEnvironments E i environmentIds) (\<lambda>_.
      seq (logAction E actorUserId (audit_action_name PasswordPolicyCreate) (audit_resource_name PasswordPolicyResource)
            (Some i) [(''name'', DText (js_trim (np_name input))), (''enabled'', DFlag (np_enabled input)),
                      (''environmentIds'', DTexts environmentIds)]) (\<lambda>_.
      seq (reads (getWithEnvironments i)) (\<lambda>policy. ret (Policy_saved policy))))))))))))"

text \<open>The statement of \<open>PasswordPolicyRepositoryD1.update\<close> for the fields that are given.\<close>

definition whole_or :: "js_number option \<Rightarrow> int \<Rightarrow> int" where
  "whole_or v old = (case v of None \<Rightarrow> old | Some n \<Rightarrow> js_whole n)"

definition patch_policy :: "policy_input \<Rightarrow> string \<Rightarrow> policy_row \<Rightarrow> policy_row" where
  "patch_policy u now p =
     p\<lparr>pp_name := or_old (pi_name u) (pp_name p),
       pp_max_length := (case pi_maxLength u of None \<Rightarrow> pp_max_length p | Some v \<Rightarrow> map_option js_whole v),
       pp_min_length := whole_or (pi_minLength u) (pp_min_length p),
       pp_min_uppercase := whole_or (pi_minUppercase u) (pp_min_uppercase p),
       pp_min_lowercase := whole_or (pi_minLowercase u) (pp_min_lowercase p),
       pp_min_number := whole_or (pi_minNumber u) (pp_min_number p),
       pp_min_special := whole_or (pi_minSpecial u) (pp_min_special p),
       pp_max_password_age_days := whole_or (pi_maxPasswordAgeDays u) (pp_max_password_age_days p),
       pp_enabled := or_old (pi_enabled u) (pp_enabled p),
       pp_reject_contains_identifier := or_old (pi_rejectContainsIdentifier u) (pp_reject_contains_identifier p),
       pp_updated_at := now\<rparr>"

text \<open>The input with the lengths of the policy where it gives none, as it is validated.\<close>

definition merged_rules :: "policy_input \<Rightarrow> policy_row \<Rightarrow> policy_input" where
  "merged_rules u p =
     u\<lparr>pi_minLength := (case pi_minLength u of None \<Rightarrow> Some (Whole (pp_min_length p)) | Some n \<Rightarrow> Some n),
       pi_maxLength := (case pi_maxLength u of None \<Rightarrow> Some (map_option Whole (pp_max_length p)) | Some v \<Rightarrow> Some v)\<rparr>"

definition policy_edit :: "cfg \<Rightarrow> policy_row \<Rightarrow> policy_input \<Rightarrow> string list option \<Rightarrow> string option \<Rightarrow> policy_result m" where
  "policy_edit E existing ups environmentIds actorUserId =
     (let i = pp_id existing;
          name = (case pi_name ups of None \<Rightarrow> pp_name existing | Some n \<Rightarrow> js_trim n) in
      seq (now_iso E) (\<lambda>now.
      or_duplicate name (update_policy i (patch_policy (ups\<lparr>pi_name := map_option js_trim (pi_name ups)\<rparr>) now))
     (seq (case environmentIds of None \<Rightarrow> ret () | Some es \<Rightarrow> setEnvironments E i es) (\<lambda>_.
      seq (logAction E actorUserId (audit_action_name PasswordPolicyUpdate) (audit_resource_name PasswordPolicyResource)
            (Some i) ((''name'', DText name)
              # (case environmentIds of None \<Rightarrow> [] | Some es \<Rightarrow> [(''environmentIds'', DTexts es)]))) (\<lambda>_.
      seq (reads (getWithEnvironments i)) (\<lambda>policy. ret (Policy_saved policy)))))))"

definition edit_policy ::
  "cfg \<Rightarrow> string \<Rightarrow> policy_input \<Rightarrow> string list option \<Rightarrow> string option \<Rightarrow> policy_result m" where
  "edit_policy E i ups environmentIds actorUserId =
     seq (reads (policy_by_id i)) (\<lambda>found.
     case found of
       None \<Rightarrow> ret (Policy_refused ''Password policy not found'')
     | Some existing \<Rightarrow>
       refuse_or (validateRules (merged_rules ups existing))
       (seq (reads (\<lambda>w. case pi_name ups of None \<Rightarrow> None | Some n \<Rightarrow> findNameConflict n (Some i) w)) (\<lambda>taken. refuse_or taken
       (seq (reads (\<lambda>w. case environmentIds of None \<Rightarrow> None | Some es \<Rightarrow> findEnvironmentConflict es (Some i) w)) (\<lambda>conflict.
        refuse_or conflict (policy_edit E existing ups environmentIds actorUserId))))))"

definition remove_policy :: "cfg \<Rightarrow> string \<Rightarrow> string option \<Rightarrow> string option m" where
  "remove_policy E i actorUserId =
     seq (reads (policy_by_id i)) (\<lambda>found.
     case found of
       None \<Rightarrow> ret (Some ''Password policy not found'')
     | Some existing \<Rightarrow>
       seq (delete_policy i) (\<lambda>_.
       seq (logAction E actorUserId (audit_action_name PasswordPolicyDelete) (audit_resource_name PasswordPolicyResource)
             (Some i) [(''name'', DText (pp_name existing))]) (\<lambda>_.
       ret None)))"

section \<open>Age and complexity at sign-in\<close>

definition validateAdminPassword :: "string \<Rightarrow> identifiers \<Rightarrow> world \<Rightarrow> policy_check" where
  "validateAdminPassword password ids w =
     (case getAdminPolicy w of
        None \<Rightarrow> \<lparr>ck_ok = True, ck_violations = []\<rparr>
      | Some p \<Rightarrow> validatePasswordAgainstPolicy p password ids)"

definition getAdminMaxPasswordAgeDays :: "world \<Rightarrow> int option" where
  "getAdminMaxPasswordAgeDays w =
     (case getAdminPolicy w of
        None \<Rightarrow> None
      | Some p \<Rightarrow> if \<not> pp_enabled p \<or> pp_max_password_age_days p \<le> 0 then None else Some (pp_max_password_age_days p))"

definition MS_PER_DAY :: int where "MS_PER_DAY = 86400000"

text \<open>
  \<open>(now - then) / 86400000 > maxAgeDays\<close>, cross-multiplied. A date that does not parse is \<open>NaN\<close>,
  which is greater than nothing; the clock is read whenever there is a maximum age.
\<close>

definition isPasswordExpiredForUser :: "cfg \<Rightarrow> string \<Rightarrow> string option \<Rightarrow> bool \<Rightarrow> bool m" where
  "isPasswordExpiredForUser E userId passwordUpdatedAt isAdmin =
     (case passwordUpdatedAt of
        None \<Rightarrow> ret False
      | Some changed \<Rightarrow>
        if changed = [] then ret False
        else seq (reads (if isAdmin then getAdminMaxPasswordAgeDays else getStrictestEnabledMaxAgeDaysForUser userId)) (\<lambda>limit.
          case limit of
            None \<Rightarrow> ret False
          | Some days \<Rightarrow>
            seq (now_ms E) (\<lambda>now.
            ret (case parse_date E changed of
                   None \<Rightarrow> False | Some t \<Rightarrow> days * MS_PER_DAY < int now - int t))))"

definition first_of :: "'a list \<Rightarrow> 'a option" where
  "first_of xs = (case xs of [] \<Rightarrow> None | x # r \<Rightarrow> Some x)"

definition getApplicablePolicyForSignIn :: "string \<Rightarrow> bool \<Rightarrow> string option \<Rightarrow> world \<Rightarrow> policy_row option" where
  "getApplicablePolicyForSignIn userId isAdmin environmentId w =
     (let policy = (if isAdmin then getAdminPolicy w
                    else if truthy environmentId then getPolicyForEnvironment (the environmentId) w
                    else first_of (getEnabledPoliciesForUser userId w))
      in case policy of None \<Rightarrow> None | Some p \<Rightarrow> if pp_enabled p then Some p else None)"

record complexity =
  cx_ok :: bool
  cx_violations :: "violation list"
  cx_policy :: "policy_row option"

fun first_rejecting :: "policy_row list \<Rightarrow> string \<Rightarrow> identifiers \<Rightarrow> complexity" where
  "first_rejecting [] password ids = \<lparr>cx_ok = True, cx_violations = [], cx_policy = None\<rparr>"
| "first_rejecting (p # ps) password ids =
     (let r = validatePasswordAgainstPolicy p password ids
      in if \<not> ck_ok r then \<lparr>cx_ok = False, cx_violations = ck_violations r, cx_policy = Some p\<rparr>
         else first_rejecting ps password ids)"

definition checkSignInPasswordComplexity ::
  "string \<Rightarrow> bool \<Rightarrow> string option \<Rightarrow> string \<Rightarrow> identifiers \<Rightarrow> world \<Rightarrow> complexity" where
  "checkSignInPasswordComplexity userId isAdmin environmentId password ids w =
     (if isAdmin \<or> truthy environmentId then
        (case getApplicablePolicyForSignIn userId isAdmin environmentId w of
           None \<Rightarrow> \<lparr>cx_ok = True, cx_violations = [], cx_policy = None\<rparr>
         | Some p \<Rightarrow>
           let r = validatePasswordAgainstPolicy p password ids
           in \<lparr>cx_ok = ck_ok r, cx_violations = ck_violations r, cx_policy = Some p\<rparr>)
      else first_rejecting (getEnabledPoliciesForUser userId w) password ids)"

end
