(* ===== verification/SiteSettings.thy ===== *)
theory SiteSettings
  imports StagedUpload PolicyService
begin

text \<open>
  The settings of the site (\<open>site-settings.service.ts\<close> with its repository) and the list of the
  clients that may use the admin API (\<open>site-admin-api-clients.repository.d1.ts\<close>). Email codes can
  be asked for only with a Site URL and a mail key.
\<close>

section \<open>The row\<close>

record settings_patch =
  sp_siteTitle :: "string option option"
  sp_siteUrl :: "string option option"
  sp_cdnUrl :: "string option option"
  sp_logoKey :: "string option option"
  sp_mfaEnabled :: "bool option"
  sp_adminPasswordPolicyId :: "string option option"

definition no_settings :: settings_patch where
  "no_settings =
     \<lparr>sp_siteTitle = None, sp_siteUrl = None, sp_cdnUrl = None, sp_logoKey = None, sp_mfaEnabled = None,
      sp_adminPasswordPolicyId = None\<rparr>"

definition patch_settings :: "settings_patch \<Rightarrow> site_settings_row \<Rightarrow> site_settings_row" where
  "patch_settings p s =
     \<lparr>st_site_title = or_old (sp_siteTitle p) (st_site_title s), st_site_url = or_old (sp_siteUrl p) (st_site_url s),
      st_cdn_url = or_old (sp_cdnUrl p) (st_cdn_url s), st_logo_key = or_old (sp_logoKey p) (st_logo_key s),
      st_mfa_enabled = or_old (sp_mfaEnabled p) (st_mfa_enabled s),
      st_admin_password_policy_id = or_old (sp_adminPasswordPolicyId p) (st_admin_password_policy_id s)\<rparr>"

definition settings_violated :: "settings_patch \<Rightarrow> world \<Rightarrow> string option" where
  "settings_violated p w =
     (case sp_adminPasswordPolicyId p of
        Some (Some i) \<Rightarrow>
          if site_settings w \<noteq> None \<and> i \<notin> set (List.map pp_id (password_policies w))
          then Some ''FOREIGN KEY constraint failed'' else None
      | _ \<Rightarrow> None)"

definition update_settings :: "settings_patch \<Rightarrow> unit m" where
  "update_settings p =
     (if p = no_settings then ret ()
      else guarded (settings_violated p) (\<lambda>w. w\<lparr>site_settings := map_option (patch_settings p) (site_settings w)\<rparr>))"

section \<open>Reading\<close>

definition DEFAULT_SITE_TITLE :: string where "DEFAULT_SITE_TITLE = ''Eetr Auth''"
definition DEFAULT_LOGO_PATH :: string where "DEFAULT_LOGO_PATH = ''/eetr-auth-logo.png''"

definition site_resend_key :: "cfg \<Rightarrow> string option" where
  "site_resend_key E = trimmed_env (ctx_env E) ''RESEND_API_KEY''"

record settings_dto =
  sd_row :: site_settings_row
  sd_mfaCanEnable :: bool
  sd_displayTitle :: string
  sd_displayLogoUrl :: string

definition getLogoPublicUrlForKey :: "cfg \<Rightarrow> string \<Rightarrow> string option \<Rightarrow> string" where
  "getLogoPublicUrlForKey E key cdn =
     buildAssetUrl key (pickAssetCdnBaseUrl cdn (strip_trailing CHR ''/'' (getAvatarCdnBaseUrl E)))"

definition getDisplaySiteTitle :: "string option \<Rightarrow> string" where
  "getDisplaySiteTitle title = (case nonblank title of None \<Rightarrow> DEFAULT_SITE_TITLE | Some t \<Rightarrow> t)"

definition getDisplayLogoUrl :: "cfg \<Rightarrow> string option \<Rightarrow> string option \<Rightarrow> string" where
  "getDisplayLogoUrl E key cdn =
     (case nonblank key of None \<Rightarrow> DEFAULT_LOGO_PATH | Some k \<Rightarrow> getLogoPublicUrlForKey E k cdn)"

definition computeMfaCanEnable :: "cfg \<Rightarrow> string option \<Rightarrow> bool" where
  "computeMfaCanEnable E siteUrl \<longleftrightarrow> nonblank siteUrl \<noteq> None \<and> site_resend_key E \<noteq> None"

definition default_settings :: site_settings_row where
  "default_settings =
     \<lparr>st_site_title = None, st_site_url = None, st_cdn_url = None, st_logo_key = None, st_mfa_enabled = False,
      st_admin_password_policy_id = None\<rparr>"

definition settings_row :: "world \<Rightarrow> site_settings_row" where
  "settings_row w = (case site_settings w of None \<Rightarrow> default_settings | Some s \<Rightarrow> s)"

definition get_settings :: "cfg \<Rightarrow> world \<Rightarrow> settings_dto" where
  "get_settings E w =
     (let s = settings_row w
      in \<lparr>sd_row = s, sd_mfaCanEnable = computeMfaCanEnable E (st_site_url s),
          sd_displayTitle = getDisplaySiteTitle (st_site_title s),
          sd_displayLogoUrl = getDisplayLogoUrl E (st_logo_key s) (st_cdn_url s)\<rparr>)"

section \<open>Updating\<close>

definition assertOptionalHttpUrl :: "cfg \<Rightarrow> string \<Rightarrow> string option \<Rightarrow> unit m" where
  "assertOptionalHttpUrl E label value =
     (case value of
        None \<Rightarrow> ret ()
      | Some v \<Rightarrow>
        (case parse_url E v of
           None \<Rightarrow> throw (JsError (label @ '' must be a valid http(s) URL''))
         | Some u \<Rightarrow> throw_when (url_protocol u \<noteq> ''http:'' \<and> url_protocol u \<noteq> ''https:'')
                       (JsError (label @ '' must be an http(s) URL''))))"

record settings_input =
  si_siteTitle :: "string option option"
  si_siteUrl :: "string option option"
  si_cdnUrl :: "string option option"
  si_mfaEnabled :: "bool option"
  si_adminPasswordPolicyId :: "string option option"

text \<open>The patch, with every text trimmed and a blank one turned into \<open>null\<close>.\<close>

definition normalized :: "settings_input \<Rightarrow> settings_patch" where
  "normalized p =
     \<lparr>sp_siteTitle = map_option nonblank (si_siteTitle p), sp_siteUrl = map_option nonblank (si_siteUrl p),
      sp_cdnUrl = map_option nonblank (si_cdnUrl p), sp_logoKey = None, sp_mfaEnabled = si_mfaEnabled p,
      sp_adminPasswordPolicyId = map_option nonblank (si_adminPasswordPolicyId p)\<rparr>"

text \<open>The conditions on what would be stored, against the row that is there.\<close>

definition check_mfa_settings :: "cfg \<Rightarrow> settings_patch \<Rightarrow> site_settings_row \<Rightarrow> unit m" where
  "check_mfa_settings E p current =
     (let nextSiteUrl = or_old (sp_siteUrl p) (st_site_url current);
          nextMfaEnabled = or_old (sp_mfaEnabled p) (st_mfa_enabled current) in
      seq (throw_when (sp_mfaEnabled p = Some True \<and> nonblank nextSiteUrl = None)
            (JsError ''Configure Site URL before enabling MFA.'')) (\<lambda>_.
      seq (throw_when (sp_mfaEnabled p = Some True \<and> site_resend_key E = None)
            (JsError ''RESEND_API_KEY is not configured; cannot enable MFA.'')) (\<lambda>_.
      seq (throw_when (nonblank nextSiteUrl = None \<and> nextMfaEnabled)
            (JsError ''Clear MFA before removing Site URL.'')) (\<lambda>_.
      throw_when (sp_siteUrl p \<noteq> None \<and> nonblank (or_old (sp_siteUrl p) None) = None \<and> st_mfa_enabled current)
        (JsError ''Disable MFA before clearing Site URL.'')))))"

definition changed_settings :: "settings_patch \<Rightarrow> string list" where
  "changed_settings p =
     (if sp_siteTitle p \<noteq> None then [''siteTitle''] else [])
     @ (if sp_siteUrl p \<noteq> None then [''siteUrl''] else [])
     @ (if sp_cdnUrl p \<noteq> None then [''cdnUrl''] else [])
     @ (if sp_mfaEnabled p \<noteq> None then [''mfaEnabled''] else [])
     @ (if sp_adminPasswordPolicyId p \<noteq> None then [''adminPasswordPolicyId''] else [])"

definition settings_details :: "settings_patch \<Rightarrow> (string \<times> detail) list" where
  "settings_details p =
     (''changedFields'', DTexts (changed_settings p))
     # (case sp_siteTitle p of None \<Rightarrow> [] | Some v \<Rightarrow> [(''siteTitle'', dtext v)])
     @ (case sp_siteUrl p of None \<Rightarrow> [] | Some v \<Rightarrow> [(''siteUrl'', dtext v)])
     @ (case sp_cdnUrl p of None \<Rightarrow> [] | Some v \<Rightarrow> [(''cdnUrl'', dtext v)])
     @ (case sp_mfaEnabled p of None \<Rightarrow> [] | Some v \<Rightarrow> [(''mfaEnabled'', DFlag v)])
     @ (case sp_adminPasswordPolicyId p of None \<Rightarrow> [] | Some v \<Rightarrow> [(''adminPasswordPolicyId'', dtext v)])"

definition updateSiteFields :: "cfg \<Rightarrow> settings_input \<Rightarrow> string option \<Rightarrow> settings_dto m" where
  "updateSiteFields E input actorUserId =
     (let p = normalized input in
      seq (reads settings_row) (\<lambda>current.
      seq (assertOptionalHttpUrl E ''Site URL'' (or_old (sp_siteUrl p) None)) (\<lambda>_.
      seq (assertOptionalHttpUrl E ''CDN URL'' (or_old (sp_cdnUrl p) None)) (\<lambda>_.
      seq (case or_old (sp_adminPasswordPolicyId p) None of
             None \<Rightarrow> ret ()
           | Some i \<Rightarrow> seq (reads (policy_by_id i)) (\<lambda>policy.
               throw_when (policy = None) (JsError ''Selected admin password policy no longer exists.''))) (\<lambda>_.
      seq (check_mfa_settings E p current) (\<lambda>_.
      seq (update_settings p) (\<lambda>_.
      seq (if changed_settings p = [] then ret ()
           else logAction E actorUserId (audit_action_name SiteSettingsUpdate) (audit_resource_name SiteSettingsResource)
                  None (settings_details p)) (\<lambda>_.
      reads (get_settings E)))))))))"

definition setLogoKey :: "cfg \<Rightarrow> string option \<Rightarrow> string option \<Rightarrow> settings_dto m" where
  "setLogoKey E logoKey actorUserId =
     (let key = nonblank logoKey in
      seq (update_settings (no_settings\<lparr>sp_logoKey := Some key\<rparr>)) (\<lambda>_.
      seq (logAction E actorUserId (audit_action_name SiteLogoUpdate) (audit_resource_name SiteSettingsResource) None
            [(''logoKey'', dtext key), (''cleared'', DFlag (key = None))]) (\<lambda>_.
      reads (get_settings E))))"

definition promoteStagedLogo :: "cfg \<Rightarrow> string \<Rightarrow> string option \<Rightarrow> settings_dto m" where
  "promoteStagedLogo E stagedKey actorUserId =
     seq (throw_when (auth_assets E = None) (JsError ''Logo storage is not configured.'')) (\<lambda>_.
     let finalKey = ''site/logo.'' @ extensionOfStagedKey stagedKey in
     seq (promoteStagedUpload stagedKey finalKey) (\<lambda>_.
     setLogoKey E (Some finalKey) actorUserId))"

section \<open>Clients of the admin API\<close>

definition getAdminApiClientRowIds :: "world \<Rightarrow> string list" where
  "getAdminApiClientRowIds w = sort (site_admin_api_clients w)"

definition insert_admin_client :: "string \<Rightarrow> unit m" where
  "insert_admin_client i =
     guarded (\<lambda>w. if i \<in> set (site_admin_api_clients w)
                  then Some ''UNIQUE constraint failed: site_admin_api_clients.client_row_id''
                  else if i \<notin> set (List.map cl_id (clients w)) then Some ''FOREIGN KEY constraint failed'' else None)
       (\<lambda>w. w\<lparr>site_admin_api_clients := site_admin_api_clients w @ [i]\<rparr>)"

text \<open>The old rows are deleted by a statement of its own, before the batch that inserts the new ones.\<close>

definition setClientRowIds :: "string list \<Rightarrow> unit m" where
  "setClientRowIds ids =
     seq (writes (\<lambda>w. w\<lparr>site_admin_api_clients := []\<rparr>)) (\<lambda>_.
     let unique = uniq ids in
     if unique = [] then ret () else transaction (each insert_admin_client unique))"

definition check_client_exists :: "string \<Rightarrow> unit m" where
  "check_client_exists i =
     seq (reads (client_by_id i)) (\<lambda>found. throw_when (found = None) (JsError (''Unknown client: '' @ i)))"

definition setAdminApiClientRowIds :: "cfg \<Rightarrow> string list \<Rightarrow> string option \<Rightarrow> unit m" where
  "setAdminApiClientRowIds E ids actorUserId =
     (let unique = uniq (filter (\<lambda>i. i \<noteq> []) (List.map js_trim ids)) in
      seq (each check_client_exists unique) (\<lambda>_.
      seq (setClientRowIds unique) (\<lambda>_.
      logAction E actorUserId (audit_action_name SiteAdminApiClientsUpdate) (audit_resource_name SiteSettingsResource) None
        [(''clientRowIds'', DTexts unique)])))"

end
