(* ===== verification/PolicyRules.thy ===== *)
theory PolicyRules
  imports SiteSettings Setup
begin

text \<open>
  What holds of the policies: the tables stay well formed whatever is edited, and the check at
  sign-in accepts exactly the passwords that meet every policy that applies. And of the site
  settings: email codes are never switched on without a Site URL.
\<close>

section \<open>What a policy asks for\<close>

definition meets :: "policy_row \<Rightarrow> string \<Rightarrow> identifiers \<Rightarrow> bool" where
  "meets p pw ids \<longleftrightarrow>
     pp_min_length p \<le> int (length pw) \<and> (\<forall>n. pp_max_length p = Some n \<longrightarrow> int (length pw) \<le> n)
     \<and> pp_min_uppercase p \<le> int (card {i. i < length pw \<and> upper_ascii (pw ! i)})
     \<and> pp_min_lowercase p \<le> int (card {i. i < length pw \<and> lower_ascii (pw ! i)})
     \<and> pp_min_number p \<le> int (card {i. i < length pw \<and> digit_ascii (pw ! i)})
     \<and> pp_min_special p \<le> int (card {i. i < length pw \<and> special_char (pw ! i)})
     \<and> (pp_reject_contains_identifier p \<longrightarrow>
          (\<forall>c \<in> set (identifier_candidates ids). 3 \<le> length c \<longrightarrow> \<not> sublist c (js_lower pw)))"

lemma js_includes_sublist: "js_includes h c \<longleftrightarrow> sublist c h"
proof (induction h)
  case (Cons x xs)
  have "take (length c) (x # xs) = c \<longleftrightarrow> prefix c (x # xs)"
    by (metis append_take_drop_id prefix_def append_eq_conv_conj)
  with Cons show ?case by (simp add: sublist_Cons_right)
qed simp

lemma too_few_Nil: "too_few code n P pw = [] \<longleftrightarrow> n \<le> int (card {i. i < length pw \<and> P (pw ! i)})"
proof -
  have "int (length (filter P pw)) = int (card {i. i < length pw \<and> P (pw ! i)})" by (simp add: length_filter_conv_card)
  then show ?thesis by (auto simp: too_few_def countMatches_def)
qed

lemma ck_ok_iff: "ck_ok (validatePasswordAgainstPolicy p pw ids) \<longleftrightarrow> (pp_enabled p \<longrightarrow> meets p pw ids)"
  by (auto simp: validatePasswordAgainstPolicy_def meets_def too_few_Nil Let_def js_includes_sublist list_ex_iff
      MIN_IDENTIFIER_LENGTH_def split: option.splits)

lemma ck_violations_iff: "ck_violations (validatePasswordAgainstPolicy p pw ids) = [] \<longleftrightarrow> ck_ok (validatePasswordAgainstPolicy p pw ids)"
  by (simp add: validatePasswordAgainstPolicy_def Let_def)

text \<open>Every violation is on the checklist that is shown for the policy.\<close>

lemma violations_listed:
  "v \<in> set (ck_violations (validatePasswordAgainstPolicy p pw ids)) \<Longrightarrow>
   \<exists>label. (violation_code v, label) \<in> set (listPolicyRequirements p)"
  by (auto simp: validatePasswordAgainstPolicy_def listPolicyRequirements_def too_few_def Let_def split: if_splits option.splits)

section \<open>Well-formed policies\<close>

definition policy_ok :: "policy_row \<Rightarrow> bool" where
  "policy_ok p \<longleftrightarrow> js_trim (pp_name p) = pp_name p \<and> pp_name p \<noteq> [] \<and> 1 \<le> pp_min_length p
     \<and> (\<forall>n. pp_max_length p = Some n \<longrightarrow> pp_min_length p \<le> n) \<and> 0 \<le> pp_min_uppercase p \<and> 0 \<le> pp_min_lowercase p
     \<and> 0 \<le> pp_min_number p \<and> 0 \<le> pp_min_special p \<and> 0 \<le> pp_max_password_age_days p"

definition settings_ok :: "world \<Rightarrow> bool" where
  "settings_ok w \<longleftrightarrow>
     (\<forall>s. site_settings w = Some s \<longrightarrow>
        (\<forall>i. st_admin_password_policy_id s = Some i \<longrightarrow> i \<in> pp_id ` set (password_policies w))
        \<and> (st_mfa_enabled s \<longrightarrow> nonblank (st_site_url s) \<noteq> None))"

definition policies_ok :: "world \<Rightarrow> bool" where
  "policies_ok w \<longleftrightarrow>
     distinct (List.map pp_id (password_policies w)) \<and> distinct (List.map pp_name (password_policies w))
     \<and> distinct (List.map pe_environment_id (password_policy_environments w))
     \<and> (\<forall>p \<in> set (password_policies w). policy_ok p)
     \<and> (\<forall>a \<in> set (password_policy_environments w). pe_policy_id a \<in> pp_id ` set (password_policies w)
           \<and> pe_environment_id a \<in> env_id ` set (environments w))
     \<and> settings_ok w"

lemma settings_ok_frame [simp]:
  "settings_ok (w\<lparr>password_policy_environments := as\<rparr>) = settings_ok w"
  "settings_ok (w\<lparr>environments := es\<rparr>) = settings_ok w"
  "settings_ok (w\<lparr>users_environments := us\<rparr>) = settings_ok w"
  "settings_ok (w\<lparr>ticks := n\<rparr>) = settings_ok w" "settings_ok (w\<lparr>draws := n\<rparr>) = settings_ok w"
  by (simp_all add: settings_ok_def)

definition keeps_policies :: "world \<Rightarrow> world \<Rightarrow> bool" where
  "keeps_policies s t \<longleftrightarrow> (policies_ok s \<longrightarrow> policies_ok t)"

interpretation policies: evolution keeps_policies
  by unfold_locales (auto simp: keeps_policies_def)

definition same_policies :: "world \<Rightarrow> world \<Rightarrow> bool" where
  "same_policies s t \<longleftrightarrow> password_policies t = password_policies s
     \<and> password_policy_environments t = password_policy_environments s \<and> environments t = environments s
     \<and> site_settings t = site_settings s"

interpretation policy_frame: evolution same_policies
  by unfold_locales (auto simp: same_policies_def)

lemma policy_frame_keeps: "evolves same_policies m \<Longrightarrow> evolves keeps_policies m"
  by (auto simp: evolves_def keeps_policies_def policies_ok_def settings_ok_def same_policies_def)

lemma policy_platform:
  "evolves same_policies (now_ms E)" "evolves same_policies (now_iso E)" "evolves same_policies (randomUUID E)"
  "evolves same_policies (randomUUIDs E n)"
  by (auto simp: evolves_def same_policies_def)

lemma policy_audit: "evolves same_policies (logAction E a b c d e)"
  unfolding logAction_def buildRow_def insert_audit_def
  by (intro policy_frame.rules policy_platform evolves_guarded) (auto simp: same_policies_def)

lemmas policy_calls = policy_platform [THEN policy_frame_keeps] policy_audit [THEN policy_frame_keeps]

section \<open>Rows\<close>

lemma insert_policy_keeps: "policy_ok p \<Longrightarrow> evolves keeps_policies (insert_policy p)"
  unfolding insert_policy_def
  by (rule evolves_guarded) (auto simp: keeps_policies_def policies_ok_def settings_ok_def policy_violated_def split: if_splits)

lemma assignment_added:
  assumes "policies_ok w" and "pe_environment_id a \<notin> pe_environment_id ` set (password_policy_environments w)"
    and "pe_policy_id a \<in> pp_id ` set (password_policies w)" and "pe_environment_id a \<in> env_id ` set (environments w)"
  shows "policies_ok (w\<lparr>password_policy_environments := password_policy_environments w @ [a]\<rparr>)"
proof -
  let ?as = "password_policy_environments w @ [a]"
  have "distinct (List.map pe_environment_id ?as)"
    using assms(1,2) by (simp add: policies_ok_def)
  moreover have "\<forall>b \<in> set ?as. pe_policy_id b \<in> pp_id ` set (password_policies w) \<and> pe_environment_id b \<in> env_id ` set (environments w)"
    using assms(1,3,4) unfolding policies_ok_def by (metis Un_iff empty_iff empty_set list.simps(15) set_append singletonD insertE)
  ultimately show ?thesis
    using assms(1) by (simp add: policies_ok_def)
qed

lemma insert_assignment_keeps: "evolves keeps_policies (insert_assignment a)"
  unfolding insert_assignment_def
proof (rule evolves_guarded)
  fix w :: world
  assume "assignment_violated a w = None"
  then have "pe_environment_id a \<notin> pe_environment_id ` set (password_policy_environments w)"
    "pe_policy_id a \<in> pp_id ` set (password_policies w)" "pe_environment_id a \<in> env_id ` set (environments w)"
    by (simp_all add: assignment_violated_def split: if_splits)
  then show "keeps_policies w (w\<lparr>password_policy_environments := password_policy_environments w @ [a]\<rparr>)"
    unfolding keeps_policies_def using assignment_added by blast
qed (rule policies.refl)

lemma transaction_keeps: "evolves keeps_policies m \<Longrightarrow> evolves keeps_policies (transaction m)"
  by (rule evolvesI) (auto simp: transaction_def split: sum.splits prod.splits dest: evolvesD intro: policies.refl)

lemma setEnvironments_keeps: "evolves keeps_policies (setEnvironments E i es)"
  unfolding setEnvironments_def
  by (intro policies.rules transaction_keeps insert_assignment_keeps policy_calls)
    (auto simp: keeps_policies_def policies_ok_def distinct_map_filter)

lemma distinct_changed:
  assumes "distinct (List.map k xs)" and "distinct (List.map n xs)" and "x \<in> set xs"
    and new: "n (f x) \<notin> n ` {y \<in> set xs. k y \<noteq> k x}"
  shows "distinct (List.map n (List.map (\<lambda>y. if k y = k x then f y else y) xs))"
proof -
  let ?f = "\<lambda>y. if k y = k x then f y else y"
  have same: "y = x" if "y \<in> set xs" "k y = k x" for y
    using that assms(1,3) by (auto simp: distinct_map dest: inj_onD)
  have other: "n y \<noteq> n (f x)" if "y \<in> set xs" "k y \<noteq> k x" for y
    using that new by (metis (mono_tags, lifting) image_eqI mem_Collect_eq)
  have "inj_on (n \<circ> ?f) (set xs)"
  proof (rule inj_onI)
    fix a b assume ab: "a \<in> set xs" "b \<in> set xs" "(n \<circ> ?f) a = (n \<circ> ?f) b"
    have "n a = n b \<Longrightarrow> a = b" using ab(1,2) assms(2) by (auto simp: distinct_map dest: inj_onD)
    note facts = this same [OF ab(1)] same [OF ab(2)] other [OF ab(1)] other [OF ab(2)]
    have eq: "n (?f a) = n (?f b)" using ab(3) by simp
    show "a = b"
    proof (cases "k a = k x")
      case True
      show ?thesis
      proof (cases "k b = k x")
        case False
        with eq True have "n (f x) = n b" using facts(2) by simp
        with False facts(5) show ?thesis by simp
      qed (use True facts in simp)
    next
      case False
      show ?thesis
      proof (cases "k b = k x")
        case True
        with eq False have "n a = n (f x)" using facts(3) by simp
        with False facts(4) show ?thesis by simp
      qed (use False facts(1) eq in simp)
    qed
  qed
  with assms(1) show ?thesis by (simp add: distinct_map)
qed

lemma update_policy_keeps:
  assumes "\<And>p. pp_id (f p) = pp_id p"
  shows "(\<And>p. policy_by_id i s = Some p \<Longrightarrow> policy_ok p \<Longrightarrow> policy_ok (f p)) \<Longrightarrow>
    update_policy i f s = (r, t) \<Longrightarrow> keeps_policies s t"
proof -
  assume good: "\<And>p. policy_by_id i s = Some p \<Longrightarrow> policy_ok p \<Longrightarrow> policy_ok (f p)"
    and run: "update_policy i f s = (r, t)"
  let ?f = "\<lambda>p. if pp_id p = i then f p else p"
  let ?ps = "password_policies s"
  show "keeps_policies s t" unfolding keeps_policies_def
  proof
    assume ok: "policies_ok s"
    have "t = s \<or> rename_violated i f s = None \<and> t = s\<lparr>password_policies := List.map ?f ?ps\<rparr>"
      using run unfolding update_policy_def guarded_def by (cases "rename_violated i f s") simp_all
    then show "policies_ok t"
    proof (elim disjE conjE)
      assume 2: "rename_violated i f s = None" "t = s\<lparr>password_policies := List.map ?f ?ps\<rparr>"
      have ids: "List.map pp_id (List.map ?f ?ps) = List.map pp_id ?ps" by (simp add: assms)
      then have keys: "pp_id ` set (List.map ?f ?ps) = pp_id ` set ?ps" by (metis list.set_map)
      have found: "policy_by_id i s = Some p" if p: "p \<in> set ?ps" "pp_id p = i" for p
      proof -
        obtain q where q: "policy_by_id i s = Some q"
          using p by (cases "policy_by_id i s") (auto simp: policy_by_id_def find_None_iff)
        then have "q \<in> set ?ps" "pp_id q = i" by (auto simp: policy_by_id_def dest: find_in_set)
        with p ok have "q = p" by (auto simp: policies_ok_def dest: inj_onD simp: distinct_map)
        with q show ?thesis by simp
      qed
      have "distinct (List.map pp_name (List.map ?f ?ps))"
      proof (cases "policy_by_id i s")
        case None
        then have "List.map ?f ?ps = ?ps" by (auto simp: policy_by_id_def find_None_iff intro: map_idI)
        with ok show ?thesis by (simp add: policies_ok_def)
      next
        case (Some p)
        with 2(1) have new: "pp_name (f p) \<notin> pp_name ` {q \<in> set ?ps. pp_id q \<noteq> i}"
          by (auto simp: rename_violated_def split: if_splits)
        have p: "p \<in> set ?ps" "pp_id p = i" using Some by (auto simp: policy_by_id_def dest: find_in_set)
        have "distinct (List.map pp_name (List.map (\<lambda>q. if pp_id q = pp_id p then f q else q) ?ps))"
          using ok p new by (intro distinct_changed) (auto simp: policies_ok_def)
        then show ?thesis by (simp only: p(2))
      qed
      moreover have "\<forall>p \<in> set (List.map ?f ?ps). policy_ok p"
        using ok good found by (auto simp: policies_ok_def)
      moreover have "settings_ok t"
        using ok keys unfolding policies_ok_def settings_ok_def 2(2) by simp
      ultimately show ?thesis using ok 2(2) ids keys
        by (simp add: policies_ok_def del: List.map_map set_map)
    qed (use ok in simp)
  qed
qed

lemma policy_keys_left: "pp_id ` {p \<in> set ps. pp_id p \<noteq> i} = pp_id ` set ps - {i}"
  by auto

lemma delete_policy_keeps: "evolves keeps_policies (delete_policy i)"
  unfolding delete_policy_def
proof (rule policies.writes)
  fix w show "keeps_policies w (delete_policy_rows i w)"
  proof (cases "i \<in> set (List.map pp_id (password_policies w))")
    case True
    let ?t = "delete_policy_rows i w"
    let ?forget = "\<lambda>s. if st_admin_password_policy_id s = Some i then s\<lparr>st_admin_password_policy_id := None\<rparr> else s"
    have forgets: "st_admin_password_policy_id (?forget s) = Some j \<longleftrightarrow> st_admin_password_policy_id s = Some j \<and> j \<noteq> i"
      "st_mfa_enabled (?forget s) = st_mfa_enabled s" "st_site_url (?forget s) = st_site_url s" for s j by auto
    have rows: "password_policies ?t = filter (\<lambda>p. pp_id p \<noteq> i) (password_policies w)"
      "password_policy_environments ?t = filter (\<lambda>r. pe_policy_id r \<noteq> i) (password_policy_environments w)"
      "environments ?t = environments w"
      "site_settings ?t = map_option ?forget (site_settings w)"
      using True by (simp_all add: delete_policy_rows_def)
    show ?thesis unfolding keeps_policies_def
    proof
      assume ok: "policies_ok w"
      have "j \<in> pp_id ` set (password_policies w) - {i}"
        if t: "site_settings ?t = Some s" "st_admin_password_policy_id s = Some j" for s j
      proof -
        obtain z where z: "site_settings w = Some z" "s = ?forget z" using t(1) unfolding rows by (auto simp only: map_option_eq_Some)
        with t(2) have "st_admin_password_policy_id z = Some j" "j \<noteq> i" by (simp_all add: forgets)
        with ok z(1) show ?thesis by (auto simp: policies_ok_def settings_ok_def)
      qed
      moreover have "nonblank (st_site_url s) \<noteq> None" if t: "site_settings ?t = Some s" "st_mfa_enabled s" for s
      proof -
        obtain z where z: "site_settings w = Some z" "s = ?forget z" using t(1) unfolding rows by (auto simp only: map_option_eq_Some)
        with t(2) ok show ?thesis by (simp only: forgets) (auto simp: policies_ok_def settings_ok_def)
      qed
      ultimately have "settings_ok ?t"
        unfolding settings_ok_def rows(1) set_filter policy_keys_left by blast
      with ok show "policies_ok ?t"
        unfolding policies_ok_def by (simp add: rows(1-3) distinct_map_filter policy_keys_left)
    qed
  qed (simp add: delete_policy_rows_def policies.refl)
qed


section \<open>Operations\<close>

lemma whole_from_whole: "whole_from k n \<Longrightarrow> k \<le> js_whole n"
  by (simp add: whole_from_def js_whole_def split: js_number.splits)

lemma js_whole_simp [simp]: "js_whole (Whole n) = n" "whole_from k (Whole n) \<longleftrightarrow> k \<le> n"
  by (simp_all add: js_whole_def whole_from_def)

lemma rules_checked:
  assumes "validateRules u = None"
  shows "pi_name u = Some n \<Longrightarrow> js_trim n \<noteq> []"
    and "pi_minLength u = Some a \<Longrightarrow> 1 \<le> js_whole a"
    and "pi_minUppercase u = Some a \<Longrightarrow> 0 \<le> js_whole a" and "pi_minLowercase u = Some a \<Longrightarrow> 0 \<le> js_whole a"
    and "pi_minNumber u = Some a \<Longrightarrow> 0 \<le> js_whole a" and "pi_minSpecial u = Some a \<Longrightarrow> 0 \<le> js_whole a"
    and "pi_maxPasswordAgeDays u = Some a \<Longrightarrow> 0 \<le> js_whole a"
    and "pi_maxLength u = Some (Some b) \<Longrightarrow> pi_minLength u = Some a \<Longrightarrow> js_whole a \<le> js_whole b"
  using assms by (auto simp: validateRules_def bad_count_def dest: whole_from_whole split: if_splits)

lemma new_policy_ok: "validateRules (input_of p) = None \<Longrightarrow> policy_ok (policy_row_of p i now)"
  using rules_checked [of "input_of p"] by (auto simp: policy_ok_def policy_row_of_def input_of_def js_trim_idem)

lemma patched_policy_ok:
  assumes "policy_ok p" and "validateRules (merged_rules u p) = None"
  shows "policy_ok (patch_policy (u\<lparr>pi_name := map_option js_trim (pi_name u)\<rparr>) now p)"
proof -
  note checked = rules_checked [OF assms(2)]
  have name: "pi_name u = Some n \<Longrightarrow> js_trim n \<noteq> []" for n using checked(1) by (simp add: merged_rules_def)
  have lengths: "1 \<le> whole_or (pi_minLength u) (pp_min_length p)"
    using checked(2) assms(1) by (cases "pi_minLength u") (simp_all add: merged_rules_def whole_or_def policy_ok_def)
  have counts: "0 \<le> whole_or (pi_minUppercase u) (pp_min_uppercase p)" "0 \<le> whole_or (pi_minLowercase u) (pp_min_lowercase p)"
    "0 \<le> whole_or (pi_minNumber u) (pp_min_number p)" "0 \<le> whole_or (pi_minSpecial u) (pp_min_special p)"
    "0 \<le> whole_or (pi_maxPasswordAgeDays u) (pp_max_password_age_days p)"
    using checked(3-7) assms(1) by (auto simp: merged_rules_def whole_or_def policy_ok_def split: option.splits)
  have upper: "whole_or (pi_minLength u) (pp_min_length p) \<le> n"
    if n: "(case pi_maxLength u of None \<Rightarrow> pp_max_length p | Some v \<Rightarrow> map_option js_whole v) = Some n" for n
    using checked(8) assms(1) n
    by (auto simp: merged_rules_def whole_or_def policy_ok_def split: option.splits) (metis js_whole_simp(1))+
  show ?thesis
    using assms(1) name lengths counts upper
    by (auto simp: policy_ok_def patch_policy_def or_old_def js_trim_idem split: option.splits)
qed

lemma refuse_or_keeps: "(problem = None \<Longrightarrow> evolves keeps_policies go) \<Longrightarrow> evolves keeps_policies (refuse_or problem go)"
  by (simp add: refuse_or_def policies.keeps split: option.split)

lemma or_duplicate_keeps:
  "evolves keeps_policies write \<Longrightarrow> evolves keeps_policies rest \<Longrightarrow> evolves keeps_policies (or_duplicate n write rest)"
  by (rule evolvesI)
    (auto simp: or_duplicate_def split: prod.splits sum.splits if_splits dest: evolvesD intro: policies.trans)

lemma create_policy_keeps: "evolves keeps_policies (create_policy E input es a)"
  unfolding create_policy_def
  by (intro refuse_or_keeps policies.rules or_duplicate_keeps insert_policy_keeps new_policy_ok setEnvironments_keeps policy_calls)

lemma policy_by_id_id: "policy_by_id i w = Some p \<Longrightarrow> pp_id p = i"
  by (auto simp: policy_by_id_def dest: find_in_set)

lemma policy_edit_keeps:
  assumes "policy_by_id (pp_id p) s = Some p" and "validateRules (merged_rules u p) = None"
    and run: "policy_edit E p u es a s = (r, t)"
  shows "keeps_policies s t"
proof -
  define name where "name = (case pi_name u of None \<Rightarrow> pp_name p | Some n \<Rightarrow> js_trim n)"
  define f where "f = patch_policy (u\<lparr>pi_name := map_option js_trim (pi_name u)\<rparr>) (toISOString (clock E (ticks s)))"
  define rest :: "policy_result m" where "rest =
      seq (case es of None \<Rightarrow> ret () | Some es \<Rightarrow> setEnvironments E (pp_id p) es) (\<lambda>_.
      seq (logAction E a (audit_action_name PasswordPolicyUpdate) (audit_resource_name PasswordPolicyResource)
            (Some (pp_id p)) ((''name'', DText name)
              # (case es of None \<Rightarrow> [] | Some es \<Rightarrow> [(''environmentIds'', DTexts es)]))) (\<lambda>_.
      seq (reads (getWithEnvironments (pp_id p))) (\<lambda>policy. ret (Policy_saved policy))))"
  let ?s = "s\<lparr>ticks := Suc (ticks s)\<rparr>"
  have at: "or_duplicate name (update_policy (pp_id p) f) rest ?s = (r, t)"
    using run by (simp add: policy_edit_def Let_def name_def f_def rest_def)
  have rest: "evolves keeps_policies rest"
    unfolding rest_def by (intro policies.rules setEnvironments_keeps policy_calls)
  have f: "pp_id (f q) = pp_id q" for q by (simp add: f_def patch_policy_def)
  have good: "policy_ok (f q)" if "policy_by_id (pp_id p) ?s = Some q" "policy_ok q" for q
    using that assms(1,2) patched_policy_ok by (simp add: policy_by_id_def f_def)
  have step: "keeps_policies ?s v" if "update_policy (pp_id p) f ?s = (x, v)" for x v
    using update_policy_keeps [OF f good that] by simp
  have "keeps_policies ?s t"
  proof (cases "update_policy (pp_id p) f ?s")
    case (Pair x v)
    with at have "t = v \<or> rest v = (r, t)"
      by (auto simp: or_duplicate_def split: sum.splits if_splits)
    with step [OF Pair] rest show ?thesis by (auto dest: evolvesD intro: policies.trans)
  qed
  then show ?thesis by (simp add: keeps_policies_def policies_ok_def)
qed

lemma edit_policy_keeps: "evolves keeps_policies (edit_policy E i u es a)"
proof (rule evolvesI)
  fix s r t
  assume run: "edit_policy E i u es a s = (r, t)"
  show "keeps_policies s t"
  proof (cases "policy_by_id i s")
    case None
    with run show ?thesis by (simp add: edit_policy_def policies.refl)
  next
    case (Some p)
    then have i: "pp_id p = i" by (rule policy_by_id_id)
    have "t = s \<or> validateRules (merged_rules u p) = None \<and> policy_edit E p u es a s = (r, t)"
      using run by (auto simp: edit_policy_def refuse_or_def Some split: option.splits)
    with policy_edit_keeps [of p s u E es a r t] Some i show ?thesis by (auto intro: policies.refl)
  qed
qed

lemma remove_policy_keeps: "evolves keeps_policies (remove_policy E i a)"
  unfolding remove_policy_def
  by (intro policies.rules delete_policy_keeps policy_calls)


section \<open>Site settings and environments\<close>

text \<open>A statement that only looks, then the rest at the same state; a statement, then a rest that keeps anyway.\<close>

lemma look_then:
  "(\<And>u. snd (m u) = u) \<Longrightarrow> (\<And>x. m s = (Inr x, s) \<Longrightarrow> keeps_policies s (snd (f x s))) \<Longrightarrow>
   keeps_policies s (snd (seq m f s))"
proof (cases "m s")
  case (Pair x v)
  moreover assume "\<And>u. snd (m u) = u" and "\<And>x. m s = (Inr x, s) \<Longrightarrow> keeps_policies s (snd (f x s))"
  moreover from this(1) Pair have "v = s" by (metis snd_conv)
  ultimately show ?thesis by (cases x) (simp_all add: run_seq policies.refl)
qed

lemma then_keeps:
  "keeps_policies s (snd (m s)) \<Longrightarrow> (\<And>x. evolves keeps_policies (f x)) \<Longrightarrow> keeps_policies s (snd (seq m f s))"
  by (auto simp: run_seq evolves_def split: prod.splits sum.splits intro: policies.trans)

lemma update_settings_keeps:
  assumes "\<And>r. site_settings w = Some r \<Longrightarrow> st_mfa_enabled r \<longrightarrow> nonblank (st_site_url r) \<noteq> None \<Longrightarrow>
     or_old (sp_mfaEnabled p) (st_mfa_enabled r) \<Longrightarrow> nonblank (or_old (sp_siteUrl p) (st_site_url r)) \<noteq> None"
  shows "keeps_policies w (snd (update_settings p w))"
proof (cases "p = no_settings \<or> settings_violated p w \<noteq> None")
  case True
  then have "snd (update_settings p w) = w" by (auto simp: update_settings_def guarded_def)
  then show ?thesis by (simp add: policies.refl)
next
  case False
  then have t: "snd (update_settings p w) = w\<lparr>site_settings := map_option (patch_settings p) (site_settings w)\<rparr>"
    and free: "settings_violated p w = None" by (auto simp: update_settings_def guarded_def)
  show ?thesis unfolding keeps_policies_def t
  proof
    assume ok: "policies_ok w"
    have "settings_ok (w\<lparr>site_settings := map_option (patch_settings p) (site_settings w)\<rparr>)"
    proof (cases "site_settings w")
      case (Some r)
      have old: "st_mfa_enabled r \<longrightarrow> nonblank (st_site_url r) \<noteq> None"
        "\<And>i. st_admin_password_policy_id r = Some i \<Longrightarrow> i \<in> pp_id ` set (password_policies w)"
        using ok Some by (auto simp: policies_ok_def settings_ok_def)
      have "i \<in> pp_id ` set (password_policies w)"
        if "or_old (sp_adminPasswordPolicyId p) (st_admin_password_policy_id r) = Some i" for i
        using that free old(2) Some
        by (cases "sp_adminPasswordPolicyId p") (auto simp: settings_violated_def split: if_splits)
      with assms [OF Some old(1)] Some show ?thesis by (simp add: settings_ok_def patch_settings_def)
    qed (simp add: settings_ok_def)
    with ok show "policies_ok (w\<lparr>site_settings := map_option (patch_settings p) (site_settings w)\<rparr>)"
      by (simp add: policies_ok_def)
  qed
qed

lemma assertOptionalHttpUrl_pure: "snd (assertOptionalHttpUrl E l v w) = w"
  by (simp add: assertOptionalHttpUrl_def split: option.split)

lemma check_mfa_settings_pure: "snd (check_mfa_settings E p c w) = w"
  by (simp add: check_mfa_settings_def Let_def run_seq)

lemma check_mfa_settings_Inr:
  "check_mfa_settings E p c w = (Inr u, t) \<Longrightarrow>
   or_old (sp_mfaEnabled p) (st_mfa_enabled c) \<Longrightarrow> nonblank (or_old (sp_siteUrl p) (st_site_url c)) \<noteq> None"
  by (auto simp: check_mfa_settings_def Let_def prog_inv split: if_splits)

lemma updateSiteFields_keeps: "evolves keeps_policies (updateSiteFields E input a)"
  unfolding evolves_def
proof
  fix s
  have policy: "snd ((case v of None \<Rightarrow> ret () | Some i \<Rightarrow> seq (reads (policy_by_id i)) (\<lambda>policy.
      throw_when (policy = None) e)) u) = u" for v e u
    by (simp split: option.split)
  show "keeps_policies s (snd (updateSiteFields E input a s))"
  proof -
    let ?p = "normalized input"
    have last: "evolves keeps_policies (seq (if changed_settings ?p = [] then ret ()
        else logAction E a (audit_action_name SiteSettingsUpdate) (audit_resource_name SiteSettingsResource) None
          (settings_details ?p)) (\<lambda>_. reads (get_settings E)))"
      by (intro policies.rules policy_calls)
    have update: "keeps_policies s (snd (update_settings ?p s))"
      if look: "reads settings_row s = (Inr c, s)" and check: "check_mfa_settings E ?p c s = (Inr u, s)" for c u
    proof (rule update_settings_keeps)
      fix r
      assume "site_settings s = Some r" and mfa: "or_old (sp_mfaEnabled ?p) (st_mfa_enabled r)"
      with look have "c = r" by (simp add: settings_row_def)
      with check mfa show "nonblank (or_old (sp_siteUrl ?p) (st_site_url r)) \<noteq> None"
        using check_mfa_settings_Inr by blast
    qed
    show ?thesis
      unfolding updateSiteFields_def Let_def
      apply (rule look_then, simp)
      apply (rule look_then, rule assertOptionalHttpUrl_pure)
      apply (rule look_then, rule assertOptionalHttpUrl_pure)
      apply (rule look_then, rule policy)
      apply (rule look_then, rule check_mfa_settings_pure)
      apply (rule then_keeps, erule (1) update, rule last)
      done
  qed
qed

lemma setLogoKey_keeps: "evolves keeps_policies (setLogoKey E key a)"
proof -
  have "evolves keeps_policies (update_settings (no_settings\<lparr>sp_logoKey := Some v\<rparr>))" for v
    unfolding evolves_def by (intro allI update_settings_keeps) (simp add: no_settings_def)
  then show ?thesis unfolding setLogoKey_def Let_def by (intro policies.rules policy_calls)
qed

lemma promote_keeps: "evolves keeps_policies (promoteStagedUpload k f)"
  unfolding promoteStagedUpload_def
  by (intro policies.rules) (auto simp: keeps_policies_def policies_ok_def settings_ok_def)

lemma settings_operations_keep:
  "evolves keeps_policies (promoteStagedLogo E k a)" "evolves keeps_policies (setAdminApiClientRowIds E ids a)"
proof -
  show "evolves keeps_policies (promoteStagedLogo E k a)"
    unfolding promoteStagedLogo_def Let_def by (intro policies.rules promote_keeps setLogoKey_keeps)
  have insert: "evolves keeps_policies (insert_admin_client i)" for i
    unfolding insert_admin_client_def
    by (rule evolves_guarded) (auto simp: keeps_policies_def policies_ok_def settings_ok_def)
  show "evolves keeps_policies (setAdminApiClientRowIds E ids a)"
    unfolding setAdminApiClientRowIds_def setClientRowIds_def check_client_exists_def Let_def
    by (intro policies.rules policy_calls insert transaction_keeps)
      (auto simp: keeps_policies_def policies_ok_def settings_ok_def)
qed

lemma environment_kept:
  "evolves keeps_policies (createEnvironment E n d a)" "evolves keeps_policies (updateEnvironment E i n d a)"
  "evolves keeps_policies (deleteEnvironment E i a)"
proof -
  have create: "evolves keeps_policies (create_environment_row r)" for r
    unfolding create_environment_row_def
    by (rule evolves_guarded) (auto simp: keeps_policies_def policies_ok_def)
  have ids: "env_id ` set (List.map (\<lambda>r. if env_id r = i then r\<lparr>env_name := n, env_display_name := d\<rparr> else r) es) = env_id ` set es"
    for i n d and es :: "environment_row list" by (induction es) auto
  have update: "evolves keeps_policies (update_environment_row i n d)" for i n d
    unfolding update_environment_row_def
    by (intro policies.writes) (simp add: keeps_policies_def policies_ok_def ids del: set_map)
  have delete: "evolves keeps_policies (delete_environment_row i)" for i
    unfolding delete_environment_row_def
    by (rule evolves_guarded) (auto simp: keeps_policies_def policies_ok_def distinct_map_filter)
  show "evolves keeps_policies (createEnvironment E n d a)" "evolves keeps_policies (updateEnvironment E i n d a)"
    "evolves keeps_policies (deleteEnvironment E i a)"
    unfolding createEnvironment_def updateEnvironment_def deleteEnvironment_def Let_def
    by (intro policies.rules policy_calls create update delete)+
qed


section \<open>The policies as a transition system\<close>

inductive policy_step :: "cfg \<Rightarrow> world \<Rightarrow> world \<Rightarrow> bool" for E where
  policy_created: "create_policy E new_policy es a w = (x, t) \<Longrightarrow> policy_step E w t"
| policy_edited: "edit_policy E i u es' a w = (x, t) \<Longrightarrow> policy_step E w t"
| policy_removed: "remove_policy E i a w = (y, t) \<Longrightarrow> policy_step E w t"
| settings_updated: "updateSiteFields E input a w = (z, t) \<Longrightarrow> policy_step E w t"
| logo_set: "setLogoKey E key a w = (z, t) \<Longrightarrow> policy_step E w t"
| logo_promoted: "promoteStagedLogo E k a w = (z, t) \<Longrightarrow> policy_step E w t"
| admin_clients_set: "setAdminApiClientRowIds E ids a w = (v, t) \<Longrightarrow> policy_step E w t"
| environment_added: "createEnvironment E n d a w = (e, t) \<Longrightarrow> policy_step E w t"
| environment_changed: "updateEnvironment E i n d a w = (f, t) \<Longrightarrow> policy_step E w t"
| environment_removed: "deleteEnvironment E i a w = (g, t) \<Longrightarrow> policy_step E w t"

lemmas policy_operations_keep = create_policy_keeps edit_policy_keeps remove_policy_keeps updateSiteFields_keeps
  setLogoKey_keeps settings_operations_keep environment_kept

lemma policy_step_keeps: "policy_step E w t \<Longrightarrow> keeps_policies w t"
  by (induction rule: policy_step.induct) (erule policy_operations_keep [THEN evolvesD])+

text \<open>
  C8. The policies and the site settings stay well formed. Whatever administrators do to password
  policies, environments and site settings, in any order and however each operation ends: policy
  identifiers and names are unique, names are trimmed and not empty, lengths and counts are in
  range with no maximum below its minimum, an environment has at most one policy, no assignment and
  no choice of an admin policy dangles, and email codes are switched on only while there is a Site
  URL.
\<close>

theorem policies_stay_well_formed:
  assumes "(policy_step E)\<^sup>*\<^sup>* w t" and "policies_ok w"
  shows "policies_ok t"
  using assms
proof (induction rule: rtranclp_induct)
  case (step s t)
  then show ?case using policy_step_keeps by (auto simp: keeps_policies_def)
qed

section \<open>The check at sign-in\<close>

text \<open>The policies a sign-in has to meet: as an administrator, to a client of an environment, or to no client.\<close>

definition applies :: "string \<Rightarrow> bool \<Rightarrow> string option \<Rightarrow> world \<Rightarrow> policy_row \<Rightarrow> bool" where
  "applies userId isAdmin environmentId w p \<longleftrightarrow>
     p \<in> set (password_policies w) \<and> pp_enabled p
     \<and> (if isAdmin then \<exists>s. site_settings w = Some s \<and> st_admin_password_policy_id s = Some (pp_id p)
        else \<exists>e. (if truthy environmentId then environmentId = Some e else e \<in> set (user_environments userId w))
             \<and> (\<exists>a \<in> set (password_policy_environments w). pe_environment_id a = e \<and> pe_policy_id a = pp_id p))"

text \<open>Membership in the result of a join.\<close>

lemma in_join: "x \<in> set (concat (List.map f ys)) \<longleftrightarrow> (\<exists>y \<in> set ys. x \<in> set (f y))"
  and in_where: "x \<in> set (if c then zs else []) \<longleftrightarrow> c \<and> x \<in> set zs"
  by simp_all

lemma policy_by_id_iff:
  "distinct (List.map pp_id (password_policies w)) \<Longrightarrow>
   policy_by_id i w = Some p \<longleftrightarrow> p \<in> set (password_policies w) \<and> pp_id p = i"
proof
  assume d: "distinct (List.map pp_id (password_policies w))" and p: "p \<in> set (password_policies w) \<and> pp_id p = i"
  obtain q where q: "policy_by_id i w = Some q"
    using p by (cases "policy_by_id i w") (auto simp: policy_by_id_def find_None_iff)
  then have "q \<in> set (password_policies w)" "pp_id q = i" by (auto simp: policy_by_id_def dest: find_in_set)
  with d p have "q = p" by (auto simp: distinct_map dest: inj_onD)
  with q show "policy_by_id i w = Some p" by simp
qed (auto simp: policy_by_id_def dest: find_in_set)

lemma environment_policy_iff:
  assumes "policies_ok w"
  shows "getPolicyForEnvironment e w = Some p \<longleftrightarrow> p \<in> set (password_policies w)
    \<and> (\<exists>a \<in> set (password_policy_environments w). pe_environment_id a = e \<and> pe_policy_id a = pp_id p)"
proof -
  define ps where "ps = [p. a \<leftarrow> password_policy_environments w, pe_environment_id a = e,
    p \<leftarrow> password_policies w, pp_id p = pe_policy_id a]"
  have members: "q \<in> set ps \<longleftrightarrow> q \<in> set (password_policies w)
    \<and> (\<exists>a \<in> set (password_policy_environments w). pe_environment_id a = e \<and> pe_policy_id a = pp_id q)" for q
    unfolding ps_def in_join in_where by auto
  have one: "q = r" if q: "q \<in> set ps" and r: "r \<in> set ps" for q r
  proof -
    have "distinct (List.map pe_environment_id (password_policy_environments w))" "distinct (List.map pp_id (password_policies w))"
      using assms by (simp_all add: policies_ok_def)
    with q r show ?thesis unfolding members by (metis distinct_map inj_onD)
  qed
  have get: "getPolicyForEnvironment e w = (case ps of [] \<Rightarrow> None | q # qs \<Rightarrow> Some q)"
    unfolding getPolicyForEnvironment_def ps_def ..
  have "getPolicyForEnvironment e w = Some p \<longleftrightarrow> p \<in> set ps"
  proof (cases ps)
    case Nil
    then show ?thesis by (simp add: get)
  next
    case (Cons q qs)
    then have "q \<in> set ps" by simp
    with one have "p \<in> set ps \<longleftrightarrow> p = q" by blast
    with Cons show ?thesis by (auto simp: get)
  qed
  then show ?thesis using members by simp
qed

lemma enabled_policies_set: "set (getEnabledPoliciesForUser u w) = {p. applies u False None w p}"
proof -
  have "e \<in> set (user_environments u w) \<longleftrightarrow> (\<exists>r \<in> set (users_environments w). ue_user_id r = u \<and> ue_environment_id r = e)" for e
    by (auto simp: user_environments_def)
  then have "p \<in> set (granted_policies u w) \<longleftrightarrow> applies u False None w p" for p
    unfolding granted_policies_def applies_def in_join in_where by (auto simp: truthy_def) metis+
  then show ?thesis by (auto simp: getEnabledPoliciesForUser_def)
qed

lemma first_rejecting_ok: "cx_ok (first_rejecting ps pw ids) \<longleftrightarrow> (\<forall>p \<in> set ps. ck_ok (validatePasswordAgainstPolicy p pw ids))"
  by (induction ps) (simp_all add: Let_def)

lemma first_rejecting_policy:
  "\<not> cx_ok (first_rejecting ps pw ids) \<Longrightarrow>
   \<exists>p \<in> set ps. cx_policy (first_rejecting ps pw ids) = Some p \<and> \<not> ck_ok (validatePasswordAgainstPolicy p pw ids)
     \<and> cx_violations (first_rejecting ps pw ids) = ck_violations (validatePasswordAgainstPolicy p pw ids)"
  by (induction ps) (auto simp: Let_def)

lemma applicable_iff:
  assumes "policies_ok w" and "isAdmin \<or> truthy env"
  shows "getApplicablePolicyForSignIn u isAdmin env w = Some p \<longleftrightarrow> applies u isAdmin env w p"
proof -
  have enabled: "(case x of None \<Rightarrow> None | Some q \<Rightarrow> if pp_enabled q then Some q else None) = Some p
      \<longleftrightarrow> x = Some p \<and> pp_enabled p" for x by (auto split: option.splits if_splits)
  have d: "distinct (List.map pp_id (password_policies w))" using assms(1) by (simp add: policies_ok_def)
  have admin: "getAdminPolicy w = Some p \<longleftrightarrow> p \<in> set (password_policies w)
      \<and> (\<exists>s. site_settings w = Some s \<and> st_admin_password_policy_id s = Some (pp_id p))"
    unfolding getAdminPolicy_def
    by (cases "site_settings w"; cases "Option.bind (site_settings w) st_admin_password_policy_id")
      (auto simp: policy_by_id_iff [OF d])
  show ?thesis
  proof (cases isAdmin)
    case True
    then show ?thesis by (auto simp: getApplicablePolicyForSignIn_def Let_def enabled admin applies_def)
  next
    case False
    with assms(2) obtain e where "env = Some e" "truthy env" by (auto simp: truthy_def)
    with False show ?thesis
      by (auto simp: getApplicablePolicyForSignIn_def Let_def enabled applies_def environment_policy_iff [OF assms(1)])
  qed
qed

lemma complexity_exact:
  assumes "policies_ok w"
  shows "(cx_ok (checkSignInPasswordComplexity userId isAdmin environmentId password ids w)
      \<longleftrightarrow> (\<forall>p. applies userId isAdmin environmentId w p \<longrightarrow> meets p password ids))
    \<and> (\<not> cx_ok (checkSignInPasswordComplexity userId isAdmin environmentId password ids w) \<longrightarrow>
        (\<exists>p. cx_policy (checkSignInPasswordComplexity userId isAdmin environmentId password ids w) = Some p
          \<and> applies userId isAdmin environmentId w p \<and> \<not> meets p password ids
          \<and> cx_violations (checkSignInPasswordComplexity userId isAdmin environmentId password ids w)
              = ck_violations (validatePasswordAgainstPolicy p password ids)
          \<and> cx_violations (checkSignInPasswordComplexity userId isAdmin environmentId password ids w) \<noteq> []))"
proof -
  define c where "c = checkSignInPasswordComplexity userId isAdmin environmentId password ids w"
  have enabled: "applies userId isAdmin environmentId w p \<Longrightarrow> pp_enabled p" for p by (simp add: applies_def)
  have "(cx_ok c \<longleftrightarrow> (\<forall>p. applies userId isAdmin environmentId w p \<longrightarrow> meets p password ids))
    \<and> (\<not> cx_ok c \<longrightarrow> (\<exists>p. cx_policy c = Some p \<and> applies userId isAdmin environmentId w p \<and> \<not> meets p password ids
      \<and> cx_violations c = ck_violations (validatePasswordAgainstPolicy p password ids) \<and> cx_violations c \<noteq> []))"
  proof (cases "isAdmin \<or> truthy environmentId")
    case True
    note iff = applicable_iff [OF assms(1) True, of userId]
    show ?thesis
    proof (cases "getApplicablePolicyForSignIn userId isAdmin environmentId w")
      case None
      with iff have "\<not> applies userId isAdmin environmentId w p" for p by simp
      then show ?thesis using True None by (simp add: c_def checkSignInPasswordComplexity_def)
    next
      case (Some p)
      with iff have only: "applies userId isAdmin environmentId w q \<longleftrightarrow> q = p" for q by (metis option.inject)
      then show ?thesis using True Some enabled [of p]
        by (auto simp: c_def checkSignInPasswordComplexity_def Let_def ck_ok_iff ck_violations_iff)
    qed
  next
    case False
    then have "\<not> isAdmin" "\<not> truthy environmentId" "\<not> truthy None" by (simp_all add: truthy_def)
    then have none: "applies userId isAdmin environmentId w p = applies userId False None w p" for p
      by (simp only: applies_def if_False)
    have c: "c = first_rejecting (getEnabledPoliciesForUser userId w) password ids"
      using False by (simp add: c_def checkSignInPasswordComplexity_def)
    have on: "applies userId False None w p \<Longrightarrow> pp_enabled p" for p by (simp add: applies_def)
    then have "cx_ok c \<longleftrightarrow> (\<forall>p. applies userId False None w p \<longrightarrow> meets p password ids)"
      unfolding c first_rejecting_ok enabled_policies_set ck_ok_iff by blast
    moreover have "\<exists>p. cx_policy c = Some p \<and> applies userId False None w p \<and> \<not> meets p password ids
      \<and> cx_violations c = ck_violations (validatePasswordAgainstPolicy p password ids) \<and> cx_violations c \<noteq> []" if "\<not> cx_ok c"
    proof -
      obtain p where "p \<in> set (getEnabledPoliciesForUser userId w)" "cx_policy c = Some p"
        "\<not> ck_ok (validatePasswordAgainstPolicy p password ids)" "cx_violations c = ck_violations (validatePasswordAgainstPolicy p password ids)"
        using first_rejecting_policy \<open>\<not> cx_ok c\<close> unfolding c by blast
      then show ?thesis by (auto simp: enabled_policies_set ck_ok_iff ck_violations_iff)
    qed
    ultimately show ?thesis by (simp only: none) blast
  qed
  then show ?thesis unfolding c_def .
qed

text \<open>
  C17. The password gate of a sign-in is exact. In a well-formed database the check accepts a
  password if and only if it meets every rule (length, counts of each class of characters, no part
  of the user name or email address) of every enabled policy that applies: for an administrator
  the one selected for the dashboard, for a sign-in to a client the one of its environment, and
  otherwise those of all environments the user may enter. When it refuses, it names a policy that
  applies and that the password does not meet, with what is wrong.
\<close>

theorem sign_in_policy_exact:
  assumes "policies_ok w"
  shows "let c = checkSignInPasswordComplexity userId isAdmin environmentId password ids w;
      relevant = applies userId isAdmin environmentId w
    in (cx_ok c \<longleftrightarrow> (\<forall>p. relevant p \<longrightarrow> meets p password ids))
       \<and> (\<not> cx_ok c \<longrightarrow> (\<exists>p. cx_policy c = Some p \<and> relevant p \<and> \<not> meets p password ids
             \<and> cx_violations c = ck_violations (validatePasswordAgainstPolicy p password ids) \<and> cx_violations c \<noteq> []))"
  unfolding Let_def by (rule complexity_exact [OF assms])

section \<open>What the checks of the editor leave open\<close>

text \<open>The counts are not compared with the maximal length: a policy that no password meets is accepted.\<close>

lemma unsatisfiable_policy_accepted:
  "\<exists>p. validateRules (input_of p) = None \<and> (\<forall>i now pw ids. \<not> meets (policy_row_of p i now) pw ids)"
proof -
  define p where "p = \<lparr>np_name = ''p'', np_enabled = True, np_minLength = Whole 1, np_maxLength = Some (Whole 1),
    np_minUppercase = Whole 2, np_minLowercase = Whole 0, np_minNumber = Whole 0, np_minSpecial = Whole 0,
    np_rejectContainsIdentifier = False, np_maxPasswordAgeDays = Whole 0\<rparr>"
  have "js_trim ''p'' \<noteq> []" by code_simp
  then have "validateRules (input_of p) = None" by (simp add: validateRules_def input_of_def p_def bad_count_def)
  moreover have "\<not> meets (policy_row_of p i now) pw ids" for i now pw ids
  proof -
    have "card {i. i < length pw \<and> upper_ascii (pw ! i)} \<le> length pw"
      using card_mono [of "{..<length pw}" "{i. i < length pw \<and> upper_ascii (pw ! i)}"] by auto
    then show ?thesis by (auto simp: meets_def policy_row_of_def p_def)
  qed
  ultimately show ?thesis by blast
qed

text \<open>An environment named twice makes the assignment fail, after a new policy has been stored.\<close>

lemma repeated_environment_fails: "fst (setEnvironments E i (e # e # es) w) \<noteq> Inr u"
proof
  assume "fst (setEnvironments E i (e # e # es) w) = Inr u"
  then obtain t where "setEnvironments E i (e # e # es) w = (Inr u, t)" by (metis prod.collapse)
  then show False
    by (auto simp: setEnvironments_def prog_inv insert_assignment_def assignment_violated_def upt_conv_Cons
        simp del: upt_Suc split: if_splits)
qed

end
