(* ===== verification/Passkeys.thy ===== *)
theory Passkeys
  imports Challenges
begin

text \<open>
  Passkeys: \<open>passkey.service.ts\<close> and its repository. What WebAuthn itself checks is the library's
  (\<open>verify_registration\<close> and \<open>verify_assertion\<close> of the platform); modelled are the challenges it
  is asked to check against, the stored credentials, and the exchange token that hands a verified
  assertion over to the session provider.
\<close>

section \<open>Relying party\<close>

definition rpIdFromOrigin :: "cfg \<Rightarrow> string \<Rightarrow> failure + string" where
  "rpIdFromOrigin E origin =
     (case parse_url E origin of None \<Rightarrow> Inl (JsError ''Invalid URL'') | Some u \<Rightarrow> Inr (js_lower (url_hostname u)))"

text \<open>The pattern \<open>^\d{1,3}(?:\.\d{1,3}){3}$\<close>.\<close>

definition short_number :: "string \<Rightarrow> bool" where
  "short_number s \<longleftrightarrow> 1 \<le> length s \<and> length s \<le> 3 \<and> list_all (\<lambda>c. CHR ''0'' \<le> c \<and> c \<le> CHR ''9'') s"

definition isIpAddress :: "string \<Rightarrow> bool" where
  "isIpAddress hostname \<longleftrightarrow>
     (let parts = split_on CHR ''.'' hostname in length parts = 4 \<and> list_all short_number parts)
     \<or> CHR '':'' \<in> set hostname"

definition fallbackRpIdFromRpId :: "string \<Rightarrow> string option" where
  "fallbackRpIdFromRpId rpId =
     (if rpId = ''localhost'' \<or> isIpAddress rpId then None
      else let labels = split_on CHR ''.'' rpId
           in if length labels < 3 then None
              else Some (join_with ''.'' (drop (length labels - 2) labels)))"

record rp_details =
  rp_id :: string
  rp_fallback :: "string option"
  rp_name :: string
  rp_origin :: string

definition getRpDetails :: "cfg \<Rightarrow> rp_details m" where
  "getRpDetails E =
     (let issuer = resolveIssuerBaseUrl E in
      seq (outcome (rpIdFromOrigin E issuer)) (\<lambda>rpId.
      seq (reads site_settings) (\<lambda>site.
      ret \<lparr>rp_id = rpId, rp_fallback = fallbackRpIdFromRpId rpId,
           rp_name = (case nonblank (Option.bind site st_site_title) of None \<Rightarrow> rpId | Some t \<Rightarrow> t),
           rp_origin = issuer\<rparr>)))"

section \<open>Rows\<close>

definition passkey_challenge_violated :: "passkey_challenge_row \<Rightarrow> world \<Rightarrow> string option" where
  "passkey_challenge_violated r w =
     (if pc_id r \<in> set (List.map pc_id (passkey_challenges w)) then Some ''UNIQUE constraint failed: passkey_challenges.id''
      else if (case pc_user_id r of None \<Rightarrow> False | Some u \<Rightarrow> u \<notin> set (List.map us_id (users w)))
        then Some ''FOREIGN KEY constraint failed'' else None)"

definition insertChallenge :: "passkey_challenge_row \<Rightarrow> unit m" where
  "insertChallenge r =
     guarded (passkey_challenge_violated r) (\<lambda>w. w\<lparr>passkey_challenges := passkey_challenges w @ [r]\<rparr>)"

definition getChallengeById :: "string \<Rightarrow> world \<Rightarrow> passkey_challenge_row option" where
  "getChallengeById i w = find (\<lambda>r. pc_id r = i) (passkey_challenges w)"

definition deleteChallenge :: "string \<Rightarrow> unit m" where
  "deleteChallenge i = writes (\<lambda>w. w\<lparr>passkey_challenges := filter (\<lambda>r. pc_id r \<noteq> i) (passkey_challenges w)\<rparr>)"

definition deleteExpiredChallenges :: "string \<Rightarrow> nat m" where
  "deleteExpiredChallenges before =
     updating (\<lambda>w. length (filter (\<lambda>r. pc_expires_at r < before) (passkey_challenges w)))
       (\<lambda>w. w\<lparr>passkey_challenges := filter (\<lambda>r. \<not> pc_expires_at r < before) (passkey_challenges w)\<rparr>)"

definition passkey_violated :: "passkey_row \<Rightarrow> world \<Rightarrow> string option" where
  "passkey_violated r w =
     (if pk_id r \<in> set (List.map pk_id (user_passkeys w)) then Some ''UNIQUE constraint failed: user_passkeys.id''
      else if pk_credential_id r \<in> set (List.map pk_credential_id (user_passkeys w))
        then Some ''UNIQUE constraint failed: user_passkeys.credential_id''
      else if pk_user_id r \<notin> set (List.map us_id (users w)) then Some ''FOREIGN KEY constraint failed''
      else None)"

definition insertCredential :: "passkey_row \<Rightarrow> unit m" where
  "insertCredential r = guarded (passkey_violated r) (\<lambda>w. w\<lparr>user_passkeys := user_passkeys w @ [r]\<rparr>)"

definition findCredentialById :: "string \<Rightarrow> world \<Rightarrow> passkey_row option" where
  "findCredentialById credentialId w = find (\<lambda>r. pk_credential_id r = credentialId) (user_passkeys w)"

definition findCredentialsByUserId :: "string \<Rightarrow> world \<Rightarrow> passkey_row list" where
  "findCredentialsByUserId userId w = sort_key pk_created_at (filter (\<lambda>r. pk_user_id r = userId) (user_passkeys w))"

definition findCredentialByRowIdForUser :: "string \<Rightarrow> string \<Rightarrow> world \<Rightarrow> passkey_row option" where
  "findCredentialByRowIdForUser rowId userId w = find (\<lambda>r. pk_id r = rowId \<and> pk_user_id r = userId) (user_passkeys w)"

definition updateCredentialCounter :: "string \<Rightarrow> nat \<Rightarrow> string \<Rightarrow> unit m" where
  "updateCredentialCounter credentialId n lastUsedAt =
     writes (\<lambda>w. w\<lparr>user_passkeys :=
       List.map (\<lambda>r. if pk_credential_id r = credentialId
                     then r\<lparr>pk_counter := n, pk_last_used_at := Some lastUsedAt\<rparr> else r) (user_passkeys w)\<rparr>)"

definition deleteCredential :: "string \<Rightarrow> unit m" where
  "deleteCredential credentialId =
     writes (\<lambda>w. w\<lparr>user_passkeys := filter (\<lambda>r. pk_credential_id r \<noteq> credentialId) (user_passkeys w)\<rparr>)"

definition deleteCredentialForUser :: "string \<Rightarrow> string \<Rightarrow> bool m" where
  "deleteCredentialForUser userId rowId =
     updating (\<lambda>w. list_ex (\<lambda>r. pk_id r = rowId \<and> pk_user_id r = userId) (user_passkeys w))
       (\<lambda>w. w\<lparr>user_passkeys := filter (\<lambda>r. \<not> (pk_id r = rowId \<and> pk_user_id r = userId)) (user_passkeys w)\<rparr>)"

definition renameCredential :: "string \<Rightarrow> string \<Rightarrow> string \<Rightarrow> bool m" where
  "renameCredential userId rowId name =
     updating (\<lambda>w. list_ex (\<lambda>r. pk_id r = rowId \<and> pk_user_id r = userId) (user_passkeys w))
       (\<lambda>w. w\<lparr>user_passkeys := List.map (\<lambda>r. if pk_id r = rowId \<and> pk_user_id r = userId
                then r\<lparr>pk_name := Some name\<rparr> else r) (user_passkeys w)\<rparr>)"

definition hasCredentialForUser :: "string \<Rightarrow> world \<Rightarrow> bool" where
  "hasCredentialForUser userId w = list_ex (\<lambda>r. pk_user_id r = userId) (user_passkeys w)"

definition exchange_violated :: "exchange_token_row \<Rightarrow> world \<Rightarrow> string option" where
  "exchange_violated r w =
     (if ex_id r \<in> set (List.map ex_id (passkey_exchange_tokens w))
      then Some ''UNIQUE constraint failed: passkey_exchange_tokens.id''
      else if ex_user_id r \<notin> set (List.map us_id (users w)) then Some ''FOREIGN KEY constraint failed''
      else None)"

definition insertExchangeToken :: "exchange_token_row \<Rightarrow> unit m" where
  "insertExchangeToken r =
     guarded (exchange_violated r) (\<lambda>w. w\<lparr>passkey_exchange_tokens := passkey_exchange_tokens w @ [r]\<rparr>)"

text \<open>\<open>UPDATE ... WHERE id = ? AND used_at IS NULL AND expires_at > ? RETURNING ...\<close>\<close>

definition redeemable :: "string \<Rightarrow> string \<Rightarrow> exchange_token_row \<Rightarrow> bool" where
  "redeemable i now r \<longleftrightarrow> ex_id r = i \<and> ex_used_at r = None \<and> now < ex_expires_at r"

definition redeem_exchange :: "string \<Rightarrow> string \<Rightarrow> world \<Rightarrow> string option \<times> world" where
  "redeem_exchange i now w =
     (map_option ex_user_id (find (redeemable i now) (passkey_exchange_tokens w)),
      w\<lparr>passkey_exchange_tokens :=
          List.map (\<lambda>r. if redeemable i now r then r\<lparr>ex_used_at := Some now\<rparr> else r) (passkey_exchange_tokens w)\<rparr>)"

section \<open>Registration\<close>

definition CHALLENGE_TTL_MS :: nat where "CHALLENGE_TTL_MS = 5 * 60 * 1000"
definition EXCHANGE_TOKEN_TTL_MS :: nat where "EXCHANGE_TOKEN_TTL_MS = 2 * 60 * 1000"

text \<open>The options handed to the browser; the library adds the challenge it drew.\<close>

record registration_options =
  ro_challenge :: string
  ro_rp_id :: string
  ro_rp_name :: string
  ro_user_name :: string
  ro_user_display_name :: string
  ro_user_id :: string
  ro_exclude :: "(string \<times> string option) list"

record assertion_options =
  ao_challenge :: string
  ao_rp_id :: string
  ao_allow :: "(string \<times> string option) list"

definition draw_challenge :: "cfg \<Rightarrow> string m" where
  "draw_challenge E = (\<lambda>w. (Inr (webauthn_challenge E (draws w)), w\<lparr>draws := Suc (draws w)\<rparr>))"

definition credential_ref :: "passkey_row \<Rightarrow> string \<times> string option" where
  "credential_ref r = (pk_credential_id r, pk_transports r)"

text \<open>Storing the challenge, as all three generators do.\<close>

definition new_passkey_challenge :: "cfg \<Rightarrow> passkey_kind \<Rightarrow> string option \<Rightarrow> string \<Rightarrow> string m" where
  "new_passkey_challenge E kind userId challenge =
     seq (randomUUID E) (\<lambda>challengeId.
     seq (now_ms E) (\<lambda>now.
     seq (insertChallenge \<lparr>pc_id = challengeId, pc_user_id = userId, pc_challenge = challenge, pc_kind = kind,
            pc_expires_at = toISOString (now + CHALLENGE_TTL_MS)\<rparr>) (\<lambda>_.
     ret challengeId)))"

definition generateRegistrationChallenge :: "cfg \<Rightarrow> string \<Rightarrow> (string \<times> registration_options) m" where
  "generateRegistrationChallenge E userId =
     seq (reads (user_by_id userId)) (\<lambda>found.
     seq (need found (JsError ''User not found'')) (\<lambda>user.
     seq (throw_when (u_isTestUser user) (JsError ''Test users cannot register passkeys.'')) (\<lambda>_.
     seq (getRpDetails E) (\<lambda>rp.
     seq (reads (findCredentialsByUserId userId)) (\<lambda>existing.
     seq (draw_challenge E) (\<lambda>challenge.
     seq (new_passkey_challenge E Registration (Some userId) challenge) (\<lambda>challengeId.
     ret (challengeId,
          \<lparr>ro_challenge = challenge, ro_rp_id = rp_id rp, ro_rp_name = rp_name rp, ro_user_name = u_username user,
           ro_user_display_name = (case u_name user of None \<Rightarrow> u_username user | Some n \<Rightarrow> n), ro_user_id = u_id user,
           ro_exclude = List.map credential_ref existing\<rparr>))))))))"

definition expectation :: "rp_details \<Rightarrow> passkey_challenge_row \<Rightarrow> webauthn_expectation" where
  "expectation rp row = \<lparr>wa_challenge = pc_challenge row, wa_origin = rp_origin rp, wa_rp_ids = [rp_id rp]\<rparr>"

definition verified_or :: "string \<Rightarrow> 'a webauthn \<Rightarrow> 'a m" where
  "verified_or message answer =
     (case answer of
        Webauthn_throws e \<Rightarrow> throw (JsError e)
      | Webauthn_unverified \<Rightarrow> throw (JsError message)
      | Webauthn_verified x \<Rightarrow> ret x)"

text \<open>An expired challenge is deleted before it is refused.\<close>

definition check_passkey_expiry :: "cfg \<Rightarrow> passkey_challenge_row \<Rightarrow> string \<Rightarrow> unit m" where
  "check_passkey_expiry E row message =
     seq (now_iso E) (\<lambda>now.
     if pc_expires_at row \<le> now
     then seq (deleteChallenge (pc_id row)) (\<lambda>_. throw (JsError message)) else ret ())"

definition passkey_name :: "string option \<Rightarrow> string option" where
  "passkey_name name = map_option (take 60) (nonblank name)"

definition credential_row :: "string \<Rightarrow> string \<Rightarrow> new_credential \<Rightarrow> passkey_answer \<Rightarrow> string option \<Rightarrow> string \<Rightarrow> passkey_row" where
  "credential_row i userId c response name now =
     \<lparr>pk_id = i, pk_user_id = userId, pk_credential_id = nc_id c, pk_public_key = nc_public_key c, pk_counter = nc_counter c,
      pk_device_type = nc_device_type c, pk_backed_up = nc_backed_up c, pk_transports = an_transports response,
      pk_name = passkey_name name, pk_last_used_at = None, pk_created_at = now\<rparr>"

definition verifyAndStoreRegistration ::
  "cfg \<Rightarrow> string \<Rightarrow> string \<Rightarrow> passkey_answer \<Rightarrow> string option \<Rightarrow> passkey_row m" where
  "verifyAndStoreRegistration E userId challengeId response name =
     seq (reads (getChallengeById challengeId)) (\<lambda>found.
     seq (need found (JsError ''Invalid or expired registration challenge.'')) (\<lambda>row.
     seq (throw_when (pc_kind row \<noteq> Registration \<or> pc_user_id row \<noteq> Some userId)
           (JsError ''Invalid or expired registration challenge.'')) (\<lambda>_.
     seq (check_passkey_expiry E row ''Registration challenge has expired.'') (\<lambda>_.
     seq (getRpDetails E) (\<lambda>rp.
     seq (verified_or ''Passkey registration could not be verified.'' (verify_registration E (expectation rp row) response)) (\<lambda>c.
     seq (randomUUID E) (\<lambda>i.
     seq (now_iso E) (\<lambda>now.
     let credentialRow = credential_row i userId c response name now in
     seq (insertCredential credentialRow) (\<lambda>_.
     seq (deleteChallenge challengeId) (\<lambda>_.
     ret credentialRow))))))))))"

section \<open>Authentication\<close>

definition generateAuthenticationChallenge :: "cfg \<Rightarrow> bool \<Rightarrow> (string \<times> assertion_options) m" where
  "generateAuthenticationChallenge E useFallbackRpId =
     seq (getRpDetails E) (\<lambda>rp.
     let selected = (case rp_fallback rp of
                       Some f \<Rightarrow> if useFallbackRpId \<and> f \<noteq> [] then f else rp_id rp | None \<Rightarrow> rp_id rp) in
     seq (draw_challenge E) (\<lambda>challenge.
     seq (new_passkey_challenge E Authentication None challenge) (\<lambda>challengeId.
     ret (challengeId, \<lparr>ao_challenge = challenge, ao_rp_id = selected, ao_allow = []\<rparr>))))"

definition assertion_expectation :: "rp_details \<Rightarrow> passkey_challenge_row \<Rightarrow> webauthn_expectation" where
  "assertion_expectation rp row =
     \<lparr>wa_challenge = pc_challenge row, wa_origin = rp_origin rp,
      wa_rp_ids = (case rp_fallback rp of Some f \<Rightarrow> if f \<noteq> [] then [rp_id rp, f] else [rp_id rp] | None \<Rightarrow> [rp_id rp])\<rparr>"

text \<open>What the two checks of an assertion share, from the credential on: verify, count, drop the challenge.\<close>

definition accept_assertion ::
  "cfg \<Rightarrow> passkey_challenge_row \<Rightarrow> passkey_row \<Rightarrow> passkey_answer \<Rightarrow> unit m" where
  "accept_assertion E row credential response =
     seq (getRpDetails E) (\<lambda>rp.
     seq (verified_or ''Passkey authentication could not be verified.''
           (verify_assertion E (assertion_expectation rp row) credential response)) (\<lambda>newCounter.
     seq (now_iso E) (\<lambda>now.
     seq (updateCredentialCounter (pk_credential_id credential) newCounter now) (\<lambda>_.
     deleteChallenge (pc_id row)))))"

definition verifyAuthentication :: "cfg \<Rightarrow> string \<Rightarrow> passkey_answer \<Rightarrow> (string \<times> string) m" where
  "verifyAuthentication E challengeId response =
     seq (reads (getChallengeById challengeId)) (\<lambda>found.
     seq (need found (JsError ''Invalid or expired authentication challenge.'')) (\<lambda>row.
     seq (throw_when (pc_kind row \<noteq> Authentication) (JsError ''Invalid or expired authentication challenge.'')) (\<lambda>_.
     seq (check_passkey_expiry E row ''Authentication challenge has expired.'') (\<lambda>_.
     seq (reads (findCredentialById (an_id response))) (\<lambda>cred.
     seq (need cred (JsError ''Passkey not found.'')) (\<lambda>credential.
     seq (accept_assertion E row credential response) (\<lambda>_.
     seq (randomUUID E) (\<lambda>exchangeToken.
     seq (now_ms E) (\<lambda>now.
     seq (insertExchangeToken \<lparr>ex_id = exchangeToken, ex_user_id = pk_user_id credential,
            ex_expires_at = toISOString (now + EXCHANGE_TOKEN_TTL_MS), ex_used_at = None\<rparr>) (\<lambda>_.
     ret (exchangeToken, pk_user_id credential)))))))))))"

section \<open>Availability and management\<close>

definition generateAvailabilityChallenge :: "cfg \<Rightarrow> string \<Rightarrow> string \<Rightarrow> (string \<times> assertion_options) option m" where
  "generateAvailabilityChallenge E userId rowId =
     seq (reads (findCredentialByRowIdForUser rowId userId)) (\<lambda>found.
     case found of
       None \<Rightarrow> ret None
     | Some credential \<Rightarrow>
       seq (getRpDetails E) (\<lambda>rp.
       seq (draw_challenge E) (\<lambda>challenge.
       seq (new_passkey_challenge E Authentication (Some userId) challenge) (\<lambda>challengeId.
       ret (Some (challengeId, \<lparr>ao_challenge = challenge, ao_rp_id = rp_id rp, ao_allow = [credential_ref credential]\<rparr>))))))"

definition verifyAvailability :: "cfg \<Rightarrow> string \<Rightarrow> string \<Rightarrow> passkey_answer \<Rightarrow> bool m" where
  "verifyAvailability E userId challengeId response =
     seq (reads (getChallengeById challengeId)) (\<lambda>found.
     seq (need found (JsError ''Invalid or expired authentication challenge.'')) (\<lambda>row.
     seq (throw_when (pc_kind row \<noteq> Authentication \<or> pc_user_id row \<noteq> Some userId)
           (JsError ''Invalid or expired authentication challenge.'')) (\<lambda>_.
     seq (check_passkey_expiry E row ''Authentication challenge has expired.'') (\<lambda>_.
     seq (reads (findCredentialById (an_id response))) (\<lambda>cred.
     seq (need cred (JsError ''Passkey not found.'')) (\<lambda>credential.
     seq (throw_when (pk_user_id credential \<noteq> userId) (JsError ''Passkey not found.'')) (\<lambda>_.
     seq (accept_assertion E row credential response) (\<lambda>_.
     ret True))))))))"

definition consumeExchangeToken :: "cfg \<Rightarrow> string \<Rightarrow> string option m" where
  "consumeExchangeToken E tokenId =
     seq (now_iso E) (\<lambda>now. updating (\<lambda>w. fst (redeem_exchange tokenId now w)) (\<lambda>w. snd (redeem_exchange tokenId now w)))"

record passkey_summary =
  pm_id :: string
  pm_name :: "string option"
  pm_synced :: bool
  pm_deviceBound :: bool
  pm_createdAt :: string
  pm_lastUsedAt :: "string option"

definition listPasskeys :: "string \<Rightarrow> world \<Rightarrow> passkey_summary list" where
  "listPasskeys userId w =
     List.map (\<lambda>r. \<lparr>pm_id = pk_id r, pm_name = pk_name r, pm_synced = pk_backed_up r, pm_deviceBound = (\<not> pk_backed_up r),
                    pm_createdAt = pk_created_at r, pm_lastUsedAt = pk_last_used_at r\<rparr>)
       (findCredentialsByUserId userId w)"

definition renamePasskey :: "string \<Rightarrow> string \<Rightarrow> string \<Rightarrow> bool m" where
  "renamePasskey userId rowId name =
     (let trimmed = take 60 (js_trim name) in
      seq (throw_when (trimmed = []) (JsError ''Passkey name cannot be empty.'')) (\<lambda>_.
      renameCredential userId rowId trimmed))"

definition removePasskey :: "string \<Rightarrow> string \<Rightarrow> bool m" where
  "removePasskey userId rowId = deleteCredentialForUser userId rowId"

end
