(* ===== verification/PendingCookie.thy ===== *)
theory PendingCookie
  imports Issue
begin

unbundle bit_operations_syntax

text \<open>
  The signed cookie that carries a pending authorization request across the sign-in,
  \<open>oauth-pending-cookie.ts\<close>, and the client it names, \<open>pending-client.ts\<close>.
\<close>

definition OAUTH_PENDING_COOKIE_TTL_SECONDS :: nat where "OAUTH_PENDING_COOKIE_TTL_SECONDS = 300"

definition AUTHORIZE_PARAM_KEYS :: "string list" where
  "AUTHORIZE_PARAM_KEYS =
     [''response_type'', ''client_id'', ''redirect_uri'', ''scope'', ''state'', ''code_challenge'', ''code_challenge_method'',
      ''nonce'', ''resource'', ''prompt'']"

type_synonym pending_params = "(string \<times> string) list"

definition process_secret :: "cfg \<Rightarrow> string \<Rightarrow> string option" where
  "process_secret E name =
     (case process_env E name of None \<Rightarrow> None | Some v \<Rightarrow> if js_trim v = [] then None else Some v)"

definition getPendingSecret :: "cfg \<Rightarrow> failure + string" where
  "getPendingSecret E =
     (let fromEnv = (case trimmed_env (ctx_env E) ''OAUTH_PENDING_SECRET'' of
                       Some v \<Rightarrow> Some v | None \<Rightarrow> trimmed_env (ctx_env E) ''AUTH_SECRET'');
          secret = (case fromEnv of Some v \<Rightarrow> Some v
                    | None \<Rightarrow> (case process_secret E ''OAUTH_PENDING_SECRET'' of Some v \<Rightarrow> Some v
                    | None \<Rightarrow> (case process_secret E ''AUTH_SECRET'' of Some v \<Rightarrow> Some v
                    | None \<Rightarrow> process_secret E ''NEXTAUTH_SECRET'')))
      in case secret of
           None \<Rightarrow> Inl (JsError ''Missing OAUTH_PENDING_SECRET (or AUTH_SECRET) for oauth_pending cookie.'')
         | Some s \<Rightarrow> Inr s)"

section \<open>Base64url\<close>

text \<open>\<open>base64UrlEncode\<close> is \<open>toBase64Url\<close>. \<open>atob\<close> drops white space and padding and refuses other characters.\<close>

definition b64_alphabet :: string where
  "b64_alphabet = ''ABCDEFGHIJKLMNOPQRSTUVWXYZabcdefghijklmnopqrstuvwxyz0123456789+/''"

fun place_of :: "char \<Rightarrow> string \<Rightarrow> nat option" where
  "place_of c [] = None"
| "place_of c (x # xs) = (if x = c then Some 0 else map_option Suc (place_of c xs))"

fun sextets :: "string \<Rightarrow> nat list option" where
  "sextets [] = Some []"
| "sextets (c # cs) =
     (case (place_of c b64_alphabet, sextets cs) of (Some n, Some ns) \<Rightarrow> Some (n # ns) | _ \<Rightarrow> None)"

definition b64_space :: "char \<Rightarrow> bool" where
  "b64_space c \<longleftrightarrow> (of_char c :: nat) \<in> {9, 10, 12, 13, 32}"

definition drop_padding :: "string \<Rightarrow> string" where
  "drop_padding s =
     (if length s mod 4 \<noteq> 0 then s
      else if drop (length s - 2) s = ''=='' then take (length s - 2) s
      else if drop (length s - 1) s = ''='' then take (length s - 1) s else s)"

definition atob :: "string \<Rightarrow> 8 word list option" where
  "atob s =
     (let t = drop_padding (filter (\<lambda>c. \<not> b64_space c) s)
      in if length t mod 4 = 1 then None
         else map_option (\<lambda>ns. List.map of_nat (unurl64 ns)) (sextets t))"

definition unescaped :: "char \<Rightarrow> char" where
  "unescaped c = (if c = CHR ''-'' then CHR ''+'' else if c = CHR ''_'' then CHR ''/'' else c)"

definition base64UrlDecode :: "string \<Rightarrow> 8 word list option" where
  "base64UrlDecode s =
     (let normalized = List.map unescaped s;
          padding = (if length normalized mod 4 = 0 then [] else replicate (4 - length normalized mod 4) CHR ''='')
      in atob (normalized @ padding))"

section \<open>Signing\<close>

definition sign_pending :: "cfg \<Rightarrow> string \<Rightarrow> failure + string" where
  "sign_pending E payload =
     (case getPendingSecret E of Inl e \<Rightarrow> Inl e | Inr secret \<Rightarrow> Inr (toBase64Url (hmac_sha256 E payload secret)))"

text \<open>The bits in which two texts differ, gathered over all positions.\<close>

definition mismatch :: "string \<Rightarrow> string \<Rightarrow> nat" where
  "mismatch as bs = foldl (\<lambda>acc (x, y). acc OR (of_char x XOR of_char y)) 0 (zip as bs)"

definition verify_pending :: "cfg \<Rightarrow> string \<Rightarrow> string \<Rightarrow> failure + bool" where
  "verify_pending E payload signature =
     (case sign_pending E payload of
        Inl e \<Rightarrow> Inl e
      | Inr expected \<Rightarrow> Inr (length expected = length signature \<and> mismatch expected signature = 0))"

section \<open>The cookie\<close>

definition text_param :: "(string \<rightharpoonup> json) \<Rightarrow> string \<Rightarrow> pending_params" where
  "text_param params key =
     (case params key of
        Some (JString raw) \<Rightarrow> if js_trim raw = [] then [] else [(key, js_trim raw)]
      | _ \<Rightarrow> [])"

definition sanitizeParams :: "(string \<rightharpoonup> json) \<Rightarrow> pending_params" where
  "sanitizeParams params = concat (List.map (text_param params) AUTHORIZE_PARAM_KEYS)"

text \<open>From the query or the form of the request; a file in a form is not a string.\<close>

definition collectPendingAuthorizationParams :: "(string \<Rightarrow> string option) \<Rightarrow> pending_params" where
  "collectPendingAuthorizationParams source = sanitizeParams (\<lambda>k. map_option JString (source k))"

definition as_params :: "pending_params \<Rightarrow> string \<rightharpoonup> json" where
  "as_params ps = (\<lambda>k. map_option JString (map_of ps k))"

definition encodePendingAuthorizationCookie :: "cfg \<Rightarrow> pending_params \<Rightarrow> string m" where
  "encodePendingAuthorizationCookie E params =
     seq (now_ms E) (\<lambda>t.
     let payloadPart = toBase64Url (pending_bytes E (sanitizeParams (as_params params))
                         (t div 1000 + OAUTH_PENDING_COOKIE_TTL_SECONDS)) in
     seq (outcome (sign_pending E payloadPart)) (\<lambda>signature.
     ret (payloadPart @ ''.'' @ signature)))"

text \<open>The body of a cookie whose signature is right; the clock is read once it has been parsed.\<close>

definition open_pending :: "cfg \<Rightarrow> string \<Rightarrow> pending_params option m" where
  "open_pending E payloadPart =
     (case Option.bind (base64UrlDecode payloadPart) (parse_pending E) of
        None \<Rightarrow> ret None
      | Some envelope \<Rightarrow>
        seq (now_ms E) (\<lambda>t.
        ret (case envelope of
               Pending_other \<Rightarrow> None
             | Pending e params \<Rightarrow>
               (case e of None \<Rightarrow> None
                | Some ex \<Rightarrow> if ex \<le> int (t div 1000) then None else Some (sanitizeParams params)))))"

text \<open>Everything after the first check is inside a \<open>try\<close> whose \<open>catch\<close> answers \<open>null\<close>.\<close>

definition decodePendingAuthorizationCookie :: "cfg \<Rightarrow> string option \<Rightarrow> pending_params option m" where
  "decodePendingAuthorizationCookie E cookieValue =
     (case cookieValue of
        None \<Rightarrow> ret None
      | Some v \<Rightarrow>
        (case split_on CHR ''.'' v of
           payloadPart # signature # _ \<Rightarrow>
             if payloadPart = [] \<or> signature = [] then ret None
             else (case verify_pending E payloadPart signature of
                     Inr True \<Rightarrow> open_pending E payloadPart
                   | _ \<Rightarrow> ret None)
         | _ \<Rightarrow> ret None))"

section \<open>The client\<close>

definition resolvePendingClient :: "cfg \<Rightarrow> string option \<Rightarrow> client option m" where
  "resolvePendingClient E cookie =
     seq (decodePendingAuthorizationCookie E cookie) (\<lambda>params.
     let clientId = (case Option.bind params (\<lambda>ps. map_of ps ''client_id'') of None \<Rightarrow> [] | Some i \<Rightarrow> js_trim i) in
     if clientId = [] then ret None else reads (client_by_identifier clientId))"

definition resolvePendingEnvironmentId :: "cfg \<Rightarrow> string option \<Rightarrow> string option m" where
  "resolvePendingEnvironmentId E cookie =
     seq (resolvePendingClient E cookie) (\<lambda>cl. ret (map_option c_environmentId cl))"

section \<open>Facts\<close>

lemma mismatch_zero: "length as = length bs \<Longrightarrow> mismatch as bs = 0 \<longleftrightarrow> as = bs"
proof -
  have acc: "foldl (\<lambda>acc (x, y). acc OR (of_char x XOR of_char y)) n (zip as bs) = (0 :: nat) \<longleftrightarrow> n = 0 \<and> as = bs"
    if "length as = length bs" for n as bs
    using that
  proof (induction as bs arbitrary: n rule: list_induct2)
    case (Cons x xs y ys)
    have "(of_char x :: nat) XOR of_char y = 0 \<longleftrightarrow> x = y"
      by (simp add: bit_eq_iff bit_xor_iff) (metis bit_eq_iff of_char_eq_iff)
    with Cons show ?case by (auto simp: or_eq_0_iff)
  qed simp
  assume "length as = length bs"
  from acc [OF this, of 0] show ?thesis by (simp add: mismatch_def)
qed

lemma verify_pending_iff:
  "verify_pending E payload signature = Inr True \<longleftrightarrow>
   (\<exists>secret. getPendingSecret E = Inr secret \<and> signature = toBase64Url (hmac_sha256 E payload secret))"
  by (auto simp: verify_pending_def sign_pending_def mismatch_zero split: sum.splits)

text \<open>Decoding undoes encoding.\<close>

lemma b64_alphabet_table: "List.map b64_char [0..<64] = b64_alphabet"
  by code_simp

lemma b64_places: "List.map (\<lambda>n. place_of (b64_char n) b64_alphabet) [0..<64] = List.map Some [0..<64]"
  by code_simp

lemma place_of_b64: "n < 64 \<Longrightarrow> place_of (b64_char n) b64_alphabet = Some n"
  using arg_cong [OF b64_places, of "\<lambda>xs. xs ! n"] by simp

lemma sextets_b64: "\<forall>n \<in> set ns. n < 64 \<Longrightarrow> sextets (List.map b64_char ns) = Some ns"
  by (induction ns) (simp_all add: place_of_b64)

lemma b64_char_nth: "n < 64 \<Longrightarrow> b64_char n = b64_alphabet ! n"
  using arg_cong [OF b64_alphabet_table, of "\<lambda>xs. xs ! n"] by simp

lemma b64_char_facts:
  assumes "n < 64"
  shows "\<not> b64_space (b64_char n)" "b64_char n \<noteq> CHR ''=''" "unescaped (url_char n) = b64_char n"
proof -
  have "list_all (\<lambda>c. \<not> b64_space c \<and> c \<noteq> CHR ''='') b64_alphabet" "List.map unescaped url_chars = b64_alphabet"
    "length b64_alphabet = 64" by code_simp+
  then show "\<not> b64_space (b64_char n)" "b64_char n \<noteq> CHR ''=''" "unescaped (url_char n) = b64_char n"
    using assms by (auto simp: list_all_length b64_char_nth url_char_nth url_chars_facts(3) dest: arg_cong [of _ _ "\<lambda>xs. xs ! n"])
qed

lemma length_url64: "length (url64 xs) mod 4 \<noteq> 1"
  by (induction xs rule: url64.induct) auto

lemma drop_padding_b64:
  assumes "\<forall>n \<in> set ns. n < 64" and "length ns mod 4 \<noteq> 1"
  shows "drop_padding (List.map b64_char ns @ (if length ns mod 4 = 0 then [] else replicate (4 - length ns mod 4) CHR ''=''))
    = List.map b64_char ns"
proof -
  have plain: "CHR ''='' \<notin> set (List.map b64_char ns)" using assms(1) b64_char_facts by fastforce
  consider "length ns mod 4 = 0" | "length ns mod 4 = 2" | "length ns mod 4 = 3"
    using assms(2) mod_less_divisor [of 4 "length ns"] by linarith
  then show ?thesis
  proof cases
    case 1
    have "drop k (List.map b64_char ns) \<noteq> CHR ''='' # r" for k r
      using plain by (metis in_set_dropD list.set_intros(1))
    with 1 show ?thesis by (simp add: drop_padding_def)
  next
    case 2
    then have "(length ns + 2) mod 4 = 0" by presburger
    with 2 show ?thesis by (simp add: drop_padding_def numeral_2_eq_2)
  next
    case 3
    then have "(length ns + 1) mod 4 = 0" by presburger
    moreover have "drop (length ns - 1) (List.map b64_char ns @ ''='') \<noteq> ''==''"
    proof
      assume eq: "drop (length ns - 1) (List.map b64_char ns @ ''='') = ''==''"
      from 3 have "ns \<noteq> []" by auto
      then have "drop (length ns - 1) (List.map b64_char ns @ ''='') = [b64_char (last ns), CHR ''='']"
        by (simp add: last_conv_nth drop_map [symmetric] Cons_nth_drop_Suc [symmetric])
      with eq plain \<open>ns \<noteq> []\<close> show False by (metis last_in_set image_eqI list.inject list.set_map)
    qed
    ultimately show ?thesis using 3 by (simp add: drop_padding_def)
  qed
qed

lemma base64url_roundtrip: "base64UrlDecode (toBase64Url bs) = Some bs"
proof -
  let ?ns = "url64 (List.map unat bs)"
  have small: "\<forall>x \<in> set (List.map unat bs). x < 256"
    using unsigned_less [where ?'a = nat and ?'b = 8] by auto
  have ns: "\<forall>n \<in> set ?ns. n < 64" using url64_bound [OF small] .
  have norm: "List.map unescaped (List.map url_char ?ns) = List.map b64_char ?ns"
    using ns b64_char_facts by auto
  let ?t = "List.map b64_char ?ns @ (if length ?ns mod 4 = 0 then [] else replicate (4 - length ?ns mod 4) CHR ''='')"
  have "filter (\<lambda>c. \<not> b64_space c) ?t = ?t"
    using ns b64_char_facts by (auto simp: filter_id_conv b64_space_def)
  then have "atob ?t = Some (List.map of_nat (unurl64 ?ns))"
    using drop_padding_b64 [OF ns length_url64] sextets_b64 [OF ns] length_url64 [of "List.map unat bs"]
    by (simp add: atob_def Let_def)
  moreover have "base64UrlDecode (toBase64Url bs) = atob ?t"
    unfolding toBase64Url_url64 base64UrlDecode_def Let_def norm by simp
  ultimately show ?thesis by (simp add: unurl64_url64 [OF small] o_def)
qed


lemma url_char_not_dot: "n < 64 \<Longrightarrow> url_char n \<noteq> CHR ''.''"
proof -
  have "list_all (\<lambda>c. c \<noteq> CHR ''.'') url_chars" by code_simp
  then show "n < 64 \<Longrightarrow> ?thesis" by (simp add: list_all_length url_char_nth url_chars_facts(3))
qed

lemma base64url_no_dot: "CHR ''.'' \<notin> set (toBase64Url bs)"
proof -
  have "\<forall>x \<in> set (List.map unat bs). x < 256"
    using unsigned_less [where ?'a = nat and ?'b = 8] by auto
  then show ?thesis unfolding toBase64Url_url64 using url64_bound url_char_not_dot by fastforce
qed

lemma base64url_Nil: "toBase64Url bs = [] \<longleftrightarrow> bs = []"
  using toBase64Url_inject [of bs "[]"] by (simp add: toBase64Url_url64)

lemma map_of_text_params:
  "map_of (concat (List.map (text_param params) ks)) k =
     (if k \<in> set ks then (case params k of Some (JString raw) \<Rightarrow> if js_trim raw = [] then None else Some (js_trim raw) | _ \<Rightarrow> None)
      else None)"
  by (induction ks) (auto simp: text_param_def map_add_def split: option.splits json.splits if_splits)

lemma keys_of_text_params: "fst ` set (concat (List.map (text_param params) ks)) \<subseteq> set ks"
  by (auto simp: text_param_def split: option.splits json.splits if_splits)

lemma sanitize_again: "sanitizeParams (as_params (sanitizeParams params)) = sanitizeParams params"
proof -
  have "text_param (as_params (sanitizeParams params)) k = text_param params k" if "k \<in> set AUTHORIZE_PARAM_KEYS" for k
    using that by (auto simp: text_param_def as_params_def sanitizeParams_def map_of_text_params js_trim_idem
        split: option.splits json.splits)
  then show ?thesis by (simp add: sanitizeParams_def cong: map_cong)
qed

lemma split_cookie:
  "split_on CHR ''.'' (toBase64Url p @ ''.'' @ toBase64Url q) = [toBase64Url p, toBase64Url q]"
  using split_on_append [OF base64url_no_dot] split_on_free [OF base64url_no_dot] by simp

lemma decode_Some:
  assumes "decodePendingAuthorizationCookie E cookie w = (Inr (Some ps), t)"
  shows "\<exists>v payload signature rest secret bytes e params.
    cookie = Some v \<and> split_on CHR ''.'' v = payload # signature # rest \<and> getPendingSecret E = Inr secret
    \<and> signature = toBase64Url (hmac_sha256 E payload secret)
    \<and> base64UrlDecode payload = Some bytes \<and> parse_pending E bytes = Some (Pending (Some e) params)
    \<and> int (clock E (ticks w) div 1000) < e \<and> ps = sanitizeParams params \<and> t = w\<lparr>ticks := Suc (ticks w)\<rparr>"
proof -
  obtain v where v: "cookie = Some v" using assms by (cases cookie) (auto simp: decodePendingAuthorizationCookie_def)
  then obtain payload signature rest where parts: "split_on CHR ''.'' v = payload # signature # rest"
    and valid: "verify_pending E payload signature = Inr True" and opened: "open_pending E payload w = (Inr (Some ps), t)"
    using assms by (auto simp: decodePendingAuthorizationCookie_def split: list.splits sum.splits if_splits bool.splits)
  obtain bytes envelope where b: "base64UrlDecode payload = Some bytes" "parse_pending E bytes = Some envelope"
    using opened by (auto simp: open_pending_def bind_eq_Some_conv split: option.splits)
  then obtain e params where "envelope = Pending (Some e) params" "int (clock E (ticks w) div 1000) < e"
    "ps = sanitizeParams params" "t = w\<lparr>ticks := Suc (ticks w)\<rparr>"
    using opened by (auto simp: open_pending_def prog_inv run_seq split: pending_json.splits option.splits if_splits)
  with v parts valid b show ?thesis unfolding verify_pending_iff by blast
qed

lemma decode_clock: "decodePendingAuthorizationCookie E cookie w = (r, t) \<Longrightarrow> \<exists>n. t = w\<lparr>ticks := n\<rparr>"
  by (auto simp: decodePendingAuthorizationCookie_def open_pending_def run_seq intro: exI [of _ "ticks w"]
      split: option.splits list.splits sum.splits if_splits bool.splits)

lemma decode_total: "\<exists>ps t. decodePendingAuthorizationCookie E cookie w = (Inr ps, t)"
  by (auto simp: decodePendingAuthorizationCookie_def open_pending_def run_seq
      split: option.splits list.splits sum.splits if_splits bool.splits)

lemma resolvePendingClient_Inr:
  assumes "resolvePendingClient E cookie w = (Inr (Some cl), t)"
  shows "\<exists>ps i. decodePendingAuthorizationCookie E cookie w = (Inr (Some ps), t) \<and> map_of ps ''client_id'' = Some i
    \<and> client_by_identifier (js_trim i) w = Some cl \<and> t = w\<lparr>ticks := Suc (ticks w)\<rparr>"
proof -
  obtain params v where d: "decodePendingAuthorizationCookie E cookie w = (Inr params, v)" using decode_total by blast
  define i where "i = (case Option.bind params (\<lambda>ps. map_of ps ''client_id'') of None \<Rightarrow> [] | Some i \<Rightarrow> js_trim i)"
  have run: "((if i = [] then ret None else reads (client_by_identifier i)) :: client option m) v = (Inr (Some cl), t)"
    using assms by (simp only: resolvePendingClient_def run_seq [of "decodePendingAuthorizationCookie E cookie"] d prod.case sum.case
        Let_def i_def [symmetric])
  then have ne: "i \<noteq> []" by auto
  with run have found: "client_by_identifier i v = Some cl" "t = v" by (auto simp: prog_inv)
  from ne obtain ps j where p: "params = Some ps" "map_of ps ''client_id'' = Some j" "i = js_trim j"
    unfolding i_def by (cases params) (auto split: option.splits)
  with d have o: "decodePendingAuthorizationCookie E cookie w = (Inr (Some ps), v)" by simp
  then have v: "v = w\<lparr>ticks := Suc (ticks w)\<rparr>" by (auto dest: decode_Some)
  have "client_by_identifier i (w\<lparr>ticks := n\<rparr>) = client_by_identifier i w" for n
    by (simp add: client_by_identifier_def rowToClient_def [abs_def] created_by_display_def cong: option.case_cong)
  with found v have "client_by_identifier i w = Some cl" by simp
  with o p found(2) v show ?thesis by blast
qed

text \<open>What was encoded opens until its time is over, if JSON gives back what it was given.\<close>

lemma decode_encoded:
  assumes "encodePendingAuthorizationCookie E params w = (Inr cookie, t)"
    and "parse_pending E (pending_bytes E (sanitizeParams (as_params params)) (clock E (ticks w) div 1000 + 300))
      = Some (Pending (Some (int (clock E (ticks w) div 1000 + 300))) (as_params (sanitizeParams (as_params params))))"
    and "pending_bytes E (sanitizeParams (as_params params)) (clock E (ticks w) div 1000 + 300) \<noteq> []"
    and "\<And>message key. hmac_sha256 E message key \<noteq> []"
  shows "decodePendingAuthorizationCookie E (Some cookie) u =
      (Inr (if clock E (ticks u) div 1000 < clock E (ticks w) div 1000 + 300
           then Some (sanitizeParams (as_params params)) else None), u\<lparr>ticks := Suc (ticks u)\<rparr>)"
proof -
  let ?ps = "sanitizeParams (as_params params)" and ?e = "clock E (ticks w) div 1000 + 300"
  let ?payload = "toBase64Url (pending_bytes E ?ps ?e)"
  obtain secret where secret: "getPendingSecret E = Inr secret"
    and cookie: "cookie = ?payload @ ''.'' @ toBase64Url (hmac_sha256 E ?payload secret)"
    using assms(1) by (auto simp: encodePendingAuthorizationCookie_def OAUTH_PENDING_COOKIE_TTL_SECONDS_def sign_pending_def
        prog_inv Let_def split: sum.splits)
  have "verify_pending E ?payload (toBase64Url (hmac_sha256 E ?payload secret)) = Inr True"
    using secret by (simp add: verify_pending_iff)
  moreover have "Option.bind (base64UrlDecode ?payload) (parse_pending E) = Some (Pending (Some (int ?e)) (as_params ?ps))"
    using assms(2) by (simp add: base64url_roundtrip)
  ultimately show ?thesis
    using assms(3,4)
    by (simp add: decodePendingAuthorizationCookie_def cookie split_cookie [unfolded append_Cons append_Nil] base64url_Nil open_pending_def sanitize_again)
qed

section \<open>Property\<close>

text \<open>
  C19. The cookie of a pending authorization opens to exactly the cleaned parameters it was made
  from, until its 300 seconds are over and not after; and no cookie opens unless its signature is
  the one the server's secret gives its payload, and its own expiry lies ahead.
\<close>

theorem pending_cookie_roundtrip:
  assumes "encodePendingAuthorizationCookie E params w = (Inr cookie, t)"
    and json: "parse_pending E (pending_bytes E (sanitizeParams (as_params params)) (clock E (ticks w) div 1000 + 300))
      = Some (Pending (Some (int (clock E (ticks w) div 1000 + 300))) (as_params (sanitizeParams (as_params params))))"
    and body: "pending_bytes E (sanitizeParams (as_params params)) (clock E (ticks w) div 1000 + 300) \<noteq> []"
    and hmac: "\<And>message key. hmac_sha256 E message key \<noteq> []"
  shows "fst (decodePendingAuthorizationCookie E (Some cookie) u) =
      Inr (if clock E (ticks u) div 1000 < clock E (ticks w) div 1000 + 300
           then Some (sanitizeParams (as_params params)) else None)
    \<and> (\<forall>forged ps. fst (decodePendingAuthorizationCookie E (Some forged) u) = Inr (Some ps) \<longrightarrow>
        (\<exists>payload rest secret e content. getPendingSecret E = Inr secret
          \<and> split_on CHR ''.'' forged = payload # toBase64Url (hmac_sha256 E payload secret) # rest
          \<and> Option.bind (base64UrlDecode payload) (parse_pending E) = Some (Pending (Some e) content)
          \<and> int (clock E (ticks u) div 1000) < e \<and> ps = sanitizeParams content))"
proof
  show "fst (decodePendingAuthorizationCookie E (Some cookie) u) =
      Inr (if clock E (ticks u) div 1000 < clock E (ticks w) div 1000 + 300
           then Some (sanitizeParams (as_params params)) else None)"
    using decode_encoded [OF assms] by simp
  show "\<forall>forged ps. fst (decodePendingAuthorizationCookie E (Some forged) u) = Inr (Some ps) \<longrightarrow>
        (\<exists>payload rest secret e content. getPendingSecret E = Inr secret
          \<and> split_on CHR ''.'' forged = payload # toBase64Url (hmac_sha256 E payload secret) # rest
          \<and> Option.bind (base64UrlDecode payload) (parse_pending E) = Some (Pending (Some e) content)
          \<and> int (clock E (ticks u) div 1000) < e \<and> ps = sanitizeParams content)"
  proof (intro allI impI)
    fix forged ps
    assume "fst (decodePendingAuthorizationCookie E (Some forged) u) = Inr (Some ps)"
    then obtain v where "decodePendingAuthorizationCookie E (Some forged) u = (Inr (Some ps), v)" by (metis prod.collapse)
    from decode_Some [OF this] obtain payload rest secret bytes e content where
      "split_on CHR ''.'' forged = payload # toBase64Url (hmac_sha256 E payload secret) # rest" "getPendingSecret E = Inr secret"
      "base64UrlDecode payload = Some bytes" "parse_pending E bytes = Some (Pending (Some e) content)"
      "int (clock E (ticks u) div 1000) < e" "ps = sanitizeParams content" by auto
    then show "\<exists>payload rest secret e content. getPendingSecret E = Inr secret
          \<and> split_on CHR ''.'' forged = payload # toBase64Url (hmac_sha256 E payload secret) # rest
          \<and> Option.bind (base64UrlDecode payload) (parse_pending E) = Some (Pending (Some e) content)
          \<and> int (clock E (ticks u) div 1000) < e \<and> ps = sanitizeParams content"
      by (intro exI [of _ payload] exI [of _ rest] exI [of _ secret] exI [of _ e] exI [of _ content]) simp
  qed
qed

end
