(* ===== verification/SignIn.thy ===== *)
theory SignIn
  imports Passkeys PendingCookie SiteSettings TotpEnrollment PasswordReset Users
begin

text \<open>
  Signing in: the three providers that issue a session and the callbacks that keep it
  (\<open>auth.ts\<close>, \<open>email-mfa-enablement.ts\<close>, \<open>session-admin-refresh.ts\<close>), and the server actions
  of the sign-in form (\<open>mfa-actions.ts\<close>). A provider answers with the user of the session or with
  \<open>null\<close>. The cookies an operation reads and sets are an argument and a result.
\<close>

section \<open>Cookies and sessions\<close>

record jar =
  jar_pending :: "string option"
  jar_mfa :: "string option"
  jar_verification :: "string option"

record session_user =
  su_id :: string
  su_username :: string
  su_name :: string
  su_email :: "string option"
  su_image :: "string option"
  su_isAdmin :: bool

definition session_for :: "cfg \<Rightarrow> user_record \<Rightarrow> site_settings_row option \<Rightarrow> bool \<Rightarrow> session_user" where
  "session_for E user site isAdmin =
     \<lparr>su_id = u_id user, su_username = u_username user,
      su_name = (case u_name user of None \<Rightarrow> u_username user | Some n \<Rightarrow> n), su_email = u_email user,
      su_image = resolveAvatarUrl E (u_avatarKey user) (Option.bind site st_cdn_url), su_isAdmin = isAdmin\<rparr>"

definition isEmailMfaGloballyEnabled :: "site_settings_row option \<Rightarrow> string option \<Rightarrow> bool" where
  "isEmailMfaGloballyEnabled site resendApiKey \<longleftrightarrow>
     (case site of None \<Rightarrow> False | Some s \<Rightarrow> st_mfa_enabled s \<and> nonblank (st_site_url s) \<noteq> None) \<and> nonblank resendApiKey \<noteq> None"

section \<open>Password\<close>

record credentials =
  lg_username :: "string option"
  lg_password :: "string option"
  lg_otp :: "string option"
  lg_mfaMethod :: "string option"

definition trimmed_or_empty :: "string option \<Rightarrow> string" where
  "trimmed_or_empty v = (case v of None \<Rightarrow> [] | Some s \<Rightarrow> js_trim s)"

datatype mfa_method = Totp_method | Email_method

definition chosen_method :: "string \<Rightarrow> bool \<Rightarrow> mfa_method" where
  "chosen_method requested totpEnrolled =
     (if requested = ''totp'' then Totp_method
      else if requested = ''email'' then Email_method
      else if totpEnrolled then Totp_method else Email_method)"

text \<open>The two kinds of second factor, and the verification of an address: the cookies left, or \<open>None\<close> for a refusal.\<close>

definition totp_factor :: "cfg \<Rightarrow> jar \<Rightarrow> string \<Rightarrow> string \<Rightarrow> bool \<Rightarrow> jar option m" where
  "totp_factor E j userId otp totpEnrolled =
     (if \<not> totpEnrolled then ret None
      else seq (verifyCode E userId otp) (\<lambda>totpOk. ret (if totpOk then Some j else None)))"

definition email_factor :: "cfg \<Rightarrow> jar \<Rightarrow> string \<Rightarrow> string \<Rightarrow> bool \<Rightarrow> bool \<Rightarrow> jar option m" where
  "email_factor E j userId otp emailMfaActive requiresEmailVerification =
     (if \<not> emailMfaActive \<or> \<not> truthy (jar_mfa j) then ret None
      else
        seq (verifyMfaOtpAndConsume E (the (jar_mfa j)) userId otp) (\<lambda>mfaResult.
        if mfaResult \<noteq> Otp_ok then ret None
        else
          seq (if requiresEmailVerification then markEmailVerified E userId else ret ()) (\<lambda>_.
          ret (Some (j\<lparr>jar_mfa := None\<rparr>)))))"

definition second_factor :: "cfg \<Rightarrow> jar \<Rightarrow> string \<Rightarrow> string \<Rightarrow> string \<Rightarrow> bool \<Rightarrow> bool \<Rightarrow> bool \<Rightarrow> jar option m" where
  "second_factor E j userId otp mfaMethod totpEnrolled emailMfaActive requiresEmailVerification =
     (if otp = [] then ret None
      else (case chosen_method mfaMethod totpEnrolled of
              Totp_method \<Rightarrow> totp_factor E j userId otp totpEnrolled
            | Email_method \<Rightarrow> email_factor E j userId otp emailMfaActive requiresEmailVerification))"

definition verify_address :: "cfg \<Rightarrow> jar \<Rightarrow> user_row \<Rightarrow> string \<Rightarrow> jar option m" where
  "verify_address E j user otp =
     (if nonblank (us_email user) = None \<or> otp = [] \<or> \<not> truthy (jar_verification j) then ret None
      else
        seq (verifyEmailVerificationOtpAndConsume E (the (jar_verification j)) (us_id user) otp) (\<lambda>verificationResult.
        ret (if verificationResult = Otp_ok then Some (j\<lparr>jar_verification := None\<rparr>) else None)))"

text \<open>From the verified password on: the complexity gate and the factors that are required.\<close>

definition further_gates :: "cfg \<Rightarrow> jar \<Rightarrow> user_row \<Rightarrow> string \<Rightarrow> string \<Rightarrow> string \<Rightarrow> site_settings_row option \<Rightarrow> jar option m" where
  "further_gates E j user password otp mfaMethod site =
     (let emailMfaGloballyEnabled = isEmailMfaGloballyEnabled site (ctx_env E ''RESEND_API_KEY'');
          emailMfaActive = (emailMfaGloballyEnabled \<and> nonblank (us_email user) \<noteq> None);
          requiresEmailVerification =
            (emailMfaGloballyEnabled \<and> \<not> us_is_admin user \<and> \<not> truthy (us_email_verified_at user)) in
      seq (resolvePendingEnvironmentId E (jar_pending j)) (\<lambda>policyEnvironmentId.
      seq (reads (checkSignInPasswordComplexity (us_id user) (us_is_admin user) policyEnvironmentId password
             \<lparr>id_username = Some (us_username user), id_email = us_email user\<rparr>)) (\<lambda>complexity.
      if \<not> cx_ok complexity \<and> cx_policy complexity \<noteq> None then ret None
      else
        seq (reads (isEnrolled (us_id user))) (\<lambda>totpEnrolled.
        if totpEnrolled \<or> emailMfaActive
        then second_factor E j (us_id user) otp mfaMethod totpEnrolled emailMfaActive requiresEmailVerification
        else if requiresEmailVerification then verify_address E j user otp
        else ret (Some j)))))"

definition store_rehash :: "string \<Rightarrow> string option \<Rightarrow> unit m" where
  "store_rehash userId rehash =
     (case rehash of None \<Rightarrow> ret () | Some h \<Rightarrow>
        if h = [] then ret () else update_user_row userId (no_patch\<lparr>up_passwordHash := Some h\<rparr>))"

definition authorize_credentials :: "cfg \<Rightarrow> jar \<Rightarrow> credentials \<Rightarrow> (session_user \<times> jar) option m" where
  "authorize_credentials E j c =
     (if \<not> truthy (lg_username c) \<or> \<not> truthy (lg_password c) then ret None
      else
        let password = the (lg_password c) in
        seq (hash_policy E) (\<lambda>meth.
        seq (reads (findByUsername (the (lg_username c)))) (\<lambda>found.
        case found of
          None \<Rightarrow> ret None
        | Some user \<Rightarrow>
          if us_is_test_user user then ret None
          else
            seq (verifyPassword E meth password (us_password_hash user)) (\<lambda>verified.
            if \<not> pv_ok verified then ret None
            else
              seq (store_rehash (us_id user) (pv_rehash verified)) (\<lambda>_.
              seq (reads site_settings) (\<lambda>site.
              seq (further_gates E j user password (trimmed_or_empty (lg_otp c)) (trimmed_or_empty (lg_mfaMethod c)) site) (\<lambda>passed.
              ret (map_option (\<lambda>j'. (session_for E (rowToUser user) site (us_is_admin user), j')) passed))))))))"

section \<open>Passkey\<close>

definition authorize_passkey :: "cfg \<Rightarrow> string option \<Rightarrow> session_user option m" where
  "authorize_passkey E exchangeToken =
     (let token = trimmed_or_empty exchangeToken in
      if token = [] then ret None
      else
        seq (consumeExchangeToken E token) (\<lambda>userId.
        case userId of
          None \<Rightarrow> ret None
        | Some i \<Rightarrow>
          if i = [] then ret None
          else
            seq (reads (user_by_id i)) (\<lambda>found.
            case found of
              None \<Rightarrow> ret None
            | Some user \<Rightarrow>
              if u_isTestUser user then ret None
              else
                seq (reads site_settings) (\<lambda>site.
                if isEmailMfaGloballyEnabled site (ctx_env E ''RESEND_API_KEY'')
                   \<and> \<not> u_isAdmin user \<and> \<not> truthy (u_emailVerifiedAt user)
                then ret None
                else ret (Some (session_for E user site (u_isAdmin user)))))))"

section \<open>Test user\<close>

definition expired_client :: "cfg \<Rightarrow> client \<Rightarrow> bool m" where
  "expired_client E cl =
     (if truthy (c_expiresAt cl) then seq (now_iso E) (\<lambda>now. ret (expired_at (c_expiresAt cl) now)) else ret False)"

definition authorize_test_user :: "cfg \<Rightarrow> jar \<Rightarrow> string option \<Rightarrow> session_user option m" where
  "authorize_test_user E j selected =
     (let userId = trimmed_or_empty selected in
      if userId = [] then ret None
      else
        seq (resolvePendingClient E (jar_pending j)) (\<lambda>pending.
        case pending of
          None \<Rightarrow> ret None
        | Some cl \<Rightarrow>
          if \<not> c_isTest cl then ret None
          else
            seq (expired_client E cl) (\<lambda>expired.
            if expired then ret None
            else
              seq (reads (user_by_id userId)) (\<lambda>found.
              case found of
                None \<Rightarrow> ret None
              | Some user \<Rightarrow>
                if \<not> u_isTestUser user \<or> u_isAdmin user then ret None
                else
                  seq (reads (user_environments (u_id user))) (\<lambda>userEnvironmentIds.
                  if c_environmentId cl \<notin> set userEnvironmentIds then ret None
                  else
                    seq (reads site_settings) (\<lambda>site.
                    ret (Some (session_for E user site False))))))))"

section \<open>The session token\<close>

record session_token =
  tk_id :: "string option"
  tk_isAdmin :: bool
  tk_adminCheckedAt :: "nat option"

definition ADMIN_RECHECK_INTERVAL_MS :: nat where "ADMIN_RECHECK_INTERVAL_MS = 5 * 60 * 1000"

text \<open>The lookup may throw; then the token stays as it is.\<close>

definition refreshAdminClaim ::
  "session_token \<Rightarrow> nat \<Rightarrow> nat option \<Rightarrow> (string \<Rightarrow> failure + bool option) \<Rightarrow> session_token" where
  "refreshAdminClaim token now intervalMs fetchIsAdmin =
     (let interval = (case intervalMs of None \<Rightarrow> ADMIN_RECHECK_INTERVAL_MS | Some n \<Rightarrow> n)
      in case tk_id token of
           None \<Rightarrow> token
         | Some userId \<Rightarrow>
           if userId = [] then token
           else if int now - int (case tk_adminCheckedAt token of None \<Rightarrow> 0 | Some t \<Rightarrow> t) < int interval then token
           else (case fetchIsAdmin userId of
                   Inl e \<Rightarrow> token
                 | Inr fresh \<Rightarrow> token\<lparr>tk_isAdmin := (case fresh of None \<Rightarrow> False | Some b \<Rightarrow> b), tk_adminCheckedAt := Some now\<rparr>))"

definition fetch_admin :: "world \<Rightarrow> string \<Rightarrow> failure + bool option" where
  "fetch_admin w userId = Inr (map_option u_isAdmin (user_by_id userId w))"

text \<open>The \<open>jwt\<close> callback: at sign-in, and on every later request (\<open>fetch\<close> is the lookup, or what it throws).\<close>

definition jwt_sign_in :: "cfg \<Rightarrow> session_user \<Rightarrow> session_token m" where
  "jwt_sign_in E user =
     seq (now_ms E) (\<lambda>now. ret \<lparr>tk_id = Some (su_id user), tk_isAdmin = su_isAdmin user, tk_adminCheckedAt = Some now\<rparr>)"

definition jwt_request :: "cfg \<Rightarrow> failure option \<Rightarrow> session_token \<Rightarrow> session_token m" where
  "jwt_request E blip token =
     seq (now_ms E) (\<lambda>now.
     reads (\<lambda>w. refreshAdminClaim token now None (case blip of None \<Rightarrow> fetch_admin w | Some e \<Rightarrow> (\<lambda>_. Inl e))))"

text \<open>The \<open>authorized\<close> callback, for a path and the session that came with the request, if any.\<close>

definition authorized :: "session_token option \<Rightarrow> string \<Rightarrow> bool" where
  "authorized session path \<longleftrightarrow>
     (if starts_with path ''/dashboard'' \<or> starts_with path ''/admin''
      then (case session of None \<Rightarrow> False | Some token \<Rightarrow> tk_isAdmin token) else True)"

end
