(* ===== verification/PasskeyRules.thy ===== *)
theory PasskeyRules
  imports Passkeys SignIn
begin

text \<open>
  What a passkey sign-in shows. A verified assertion leaves one exchange token for the owner of
  the credential that signed; the token is redeemed by one caller and within two minutes, so a
  session follows from an assertion at most once. The bound on winners is that of
  \<open>single_winner\<close>, interpreted on the \<open>UPDATE\<close> of the repository.
\<close>

section \<open>Exchange tokens\<close>

definition exchange_spent :: "string \<Rightarrow> world \<Rightarrow> bool" where
  "exchange_spent i w \<longleftrightarrow> (\<forall>r \<in> set (passkey_exchange_tokens w). ex_id r = i \<longrightarrow> ex_used_at r \<noteq> None)"

text \<open>Ids are the primary key.\<close>

definition exchange_ids :: "world \<Rightarrow> bool" where
  "exchange_ids w \<longleftrightarrow> distinct (List.map ex_id (passkey_exchange_tokens w))"

definition redeemed :: "string \<Rightarrow> string \<Rightarrow> world \<Rightarrow> bool \<times> world" where
  "redeemed i now w = (fst (redeem_exchange i now w) \<noteq> None, snd (redeem_exchange i now w))"

lemma redeem_marks:
  "exchange_spent j w \<Longrightarrow> exchange_spent j (snd (redeem_exchange i now w))"
  by (auto simp: exchange_spent_def redeem_exchange_def)

lemma redeem_live:
  assumes "fst (redeem_exchange i now w) = Some u"
  shows "\<exists>r \<in> set (passkey_exchange_tokens w). redeemable i now r \<and> ex_user_id r = u"
  using assms by (auto simp: redeem_exchange_def dest: find_in_set)

text \<open>A row with the key of the winner, all of which are spent if the key is unique.\<close>

lemma redeem_spends:
  assumes "exchange_ids w" and "fst (redeem_exchange i now w) = Some u"
  shows "\<not> exchange_spent i w" and "exchange_spent i (snd (redeem_exchange i now w))"
proof -
  obtain r where r: "r \<in> set (passkey_exchange_tokens w)" "redeemable i now r" using redeem_live [OF assms(2)] by blast
  then show "\<not> exchange_spent i w" by (auto simp: exchange_spent_def redeemable_def)
  have "s = r" if "s \<in> set (passkey_exchange_tokens w)" "ex_id s = i" for s
    using assms(1) r that by (auto simp: exchange_ids_def redeemable_def dest: inj_onD [OF conjunct2 [OF distinct_map [THEN iffD1]]])
  with r show "exchange_spent i (snd (redeem_exchange i now w))"
    by (auto simp: exchange_spent_def redeem_exchange_def)
qed

text \<open>An attempt on a spent row gets nothing and changes nothing.\<close>

lemma redeem_spent:
  assumes "exchange_spent i w"
  shows "redeem_exchange i now w = (None, w)"
proof -
  have none: "\<not> redeemable i now r" if "r \<in> set (passkey_exchange_tokens w)" for r
    using assms that by (auto simp: exchange_spent_def redeemable_def)
  then have "find (redeemable i now) (passkey_exchange_tokens w) = None" by (simp add: find_None_iff)
  moreover have "List.map (\<lambda>r. if redeemable i now r then r\<lparr>ex_used_at := Some now\<rparr> else r) (passkey_exchange_tokens w)
    = passkey_exchange_tokens w" by (rule map_idI) (simp add: none)
  ultimately show ?thesis by (simp add: redeem_exchange_def)
qed

lemma redeem_ids: "exchange_ids w \<Longrightarrow> exchange_ids (snd (redeem_exchange i now w))"
  by (simp add: exchange_ids_def redeem_exchange_def o_def if_distrib [of ex_id] cong: if_cong)

interpretation exchange_shot: single_winner redeemed exchange_spent exchange_ids
proof
  fix i n s t
  assume "exchange_ids s" and "redeemed i n s = (True, t)"
  then show "\<not> exchange_spent i s \<and> exchange_spent i t"
    using redeem_spends [of s i n] by (auto simp: redeemed_def)
qed (auto simp: redeemed_def intro: redeem_marks redeem_ids)

section \<open>Frames\<close>

lemma challenge_kept [simp]:
  "getChallengeById i (w\<lparr>ticks := n\<rparr>) = getChallengeById i w"
  "findCredentialById c (w\<lparr>ticks := n\<rparr>) = findCredentialById c w"
  by (simp_all add: getChallengeById_def findCredentialById_def)

lemma getRpDetails_run:
  "getRpDetails E w = (Inr rp, t) \<Longrightarrow> t = w \<and> (\<forall>n. getRpDetails E (w\<lparr>ticks := n\<rparr>) = (Inr rp, w\<lparr>ticks := n\<rparr>))"
  by (auto simp: getRpDetails_def prog_inv run_seq Let_def outcome_def split: sum.splits)

lemma verified_or_Inr [prog_inv]: "verified_or e a w = (Inr x, t) \<longleftrightarrow> a = Webauthn_verified x \<and> t = w"
  by (auto simp: verified_or_def split: webauthn.splits)

lemma check_passkey_expiry_Inr [prog_inv]:
  "check_passkey_expiry E row e w = (Inr u, t) \<longleftrightarrow>
     toISOString (clock E (ticks w)) < pc_expires_at row \<and> t = w\<lparr>ticks := Suc (ticks w)\<rparr>"
  by (auto simp: check_passkey_expiry_def prog_inv deleteChallenge_def split: if_splits)

lemma counter_stored:
  "findCredentialById c w = Some r \<Longrightarrow>
     map_option pk_counter (find (\<lambda>r. pk_credential_id r = c)
       (List.map (\<lambda>r. if pk_credential_id r = c then r\<lparr>pk_counter := n, pk_last_used_at := Some now\<rparr> else r) (user_passkeys w))) = Some n"
proof -
  have "find (\<lambda>r. pk_credential_id r = c) rs = Some r \<Longrightarrow>
     map_option pk_counter (find (\<lambda>r. pk_credential_id r = c)
       (List.map (\<lambda>r. if pk_credential_id r = c then r\<lparr>pk_counter := n, pk_last_used_at := Some now\<rparr> else r) rs)) = Some n"
    for rs by (induction rs) (auto split: if_splits)
  then show "findCredentialById c w = Some r \<Longrightarrow> ?thesis" by (simp add: findCredentialById_def)
qed

lemma accept_assertion_Inr:
  assumes "accept_assertion E row credential response w = (Inr u, t)"
  shows "\<exists>rp n now. getRpDetails E w = (Inr rp, w)
    \<and> verify_assertion E (assertion_expectation rp row) credential response = Webauthn_verified n
    \<and> t = w\<lparr>ticks := Suc (ticks w),
           user_passkeys := List.map (\<lambda>r. if pk_credential_id r = pk_credential_id credential
             then r\<lparr>pk_counter := n, pk_last_used_at := Some now\<rparr> else r) (user_passkeys w),
           passkey_challenges := filter (\<lambda>r. pc_id r \<noteq> pc_id row) (passkey_challenges w)\<rparr>"
proof -
  from assms obtain rp v n where rp: "getRpDetails E w = (Inr rp, v)"
    and n: "verify_assertion E (assertion_expectation rp row) credential response = Webauthn_verified n"
    and t: "seq (now_iso E) (\<lambda>now. seq (updateCredentialCounter (pk_credential_id credential) n now)
              (\<lambda>_. deleteChallenge (pc_id row))) v = (Inr u, t)"
    by (auto simp: accept_assertion_def seq_Inr [of "getRpDetails E"] seq_Inr [of "verified_or e a" for e a] verified_or_Inr)
  from getRpDetails_run [OF rp] have v: "v = w" by blast
  show ?thesis
    using t rp n unfolding v
    by (auto simp: updateCredentialCounter_def deleteChallenge_def
        intro!: exI [of _ rp] exI [of _ n] exI [of _ "toISOString (clock E (ticks w))"])
qed

section \<open>Properties\<close>

text \<open>
  C12. An assertion is accepted only when the library verified it against the challenge the server
  stored for an authentication, not yet expired, for the origin and relying party of the issuer,
  and with the key of the stored credential it names. It then leaves exactly one new exchange
  token, unused and for the owner of that credential, which expires 120 seconds after the reading
  of the clock that follows the check, and the challenge is gone.
\<close>

theorem passkey_assertion_sound:
  assumes "verifyAuthentication E i response w = (Inr (token, userId), t)"
  shows "\<exists>row credential rp n.
      getChallengeById i w = Some row \<and> pc_kind row = Authentication
    \<and> toISOString (clock E (ticks w)) < pc_expires_at row
    \<and> findCredentialById (an_id response) w = Some credential \<and> pk_user_id credential = userId
    \<and> fst (getRpDetails E w) = Inr rp \<and> wa_origin (assertion_expectation rp row) = resolveIssuerBaseUrl E
    \<and> verify_assertion E (assertion_expectation rp row) credential response = Webauthn_verified n
    \<and> getChallengeById i t = None
    \<and> map_option pk_counter (findCredentialById (an_id response) t) = Some n
    \<and> passkey_exchange_tokens t = passkey_exchange_tokens w
        @ [\<lparr>ex_id = token, ex_user_id = userId, ex_expires_at = toISOString (clock E (ticks w + 2) + 120000), ex_used_at = None\<rparr>]
    \<and> token \<notin> set (List.map ex_id (passkey_exchange_tokens w))"
proof -
  from assms obtain row credential v where row: "getChallengeById i w = Some row" "pc_kind row = Authentication"
    "toISOString (clock E (ticks w)) < pc_expires_at row"
    and cred: "findCredentialById (an_id response) w = Some credential"
    and accept: "accept_assertion E row credential response (w\<lparr>ticks := Suc (ticks w)\<rparr>) = (Inr (), v)"
    and rest: "token = uuid E (draws v)" "userId = pk_user_id credential"
      "insertExchangeToken \<lparr>ex_id = token, ex_user_id = userId, ex_expires_at = toISOString (clock E (ticks v) + EXCHANGE_TOKEN_TTL_MS),
         ex_used_at = None\<rparr> (v\<lparr>draws := Suc (draws v), ticks := Suc (ticks v)\<rparr>) = (Inr (), t)"
    by (auto simp: verifyAuthentication_def prog_inv split: if_splits)
  from accept_assertion_Inr [OF accept] obtain rp n now where
    rp: "getRpDetails E (w\<lparr>ticks := Suc (ticks w)\<rparr>) = (Inr rp, w\<lparr>ticks := Suc (ticks w)\<rparr>)"
    and n: "verify_assertion E (assertion_expectation rp row) credential response = Webauthn_verified n"
    and v: "v = w\<lparr>ticks := Suc (Suc (ticks w)),
           user_passkeys := List.map (\<lambda>r. if pk_credential_id r = pk_credential_id credential
             then r\<lparr>pk_counter := n, pk_last_used_at := Some now\<rparr> else r) (user_passkeys w),
           passkey_challenges := filter (\<lambda>r. pc_id r \<noteq> pc_id row) (passkey_challenges w)\<rparr>" by auto
  have ids: "pc_id row = i" "pk_credential_id credential = an_id response"
    using row(1) cred by (auto simp: getChallengeById_def findCredentialById_def find_Some_iff)
  have t: "t = v\<lparr>draws := Suc (draws v), ticks := Suc (ticks v), passkey_exchange_tokens := passkey_exchange_tokens v
      @ [\<lparr>ex_id = token, ex_user_id = userId, ex_expires_at = toISOString (clock E (ticks v) + 120000), ex_used_at = None\<rparr>]\<rparr>"
    and new: "token \<notin> set (List.map ex_id (passkey_exchange_tokens v))"
    using rest(3) by (auto simp: insertExchangeToken_def prog_inv exchange_violated_def EXCHANGE_TOKEN_TTL_MS_def split: if_splits)
  have "fst (getRpDetails E w) = Inr rp" and origin: "rp_origin rp = resolveIssuerBaseUrl E"
    using rp by (auto simp: getRpDetails_def run_seq outcome_def Let_def split: sum.splits)
  moreover have "getChallengeById i t = None"
    by (simp add: t v ids getChallengeById_def find_None_iff)
  moreover have "map_option pk_counter (findCredentialById (an_id response) t) = Some n"
    using counter_stored [OF cred] by (simp add: t v ids findCredentialById_def)
  ultimately show ?thesis using row cred n rest(2) t new v
    by (intro exI [of _ row] exI [of _ credential] exI [of _ rp] exI [of _ n])
      (simp add: assertion_expectation_def)
qed

text \<open>
  C18. A session from a passkey is for the user of an exchange token that was unused and had not
  expired, a user who still exists, is not a test user and has a verified address where one is
  required; the session carries the administrator flag of the user's row. After it, whatever else
  happens to the table short of storing the same id anew, nobody redeems that token again and no
  session comes of it.
\<close>

theorem passkey_sign_in_once:
  assumes "authorize_passkey E (Some code) w = (Inr (Some session), t)" and "exchange_ids w"
  shows "(\<exists>r \<in> set (passkey_exchange_tokens w). \<exists>user \<in> set (users w).
        ex_id r = js_trim code \<and> ex_used_at r = None \<and> toISOString (clock E (ticks w)) < ex_expires_at r
      \<and> ex_user_id r = us_id user \<and> su_id session = us_id user \<and> \<not> us_is_test_user user
      \<and> su_isAdmin session = us_is_admin user
      \<and> (isEmailMfaGloballyEnabled (site_settings w) (ctx_env E ''RESEND_API_KEY'') \<and> \<not> us_is_admin user
         \<longrightarrow> truthy (us_email_verified_at user)))
    \<and> (\<forall>other h v. history redeemed other t h v
         \<and> (\<forall>a b. other a b \<longrightarrow> (exchange_ids a \<longrightarrow> exchange_ids b)
              \<and> (\<forall>r \<in> set (passkey_exchange_tokens b). ex_id r = js_trim code \<longrightarrow> r \<in> set (passkey_exchange_tokens a)))
         \<longrightarrow> (js_trim code, True) \<notin> set h \<and> fst (authorize_passkey E (Some code) v) = Inr None)"
proof
  let ?i = "js_trim code" and ?now = "toISOString (clock E (ticks w))"
  define w1 where "w1 = w\<lparr>ticks := Suc (ticks w)\<rparr>"
  obtain userId user where won: "fst (redeem_exchange ?i ?now w1) = Some userId"
    and t: "t = snd (redeem_exchange ?i ?now w1)" and user: "user_by_id userId t = Some user" "\<not> u_isTestUser user"
    and mail: "isEmailMfaGloballyEnabled (site_settings t) (ctx_env E ''RESEND_API_KEY'') \<and> \<not> u_isAdmin user
      \<longrightarrow> truthy (u_emailVerifiedAt user)"
    and session: "session = session_for E user (site_settings t) (u_isAdmin user)"
    using assms(1)
    by (auto simp: authorize_passkey_def trimmed_or_empty_def consumeExchangeToken_def w1_def Let_def prog_inv
        split: if_splits option.splits)
  have same: "site_settings t = site_settings w" "users t = users w" and ids: "exchange_ids w1"
    using assms(2) by (simp_all add: t w1_def redeem_exchange_def exchange_ids_def)
  obtain r where r: "r \<in> set (passkey_exchange_tokens w)" "redeemable ?i ?now r" "ex_user_id r = userId"
    using redeem_live [OF won] by (auto simp: w1_def)
  obtain row where row: "row \<in> set (users w)" "us_id row = userId" "user = rowToUser row"
    using user_by_id_Some [OF user(1)] same by auto
  show "\<exists>r \<in> set (passkey_exchange_tokens w). \<exists>user \<in> set (users w).
        ex_id r = ?i \<and> ex_used_at r = None \<and> ?now < ex_expires_at r
      \<and> ex_user_id r = us_id user \<and> su_id session = us_id user \<and> \<not> us_is_test_user user
      \<and> su_isAdmin session = us_is_admin user
      \<and> (isEmailMfaGloballyEnabled (site_settings w) (ctx_env E ''RESEND_API_KEY'') \<and> \<not> us_is_admin user
         \<longrightarrow> truthy (us_email_verified_at user))"
    using r row user(2) mail session same
    by (intro bexI [of _ r] bexI [of _ row]) (auto simp: redeemable_def session_for_def rowToUser_def)
  have spent: "exchange_spent ?i t" and valid: "exchange_ids t"
    using redeem_spends [OF ids won] redeem_ids [OF ids] by (simp_all add: t)
  show "\<forall>other h v. history redeemed other t h v
         \<and> (\<forall>a b. other a b \<longrightarrow> (exchange_ids a \<longrightarrow> exchange_ids b)
              \<and> (\<forall>r \<in> set (passkey_exchange_tokens b). ex_id r = ?i \<longrightarrow> r \<in> set (passkey_exchange_tokens a)))
         \<longrightarrow> (?i, True) \<notin> set h \<and> fst (authorize_passkey E (Some code) v) = Inr None"
  proof (intro allI impI, elim conjE)
    fix other h v
    assume run: "history redeemed other t h v"
      and other: "\<forall>a b. other a b \<longrightarrow> (exchange_ids a \<longrightarrow> exchange_ids b)
              \<and> (\<forall>r \<in> set (passkey_exchange_tokens b). ex_id r = ?i \<longrightarrow> r \<in> set (passkey_exchange_tokens a))"
    have "exchange_spent ?i b" if "other a b" "exchange_spent ?i a" for a b
      using other that by (auto simp: exchange_spent_def)
    then have "exchange_spent ?i v \<and> (?i, True) \<notin> set h"
      using exchange_shot.spent_for_good [OF run valid spent] other by blast
    then show "(?i, True) \<notin> set h \<and> fst (authorize_passkey E (Some code) v) = Inr None"
      by (auto simp: authorize_passkey_def trimmed_or_empty_def consumeExchangeToken_def Let_def redeem_spent run_seq
          exchange_spent_def)
  qed
qed

end
