(* ===== verification/SignInActions.thy ===== *)
theory SignInActions
  imports SignIn
begin

text \<open>
  The server actions around the sign-in form (\<open>mfa-actions.ts\<close>) and of a user's own settings
  (\<open>user-settings-actions.ts\<close>). They answer with what the form shows next; the session itself is
  issued by the providers of \<open>SignIn\<close>.
\<close>

section \<open>The sign-in form\<close>

datatype begin_result =
    Begin_refused string
  | Begin_expired bool
  | Begin_complexity policy_row string "string option"
  | Begin_mfa "mfa_method list"
  | Begin_none
  | Begin_verification

definition no_challenge :: "jar \<Rightarrow> jar" where
  "no_challenge j = j\<lparr>jar_mfa := None, jar_verification := None\<rparr>"

definition clearSignInChallenge :: "jar \<Rightarrow> jar" where
  "clearSignInChallenge j = no_challenge j"

text \<open>Whether the session is ended (by the session library), and the cookies left.\<close>

definition signOutFromChallenge :: "jar \<Rightarrow> session_token option \<Rightarrow> bool \<times> jar" where
  "signOutFromChallenge j session = (truthy (Option.bind session tk_id), no_challenge j)"

text \<open>The challenge that is asked for once the password has passed its gates.\<close>

definition pick_challenge :: "cfg \<Rightarrow> jar \<Rightarrow> user_row \<Rightarrow> settings_dto \<Rightarrow> (begin_result \<times> jar) m" where
  "pick_challenge E j user site =
     seq (reads (\<lambda>w. ts_enrolled (getStatus (us_id user) w))) (\<lambda>totpEnrolled.
     let siteWantsEmailMfa = st_mfa_enabled (sd_row site);
         emailMfaUsable = (siteWantsEmailMfa \<and> sd_mfaCanEnable site \<and> nonblank (us_email user) \<noteq> None);
         methods = (if totpEnrolled then [Totp_method] else []) @ (if emailMfaUsable then [Email_method] else []) in
     if siteWantsEmailMfa \<and> \<not> emailMfaUsable \<and> \<not> totpEnrolled
     then ret (Begin_refused (if \<not> sd_mfaCanEnable site
                 then ''Configure Site URL and RESEND_API_KEY before using MFA.''
                 else ''Your account has no email address; contact an administrator.''), j)
     else if methods \<noteq> [] then
       (let cleared = j\<lparr>jar_verification := None\<rparr> in
        if methods = [Email_method]
        then seq (createMfaOtpAndSendEmail E user) (\<lambda>challengeId.
             ret (Begin_mfa methods, cleared\<lparr>jar_mfa := Some challengeId\<rparr>))
        else ret (Begin_mfa methods, cleared\<lparr>jar_mfa := None\<rparr>))
     else if us_is_admin user then ret (Begin_none, j)
     else if \<not> (siteWantsEmailMfa \<and> sd_mfaCanEnable site) \<or> truthy (us_email_verified_at user)
     then ret (Begin_none, no_challenge j)
     else if nonblank (us_email user) = None
     then ret (Begin_refused ''Your account has no email address; contact an administrator.'', j)
     else seq (createEmailVerificationOtpAndSendEmail E (rowToUser user)) (\<lambda>challengeId.
          ret (Begin_verification, j\<lparr>jar_mfa := None, jar_verification := Some challengeId\<rparr>)))"

definition may_enter :: "string option \<Rightarrow> string \<Rightarrow> world \<Rightarrow> bool" where
  "may_enter environmentId userId w \<longleftrightarrow>
     (truthy environmentId \<longrightarrow> the environmentId \<in> set (user_environments userId w))"

definition sign_in_identifiers :: "user_row \<Rightarrow> identifiers" where
  "sign_in_identifiers user = \<lparr>id_username = Some (us_username user), id_email = us_email user\<rparr>"

definition beginSignInChallenge :: "cfg \<Rightarrow> jar \<Rightarrow> string \<Rightarrow> string \<Rightarrow> (begin_result \<times> jar) m" where
  "beginSignInChallenge E j username password =
     seq (reads (get_settings E)) (\<lambda>site.
     seq (verifyUsernamePassword E username password) (\<lambda>found.
     case found of
       None \<Rightarrow> ret (Begin_refused ''Invalid username or password.'', j)
     | Some user \<Rightarrow>
       seq (resolvePendingEnvironmentId E (jar_pending j)) (\<lambda>environmentId.
       seq (reads (may_enter environmentId (us_id user))) (\<lambda>allowed.
       if \<not> allowed then ret (Begin_refused ''You don't have access to this application.'', j)
       else
         seq (isPasswordExpiredForUser E (us_id user) (us_password_updated_at user) (us_is_admin user)) (\<lambda>expired.
         if expired
         then seq (sendExpiredPasswordReset E user) (\<lambda>emailSent. ret (Begin_expired emailSent, no_challenge j))
         else
           seq (reads (checkSignInPasswordComplexity (us_id user) (us_is_admin user) environmentId password
                  (sign_in_identifiers user))) (\<lambda>complexity.
           case cx_policy complexity of
             Some policy \<Rightarrow>
               if \<not> cx_ok complexity
               then ret (Begin_complexity policy (us_username user) (us_email user), no_challenge j)
               else pick_challenge E j user site
           | None \<Rightarrow> pick_challenge E j user site))))))"

definition password_update :: "string \<Rightarrow> update_input" where
  "password_update newPassword =
     \<lparr>ui_username = None, ui_name = None, ui_email = None, ui_password = Some newPassword, ui_isAdmin = None,
      ui_avatarKey = None, ui_avatarStagedKey = None, ui_emailVerifiedAt = None, ui_environmentIds = None\<rparr>"

definition store_password :: "cfg \<Rightarrow> string \<Rightarrow> string \<Rightarrow> unit m" where
  "store_password E userId newPassword =
     seq (hash_policy E) (\<lambda>meth.
     seq (updateUser E meth userId (password_update newPassword) userId) (\<lambda>_. ret ()))"

definition changePasswordAtSignIn :: "cfg \<Rightarrow> jar \<Rightarrow> string \<Rightarrow> string \<Rightarrow> string \<Rightarrow> string option m" where
  "changePasswordAtSignIn E j username currentPassword newPassword =
     seq (verifyUsernamePassword E username currentPassword) (\<lambda>found.
     case found of
       None \<Rightarrow> ret (Some ''Invalid username or password.'')
     | Some user \<Rightarrow>
       seq (verifyUsernamePassword E username newPassword) (\<lambda>same.
       if same \<noteq> None then ret (Some ''Choose a password different from your current one.'')
       else
         seq (resolvePendingEnvironmentId E (jar_pending j)) (\<lambda>environmentId.
         seq (reads (checkSignInPasswordComplexity (us_id user) (us_is_admin user) environmentId newPassword
                (sign_in_identifiers user))) (\<lambda>complexity.
         if \<not> cx_ok complexity then ret (Some (summarizePasswordPolicyViolations (cx_violations complexity)))
         else seq (store_password E (us_id user) newPassword) (\<lambda>_. ret None)))))"

definition requestEmailMfaCode :: "cfg \<Rightarrow> jar \<Rightarrow> string \<Rightarrow> string \<Rightarrow> (string option \<times> jar) m" where
  "requestEmailMfaCode E j username password =
     seq (reads (get_settings E)) (\<lambda>site.
     if \<not> st_mfa_enabled (sd_row site) \<or> \<not> sd_mfaCanEnable site then ret (Some ''Email codes are not available.'', j)
     else
       seq (verifyUsernamePassword E username password) (\<lambda>found.
       case found of
         None \<Rightarrow> ret (Some ''Invalid username or password.'', j)
       | Some user \<Rightarrow>
         if nonblank (us_email user) = None
         then ret (Some ''Your account has no email address; contact an administrator.'', j)
         else seq (createMfaOtpAndSendEmail E user) (\<lambda>challengeId.
              ret (None, j\<lparr>jar_mfa := Some challengeId, jar_verification := None\<rparr>))))"

section \<open>The settings of a user\<close>

definition requireSession :: "session_token option \<Rightarrow> string m" where
  "requireSession session =
     need_text (Option.bind session tk_id) (JsError ''Unauthorized'')"

definition getAdminPasswordPolicy :: "session_token option \<Rightarrow> world \<Rightarrow> policy_row option" where
  "getAdminPasswordPolicy session w =
     (case session of
        None \<Rightarrow> None
      | Some t \<Rightarrow> if \<not> truthy (tk_id t) \<or> \<not> tk_isAdmin t then None else getAdminPolicy w)"

definition changePassword :: "cfg \<Rightarrow> session_token option \<Rightarrow> string \<Rightarrow> string \<Rightarrow> unit m" where
  "changePassword E session currentPassword newPassword =
     seq (requireSession session) (\<lambda>userId.
     seq (reads (user_by_id userId)) (\<lambda>found.
     seq (need found (JsError ''User not found.'')) (\<lambda>user.
     seq (verifyUsernamePassword E (u_username user) currentPassword) (\<lambda>verifiedUser.
     seq (throw_when (map_option us_id verifiedUser \<noteq> Some userId) (JsError ''Current password is incorrect.'')) (\<lambda>_.
     seq (if u_isAdmin user
          then seq (reads (validateAdminPassword newPassword
                     \<lparr>id_username = Some (u_username user), id_email = u_email user\<rparr>)) (\<lambda>check.
               throw_when (\<not> ck_ok check) (JsError (summarizePasswordPolicyViolations (ck_violations check))))
          else ret ()) (\<lambda>_.
     store_password E userId newPassword))))))"

definition updateProfile :: "cfg \<Rightarrow> session_token option \<Rightarrow> string \<Rightarrow> string option \<Rightarrow> unit m" where
  "updateProfile E session name avatarStagedKey =
     seq (requireSession session) (\<lambda>userId.
     seq (hash_policy E) (\<lambda>meth.
     seq (updateUser E meth userId ((password_update [])\<lparr>ui_password := None, ui_name := Some (nonblank (Some name)),
            ui_avatarStagedKey := (if truthy avatarStagedKey then avatarStagedKey else None)\<rparr>) userId) (\<lambda>_.
     ret ())))"

definition updateUsername :: "cfg \<Rightarrow> session_token option \<Rightarrow> string \<Rightarrow> unit m" where
  "updateUsername E session username =
     seq (requireSession session) (\<lambda>userId.
     seq (hash_policy E) (\<lambda>meth.
     seq (updateUser E meth userId ((password_update [])\<lparr>ui_password := None, ui_username := Some (js_trim username)\<rparr>) userId) (\<lambda>_.
     ret ())))"

end
