(* ===== verification/SignInRules.thy ===== *)
theory SignInRules
  imports SignInActions PolicyRules PasskeyRules
begin

text \<open>
  What stands behind a session: the password sign-in (every gate and factor the account and the
  site require has been passed), the test user's one-click sign-in (confined to the pending test
  client), and the administrator flag of a session over time.
\<close>

section \<open>Frames\<close>











section \<open>Second factors\<close>









section \<open>The password sign-in\<close>






section \<open>The test user\<close>

lemma expired_client_Inr:
  "expired_client E cl w = (Inr b, t) \<Longrightarrow>
     \<exists>n. t = w\<lparr>ticks := n\<rparr> \<and> (truthy (c_expiresAt cl) \<longrightarrow> b = expired_at (c_expiresAt cl) (toISOString (clock E (ticks w))))"
  by (auto simp: expired_client_def intro: exI [of _ "ticks w"] split: if_splits)

text \<open>
  C13. The one-click sign-in stays inside a pending authorization of a test client. A session comes
  of it only while the pending cookie, signed by the server and not expired, names a client that
  is stored, a test client and not expired, and only for the selected user, a test user who is not
  an administrator and has been given the environment of that client; the session is never an
  administrator's, and nothing is written.
\<close>

theorem test_user_sign_in_confined:
  assumes "authorize_test_user E j selected w = (Inr (Some session), t)"
  shows "\<exists>ps i cl user.
      fst (decodePendingAuthorizationCookie E (jar_pending j) w) = Inr (Some ps) \<and> map_of ps ''client_id'' = Some i
    \<and> client_by_identifier (js_trim i) w = Some cl \<and> c_isTest cl
    \<and> (truthy (c_expiresAt cl) \<longrightarrow> \<not> expired_at (c_expiresAt cl) (toISOString (clock E (Suc (ticks w)))))
    \<and> user \<in> set (users w) \<and> us_is_test_user user \<and> \<not> us_is_admin user
    \<and> selected \<noteq> None \<and> us_id user = js_trim (the selected) \<and> c_environmentId cl \<in> set (user_environments (us_id user) w)
    \<and> su_id session = us_id user \<and> \<not> su_isAdmin session \<and> (\<exists>n. t = w\<lparr>ticks := n\<rparr>)"
proof -
  obtain i where i: "selected = Some i" "js_trim i \<noteq> []"
    using assms by (cases selected) (auto simp: authorize_test_user_def trimmed_or_empty_def Let_def split: if_splits)
  define rest where "rest cl = seq (expired_client E cl) (\<lambda>expired.
      if expired then ret None
      else seq (reads (user_by_id (js_trim i))) (\<lambda>found.
        case found of
          None \<Rightarrow> ret None
        | Some user \<Rightarrow>
          if \<not> u_isTestUser user \<or> u_isAdmin user then ret None
          else seq (reads (user_environments (u_id user))) (\<lambda>granted.
            if c_environmentId cl \<notin> set granted then ret None
            else seq (reads site_settings) (\<lambda>site. ret (Some (session_for E user site False))))))" for cl
  have run: "seq (resolvePendingClient E (jar_pending j)) (\<lambda>pending.
      case pending of None \<Rightarrow> ret None | Some cl \<Rightarrow> if \<not> c_isTest cl then ret None else rest cl) w = (Inr (Some session), t)"
    using assms i by (simp add: authorize_test_user_def trimmed_or_empty_def rest_def cong: if_cong option.case_cong)
  then obtain p v where "resolvePendingClient E (jar_pending j) w = (Inr p, v)"
    "(case p of None \<Rightarrow> ret None | Some cl \<Rightarrow> if \<not> c_isTest cl then ret None else rest cl) v = (Inr (Some session), t)"
    unfolding seq_Inr by blast
  then obtain cl where pending: "resolvePendingClient E (jar_pending j) w = (Inr (Some cl), v)" and test: "c_isTest cl"
    and more: "rest cl v = (Inr (Some session), t)"
    by (cases p) (auto split: if_splits)
  then obtain x user where live: "expired_client E cl v = (Inr False, x)"
    and user: "user_by_id (js_trim i) x = Some user" "u_isTestUser user" "\<not> u_isAdmin user"
    and granted: "c_environmentId cl \<in> set (user_environments (u_id user) x)"
    and out: "session = session_for E user (site_settings x) False" "t = x"
    unfolding rest_def seq_Inr by (auto split: if_splits option.splits)
  obtain ps k where ps: "decodePendingAuthorizationCookie E (jar_pending j) w = (Inr (Some ps), v)" "map_of ps ''client_id'' = Some k"
      "client_by_identifier (js_trim k) w = Some cl" and v: "v = w\<lparr>ticks := Suc (ticks w)\<rparr>"
    using resolvePendingClient_Inr [OF pending] by blast
  obtain n where x: "x = v\<lparr>ticks := n\<rparr>"
    and fresh: "truthy (c_expiresAt cl) \<longrightarrow> \<not> expired_at (c_expiresAt cl) (toISOString (clock E (Suc (ticks w))))"
    using expired_client_Inr [OF live] v by auto
  obtain row where "row \<in> set (users x)" "us_id row = js_trim i" "user = rowToUser row"
    using user_by_id_Some [OF user(1)] by auto
  then show ?thesis using ps test fresh user granted out i x v
    by (intro exI [of _ ps] exI [of _ k] exI [of _ cl] exI [of _ row])
      (auto simp: session_for_def rowToUser_def user_environments_def)
qed

section \<open>The administrator flag of a session\<close>

definition admin_flag :: "string \<Rightarrow> world \<Rightarrow> bool" where
  "admin_flag i w \<longleftrightarrow> (\<exists>u. user_by_id i w = Some u \<and> u_isAdmin u)"

text \<open>
  A session from its start: each entry is a time at which the flag of the user was known, and the
  flag. Requests whose lookup fails may come in between.
\<close>

inductive session_history :: "cfg \<Rightarrow> string \<Rightarrow> (nat \<times> bool) list \<Rightarrow> session_token \<Rightarrow> bool" for E where
  signed_in: "jwt_sign_in E user w = (Inr token, t) \<Longrightarrow>
    session_history E (su_id user) [(clock E (ticks w), su_isAdmin user)] token"
| requested: "session_history E i tr token \<Longrightarrow> jwt_request E None token w = (Inr token', t) \<Longrightarrow>
    session_history E i ((clock E (ticks w), admin_flag i w) # tr) token'"
| blip: "session_history E i tr token \<Longrightarrow> jwt_request E (Some e) token w = (Inr token', t) \<Longrightarrow>
    session_history E i tr token'"

lemma jwt_request_Inr [prog_inv]:
  "jwt_request E blip token w = (Inr token', t) \<longleftrightarrow>
     token' = refreshAdminClaim token (clock E (ticks w)) None
       (case blip of None \<Rightarrow> fetch_admin (w\<lparr>ticks := Suc (ticks w)\<rparr>) | Some e \<Rightarrow> (\<lambda>_. Inl e))
     \<and> t = w\<lparr>ticks := Suc (ticks w)\<rparr>"
  by (auto simp: jwt_request_def)

text \<open>One refresh: the token as it was, or the flag of now; the former when the last check is recent or the lookup fails.\<close>

lemma refresh_cases:
  assumes "tk_id token = Some i" and "i \<noteq> []" and "tk_adminCheckedAt token = Some at"
  shows "refreshAdminClaim token now None (fetch_admin w) =
      (if now < at + 300000 then token else token\<lparr>tk_isAdmin := admin_flag i w, tk_adminCheckedAt := Some now\<rparr>)"
    and "refreshAdminClaim token now None (\<lambda>_. Inl e) = token"
  using assms
  by (auto simp: refreshAdminClaim_def ADMIN_RECHECK_INTERVAL_MS_def fetch_admin_def admin_flag_def split: option.splits)

lemma admin_flag_ticks [simp]: "admin_flag i (w\<lparr>ticks := n\<rparr>) = admin_flag i w"
  by (simp add: admin_flag_def user_by_id_def)

text \<open>The flag is never made up: it is the one of the last check.\<close>

lemma claim_checked:
  assumes "session_history E i tr token" and "i \<noteq> []"
  shows "tk_id token = Some i \<and> (\<exists>at. tk_adminCheckedAt token = Some at \<and> (at, tk_isAdmin token) \<in> set tr)"
  using assms
proof (induction rule: session_history.induct)
  case (signed_in user w token t)
  then show ?case by (auto simp: jwt_sign_in_def)
next
  case (requested i tr token w token' t)
  then obtain at where "tk_id token = Some i" "tk_adminCheckedAt token = Some at" "(at, tk_isAdmin token) \<in> set tr" by blast
  with requested.hyps(2) requested.prems show ?case by (auto simp: jwt_request_Inr refresh_cases)
next
  case (blip i tr token e w token' t)
  then show ?case by (auto simp: jwt_request_Inr refresh_cases)
qed

text \<open>
  C14. An administrator's rights end within five minutes. At every request whose lookup of the user
  succeeds, however many failed before, the dashboard is open to the session exactly if the user
  was an administrator at some known moment of the session less than 300000 milliseconds ago: the
  sign-in, an earlier request, or this one.
\<close>

theorem admin_claim_bounded:
  assumes "session_history E i tr token" and "i \<noteq> []"
    and "jwt_request E None token w = (Inr token', t)"
    and "starts_with path ''/dashboard'' \<or> starts_with path ''/admin''"
  shows "\<exists>(at, flag) \<in> set ((clock E (ticks w), admin_flag i w) # tr).
      authorized (Some token') path = flag \<and> clock E (ticks w) < at + 300000"
proof -
  obtain at where "tk_id token = Some i" "tk_adminCheckedAt token = Some at" "(at, tk_isAdmin token) \<in> set tr"
    using claim_checked [OF assms(1,2)] by blast
  with assms show ?thesis
    by (cases "clock E (ticks w) < at + 300000")
      (auto simp: jwt_request_Inr refresh_cases authorized_def intro: bexI [of _ "(at, tk_isAdmin token)"])
qed

section \<open>What the gates leave open\<close>

text \<open>The provider does not look at the age of the password; only the sign-in form does.\<close>

lemma age_not_checked:
  "further_gates E j (user\<lparr>us_password_updated_at := d\<rparr>) password otp meth site = further_gates E j user password otp meth site"
  by (simp add: further_gates_def verify_address_def [abs_def] Let_def cong: if_cong)

text \<open>An account with an authenticator signs in by its code, also while its address is to be verified.\<close>

lemma totp_skips_verification:
  assumes "verifyCode E userId otp w = (Inr True, t)" and "otp \<noteq> []"
  shows "second_factor E j userId otp ''totp'' True active True w = (Inr (Some j), t)"
  using assms by (simp add: second_factor_def chosen_method_def totp_factor_def run_seq)

text \<open>The sign-in form never asks for the verification of an address: with the mail configured, an address makes a code mandatory.\<close>

lemma verification_never_begins: "fst (pick_challenge E j user site w) \<noteq> Inr (Begin_verification, j')"
  by (auto simp: pick_challenge_def Let_def run_seq split: sum.splits prod.splits)

end
