(* ===== verification/Samples.thy ===== *)
theory Samples
  imports CodeGrant "HOL-Library.Code_Target_Nat"
begin

text \<open>
  A concrete platform and a concrete database: one environment, a public and a confidential
  client, two scopes, a user, an authorization code and a refresh token. The witnesses of
  the properties evaluate the operations on them, which shows that the hypotheses of the
  properties can hold.
\<close>

definition sample_bytes :: "string \<Rightarrow> 8 word list" where
  "sample_bytes s = List.map (\<lambda>c. of_nat (of_char c)) s"

definition sample_cfg :: cfg where
  "sample_cfg =
     \<lparr>clock = (\<lambda>n. n), uuid = (\<lambda>n. replicate (Suc n) CHR ''u''),
      random_bytes = (\<lambda>n k. replicate k (of_nat n)), sha256 = sample_bytes,
      hmac_sha256 = (\<lambda>m k. sample_bytes m), ctx_env = (\<lambda>_. None), process_env = (\<lambda>_. None),
      auth_assets = None, import_pkcs8 = Some, sign_jwt = (\<lambda>_ _ _. ''a.b.c''),
      jwt_verify = (\<lambda>_ _ _. None), decode_jwt = (\<lambda>_. None), parse_jwks = (\<lambda>_. None),
      parse_json = (\<lambda>s. Some (JOther s)), parse_number = (\<lambda>_. None), parse_date = (\<lambda>_. None),
      parse_url = (\<lambda>_. Some \<lparr>url_protocol = ''https:'', url_hostname = ''h'', url_hash = []\<rparr>), url_with_hostname = (\<lambda>u _. u), url_set_params = (\<lambda>u _. u),
      argon_hash = Some (\<lambda>s. Some (''$argon2'' @ s)), argon_verify = (\<lambda>s h. Some (h = ''$argon2'' @ s)),
      md5 = (\<lambda>s. replicate 32 CHR ''0''), mailer = None,
      send_notice = (\<lambda>_. None), math_random = (\<lambda>n k. n mod k), hmac_sha1 = (\<lambda>k m. replicate 20 (of_nat (length m))),
      aes_encrypt = (\<lambda>k iv s. ''x'' @ s), aes_decrypt = (\<lambda>k iv s. Some (tl s)),
      jwt_verify_issued = (\<lambda>_ _ _ _ _. None), uri_component = (\<lambda>s. s),
      pending_bytes = (\<lambda>ps e. sample_bytes (snd (hd ps))),
      parse_pending = (\<lambda>bs. Some (Pending (Some 300) [''client_id'' \<mapsto> JString (List.map (\<lambda>b. char_of (unat b)) bs)])),
      webauthn_challenge = (\<lambda>n. ''ch''),
      verify_registration = (\<lambda>x a. Webauthn_verified
        \<lparr>nc_id = an_id a, nc_public_key = ''pk'', nc_counter = 0, nc_device_type = ''singleDevice'', nc_backed_up = False\<rparr>),
      verify_assertion = (\<lambda>x c a. Webauthn_verified (Suc (pk_counter c)))\<rparr>"

definition sample_client :: client_row where
  "sample_client =
     \<lparr>cl_id = ''c1'', cl_client_id = ''app'', cl_client_secret = [], cl_environment_id = ''e1'',
      cl_created_by = None, cl_expires_at = None, cl_name = None,
      cl_token_endpoint_auth_method = ''none'', cl_is_dynamic = False, cl_is_test = False,
      cl_home_url = None, cl_home_display_name = None, cl_show_on_home = False\<rparr>"

definition sample_user :: user_row where
  "sample_user =
     \<lparr>us_id = ''s1'', us_username = ''ada'', us_name = None, us_email = None,
      us_email_verified_at = None, us_avatar_key = None, us_password_hash = [],
      us_password_updated_at = None, us_is_admin = False, us_is_test_user = False\<rparr>"

definition far :: string where "far = ''2000-01-01T00:00:00.000Z''"

definition sample_code :: code_row where
  "sample_code =
     \<lparr>ac_id = ''k1'', ac_code_id = ''code'', ac_client_id = ''c1'', ac_redirect_uri = ''r'',
      ac_code_challenge = toBase64Url (sample_bytes ''ver''), ac_code_challenge_method = ''S256'',
      ac_subject = ''s1'', ac_nonce = None, ac_auth_time = None, ac_expires_at = far,
      ac_used_at = None, ac_created_at = far, ac_resource = None\<rparr>"

definition sample_refresh :: "string \<Rightarrow> string \<Rightarrow> string option \<Rightarrow> string option \<Rightarrow> refresh_row" where
  "sample_refresh i v parent revoked =
     \<lparr>rt_id = i, rt_refresh_token_id = v, rt_client_id = ''c1'', rt_subject = Some ''s1'',
      rt_access_token_id = None, rt_expires_at = far, rt_revoked_at = revoked,
      rt_rotated_from_id = parent, rt_created_at = far, rt_resource = None\<rparr>"

definition sample_world :: world where
  "sample_world =
     \<lparr>environments = [\<lparr>env_id = ''e1'', env_name = ''Prod'', env_display_name = None\<rparr>],
      users = [sample_user],
      users_environments = [\<lparr>ue_id = ''ue'', ue_user_id = ''s1'', ue_environment_id = ''e1''\<rparr>],
      clients = [sample_client],
      redirect_uris = [\<lparr>ru_id = ''ru'', ru_client_id = ''c1'', ru_redirect_uri = ''r''\<rparr>],
      scopes = [\<lparr>sc_id = ''p1'', sc_scope_name = ''read'', sc_display_name = None, sc_description = None\<rparr>],
      client_scopes = [\<lparr>cs_id = ''cs'', cs_client_id = ''c1'', cs_scope_id = ''p1''\<rparr>],
      client_claims = [], api_keys = [], api_key_scopes = [], user_consents = [],
      tokens = [], token_scopes = [],
      authorization_codes = [sample_code],
      authorization_code_scopes = [\<lparr>lk_id = ''l1'', lk_owner = ''k1'', lk_client_scope_id = ''cs''\<rparr>],
      refresh_tokens = [sample_refresh ''f1'' ''rt1'' None (Some ''x''), sample_refresh ''f2'' ''rt2'' (Some ''f1'') None],
      refresh_token_scopes = [\<lparr>lk_id = ''l2'', lk_owner = ''f2'', lk_client_scope_id = ''cs''\<rparr>],
      admin_audit_log = [], site_settings = None, user_challenges = [], user_totp = [], dcr_rate_limit = [],
      password_policies = [], password_policy_environments = [], site_admin_api_clients = [], passkey_challenges = [],
      user_passkeys = [], passkey_exchange_tokens = [], token_activity_log = [], assets = Map.empty, ticks = 0, draws = 0\<rparr>"

definition sample_request :: token_request where
  "sample_request =
     \<lparr>rq_grantType = Some ''authorization_code'', rq_clientId = Some ''app'', rq_clientSecret = None,
      rq_scope = None, rq_code = Some ''code'', rq_redirectUri = Some ''r'',
      rq_codeVerifier = Some ''ver'', rq_refreshToken = None, rq_resource = None\<rparr>"

definition succeeds :: "'a m \<Rightarrow> world \<Rightarrow> bool" where
  "succeeds p w = (case fst (p w) of Inl e \<Rightarrow> False | Inr x \<Rightarrow> True)"

definition result_of :: "'a m \<Rightarrow> world \<Rightarrow> 'a" where
  "result_of p w = projr (fst (p w))"

definition state_after :: "'a m \<Rightarrow> world \<Rightarrow> world" where
  "state_after p w = snd (p w)"

lemma run_any: "p w = (fst (p w), state_after p w)" by (simp add: state_after_def)

lemma succeeds_run: "succeeds p w \<Longrightarrow> p w = (Inr (result_of p w), state_after p w)"
  by (cases "p w") (auto simp: succeeds_def result_of_def state_after_def split: sum.splits)

section \<open>Evaluation\<close>

lemma sample_instants [simp]:
  "toISOString 0 = ''1970-01-01T00:00:00.000Z''" "toISOString (Suc 0) = ''1970-01-01T00:00:00.001Z''"
  "toISOString 2 = ''1970-01-01T00:00:00.002Z''" "toISOString 3600000 = ''1970-01-01T01:00:00.000Z''"
  "toISOString 3600002 = ''1970-01-01T01:00:00.002Z''"
  by code_simp+

lemmas sample_rows =
  sample_cfg_def sample_world_def sample_client_def sample_user_def sample_code_def sample_refresh_def

lemmas sample_defs = sample_rows sample_request_def

lemma sample_clock [simp]: "clock sample_cfg n = n"
  by (simp add: sample_cfg_def)

lemma sample_authenticated [simp]:
  "authenticateClient sample_cfg (Some ''app'') None sample_world =
     (Inr (rowToClient sample_world sample_client), sample_world\<lparr>ticks := 1\<rparr>)"
  by (simp add: authenticateClient_def run_seq check_secret_def client_by_identifier_def expired_at_def
      rowToClient_def sample_defs)

text \<open>The grants of the client, the code and the refresh tokens, in any state of the clock.\<close>

abbreviation sample_grant :: scope_grant where
  "sample_grant \<equiv> \<lparr>g_clientScopeId = ''cs'', g_scopeId = ''p1'', g_scopeName = ''read''\<rparr>"

lemma sample_grants [simp]: "client_scope_grants ''c1'' (sample_world\<lparr>ticks := n\<rparr>) = [sample_grant]"
proof -
  have "client_scope_grants ''c1'' sample_world = [sample_grant]" by code_simp
  then show ?thesis by (simp add: client_scope_grants_def grants_of_row_def [abs_def])
qed

lemma sample_code_found:
  "getByCodeId ''code'' (sample_world\<lparr>ticks := n\<rparr>)
     = Some \<lparr>code_row = sample_code, code_clientScopeIds = [''cs'']\<rparr>"
proof -
  have "getByCodeId ''code'' sample_world = Some \<lparr>code_row = sample_code, code_clientScopeIds = [''cs'']\<rparr>"
    by code_simp
  then show ?thesis by (simp add: getByCodeId_def)
qed

lemma sample_still_granted [simp]: "still_granted [sample_grant] [''cs''] = [sample_grant]"
  by code_simp

lemma sample_no_scope [simp]: "parseScopeParam None = []"
  by code_simp

lemma sample_not_expired [simp]:
  "\<not> far \<le> ''1970-01-01T00:00:00.001Z''" "\<not> far \<le> ''1970-01-01T00:00:00.000Z''"
  by code_simp+

lemma sample_request_simps [simp]:
  "rq_clientId sample_request = Some ''app''" "rq_clientSecret sample_request = None"
  "rq_code sample_request = Some ''code''" "rq_redirectUri sample_request = Some ''r''"
  "rq_codeVerifier sample_request = Some ''ver''" "rq_scope sample_request = None"
  "rq_resource sample_request = None"
  by (simp_all add: sample_request_def)

lemma sample_row_id [simp]: "c_id (rowToClient sample_world sample_client) = ''c1''"
  by (simp add: rowToClient_def sample_client_def)

lemma sample_code_fields [simp]: "code_row \<lparr>code_row = c, code_clientScopeIds = i\<rparr> = c"
  by simp

lemma sample_pkce [simp]: "toS256Challenge sample_cfg ''ver'' = toBase64Url (sample_bytes ''ver'')"
  by (simp add: toS256Challenge_def sample_cfg_def)

lemma generateOpaqueSecret_run:
  "generateOpaqueSecret E pre n w =
     (Inr (pre @ ''_'' @ hex_bytes (random_bytes E (draws w) n)), w\<lparr>draws := Suc (draws w)\<rparr>)"
  by (simp add: generateOpaqueSecret_def)

text \<open>What issuing an opaque pair runs through.\<close>

lemmas issue_run =
  issueTokenPair_def env_or_def truthy_def issue_opaque_def run_seq store_tokens_def createAccessToken_def
  createRefreshToken_def insert_link_def Let_def guarded_def tokens_violated_def link_violated_def
  refresh_violated_def new_refresh_row_def grant_params_def access_row_def put_token_scope_def
  put_refresh_scope_def generateOpaqueSecret_run

lemma sample_code_checked:
  "check_code sample_cfg sample_request (rowToClient sample_world sample_client) ''r'' ''ver'' sample_code
     ''1970-01-01T00:00:00.001Z'' w = (Inr (), w)"
  by (simp add: check_code_def run_seq sample_code_def sample_request_def sample_client_def rowToClient_def
      truthy_def)

lemma sample_code_request:
  "check_code_request sample_cfg sample_request sample_world =
     (Inr \<lparr>cr_client = rowToClient sample_world sample_client, cr_code = sample_code,
           cr_selected = [sample_grant], cr_now = toISOString (Suc 0)\<rparr>, sample_world\<lparr>ticks := 2\<rparr>)"
  by (simp add: check_code_request_def run_seq sample_code_found sample_code_checked selectScopeGrants_def)

lemma sample_code_exchange: "succeeds (exchangeAuthorizationCode sample_cfg sample_request) sample_world"
proof -
  have "succeeds (\<lambda>w. seq (consume_code \<lparr>cr_client = rowToClient sample_world sample_client, cr_code = sample_code,
           cr_selected = [sample_grant], cr_now = toISOString (Suc 0)\<rparr>) (\<lambda>_.
        issueTokenPair sample_cfg (code_issue_params \<lparr>cr_client = rowToClient sample_world sample_client,
           cr_code = sample_code, cr_selected = [sample_grant], cr_now = toISOString (Suc 0)\<rparr>)) w)
      (sample_world\<lparr>ticks := 2\<rparr>)"
    by (simp add: succeeds_def consume_code_def markUsed_def mark_used_def code_issue_params_def issue_run
        rowToClient_def sample_rows cong: seq_cong_first)
  then show ?thesis
    by (simp add: exchangeAuthorizationCode_def run_seq sample_code_request succeeds_def)
qed

lemma sample_clockless: "ticks sample_world = 0"
  by (simp add: sample_world_def)

end
