(* ===== verification/Witnesses.thy ===== *)
theory Witnesses
  imports Samples RefreshGrant Introspect
begin

text \<open>
  Witnesses: every property with hypotheses is applied to the sample platform and database
  (or to a small variation of them), where its hypotheses hold by evaluation.
\<close>

section \<open>Authorization codes\<close>

lemma code_exchange_sound_witness:
  "\<exists>code :: code_row. code \<in> set (authorization_codes sample_world)
     \<and> rq_code sample_request = Some (ac_code_id code)
     \<and> \<not> code_spent (ac_id code) sample_world
     \<and> code_spent (ac_id code) (state_after (exchangeAuthorizationCode sample_cfg sample_request) sample_world)"
  using code_exchange_sound [OF succeeds_run [OF sample_code_exchange]] by blast

lemma sample_wrong_verifier:
  "exchangeAuthorizationCode sample_cfg (sample_request\<lparr>rq_codeVerifier := Some ''no''\<rparr>) sample_world =
     (Inl (oauth Invalid_grant ''code_verifier does not match code_challenge.'' 400), sample_world\<lparr>ticks := 2\<rparr>)"
proof -
  have "toBase64Url (sample_bytes ''no'') \<noteq> toBase64Url (sample_bytes ''ver'')" by code_simp
  then have "check_code sample_cfg (sample_request\<lparr>rq_codeVerifier := Some ''no''\<rparr>)
      (rowToClient sample_world sample_client) ''r'' ''no'' sample_code ''1970-01-01T00:00:00.001Z'' w =
      (Inl (oauth Invalid_grant ''code_verifier does not match code_challenge.'' 400), w)" for w
    by (simp add: check_code_def run_seq rowToClient_def truthy_def toS256Challenge_def sample_defs cong: seq_cong_first)
  then show ?thesis
    by (simp add: exchangeAuthorizationCode_def check_code_request_def run_seq sample_code_found cong: seq_cong_first)
qed


section \<open>Refresh tokens\<close>

definition sample_refresh_request :: "string \<Rightarrow> token_request" where
  "sample_refresh_request v =
     sample_request\<lparr>rq_grantType := Some ''refresh_token'', rq_refreshToken := Some v\<rparr>"

lemma sample_refresh_request_simps [simp]:
  "rq_clientId (sample_refresh_request v) = Some ''app''" "rq_clientSecret (sample_refresh_request v) = None"
  "rq_refreshToken (sample_refresh_request v) = Some v" "rq_scope (sample_refresh_request v) = None"
  by (simp_all add: sample_refresh_request_def)


lemma sample_refresh_found:
  "getByTokenId ''rt1'' sample_world =
     Some \<lparr>refresh_row = sample_refresh ''f1'' ''rt1'' None (Some ''x''), refresh_clientScopeIds = []\<rparr>"
  "getByTokenId ''rt2'' sample_world =
     Some \<lparr>refresh_row = sample_refresh ''f2'' ''rt2'' (Some ''f1'') None, refresh_clientScopeIds = [''cs'']\<rparr>"
  by code_simp+

lemma sample_refresh_found_later:
  "getByTokenId v (sample_world\<lparr>ticks := n\<rparr>) = getByTokenId v sample_world"
  by (simp add: getByTokenId_def)






lemma sample_refresh_checked:
  "check_refresh_request sample_cfg (sample_refresh_request ''rt2'') sample_world =
     (Inr \<lparr>fr_client = rowToClient sample_world sample_client,
           fr_token = sample_refresh ''f2'' ''rt2'' (Some ''f1'') None,
           fr_selected = [sample_grant], fr_now = toISOString (Suc 0)\<rparr>, sample_world\<lparr>ticks := 2\<rparr>)"
proof -
  have "subject_allowed (rowToClient sample_world sample_client) (sample_refresh ''f2'' ''rt2'' (Some ''f1'') None)
      (sample_world\<lparr>ticks := 2\<rparr>)"
    by (simp add: subject_allowed_def user_environments_def user_by_id_def truthy_def rowToClient_def rowToUser_def sample_rows)
  then have "check_refresh (rowToClient sample_world sample_client) (sample_refresh ''f2'' ''rt2'' (Some ''f1'') None)
      ''1970-01-01T00:00:00.001Z'' (sample_world\<lparr>ticks := 2\<rparr>) = (Inr (), sample_world\<lparr>ticks := 2\<rparr>)"
    by (simp add: check_refresh_cases sample_refresh_def truthy_def)
  then show ?thesis
    by (simp add: check_refresh_request_def need_text_def run_seq sample_refresh_found_later sample_refresh_found
        selectScopeGrants_def numeral_2_eq_2 [symmetric] cong: seq_cong_first)
qed

lemma sample_rotation:
  "succeeds (exchangeRefreshToken sample_cfg (sample_refresh_request ''rt2'')) sample_world"
proof -
  let ?q = "\<lparr>fr_client = rowToClient sample_world sample_client,
           fr_token = sample_refresh ''f2'' ''rt2'' (Some ''f1'') None,
           fr_selected = [sample_grant], fr_now = toISOString (Suc 0)\<rparr>"
  have "succeeds (\<lambda>w. seq (consume_refresh ?q) (\<lambda>_. issueTokenPair sample_cfg (refresh_issue_params ?q)) w)
      (sample_world\<lparr>ticks := 2\<rparr>)"
    by (simp add: succeeds_def consume_refresh_def revoke_refresh_def revoke_one_def revoke_where_def revoke_row_def
        refresh_issue_params_def issue_run rowToClient_def sample_rows cong: seq_cong_first)
  then show ?thesis
    by (simp add: exchangeRefreshToken_def run_seq sample_refresh_checked succeeds_def)
qed

lemma refresh_rotation_sound_witness:
  "\<exists>(tok :: refresh_row) (rrow :: refresh_row). rq_refreshToken (sample_refresh_request ''rt2'') = Some (rt_refresh_token_id tok)
     \<and> \<not> refresh_spent (rt_id tok) sample_world
     \<and> rt_rotated_from_id rrow = Some (rt_id tok) \<and> rt_revoked_at rrow = None
     \<and> tr_refresh_token (result_of (exchangeRefreshToken sample_cfg (sample_refresh_request ''rt2'')) sample_world)
         = Some (rt_refresh_token_id rrow)"
  using refresh_rotation_sound [OF succeeds_run [OF sample_rotation]] by blast

section \<open>Access tokens\<close>

definition sample_token :: token_row where
  "sample_token = \<lparr>at_id = ''a1'', at_token_id = ''at1'', at_client_id = ''c1'', at_expires_at = far,
     at_resource = None, at_api_key_id = None\<rparr>"

definition sample_stocked :: world where
  "sample_stocked = sample_world\<lparr>tokens := [sample_token],
     token_scopes := [\<lparr>lk_id = ''l3'', lk_owner = ''a1'', lk_client_scope_id = ''cs''\<rparr>]\<rparr>"

lemma sample_stocked_clockless: "ticks sample_stocked = 0"
  by (simp add: sample_stocked_def sample_clockless)

lemma sample_stocked_tokens: "tokens sample_stocked = [sample_token]"
  by (simp add: sample_stocked_def)

lemma sample_opaque: "normalized_token (Some ''at1'') = ''at1''" "\<not> isJwtFormat ''at1''"
  by code_simp+

lemma sample_token_found:
  "getAccessTokenByTokenId ''at1'' sample_stocked = Some
     \<lparr>a_id = ''a1'', a_tokenId = ''at1'', a_clientId = ''app'', a_environmentId = ''e1'', a_environmentName = ''Prod'',
      a_expiresAt = far, a_scopeNames = [''read''], a_resource = None, a_apiKeyId = None\<rparr>"
  by code_simp

lemma sample_validation:
  "succeeds (validateAccessToken sample_cfg (Some ''at1'') [''read''] (Some ''prod'') None) sample_stocked"
  "vr_valid (result_of (validateAccessToken sample_cfg (Some ''at1'') [''read''] (Some ''prod'') None) sample_stocked)"
proof -
  have names: "blank_to_none (Some ''prod'') = Some ''prod''" "js_lower ''Prod'' = js_lower ''prod''"
    "''1970-01-01T00:00:00.000Z'' < far" by code_simp+
  then show "succeeds (validateAccessToken sample_cfg (Some ''at1'') [''read''] (Some ''prod'') None) sample_stocked"
    "vr_valid (result_of (validateAccessToken sample_cfg (Some ''at1'') [''read''] (Some ''prod'') None) sample_stocked)"
    by (simp_all add: succeeds_def result_of_def validateAccessToken_def sample_opaque validate_by_id_def run_seq
        sample_token_found validate_record_def blank_to_none_def [of None] Let_def sample_stocked_clockless cong: seq_cong_first)
qed

lemma validate_sound_witness:
  "\<exists>k :: token_row. k \<in> set (tokens sample_stocked)
     \<and> ''1970-01-01T00:00:00.000Z'' < at_expires_at k
     \<and> set [''read''] \<subseteq> set (scope_names_of sample_stocked (token_scopes sample_stocked) (at_id k))"
  using validate_sound [OF succeeds_run [OF sample_validation(1)] sample_validation(2)]
  by (elim bexE conjE) (intro exI conjI, assumption,
      simp_all add: sample_stocked_def sample_clockless)

lemma sample_revocation_run:
  "revokeTokenByValue sample_cfg (Some ''at1'') sample_stocked =
     (Inr \<lparr>mr_done = True, mr_tokenType = Some Access\<rparr>,
      sample_stocked\<lparr>ticks := 1, tokens := [sample_token\<lparr>at_expires_at := ''1970-01-01T00:00:00.000Z''\<rparr>]\<rparr>)"
proof -
  have none: "getByTokenId ''at1'' (sample_stocked\<lparr>ticks := n\<rparr>) = None" for n
    by (simp add: getByTokenId_def sample_stocked_def sample_rows)
  have "access_token_id sample_cfg ''at1'' = ''at1''" "''1970-01-01T00:00:00.000Z'' < far" by code_simp+
  then show ?thesis
    by (simp add: revokeTokenByValue_def sample_opaque run_seq none revokeAccessTokenByTokenId_def
        updating_def shorten_def sample_stocked_tokens sample_token_def sample_stocked_clockless Let_def cong: seq_cong_first)
qed

lemma sample_revocation:
  "revokeTokenByValue sample_cfg (Some ''at1'') sample_stocked =
     (Inr \<lparr>mr_done = True, mr_tokenType = Some Access\<rparr>,
      state_after (revokeTokenByValue sample_cfg (Some ''at1'')) sample_stocked)"
  by (simp add: state_after_def sample_revocation_run)

lemma sample_always_validates:
  "succeeds (validateAccessToken sample_cfg (Some ''at1'') [] None None) w"
  by (simp add: succeeds_def validateAccessToken_def sample_opaque validate_by_id_def run_seq Let_def
      blank_to_none_def split: option.splits)


section \<open>Cleanup and issuing\<close>

lemma sample_cleanup: "succeeds (cleanupTokenArtifacts sample_cfg False) sample_stocked"
  by (simp add: succeeds_def cleanupTokenArtifacts_def deleteExpiredAccessTokens_def deleteExpired_def deleteRevoked_def
      deleteUsedOrExpired_def run_seq Let_def cong: seq_cong_first)

lemma cleanup_exact_witness:
  "tokens (state_after (cleanupTokenArtifacts sample_cfg False) sample_stocked) =
     filter (\<lambda>k. \<not> at_expires_at k \<le> ''1970-01-01T00:00:00.000Z'') (tokens sample_stocked)"
  using cleanup_exact [OF succeeds_run [OF sample_cleanup]] by (simp add: sample_stocked_clockless)


definition sample_params :: issue_params where
  "sample_params =
     \<lparr>ip_clientId = ''c1'', ip_clientScopeIds = [''cs''], ip_scopeNames = [''read''], ip_subject = None,
      ip_rotatedFrom = None, ip_clientIdentifier = ''app'', ip_issueIdToken = False, ip_nonce = None,
      ip_authTime = None, ip_resource = None, ip_issueRefreshToken = False, ip_apiKeyRowId = None\<rparr>"

lemma sample_issue: "succeeds (issue_opaque sample_cfg sample_params) sample_world"
  by (simp add: succeeds_def issue_run sample_params_def sample_rows cong: seq_cong_first)

lemma opaque_issue_validates_witness:
  "\<exists>v u. validateAccessToken sample_cfg
        (Some (tr_access_token (result_of (issue_opaque sample_cfg sample_params) sample_world))) [''read''] None None
        (state_after (issue_opaque sample_cfg sample_params) sample_world) = (Inr v, u)
      \<and> set (vr_tokenScopes v) = {''read''}"
proof -
  have client: "find (\<lambda>c. cl_id c = ip_clientId sample_params) (clients sample_world) = Some sample_client"
    and env: "find (\<lambda>e. env_id e = cl_environment_id sample_client) (environments sample_world)
       = Some \<lparr>env_id = ''e1'', env_name = ''Prod'', env_display_name = None\<rparr>"
    by (simp_all add: sample_params_def sample_rows)
  have links: "\<forall>l \<in> set (token_scopes sample_world). lk_owner l \<in> at_id ` set (tokens sample_world)"
    and keys: "distinct (List.map cs_id (client_scopes sample_world))" "distinct (List.map sc_id (scopes sample_world))"
    and names: "\<forall>n \<in> set (ip_scopeNames sample_params). n \<noteq> [] \<and> CHR '','' \<notin> set n"
    by (simp_all add: sample_params_def sample_rows)
  have grants: "ip_clientScopeIds sample_params = List.map g_clientScopeId [sample_grant]"
    "ip_scopeNames sample_params = List.map g_scopeName [sample_grant]"
    by (simp_all add: sample_params_def)
  have held: "set [sample_grant] \<subseteq> set (client_scope_grants ''c1'' sample_world)"
    using sample_grants [of 0] by (simp add: sample_world_def)
  obtain v u where "validateAccessToken sample_cfg
        (Some (tr_access_token (result_of (issue_opaque sample_cfg sample_params) sample_world))) [''read''] None None
        (state_after (issue_opaque sample_cfg sample_params) sample_world) = (Inr v, u)"
      "set (vr_tokenScopes v) = set (ip_scopeNames sample_params)"
    using opaque_issue_validates [OF succeeds_run [OF sample_issue] links client env grants held keys names] by blast
  moreover have "set (ip_scopeNames sample_params) = {''read''}" by (simp add: sample_params_def)
  ultimately show ?thesis by (intro exI conjI) simp_all
qed

end
