(* ===== verification/WitnessesB.thy ===== *)
theory WitnessesB
  imports Samples Flow ApiKeyProofs
begin

text \<open>
  Witnesses for the authorization endpoint, consent, client claims and API keys.
\<close>

section \<open>Consent\<close>

lemma sample_consent_recorded:
  "succeeds (record_consent sample_cfg ''s1'' ''c1'' [''read'', ''mail'']) sample_world"
  by (simp add: succeeds_def record_consent_def get_consent_def upsert_consent_def consent_violated_def guarded_def
      run_seq sample_rows cong: seq_cong_first)


lemma sample_withdrawal: "succeeds (revoke_consent sample_cfg ''s1'' ''c1'' None) sample_world"
  by (simp add: succeeds_def revoke_consent_def get_consent_def delete_consent_def revokeAllForSubjectAndClient_def
      expireAccessTokensByIds_run deleteUnusedForSubjectAndClient_def logAction_def buildRow_def insert_audit_def audit_violated_def
      guarded_def run_seq delete_codes_def Let_def sample_rows cong: seq_cong_first)


lemma withdrawn_consent_ends_grants_witness:
  "\<exists>e x. exchangeRefreshToken sample_cfg (sample_request\<lparr>rq_refreshToken := Some ''rt2''\<rparr>)
     (state_after (revoke_consent sample_cfg ''s1'' ''c1'' None) sample_world) = (Inl e, x)"
proof -
  let ?t = "state_after (revoke_consent sample_cfg ''s1'' ''c1'' None) sample_world"
  let ?rq = "sample_request\<lparr>rq_refreshToken := Some ''rt2''\<rparr>"
  have ids: "distinct (List.map rt_id (refresh_tokens sample_world))"
    "distinct (List.map ac_id (authorization_codes sample_world))" by code_simp+
  have "refresh_tokens ?t = List.map (revoke_row (\<lambda>r. rt_subject r = Some ''s1'' \<and> rt_client_id r = ''c1'')
      ''1970-01-01T00:00:00.000Z'') (refresh_tokens sample_world)"
    using revoke_consent_tables(3) [OF succeeds_run [OF sample_withdrawal]] by (simp add: sample_world_def)
  then obtain tok where "getByTokenId (the (rq_refreshToken ?rq)) ?t = Some tok" "rt_subject (refresh_row tok) = Some ''s1''"
    "rt_client_id (refresh_row tok) = ''c1''"
    by (simp add: getByTokenId_def sample_world_def sample_refresh_def)
  then show ?thesis
    using withdrawn_consent_ends_grants [OF succeeds_run [OF sample_withdrawal] ids refl refl] by blast
qed

section \<open>A replayed code\<close>

text \<open>Between the two requests for the code, the user withdraws consent and the cleanup runs.\<close>

lemma code_replay_rejected_witness:
  "\<exists>e v. exchangeAuthorizationCode sample_cfg sample_request
      (state_after (cleanupTokenArtifacts sample_cfg False) (state_after (revoke_consent sample_cfg ''s1'' ''c1'' None)
        (state_after (exchangeAuthorizationCode sample_cfg sample_request) sample_world))) = (Inl e, v)"
proof -
  let ?t = "state_after (exchangeAuthorizationCode sample_cfg sample_request) sample_world"
  let ?s = "state_after (revoke_consent sample_cfg ''s1'' ''c1'' None) ?t"
  let ?u = "state_after (cleanupTokenArtifacts sample_cfg False) ?s"
  obtain c where c: "rq_code sample_request = Some c" by (simp add: sample_request_def)
  have one: "code_step sample_cfg c ?t ?s" by (rule code_step.withdrawn [OF run_any])
  have two: "code_step sample_cfg c ?s ?u" by (rule code_step.cleaned [OF run_any])
  have steps: "(code_step sample_cfg c)\<^sup>*\<^sup>* ?t ?u"
    by (rule converse_rtranclp_into_rtranclp [of "code_step sample_cfg c", OF one r_into_rtranclp [of "code_step sample_cfg c", OF two]])
  have keys: "distinct (List.map ac_id (authorization_codes sample_world))"
    "distinct (List.map ac_code_id (authorization_codes sample_world))" by code_simp+
  from code_replay_rejected [OF succeeds_run [OF sample_code_exchange] c keys steps c] show ?thesis by blast
qed

section \<open>Authorize\<close>

definition sample_authorize :: authorize_params where
  "sample_authorize =
     \<lparr>az_responseType = Some ''code'', az_clientId = Some ''app'', az_redirectUri = Some ''r'', az_scope = None,
      az_state = Some ''st'', az_codeChallenge = Some (toBase64Url (sample_bytes ''ver'')),
      az_codeChallengeMethod = Some ''S256'', az_subject = ''s1'', az_nonce = None, az_resource = None\<rparr>"

lemma sample_authorize_simps [simp]:
  "az_subject sample_authorize = ''s1''" "az_scope sample_authorize = None" "az_state sample_authorize = Some ''st''"
  "az_clientId sample_authorize = Some ''app''"
  by (simp_all add: sample_authorize_def)

lemma sample_identified:
  "identify sample_cfg sample_authorize sample_world =
     (Inr (\<lparr>zi_clientId = ''app'', zi_redirectUri = ''r'', zi_codeChallenge = toBase64Url (sample_bytes ''ver''),
            zi_resource = None\<rparr>, rowToClient sample_world sample_client, ''r'', 0), sample_world\<lparr>ticks := 1\<rparr>)"
proof -
  have challenge: "toBase64Url (sample_bytes ''ver'') \<noteq> []" by code_simp
  then have params: "check_authorize_params sample_cfg sample_authorize sample_world =
     (Inr \<lparr>zi_clientId = ''app'', zi_redirectUri = ''r'', zi_codeChallenge = toBase64Url (sample_bytes ''ver''),
            zi_resource = None\<rparr>, sample_world)"
    by (simp add: check_authorize_params_def sample_authorize_def normalizeResourceParam_def outcome_def run_seq cong: seq_cong_first)
  have "user_may_use ''s1'' (rowToClient sample_world sample_client) (sample_world\<lparr>ticks := Suc 0\<rparr>)"
    "client_by_identifier ''app'' sample_world = Some (rowToClient sample_world sample_client)"
    "\<not> expired_at (c_expiresAt (rowToClient sample_world sample_client)) now"
    "redirect_uris_of ''c1'' (sample_world\<lparr>ticks := n\<rparr>) = [''r'']" for now n
    by (simp_all add: user_may_use_def user_environments_def user_by_id_def client_by_identifier_def expired_at_def
        redirect_uris_of_def rowToClient_def rowToUser_def sample_rows)
  then show ?thesis
    by (simp add: identify_def run_seq params may_use_client_cases matchRegisteredRedirectUri_def sample_clockless
        cong: seq_cong_first)
qed

lemma sample_authorized: "succeeds (authorize sample_cfg sample_authorize) sample_world"
proof -
  have "check_scopes sample_authorize (rowToClient sample_world sample_client) ''r'' (sample_world\<lparr>ticks := 1\<rparr>)
      = (Inr [sample_grant], sample_world\<lparr>ticks := 1\<rparr>)"
    by (simp add: check_scopes_def resolveClientScopeGrants_def sample_authorize_def run_seq)
  moreover have "succeeds (\<lambda>w. seq (store_code sample_cfg sample_authorize z (rowToClient sample_world sample_client) ''r'' [sample_grant] 0)
      (\<lambda>codeId. seq (record_consent sample_cfg (az_subject sample_authorize) ''c1'' [''read'']) (\<lambda>_.
       redirect_to sample_cfg ''r'' codeId (az_state sample_authorize))) w) (sample_world\<lparr>ticks := 1\<rparr>)" for z
    by (simp add: succeeds_def store_code_def generateOpaqueSecret_run create_code_def codes_violated_def guarded_def
        insert_link_def link_violated_def put_code_scope_def code_for_def record_consent_def get_consent_def
        upsert_consent_def consent_violated_def redirect_to_def run_seq Let_def sample_rows sample_authorize_def
        rowToClient_def cong: seq_cong_first)
  ultimately show ?thesis
    by (simp add: authorize_def run_seq sample_identified succeeds_def)
qed

lemma authorize_sound_witness:
  "\<exists>code :: code_row. authorization_codes (state_after (authorize sample_cfg sample_authorize) sample_world)
       = authorization_codes sample_world @ [code]
     \<and> ac_redirect_uri code = ''r'' \<and> az_codeChallenge sample_authorize = Some (ac_code_challenge code)"
proof -
  have "\<forall>uri \<in> set (redirect_uris_of i sample_world). uri = ''r''" for i
    by (simp add: redirect_uris_of_def sample_world_def)
  then show ?thesis
    using authorize_sound [OF succeeds_run [OF sample_authorized]] by metis
qed

lemma sample_identified_any:
  "identify sample_cfg (sample_authorize\<lparr>az_scope := sc\<rparr>) sample_world =
     (Inr (\<lparr>zi_clientId = ''app'', zi_redirectUri = ''r'', zi_codeChallenge = toBase64Url (sample_bytes ''ver''),
            zi_resource = None\<rparr>, rowToClient sample_world sample_client, ''r'', 0), sample_world\<lparr>ticks := 1\<rparr>)"
proof -
  have "check_authorize_params sample_cfg (sample_authorize\<lparr>az_scope := sc\<rparr>) = check_authorize_params sample_cfg sample_authorize"
    by (simp add: check_authorize_params_def)
  then show ?thesis using sample_identified by (simp add: identify_def)
qed

lemma authorize_refusal_witness:
  "\<exists>cl. client_by_identifier ''app'' sample_world = Some cl \<and> ''r'' \<in> set (redirect_uris_of (c_id cl) sample_world)"
proof -
  let ?p = "sample_authorize\<lparr>az_scope := Some ''admin''\<rparr>"
  have "parseScopeParam (Some ''admin'') = [''admin'']" by code_simp
  moreover have "client_scope_grants_by_names ''c1'' [''admin''] sample_world = []" by code_simp
  then have "client_scope_grants_by_names ''c1'' [''admin''] (sample_world\<lparr>ticks := n\<rparr>) = []" for n
    by (simp add: client_scope_grants_by_names_def client_scope_grants_def grants_of_row_def [abs_def])
  ultimately have "authorize sample_cfg ?p sample_world =
     (Inl (OAuthServiceError Invalid_scope ''Requested scopes are not allowed for this client.'' 400 (Some ''r'') (Some ''st'')),
      sample_world\<lparr>ticks := 1\<rparr>)"
    by (simp add: authorize_def run_seq sample_identified_any check_scopes_def resolveClientScopeGrants_def)
  from authorize_refusal [OF this] show ?thesis by auto
qed

section \<open>From authorize to token\<close>

definition sample_issued :: world where
  "sample_issued = state_after (authorize sample_cfg sample_authorize) sample_world"

lemma sample_issued_codes:
  "\<exists>code :: code_row. authorization_codes sample_issued = authorization_codes sample_world @ [code]
     \<and> ac_client_id code = ''c1'' \<and> ac_redirect_uri code = ''r''"
proof -
  have scopes: "check_scopes sample_authorize (rowToClient sample_world sample_client) ''r'' (sample_world\<lparr>ticks := 1\<rparr>)
      = (Inr [sample_grant], sample_world\<lparr>ticks := 1\<rparr>)"
    by (simp add: check_scopes_def resolveClientScopeGrants_def sample_authorize_def run_seq)
  show ?thesis
    unfolding sample_issued_def state_after_def authorize_def seq_def sample_identified prod.case sum.case scopes
    by (simp add: store_code_def generateOpaqueSecret_run create_code_def codes_violated_def guarded_def
        insert_link_def link_violated_def put_code_scope_def code_for_def record_consent_def get_consent_def
        upsert_consent_def consent_violated_def redirect_to_def run_seq Let_def sample_rows sample_authorize_def
        rowToClient_def cong: seq_cong_first)
qed

lemma authorize_then_exchange_witness:
  "\<exists>(code :: code_row) u r x. authorization_codes u = authorization_codes sample_world @ [code]
     \<and> exchangeAuthorizationCode sample_cfg (sample_request\<lparr>rq_code := Some (ac_code_id code)\<rparr>) u = (r, x)
     \<and> (\<forall>e. r = Inl e \<longrightarrow> not_a_refusal e)"
proof -
  obtain code :: code_row where code: "authorization_codes sample_issued = authorization_codes sample_world @ [code]"
    "ac_client_id code = ''c1''" "ac_redirect_uri code = ''r''"
    using sample_issued_codes by blast
  let ?u = "sample_world\<lparr>authorization_codes := authorization_codes sample_issued\<rparr>"
  let ?rq = "sample_request\<lparr>rq_code := Some (ac_code_id code)\<rparr>"
  have run: "authorize sample_cfg sample_authorize sample_world
      = (Inr (result_of (authorize sample_cfg sample_authorize) sample_world), sample_issued)"
    unfolding sample_issued_def by (rule succeeds_run [OF sample_authorized])
  have "authenticateClient sample_cfg (Some ''app'') None ?u =
     (Inr (rowToClient sample_world sample_client), ?u\<lparr>ticks := 1\<rparr>)"
    by (simp add: authenticateClient_def run_seq check_secret_def client_by_identifier_def expired_at_def
      rowToClient_def created_by_display_def sample_rows)
  then have auth: "authenticateClient sample_cfg (rq_clientId ?rq) (rq_clientSecret ?rq) ?u =
     (Inr (rowToClient sample_world sample_client), ?u\<lparr>ticks := 1\<rparr>)"
    by simp
  have ticks: "ticks ?u = 0" by (simp add: sample_clockless)
  have challenge: "az_codeChallenge sample_authorize = Some (toS256Challenge sample_cfg ''ver'')"
    by (simp add: sample_authorize_def)
  have codes: "authorization_codes ?u = authorization_codes sample_issued" by simp
  have "(\<exists>resp x. exchangeAuthorizationCode sample_cfg ?rq ?u = (Inr resp, x))
     \<or> (\<exists>e x. exchangeAuthorizationCode sample_cfg ?rq ?u = (Inl e, x) \<and> not_a_refusal e)"
    by (rule authorize_then_exchange [OF run code(1) codes _ _ auth _ _ _ _ _ challenge])
      (simp_all add: code ticks sample_clockless y10k_def)
  moreover have "authorization_codes ?u = authorization_codes sample_world @ [code]" by (simp add: code)
  ultimately show ?thesis by (metis Inl_inject sum.distinct(2))
qed

section \<open>Client claims\<close>

definition sample_claims :: "claim_input list" where
  "sample_claims = [\<lparr>ci_claimName = '' tier '', ci_claimValue = ''gold'', ci_valueType = ''string''\<rparr>]"

lemma client_claims_roundtrip_witness:
  "getTokenClaims sample_cfg ''c1''
      (state_after (setClientClaims sample_cfg ''c1'' sample_claims) sample_world) ''tier'' = Some (JString ''gold'')"
proof -
  have "succeeds (setClientClaims sample_cfg ''c1'' sample_claims) sample_world"
    by code_simp
  have trimmed: "js_trim '' tier '' = ''tier''" "decodeClaimValue sample_cfg ''gold'' ''string'' = Some (JString ''gold'')"
    by code_simp+
  show ?thesis
    using client_claims_roundtrip [OF succeeds_run [OF \<open>succeeds _ _\<close>]]
    by (simp add: sample_claims_def trimmed)
qed

section \<open>API keys\<close>

definition sample_key :: parsed_api_key where
  "sample_key = \<lparr>pk_keyId = replicate 16 CHR ''7'', pk_secret = replicate 64 CHR ''a''\<rparr>"

definition sample_key_row :: api_key_row where
  "sample_key_row = \<lparr>ak_id = ''x1'', ak_key_id = replicate 16 CHR ''7'', ak_key_hash = replicate 32 CHR ''0'',
     ak_client_id = ''c1'', ak_user_id = ''s1'', ak_name = None, ak_created_by = None, ak_created_at = far,
     ak_expires_at = Some far, ak_revoked_at = None, ak_last_used_at = None\<rparr>"

definition sample_keyed :: world where
  "sample_keyed = sample_world\<lparr>api_keys := [sample_key_row],
     api_key_scopes := [\<lparr>lk_id = ''y1'', lk_owner = ''x1'', lk_client_scope_id = ''cs''\<rparr>]\<rparr>"

lemma sample_key_parsed: "parseApiKey (present sample_key) = Some sample_key"
  by code_simp

lemma sample_key_hash: "\<not> isArgon2StoredHash (replicate 32 CHR ''0'')" "isMd5HexStoredHash (replicate 32 CHR ''0'')"
  "js_lower (replicate 32 CHR ''0'') = replicate 32 CHR ''0''" "\<not> far \<le> ''1970-01-01T00:00:00.000Z''"
  by code_simp+

lemma sample_key_verified:
  "verifyPassword sample_cfg Md5 p (replicate 32 CHR ''0'') w = (Inr \<lparr>pv_ok = True, pv_rehash = None\<rparr>, w)"
  by (simp add: verifyPassword_def sample_key_hash) (simp add: sample_cfg_def)

lemma sample_key_authenticated:
  "authenticate_api_key sample_cfg Md5 (present sample_key) sample_keyed =
     (Inr \<lparr>au_apiKey = rowToApiKey sample_world sample_key_row, au_client = rowToClient sample_world sample_client,
           au_user = rowToUser sample_user, au_scopeGrants = [sample_grant]\<rparr>, sample_keyed\<lparr>ticks := 1\<rparr>)"
proof -
  have row: "getByKeyId (pk_keyId sample_key) sample_keyed
      = Some (rowToApiKey sample_world sample_key_row, replicate 32 CHR ''0'')"
    by (simp add: getByKeyId_def sample_keyed_def sample_key_def sample_key_row_def rowToApiKey_def
        user_display_def created_by_display_def cong: option.case_cong)
  have ticks: "ticks sample_keyed = 0" by (simp add: sample_keyed_def sample_clockless)
  have fields: "ak_revoked_at sample_key_row = None" "ak_expires_at sample_key_row = Some far"
    by (simp_all add: sample_key_row_def)
  have "check_credential sample_cfg Md5 (present sample_key) sample_keyed =
     (Inr (rowToApiKey sample_world sample_key_row, ''1970-01-01T00:00:00.000Z''), sample_keyed\<lparr>ticks := 1\<rparr>)"
    by (simp add: check_credential_def run_seq sample_key_parsed row ticks fields truthy_def expired_at_def
        sample_key_hash sample_key_verified cong: seq_cong_first)
  moreover have "check_binding (rowToApiKey sample_world sample_key_row) ''1970-01-01T00:00:00.000Z'' (sample_keyed\<lparr>ticks := 1\<rparr>) =
     (Inr (rowToClient sample_world sample_client, rowToUser sample_user), sample_keyed\<lparr>ticks := 1\<rparr>)"
    by (simp add: check_binding_def run_seq client_by_id_def user_by_id_def user_environments_def expired_at_def
        sample_keyed_def sample_key_row_def rowToClient_def rowToUser_def created_by_display_def sample_rows image_iff
        cong: seq_cong_first)
  moreover have "key_scope_grants ''x1'' (sample_keyed\<lparr>ticks := 1\<rparr>) = [sample_grant]"
    by (simp add: key_scope_grants_def grants_of_row_def sample_keyed_def sample_rows)
  ultimately show ?thesis
    by (simp add: authenticate_api_key_def run_seq) (simp add: sample_key_row_def)
qed




lemma revoked_api_key_dead_witness:
  "\<exists>e v. authenticate_api_key sample_cfg Md5 (present sample_key)
     (state_after (revoke_api_key sample_cfg ''x1'' None None) sample_keyed) = (Inl e, v)"
proof -
  have row: "api_key_by_id ''x1'' sample_keyed = Some (rowToApiKey sample_keyed sample_key_row)"
    by (simp add: api_key_by_id_def sample_keyed_def) (simp add: sample_key_row_def)
  have rows: "distinct (List.map ak_id (api_keys sample_keyed))" "distinct (List.map ak_key_id (api_keys sample_keyed))"
    "\<forall>r \<in> set (api_keys sample_keyed). ak_revoked_at r \<noteq> Some []"
    by (simp_all add: sample_keyed_def sample_key_row_def)
  show ?thesis
    by (rule revoked_api_key_dead [OF run_any [of "revoke_api_key sample_cfg ''x1'' None None"] row rows refl sample_key_parsed])
      (simp add: sample_key_def sample_key_row_def)
qed

lemma sample_key_exchanged:
  "succeeds (exchangeApiKey sample_cfg (Some Md5) (Some (present sample_key)) None None) sample_keyed"
proof -
  have "present sample_key \<noteq> []" by (simp add: present_def API_KEY_PREFIX_def)
  moreover have "succeeds (issueTokenPair sample_cfg (key_issue_params
      \<lparr>au_apiKey = rowToApiKey sample_world sample_key_row, au_client = rowToClient sample_world sample_client,
           au_user = rowToUser sample_user, au_scopeGrants = [sample_grant]\<rparr> [sample_grant] None)) (sample_keyed\<lparr>ticks := 1\<rparr>)"
    by (simp add: succeeds_def key_issue_params_def issue_run sample_keyed_def sample_key_row_def rowToClient_def sample_rows
        cong: seq_cong_first)
  ultimately show ?thesis
    by (simp add: exchangeApiKey_def run_seq sample_key_authenticated normalizeResourceParam_def outcome_def
        selectScopeGrants_def succeeds_def split: sum.splits prod.splits cong: seq_cong_first) (metis fst_conv sum.distinct(1))
qed

lemma api_key_exchange_sound_witness:
  "\<exists>row :: token_row. tokens (state_after
      (exchangeApiKey sample_cfg (Some Md5) (Some (present sample_key)) None None) sample_keyed) = tokens sample_keyed @ [row]
     \<and> at_client_id row = ''c1'' \<and> at_api_key_id row = Some ''x1''"
proof -
  let ?p = "exchangeApiKey sample_cfg (Some Md5) (Some (present sample_key)) None None"
  obtain resp i c where "result_of ?p sample_keyed = (resp, i, c)" by (metis prod_cases3)
  with succeeds_run [OF sample_key_exchanged] have "?p sample_keyed = (Inr (resp, i, c), state_after ?p sample_keyed)" by simp
  from api_key_exchange_sound [OF this] show ?thesis
    by (simp add: sample_keyed_def sample_key_row_def) blast
qed

definition sample_key_params :: create_key_params where
  "sample_key_params = \<lparr>kp_clientRowId = ''c1'', kp_userId = ''s1'', kp_name = None, kp_expiresAt = None,
     kp_scopeNames = [], kp_notifyUser = False\<rparr>"

lemma sample_key_params_checked:
  "check_key_params sample_cfg sample_key_params sample_world =
     (Inr (rowToClient sample_world sample_client, rowToUser sample_user, None), sample_world)"
proof -
  have "client_by_id ''c1'' sample_world = Some (rowToClient sample_world sample_client)"
    "user_by_id ''s1'' sample_world = Some (rowToUser sample_user)" "\<not> u_isTestUser (rowToUser sample_user)"
    by (simp_all add: client_by_id_def user_by_id_def rowToUser_def sample_rows)
  then show ?thesis
    by (simp add: check_key_params_def run_seq sample_key_params_def normalize_expiry_def)
qed

lemma sample_key_grants: "resolve_key_grants ''c1'' [] sample_world = (Inr [sample_grant], sample_world)"
proof -
  have "client_scope_grants ''c1'' sample_world = [sample_grant]" by code_simp
  then show ?thesis by (simp add: resolve_key_grants_def run_seq)
qed

lemma sample_key_created: "succeeds (create_api_key sample_cfg Md5 sample_key_params None None) sample_world"
proof -
  have params: "kp_clientRowId sample_key_params = ''c1''" "kp_scopeNames sample_key_params = []"
    "kp_notifyUser sample_key_params = False"
    by (simp_all add: sample_key_params_def)
  show ?thesis
    by (simp add: succeeds_def create_api_key_def run_seq sample_key_params_checked params sample_key_grants
        generateApiKey_run Let_def hashPassword_def cong: seq_cong_first)
      (simp add: run_seq create_api_key_row_def transaction_def guarded_def
        api_keys_violated_def new_key_row_def key_scope_violated_def link_violated_def logAction_def buildRow_def
        insert_audit_def audit_violated_def api_key_by_id_def sample_key_params_def sample_rows cong: seq_cong_first)
qed

lemma created_api_key_works_witness:
  "\<exists>k presented a u v. create_api_key sample_cfg Md5 sample_key_params None None sample_world
       = (Inr (k, presented), state_after (create_api_key sample_cfg Md5 sample_key_params None None) sample_world)
     \<and> authenticate_api_key sample_cfg Md5 presented u = (Inr a, v) \<and> k_id (au_apiKey a) = k_id k"
proof -
  let ?p = "create_api_key sample_cfg Md5 sample_key_params None None"
  let ?t = "state_after ?p sample_world"
  let ?u = "sample_world\<lparr>api_keys := api_keys ?t\<rparr>"
  obtain k presented where "result_of ?p sample_world = (k, presented)" by (metis prod.exhaust)
  with succeeds_run [OF sample_key_created] have run: "?p sample_world = (Inr (k, presented), ?t)" by simp
  obtain exp grants g h i row ls s where "hashPassword sample_cfg Md5 (pk_secret g) s = (Inr h, s)"
    and row: "row = new_key_row sample_key_params None i g h exp (toISOString (clock sample_cfg (ticks sample_world)))"
    and keys: "api_keys ?t = api_keys sample_world @ [row]" and id: "k_id k = i"
    by (rule create_api_key_Inr [OF run])
  have bytes: "length (random_bytes sample_cfg n j) = j" for n j by (simp add: sample_cfg_def)
  have service: "argon_verify sample_cfg s h = Some True" if "argon_hash sample_cfg = Some f" "f s = Some h" for f s h
    using that by (auto simp: sample_cfg_def)
  have digest: "\<not> isArgon2StoredHash (md5 sample_cfg s) \<and> isMd5HexStoredHash (md5 sample_cfg s)
      \<and> js_lower (md5 sample_cfg s) = md5 sample_cfg s" for s
  proof -
    have "md5 sample_cfg s = replicate 32 CHR ''0''" by (simp add: sample_cfg_def)
    then show ?thesis by (simp only: sample_key_hash simp_thms)
  qed
  have none: "normalize_expiry sample_cfg (kp_expiresAt sample_key_params) sample_world = (Inr None, sample_world)"
    by (simp add: normalize_expiry_def sample_key_params_def)
  have "bound_to now row (rowToClient sample_world sample_client) (rowToUser sample_user) ?u" for now
    by (simp add: row new_key_row_def sample_key_params_def bound_to_def client_by_id_def user_by_id_def
        user_environments_def expired_at_def rowToClient_def rowToUser_def created_by_display_def sample_rows image_iff)
  moreover have "row \<in> set (api_keys ?u)" "ak_id row = k_id k" by (simp_all add: keys id row new_key_row_def)
  ultimately have "\<exists>r \<in> set (api_keys ?u). ak_id r = k_id k \<and> bound_to (toISOString (clock sample_cfg (ticks ?u))) r
      (rowToClient sample_world sample_client) (rowToUser sample_user) ?u" by blast
  note bound = this
  have "\<exists>a v. authenticate_api_key sample_cfg Md5 presented ?u = (Inr a, v) \<and> k_id (au_apiKey a) = k_id k
     \<and> au_scopeGrants a = key_scope_grants (k_id k) ?u \<and> au_user a = rowToUser sample_user
     \<and> au_client a = rowToClient sample_world sample_client"
  proof (rule created_api_key_works [OF run bytes _ digest _ none _ bound])
    show "argon_verify sample_cfg s h = Some True" if "argon_hash sample_cfg = Some f" "f s = Some h" for f s h
      using that by (rule service)
  qed (simp_all add: expired_at_def)
  with run show ?thesis by blast
qed

end
