(* ===== verification/WitnessesC.thy ===== *)
theory WitnessesC
  imports Samples Totp TotpEnrollment ResetLinks SetupRules Refinement
begin

text \<open>
  Witnesses for one-time passwords, challenges, password resets, users, clients and dynamic
  registration, on the sample platform with its secrets configured.
\<close>

section \<open>A platform with secrets\<close>

text \<open>A toy cipher: it escapes the colon, so that its text could be stored.\<close>

fun hide :: "string \<Rightarrow> string" where
  "hide [] = []"
| "hide (c # cs) = (if c = CHR '':'' then ''=a'' else if c = CHR ''='' then ''=b'' else [c]) @ hide cs"

fun reveal :: "string \<Rightarrow> string" where
  "reveal (c # d # cs) =
     (if c = CHR ''='' then (if d = CHR ''a'' then CHR '':'' else CHR ''='') # reveal cs else c # reveal (d # cs))"
| "reveal cs = cs"

lemma reveal_cons: "c \<noteq> CHR ''='' \<Longrightarrow> reveal (c # cs) = c # reveal cs"
  by (cases cs) auto

lemma reveal_hide: "reveal (hide s) = s" "CHR '':'' \<notin> set (hide s)"
  by (induction s) (auto simp: reveal_cons)

definition sample_env :: "string \<rightharpoonup> string" where
  "sample_env = [''HMAC_KEY'' \<mapsto> ''key'', ''RESEND_API_KEY'' \<mapsto> ''mail'', ''EMAIL_FROM_ADDRESS'' \<mapsto> ''a@b.cd'',
                 ''DCR_ENVIRONMENT_ID'' \<mapsto> ''e1'']"

definition reset_payload :: claims where
  "reset_payload = [''purpose'' \<mapsto> JString ''password_reset'', ''jti'' \<mapsto> JString ''link'', ''sub'' \<mapsto> JString ''s1'']"

definition secret_cfg :: cfg where
  "secret_cfg = sample_cfg
     \<lparr>ctx_env := sample_env, process_env := [''AUTH_SECRET'' \<mapsto> ''server''],
      parse_url := (\<lambda>u. if js_trim u = [] then None else Some \<lparr>url_protocol = ''https:'', url_hostname = ''h'', url_hash = []\<rparr>),
      aes_encrypt := (\<lambda>k iv s. CHR ''x'' # hide s), aes_decrypt := (\<lambda>k iv s. Some (reveal (tl s))),
      auth_assets := Some (\<lambda>_. R2_jwks [\<lparr>jwk_kid = None, jwk_material = []\<rparr>]),
      jwt_verify_issued := (\<lambda>_ _ _ _ tok. if tok = ''link'' then Some reset_payload else None)\<rparr>"

lemma secret_cfg_simps [simp]:
  "clock secret_cfg n = n" "uuid secret_cfg n = replicate (Suc n) CHR ''u''"
  "random_bytes secret_cfg n k = replicate k (of_nat n)" "sha256 secret_cfg = sample_bytes"
  "math_random secret_cfg n k = n mod k" "send_notice secret_cfg x = None"
  "process_env secret_cfg = [''AUTH_SECRET'' \<mapsto> ''server'']" "ctx_env secret_cfg = sample_env"
  by (simp_all add: secret_cfg_def sample_cfg_def)

lemma secret_cipher: "cipher_ok secret_cfg"
  by (simp add: cipher_ok_def secret_cfg_def reveal_hide)

lemma secret_auth [simp]: "getAuthSecret secret_cfg = Inr ''server''"
  by (simp add: getAuthSecret_def)

section \<open>Authenticator apps\<close>

lemma totp_window_exact_witness:
  "verifyTotp sample_cfg (base32Encode [1, 2, 3]) ''000000'' 1 0 =
     Inr (\<exists>c. \<bar>c - int (0 div 30000)\<bar> \<le> int 1 \<and> hotp sample_cfg [1, 2, 3] c = js_trim ''000000'')"
  by (rule totp_window_exact [OF base32_decodes])

lemma sample_enrollment: "succeeds (beginEnrollment secret_cfg ''s1'' ''ada'' None) sample_world"
  by (simp add: succeeds_def beginEnrollment_def generateSecret_def encryptSecret_def getKey_def outcome_def run_seq
      upsertPending_def totp_of_def guarded_def Let_def sample_world_def sample_user_def cong: seq_cong_first)

lemma totp_enrollment_needs_possession_witness:
  "\<exists>bytes. base32Decode (snd (result_of (beginEnrollment secret_cfg ''s1'' ''ada'' None) sample_world)) = Inr bytes
     \<and> \<not> isEnrolled ''s1'' (state_after (beginEnrollment secret_cfg ''s1'' ''ada'' None) sample_world)"
proof -
  have "beginEnrollment secret_cfg ''s1'' ''ada'' None sample_world =
      (Inr (fst (result_of (beginEnrollment secret_cfg ''s1'' ''ada'' None) sample_world),
            snd (result_of (beginEnrollment secret_cfg ''s1'' ''ada'' None) sample_world)),
       state_after (beginEnrollment secret_cfg ''s1'' ''ada'' None) sample_world)"
    by (simp only: prod.collapse succeeds_run [OF sample_enrollment])
  from totp_enrollment_needs_possession [OF this secret_cipher] show ?thesis by auto
qed

section \<open>One-time codes\<close>

definition account_world :: world where
  "account_world = sample_world
     \<lparr>users := [sample_user\<lparr>us_email := Some ''ada@h.x'', us_is_admin := True\<rparr>],
      site_settings := Some \<lparr>st_site_title = None, st_site_url = Some ''h'', st_cdn_url = None, st_logo_key = None,
                             st_mfa_enabled = True, st_admin_password_policy_id = None\<rparr>,
      user_challenges := [reset_challenge_row ''link'' ''s1'' 0,
                          code_challenge_row Mfa_otp ''code'' ''s1'' (hex_bytes (sample_bytes ''x'')) 0 MFA_OTP_TTL_MS]\<rparr>"

abbreviation account :: user_row where
  "account \<equiv> sample_user\<lparr>us_email := Some ''ada@h.x'', us_is_admin := True\<rparr>"

lemma secret_env [simp]:
  "getResendApiKey secret_cfg = Some ''mail''" "fromAddress secret_cfg s = Inr ''a@b.cd''"
  "resolveMfaOtpMaxAttempts secret_cfg = 5" "resolveHmacKey secret_cfg = Some ''key''"
  "resolveHashMethod secret_cfg = Inr Argon"
proof -
  have v: "sample_env ''RESEND_API_KEY'' = Some ''mail''" "sample_env ''EMAIL_FROM_ADDRESS'' = Some ''a@b.cd''"
    "sample_env ''MFA_OTP_MAX_ATTEMPTS'' = None" "sample_env ''HMAC_KEY'' = Some ''key''" "sample_env ''HASH_METHOD'' = None"
    by (simp_all add: sample_env_def)
  have t: "js_trim ''mail'' = ''mail''" "js_trim ''a@b.cd'' = ''a@b.cd''" "plausible_address ''a@b.cd''" "parseInt ''5'' = Some 5"
    "js_trim ''key'' = ''key''" "js_lower [] = []"
    by code_simp+
  show "getResendApiKey secret_cfg = Some ''mail''" by (simp add: getResendApiKey_def v t)
  show "fromAddress secret_cfg s = Inr ''a@b.cd''"
    by (simp add: fromAddress_def configuredFromAddress_def trimmed_env_def v t)
  show "resolveMfaOtpMaxAttempts secret_cfg = 5"
    by (simp add: resolveMfaOtpMaxAttempts_def trimmed_env_def v t)
  show "resolveHmacKey secret_cfg = Some ''key''" by (simp add: resolveHmacKey_def trimmed_def v t)
  show "resolveHashMethod secret_cfg = Inr Argon" by (simp add: resolveHashMethod_def trimmed_env_def v t)
qed

lemma account_fields [simp]:
  "site_settings account_world = Some \<lparr>st_site_title = None, st_site_url = Some ''h'', st_cdn_url = None, st_logo_key = None,
     st_mfa_enabled = True, st_admin_password_policy_id = None\<rparr>"
  "users account_world = [account]" "ticks account_world = 0" "draws account_world = 0" "admin_audit_log account_world = []"
  "List.map ch_id (user_challenges account_world) = [''link'', ''code'']" "ch_id ` set (user_challenges account_world) = {''link'', ''code''}"
  by (simp_all add: account_world_def sample_world_def reset_challenge_row_def code_challenge_row_def)

lemma account_user [simp]: "us_id account = ''s1''" "us_email account = Some ''ada@h.x''" "\<not> us_is_test_user sample_user"
  by (simp_all add: sample_user_def)

lemma account_counted:
  "find (\<lambda>r. ch_id r = ''code'' \<and> counts_failures r) (user_challenges account_world) =
     Some (code_challenge_row Mfa_otp ''code'' ''s1'' (hex_bytes (sample_bytes ''x'')) 0 MFA_OTP_TTL_MS)"
  by (simp add: account_world_def reset_challenge_row_def code_challenge_row_def counts_failures_def)

lemma account_challenge:
  "challenge_by_id ''code'' account_world =
     Some (code_challenge_row Mfa_otp ''code'' ''s1'' (hex_bytes (sample_bytes ''x'')) 0 MFA_OTP_TTL_MS)"
  "challenge_by_id ''link'' account_world = Some (reset_challenge_row ''link'' ''s1'' 0)"
  by (simp_all add: challenge_by_id_def account_world_def reset_challenge_row_def code_challenge_row_def)

lemma sample_expiries [simp]:
  "toISOString 600000 = ''1970-01-01T00:10:00.000Z''" "toISOString 3600000 = ''1970-01-01T01:00:00.000Z''"
  "toISOString 3 = ''1970-01-01T00:00:00.003Z''"
  by code_simp+

lemma sample_wrong_guess:
  "\<exists>t. verifyMfaOtpAndConsume secret_cfg ''code'' ''s1'' ''1'' account_world = (Inr (Otp_refused Otp_incorrect), t)"
proof -
  have "js_trim ''1'' = ''1''" "\<not> timingSafeEqualHex (hex_bytes (sample_bytes ''code:1:server'')) (hex_bytes (sample_bytes ''x''))"
    "\<not> ''1970-01-01T00:10:00.000Z'' \<le> ''1970-01-01T00:00:00.000Z''"
    by code_simp+
  then show ?thesis
    by (simp add: verifyMfaOtpAndConsume_def check_otp_def run_seq account_challenge code_challenge_row_def truthy_def
        hashMfaOtp_def outcome_def MFA_OTP_TTL_MS_def wrong_guess_def incrementOtpFailedAttempts_def
        account_counted cong: seq_cong_first)
qed

lemma otp_guesses_bounded_witness:
  "\<exists>t. guessing secret_cfg ''code'' account_world 1 t \<and> (1::nat) \<le> resolveMfaOtpMaxAttempts secret_cfg - 0"
proof -
  obtain t where "verifyMfaOtpAndConsume secret_cfg ''code'' ''s1'' ''1'' account_world = (Inr (Otp_refused Otp_incorrect), t)"
    using sample_wrong_guess by blast
  from guessing.sign_in [OF guessing.start this] have one: "guessing secret_cfg ''code'' account_world 1 t"
    by (simp add: judged_def)
  have "ch_otp_failed_attempts (code_challenge_row Mfa_otp ''code'' ''s1'' (hex_bytes (sample_bytes ''x'')) 0 MFA_OTP_TTL_MS)
      < resolveMfaOtpMaxAttempts secret_cfg"
    by (simp add: code_challenge_row_def)
  from otp_guesses_bounded [OF one account_challenge(1) this] one show ?thesis
    by (auto simp: code_challenge_row_def)
qed

lemma sample_code_mail_clock:
  "ticks (state_after (createMfaOtpAndSendEmail secret_cfg account) account_world) = 1"
proof -
  have "nonblank (Some ''h'') = Some ''h''" "nonblank (Some ''ada@h.x'') = Some ''ada@h.x''" by code_simp+
  then show ?thesis
    by (simp add: state_after_def createMfaOtpAndSendEmail_def new_code_challenge_def randomSixDigitCode_def run_seq
        hashMfaOtp_def outcome_def insert_challenge_def guarded_def challenge_violated_def code_challenge_row_def send_mail_def
        cong: seq_cong_first)
qed

lemma sample_code_mail: "succeeds (createMfaOtpAndSendEmail secret_cfg account) account_world"
proof -
  have "nonblank (Some ''h'') = Some ''h''" "nonblank (Some ''ada@h.x'') = Some ''ada@h.x''" by code_simp+
  then show ?thesis
    by (simp add: succeeds_def createMfaOtpAndSendEmail_def new_code_challenge_def randomSixDigitCode_def run_seq
        hashMfaOtp_def outcome_def insert_challenge_def guarded_def challenge_violated_def code_challenge_row_def send_mail_def
        cong: seq_cong_first)
qed

lemma code_soon: "''1970-01-01T00:00:00.001Z'' < ''1970-01-01T00:10:00.000Z''"
  by code_simp

lemma mfa_code_roundtrip_witness:
  "\<exists>code v. digit_text code
     \<and> verifyMfaOtpAndConsume secret_cfg (result_of (createMfaOtpAndSendEmail secret_cfg account) account_world) ''s1''
         (code @ '' '') (state_after (createMfaOtpAndSendEmail secret_cfg account) account_world) = (Inr Otp_ok, v)"
proof -
  let ?i = "result_of (createMfaOtpAndSendEmail secret_cfg account) account_world"
  let ?t = "state_after (createMfaOtpAndSendEmail secret_cfg account) account_world"
  from mfa_code_roundtrip [OF succeeds_run [OF sample_code_mail]] obtain code where digits: "digit_text code"
    and accepted: "list_all js_space [] \<and> list_all js_space '' '' \<and>
        toISOString (clock secret_cfg (ticks ?t)) < toISOString (clock secret_cfg (ticks account_world) + 600000) \<Longrightarrow>
      \<exists>v. verifyMfaOtpAndConsume secret_cfg ?i (us_id account) ([] @ code @ '' '') ?t = (Inr Otp_ok, v)"
    by blast
  have "list_all js_space '' ''" by code_simp
  moreover have "toISOString (clock secret_cfg (ticks ?t)) < toISOString (clock secret_cfg (ticks account_world) + 600000)"
    using code_soon by (simp add: sample_code_mail_clock)
  ultimately show ?thesis using digits accepted by (auto simp: sample_user_def)
qed

section \<open>Password resets\<close>

lemma secret_keys [simp]: "published_keys secret_cfg w = (Inr [\<lparr>jwk_kid = None, jwk_material = []\<rparr>], w)"
proof -
  have none: "nonblank_env secret_cfg ''JWT_JWKS_JSON'' = None" "sample_env ''JWKS_R2_KEY'' = None"
    by (simp_all add: nonblank_env_def sample_env_def)
  have "auth_assets secret_cfg = Some (\<lambda>_. R2_jwks [\<lparr>jwk_kid = None, jwk_material = []\<rparr>])"
    by (simp add: secret_cfg_def)
  with none show ?thesis by (simp add: published_keys_def)
qed

lemma secret_verifies [simp]: "jwt_verify_issued secret_cfg now iss algs keys ''link'' = Some reset_payload"
  by (simp add: secret_cfg_def)

lemma secret_argon [simp]:
  "hashPassword secret_cfg Argon pw w = (Inr (''$argon2'' @ pw), w)"
proof -
  have "isArgon2StoredHash (''$argon2'' @ pw)" by (simp add: isArgon2StoredHash_def starts_with_def)
  then show ?thesis
    by (simp add: hashPassword_def hashPasswordArgon2ViaService_def secret_cfg_def sample_cfg_def)
qed

lemma sample_reset: "succeeds (completePasswordReset secret_cfg ''link'' ''pw'') account_world"
proof -
  have "verifyPasswordResetJwt secret_cfg ''link'' account_world = (Inr (''link'', ''s1''), account_world\<lparr>ticks := 1\<rparr>)"
    by (simp add: verifyPasswordResetJwt_def run_seq Let_def string_claim_def reset_payload_def PASSWORD_RESET_JWT_PURPOSE_def)
  moreover have "\<not> ''1970-01-01T01:00:00.000Z'' \<le> ''1970-01-01T00:00:00.001Z''" by code_simp
  ultimately have "check_reset_link secret_cfg ''link'' account_world = (Inr (''link'', ''s1''), account_world\<lparr>ticks := 2\<rparr>)"
    using account_challenge(2)
    by (simp add: check_reset_link_def run_seq challenge_by_id_def reset_challenge_row_def truthy_def
        PASSWORD_RESET_JWT_TTL_SECONDS_def cong: seq_cong_first)
  then show ?thesis
    by (simp add: succeeds_def completePasswordReset_def set_new_password_def hash_policy_def run_seq update_user_row_def
        guarded_def patch_violated_def markConsumed_def set_challenge_def logAction_def buildRow_def insert_audit_def audit_violated_def
        no_patch_def patch_user_def cong: seq_cong_first)
qed

lemma password_reset_sound_witness:
  "\<exists>i userId h. reset_effect secret_cfg i userId h account_world
     (state_after (completePasswordReset secret_cfg ''link'' ''pw'') account_world)"
  using password_reset_sound [of secret_cfg "''link''" "''pw''" account_world] succeeds_run [OF sample_reset] by fastforce

lemma sample_token_names: "reset_token_for secret_cfg ''link'' ''link'' ''s1''"
  by (simp add: reset_token_for_def string_claim_def reset_payload_def)

lemma request_draws: "draws w \<le> draws (state_after (requestPasswordReset secret_cfg addr) w)"
proof -
  have "\<forall>n \<ge> draws w. uuid secret_cfg n \<noteq> []" by simp
  from request_fades(1) [OF this] have "evolves (link_fades (draws w) [] []) (requestPasswordReset secret_cfg addr)" .
  from evolvesD [OF this run_any] show ?thesis by (simp add: link_fades_def)
qed

lemma dead_reset_link_witness:
  "\<exists>e v. completePasswordReset secret_cfg ''link'' ''again'' (state_after (requestPasswordReset secret_cfg ''ada@h.x'')
     (state_after (completePasswordReset secret_cfg ''link'' ''pw'') account_world)) = (Inl e, v)"
proof -
  let ?t = "state_after (completePasswordReset secret_cfg ''link'' ''pw'') account_world"
  let ?u = "state_after (requestPasswordReset secret_cfg ''ada@h.x'') ?t"
  let ?step = "\<lambda>s t. user_step secret_cfg Argon s t \<and> draws s \<le> draws t"
  have used: "completePasswordReset secret_cfg ''link'' ''pw'' account_world = (Inr (), ?t)"
    using succeeds_run [OF sample_reset] by simp
  have new: "\<forall>n \<ge> draws account_world. uuid secret_cfg n \<noteq> ''link''"
    by (simp add: secret_cfg_def sample_cfg_def)
  have "user_step secret_cfg Argon ?t ?u" by (rule user_step.request_reset [OF run_any])
  moreover have "draws ?t \<le> draws ?u" by (rule request_draws)
  ultimately have steps: "?step\<^sup>*\<^sup>* ?t ?u" by (intro r_into_rtranclp conjI)
  show ?thesis
    using dead_reset_link [OF sample_token_names disjI1 [OF used] new steps] by blast
qed

section \<open>Users\<close>

definition sample_new_user :: new_user where
  "sample_new_user =
     \<lparr>nu_username = ''eve'', nu_password = [], nu_isAdmin = False, nu_name = None, nu_email = None, nu_actorUserId = None,
      nu_isTestUser = True\<rparr>"

lemma user_rules_invariant_witness:
  "users_ok (state_after (completePasswordReset secret_cfg ''link'' ''pw'')
     (state_after (createUser secret_cfg Argon sample_new_user) account_world))"
proof -
  let ?v = "state_after (createUser secret_cfg Argon sample_new_user) account_world"
  let ?t = "state_after (completePasswordReset secret_cfg ''link'' ''pw'') ?v"
  have ok: "users_ok account_world"
    by (simp add: users_ok_def account_world_def sample_user_def reset_challenge_row_def code_challenge_row_def)
  have made: "user_step secret_cfg Argon account_world ?v" by (rule user_step.create [OF run_any])
  have reset: "user_step secret_cfg Argon ?v ?t" by (rule user_step.complete_reset [OF run_any])
  have steps: "(user_step secret_cfg Argon)\<^sup>*\<^sup>* account_world ?t"
    by (rule converse_rtranclp_into_rtranclp [of "user_step secret_cfg Argon", OF made r_into_rtranclp [of "user_step secret_cfg Argon", OF reset]])
  show ?thesis by (rule user_rules_invariant [OF steps ok, THEN conjunct1])
qed

section \<open>Clients\<close>

definition confidential_world :: world where
  "confidential_world = sample_world
     \<lparr>clients := [sample_client\<lparr>cl_token_endpoint_auth_method := ''client_secret_basic''\<rparr>]\<rparr>"

lemma confidential_fields [simp]:
  "clients confidential_world = [sample_client\<lparr>cl_token_endpoint_auth_method := ''client_secret_basic''\<rparr>]"
  "ticks confidential_world = 0" "draws confidential_world = 0" "admin_audit_log confidential_world = []"
  by (simp_all add: confidential_world_def sample_world_def)

lemma sample_secret_rotation:
  "\<exists>cl secret t. rotateSecret secret_cfg ''c1'' None confidential_world = (Inr (Some (cl, secret)), t)
     \<and> client_by_identifier (c_clientId cl) t = Some cl \<and> c_clientId cl = ''app''
     \<and> c_tokenEndpointAuthMethod cl = ''client_secret_basic''"
  by (simp add: rotateSecret_def generateClientSecret_def client_by_id_def client_by_identifier_def updateSecret_def rowToClient_def
      sample_client_def logAction_def buildRow_def insert_audit_def audit_violated_def guarded_def run_seq created_by_display_def
      cong: seq_cong_first)

lemma issued_secret_exact_witness:
  "\<exists>secret cl t. client_by_identifier ''app'' t = Some cl
     \<and> (\<exists>key. resolveHmacKey secret_cfg = Some key
        \<and> (\<forall>presented. (\<exists>v. authenticateClient secret_cfg (Some ''app'') (Some presented) t = (Inr cl, v)) \<longleftrightarrow>
             presented \<noteq> [] \<and> hmac_sha256 secret_cfg presented key = hmac_sha256 secret_cfg secret key
             \<and> \<not> expired_at (c_expiresAt cl) (toISOString (clock secret_cfg (ticks t)))))"
proof -
  obtain cl secret t where run: "rotateSecret secret_cfg ''c1'' None confidential_world = (Inr (Some (cl, secret)), t)"
    and found: "client_by_identifier (c_clientId cl) t = Some cl" and name: "c_clientId cl = ''app''"
    and basic: "c_tokenEndpointAuthMethod cl = ''client_secret_basic''"
    using sample_secret_rotation by blast
  from basic name have "c_clientId cl \<noteq> []" "c_tokenEndpointAuthMethod cl \<noteq> ''none''" by simp_all
  from issued_secret_exact [OF disjI2 [OF run] found this] found show ?thesis
    unfolding name by blast
qed

section \<open>Dynamic registration\<close>

lemma random_chars_run: "\<exists>cs. random_chars E n w = (Inr cs, w\<lparr>draws := draws w + n\<rparr>)"
proof (induction n arbitrary: w)
  case (Suc n)
  obtain cs where "random_chars E n (w\<lparr>draws := Suc (draws w)\<rparr>) = (Inr cs, w\<lparr>draws := Suc (draws w) + n\<rparr>)"
    using Suc.IH [of "w\<lparr>draws := Suc (draws w)\<rparr>"] by auto
  then show ?case by (simp add: run_seq)
qed simp

definition sample_body :: dcr_body where
  "sample_body = Dcr_object [''redirect_uris'' \<mapsto> MTexts [''https://h/cb'']]"

definition sample_dcr :: dcr_request where
  "sample_dcr =
     \<lparr>dq_redirectUris = [''https://h/cb''], dq_tokenEndpointAuthMethod = ''none'',
      dq_grantTypes = SUPPORTED_GRANT_TYPES, dq_responseTypes = SUPPORTED_RESPONSE_TYPES, dq_clientName = None, dq_scopeNames = []\<rparr>"

lemma sample_body_parsed: "parseDcrRegistrationRequest secret_cfg sample_body = Inr sample_dcr"
proof -
  have "js_trim ''https://h/cb'' \<noteq> []" by code_simp
  then have "isValidRedirectUri secret_cfg ''https://h/cb''" by (simp add: isValidRedirectUri_def secret_cfg_def)
  then show ?thesis
    by (simp add: parseDcrRegistrationRequest_def sample_body_def parse_redirect_uris_def asStringArray_def MAX_REDIRECT_URIS_def
        parse_auth_method_def SUPPORTED_AUTH_METHODS_def subset_or_def parse_client_name_def parse_scope_names_def sample_dcr_def)
qed

lemma sample_world_fields [simp]:
  "clients sample_world = [sample_client]" "draws sample_world = 0" "admin_audit_log sample_world = []"
  "environments sample_world = [\<lparr>env_id = ''e1'', env_name = ''Prod'', env_display_name = None\<rparr>]"
  "redirect_uris sample_world = [\<lparr>ru_id = ''ru'', ru_client_id = ''c1'', ru_redirect_uri = ''r''\<rparr>]"
  "dcr_rate_limit sample_world = []" "scopes sample_world = [\<lparr>sc_id = ''p1'', sc_scope_name = ''read'', sc_display_name = None, sc_description = None\<rparr>]"
  "client_scopes sample_world = [\<lparr>cs_id = ''cs'', cs_client_id = ''c1'', cs_scope_id = ''p1''\<rparr>]"
  by (simp_all add: sample_world_def)

lemma sample_client_created:
  "\<exists>d t. createClient secret_cfg (dcr_client sample_dcr ''e1'' []) (sample_world\<lparr>ticks := 1, dcr_rate_limit := rs\<rparr>) = (Inr (Some d, []), t)"
proof -
  let ?p = "dcr_client sample_dcr ''e1'' []" and ?w = "sample_world\<lparr>ticks := 1, dcr_rate_limit := rs, draws := 1\<rparr>"
  obtain cs where cs: "random_chars secret_cfg 24 ?w = (Inr cs, ?w\<lparr>draws := 25\<rparr>)"
    using random_chars_run [of secret_cfg 24 ?w] by auto
  have "nc_home ?p = \<lparr>hi_homeUrl = None, hi_homeDisplayName = None, hi_showOnHome = False\<rparr>" by (simp add: dcr_client_def)
  then have home: "normalizeClientHome secret_cfg (nc_home ?p) = Inr (nc_home ?p)"
    by (simp add: normalizeClientHome_def nonblank_def)
  have "resolveClientKeyPrefix secret_cfg = ''eetr''"
    by (simp add: resolveClientKeyPrefix_def sample_env_def)
  moreover have "new_secret secret_cfg ?p v = (Inr ([], []), v)" for v
    by (simp add: new_secret_def sample_dcr_def)
  ultimately have first: "createClient secret_cfg ?p (sample_world\<lparr>ticks := 1, dcr_rate_limit := rs\<rparr>) =
      (case write_client secret_cfg ?p ''u'' (''eetr_'' @ cs) [] (nc_home ?p) (?w\<lparr>draws := 25\<rparr>) of
        (Inl e, t) \<Rightarrow> (Inl e, t) | (Inr d, t) \<Rightarrow> (Inr (d, []), t))"
    using cs home
    by (simp add: createClient_def run_seq generateClientId_def outcome_def split: prod.split sum.split)
  have "js_trim ''https://h/cb'' = ''https://h/cb''" by code_simp
  then have "\<exists>d t. write_client secret_cfg ?p ''u'' (''eetr_'' @ cs) [] (nc_home ?p) (?w\<lparr>draws := 25\<rparr>) = (Inr (Some d), t)"
    by (simp add: write_client_def create_client_def client_violated_def new_client_row_def guarded_def run_seq sample_client_def
        sample_dcr_def setRedirectUris_def insert_redirect_uri_def redirect_uri_violated_def getClientWithDetails_def
        client_by_id_def logAction_def buildRow_def insert_audit_def audit_violated_def Let_def image_constant_conv cong: seq_cong_first)
  with first show ?thesis by auto
qed

lemma sample_registration:
  "\<exists>r t. post_register secret_cfg (Some ''ip'') sample_body sample_world = (Inr (Registered r), t)"
proof -
  let ?t = "count_attempt ''ip'' (day_of secret_cfg sample_world) (sample_world\<lparr>ticks := Suc 0\<rparr>)"
  obtain rs where t: "?t = sample_world\<lparr>ticks := 1, dcr_rate_limit := rs\<rparr>"
    by (simp add: count_attempt_def)
  obtain d s where made: "createClient secret_cfg (dcr_client sample_dcr ''e1'' []) ?t = (Inr (Some d, []), s)"
    unfolding t using sample_client_created by blast
  have env: "dcr_environment secret_cfg = Some ''e1''"
  proof -
    have "js_trim ''e1'' = ''e1''" by code_simp
    then show ?thesis by (simp add: dcr_environment_def trimmed_env_def sample_env_def)
  qed
  have "resolve_scope_ids (dq_scopeNames sample_dcr) ?t = Inr []" "environment_by_id ''e1'' ?t \<noteq> None"
    by (simp_all add: resolve_scope_ids_def sample_dcr_def environment_by_id_def t)
  with env made have "\<exists>r u. register secret_cfg sample_dcr ?t = (Inr r, u)"
    by (auto simp: register_def run_seq lifted_def)
  moreover have "resolveDcrRateLimitPerDay secret_cfg = 10" "dcr_attempts ip day sample_world = 0" for ip day
    by (simp_all add: resolveDcrRateLimitPerDay_def trimmed_env_def sample_env_def dcr_attempts_def)
  moreover obtain f where "sample_body = Dcr_object f" by (simp add: sample_body_def)
  ultimately show ?thesis
    using sample_body_parsed
    by (auto simp: post_register_run address_def run_seq Let_def outcome_def sample_clockless split: dcr_body.split)
qed

lemma sample_day: "address (Some ''ip'') = ''ip''" by (simp add: address_def)

lemma dcr_daily_budget_witness:
  "\<exists>t. registrations secret_cfg ''ip'' (day_of secret_cfg sample_world) sample_world 1 t
     \<and> 1 \<le> resolveDcrRateLimitPerDay secret_cfg - dcr_attempts ''ip'' (day_of secret_cfg sample_world) sample_world"
proof -
  obtain r t where run: "post_register secret_cfg (Some ''ip'') sample_body sample_world = (Inr (Registered r), t)"
    using sample_registration by blast
  from registrations.registered [OF registrations.start run, where a = "''ip''" and day = "day_of secret_cfg sample_world"]
  have one: "registrations secret_cfg ''ip'' (day_of secret_cfg sample_world) sample_world 1 t"
    by (simp add: sample_day)
  from dcr_daily_budget [OF this] one show ?thesis by blast
qed

lemma dcr_client_constrained_witness:
  "\<exists>(t :: world) (row :: client_row). clients t = [sample_client, row] \<and> cl_is_dynamic row \<and> \<not> cl_is_test row"
proof -
  obtain r t where run: "post_register secret_cfg (Some ''ip'') sample_body sample_world = (Inr (Registered r), t)"
    using sample_registration by blast
  have urls: "\<forall>u. js_trim u = [] \<longrightarrow> parse_url secret_cfg u = None" by (simp add: secret_cfg_def)
  have owned: "\<forall>g \<in> set (client_scopes sample_world). cs_client_id g \<in> cl_id ` set (clients sample_world)"
    by (simp add: sample_rows)
  from dcr_client_constrained [OF run urls owned] show ?thesis
  proof (elim exE conjE)
    fix row assume "clients t = clients sample_world @ [row]" "cl_is_dynamic row" "\<not> cl_is_test row"
    then show ?thesis by auto
  qed
qed

lemma references_never_dangle_witness:
  "\<exists>t. setup_step secret_cfg sample_world t
     \<and> refs_ok (state_after (deleteClient secret_cfg ''c1'' None) t)"
proof -
  obtain r t where run: "post_register secret_cfg (Some ''ip'') sample_body sample_world = (Inr (Registered r), t)"
    using sample_registration by blast
  then have one: "setup_step secret_cfg sample_world t" by (rule setup_step.registered)
  have two: "setup_step secret_cfg t (state_after (deleteClient secret_cfg ''c1'' None) t)"
    by (rule setup_step.client_deleted [OF run_any])
  have ok: "refs_ok sample_world"
    by (simp add: refs_ok_def scope_links_def sample_rows)
  have steps: "(setup_step secret_cfg)\<^sup>*\<^sup>* sample_world (state_after (deleteClient secret_cfg ''c1'' None) t)"
    by (rule converse_rtranclp_into_rtranclp [of "setup_step secret_cfg", OF one r_into_rtranclp [of "setup_step secret_cfg", OF two]])
  from one references_never_dangle [OF steps ok, THEN conjunct1] show ?thesis by blast
qed

section \<open>Saving scopes\<close>

lemma sample_scopes_saved:
  "\<exists>d t. updateScopes sample_cfg ''c1'' [''p1''] None sample_world = (Inr (Some d), t)"
  by (simp add: updateScopes_def with_client_def client_by_id_def setClientScopes_def drop_client_scopes_def insert_client_scope_def
      client_scope_violated_def getClientScopes_def getClientWithDetails_def logAction_def buildRow_def insert_audit_def
      audit_violated_def guarded_def run_seq Let_def sample_client_def rowToClient_def cong: seq_cong_first)
     (auto simp: sample_cfg_def)

lemma saved_scopes_exact_witness:
  "\<exists>t. getClientScopes ''c1'' t = [''p1''] \<and> clients t = clients sample_world"
proof -
  obtain d t where "updateScopes sample_cfg ''c1'' [''p1''] None sample_world = (Inr (Some d), t)"
    using sample_scopes_saved by blast
  from saved_scopes_exact [OF this] show ?thesis by auto
qed

section \<open>Consent as a map\<close>

lemma sample_grant_recorded: "succeeds (record_consent sample_cfg ''s1'' ''c1'' [''read'']) sample_world"
  by (simp add: succeeds_def record_consent_def get_consent_def upsert_consent_def consent_violated_def guarded_def
      run_seq sample_rows cong: seq_cong_first)

lemma consent_refines_map_witness:
  "consent_abs (state_after (record_consent sample_cfg ''s1'' ''c1'' [''read'']) sample_world) (''s1'', ''c1'') = Some {''read''}"
proof -
  let ?t = "state_after (record_consent sample_cfg ''s1'' ''c1'' [''read'']) sample_world"
  have "\<forall>n \<in> set [''read'']. scope_word n" by code_simp
  from consent_run.granted [OF consent_run.done_run succeeds_run [OF sample_grant_recorded] this]
  have run: "consent_run sample_cfg [Grant ''s1'' ''c1'' [''read'']] sample_world ?t" by simp
  have "agreed (consent_abs sample_world) (''s1'', ''c1'') = {}"
    by (simp add: agreed_def consent_abs_def get_consent_def sample_rows)
  with consent_refines_map [OF run, THEN conjunct1] show ?thesis by simp
qed

end
