(* ===== verification/WitnessesD.thy ===== *)
theory WitnessesD
  imports WitnessesC SignInRules
begin

text \<open>
  Witnesses for password policies, the pending cookie, passkeys, the sign-in providers and the
  session, on the sample platform with its secrets configured.
\<close>

section \<open>The pending cookie\<close>

definition cookie_cfg :: cfg where
  "cookie_cfg = secret_cfg
     \<lparr>hmac_sha256 := (\<lambda>m k. [7]), pending_bytes := (\<lambda>ps e. [1]),
      parse_pending := (\<lambda>bs. Some (Pending (Some 300) [''client_id'' \<mapsto> JString ''app'']))\<rparr>"

lemma cookie_cfg_simps [simp]:
  "clock cookie_cfg n = n" "hmac_sha256 cookie_cfg m k = [7]" "pending_bytes cookie_cfg ps e = [1]"
  "parse_pending cookie_cfg bs = Some (Pending (Some 300) [''client_id'' \<mapsto> JString ''app''])"
  "process_env cookie_cfg = [''AUTH_SECRET'' \<mapsto> ''server'']" "ctx_env cookie_cfg = sample_env"
  by (simp_all add: cookie_cfg_def)

abbreviation app_params :: pending_params where "app_params \<equiv> [(''client_id'', ''app'')]"

lemma app_params_clean: "sanitizeParams (as_params app_params) = app_params"
proof -
  have "js_trim ''app'' = ''app''" by code_simp
  then show ?thesis by (simp add: sanitizeParams_def AUTHORIZE_PARAM_KEYS_def text_param_def as_params_def)
qed

lemma app_params_map: "as_params app_params = [''client_id'' \<mapsto> JString ''app'']"
  by (rule ext) (simp add: as_params_def)

definition app_cookie :: string where
  "app_cookie = toBase64Url [1] @ ''.'' @ toBase64Url [7]"

lemma app_encoded: "\<exists>t. encodePendingAuthorizationCookie cookie_cfg app_params sample_world = (Inr app_cookie, t)"
proof -
  have "js_trim ''server'' = ''server''" by code_simp
  then have "getPendingSecret cookie_cfg = Inr ''server''"
    by (simp add: getPendingSecret_def trimmed_env_def sample_env_def process_secret_def)
  then show ?thesis
    by (simp add: encodePendingAuthorizationCookie_def sign_pending_def outcome_def run_seq app_cookie_def)
qed

lemma app_json:
  "parse_pending cookie_cfg (pending_bytes cookie_cfg (sanitizeParams (as_params app_params)) (clock cookie_cfg (ticks sample_world) div 1000 + 300))
    = Some (Pending (Some (int (clock cookie_cfg (ticks sample_world) div 1000 + 300))) (as_params (sanitizeParams (as_params app_params))))"
  unfolding app_params_clean by (simp add: app_params_map sample_clockless)

lemma pending_cookie_roundtrip_witness:
  "fst (decodePendingAuthorizationCookie cookie_cfg (Some app_cookie) sample_world) = Inr (Some app_params)"
proof -
  obtain t where "encodePendingAuthorizationCookie cookie_cfg app_params sample_world = (Inr app_cookie, t)"
    using app_encoded by blast
  from pending_cookie_roundtrip [OF this app_json, of sample_world] show ?thesis
    by (simp add: app_params_clean sample_clockless)
qed

section \<open>The one-click sign-in\<close>

definition test_world :: world where
  "test_world = sample_world
     \<lparr>clients := [sample_client\<lparr>cl_is_test := True\<rparr>], users := [sample_user\<lparr>us_is_test_user := True\<rparr>]\<rparr>"

lemma test_world_fields [simp]:
  "clients test_world = [sample_client\<lparr>cl_is_test := True\<rparr>]" "users test_world = [sample_user\<lparr>us_is_test_user := True\<rparr>]"
  "ticks test_world = 0" "site_settings test_world = None"
  "users_environments test_world = [\<lparr>ue_id = ''ue'', ue_user_id = ''s1'', ue_environment_id = ''e1''\<rparr>]"
  by (simp_all add: test_world_def sample_world_def)

abbreviation app_jar :: jar where
  "app_jar \<equiv> \<lparr>jar_pending = Some app_cookie, jar_mfa = None, jar_verification = None\<rparr>"

lemma test_pending:
  "decodePendingAuthorizationCookie cookie_cfg (Some app_cookie) test_world = (Inr (Some app_params), test_world\<lparr>ticks := 1\<rparr>)"
proof -
  obtain t where "encodePendingAuthorizationCookie cookie_cfg app_params sample_world = (Inr app_cookie, t)"
    using app_encoded by blast
  from decode_encoded [OF this app_json, of test_world] show ?thesis
    by (simp add: app_params_clean sample_clockless)
qed

lemma test_signed_in: "\<exists>session t. authorize_test_user cookie_cfg app_jar (Some ''s1'') test_world = (Inr (Some session), t)"
proof -
  have trims: "js_trim ''s1'' = ''s1''" "js_trim ''app'' = ''app''" by code_simp+
  have "resolvePendingClient cookie_cfg (Some app_cookie) test_world =
      (Inr (Some (rowToClient test_world (sample_client\<lparr>cl_is_test := True\<rparr>))), test_world\<lparr>ticks := 1\<rparr>)"
    by (simp add: resolvePendingClient_def run_seq test_pending trims client_by_identifier_def rowToClient_def sample_client_def
        created_by_display_def)
  then show ?thesis
    by (simp add: authorize_test_user_def trimmed_or_empty_def trims run_seq expired_client_def truthy_def rowToClient_def
        rowToUser_def sample_client_def sample_user_def user_by_id_def user_environments_def)
qed

lemma test_user_sign_in_confined_witness:
  "\<exists>session t user. authorize_test_user cookie_cfg app_jar (Some ''s1'') test_world = (Inr (Some session), t)
     \<and> user \<in> set (users test_world) \<and> us_is_test_user user \<and> su_id session = us_id user \<and> \<not> su_isAdmin session"
proof -
  obtain session t where run: "authorize_test_user cookie_cfg app_jar (Some ''s1'') test_world = (Inr (Some session), t)"
    using test_signed_in by blast
  from test_user_sign_in_confined [OF this] run show ?thesis by blast
qed

section \<open>The administrator flag\<close>

abbreviation ada :: session_user where
  "ada \<equiv> \<lparr>su_id = ''s1'', su_username = ''ada'', su_name = ''ada'', su_email = None, su_image = None, su_isAdmin = True\<rparr>"

lemma admin_claim_bounded_witness:
  "\<exists>(at, flag) \<in> {(0, admin_flag ''s1'' sample_world), (0, True)}.
     authorized (Some (result_of (jwt_request secret_cfg None (result_of (jwt_sign_in secret_cfg ada) sample_world)) sample_world))
       ''/dashboard'' = flag \<and> 0 < at + (300000 :: nat)"
proof -
  have signed: "jwt_sign_in secret_cfg ada sample_world =
      (Inr (result_of (jwt_sign_in secret_cfg ada) sample_world), state_after (jwt_sign_in secret_cfg ada) sample_world)"
    by (rule succeeds_run) (simp add: succeeds_def jwt_sign_in_def)
  have asked: "jwt_request secret_cfg None token sample_world =
      (Inr (result_of (jwt_request secret_cfg None token) sample_world), state_after (jwt_request secret_cfg None token) sample_world)" for token
    by (rule succeeds_run) (simp add: succeeds_def jwt_request_def)
  from admin_claim_bounded [OF session_history.signed_in [OF signed] _ asked, of "''/dashboard''"] show ?thesis
    by (simp add: starts_with_def sample_clockless)
qed

section \<open>Password policies\<close>

definition two_letters :: policy_row where
  "two_letters =
     \<lparr>pp_id = ''pol'', pp_name = ''two'', pp_enabled = True, pp_min_length = 2, pp_max_length = Some 8, pp_min_uppercase = 0,
      pp_min_lowercase = 1, pp_min_number = 0, pp_min_special = 0, pp_reject_contains_identifier = True,
      pp_max_password_age_days = 0, pp_created_at = far, pp_updated_at = far\<rparr>"

text \<open>An administrator with an address, email codes switched on, a policy for administrators and a code that was sent.\<close>

definition gate_world :: world where
  "gate_world = account_world
     \<lparr>users := [account\<lparr>us_password_hash := ''$argon2pw''\<rparr>],
      site_settings := Some \<lparr>st_site_title = None, st_site_url = Some ''h'', st_cdn_url = None, st_logo_key = None,
                             st_mfa_enabled = True, st_admin_password_policy_id = Some ''pol''\<rparr>,
      password_policies := [two_letters],
      user_challenges := [code_challenge_row Mfa_otp ''code'' ''s1'' (hex_bytes (sample_bytes ''code:1:server'')) 0 MFA_OTP_TTL_MS]\<rparr>"

lemma gate_world_fields [simp]:
  "users gate_world = [account\<lparr>us_password_hash := ''$argon2pw''\<rparr>]" "password_policies gate_world = [two_letters]"
  "password_policy_environments gate_world = []" "ticks gate_world = 0" "draws gate_world = 0"
  "site_settings gate_world = Some \<lparr>st_site_title = None, st_site_url = Some ''h'', st_cdn_url = None, st_logo_key = None,
     st_mfa_enabled = True, st_admin_password_policy_id = Some ''pol''\<rparr>"
  "user_challenges gate_world = [code_challenge_row Mfa_otp ''code'' ''s1'' (hex_bytes (sample_bytes ''code:1:server'')) 0 MFA_OTP_TTL_MS]"
  "user_totp gate_world = []" "admin_audit_log gate_world = []" "environments gate_world = environments sample_world"
  by (simp_all add: gate_world_def account_world_def sample_world_def)

lemma gate_policies_ok: "policies_ok gate_world"
proof -
  have "js_trim ''two'' = ''two''" "nonblank (Some ''h'') \<noteq> None" by code_simp+
  then show ?thesis by (simp add: policies_ok_def settings_ok_def policy_ok_def two_letters_def)
qed

abbreviation account_names :: identifiers where
  "account_names \<equiv> \<lparr>id_username = Some ''ada'', id_email = Some ''ada@h.x''\<rparr>"

lemma gate_accepts: "validatePasswordAgainstPolicy two_letters ''pw'' account_names = \<lparr>ck_ok = True, ck_violations = []\<rparr>"
  by code_simp

lemma gate_complexity:
  "checkSignInPasswordComplexity ''s1'' True e ''pw'' account_names gate_world =
     \<lparr>cx_ok = True, cx_violations = [], cx_policy = Some two_letters\<rparr>"
  by (simp add: checkSignInPasswordComplexity_def getApplicablePolicyForSignIn_def getAdminPolicy_def policy_by_id_def
      gate_accepts two_letters_def [THEN arg_cong [of _ _ pp_id]] two_letters_def [THEN arg_cong [of _ _ pp_enabled]])

lemma sign_in_policy_exact_witness:
  "applies ''s1'' True None gate_world two_letters \<and> meets two_letters ''pw'' account_names"
proof -
  have "applies ''s1'' True None gate_world two_letters" by (simp add: applies_def two_letters_def)
  with sign_in_policy_exact [OF gate_policies_ok, of "''s1''" True None "''pw''" account_names] show ?thesis
    by (simp add: gate_complexity)
qed

abbreviation plain_policy :: new_policy where
  "plain_policy \<equiv> \<lparr>np_name = ''plain'', np_enabled = True, np_minLength = Whole 3, np_maxLength = None, np_minUppercase = Whole 0,
     np_minLowercase = Whole 0, np_minNumber = Whole 0, np_minSpecial = Whole 0, np_rejectContainsIdentifier = False,
     np_maxPasswordAgeDays = Whole 0\<rparr>"

lemma policies_stay_well_formed_witness:
  "policies_ok (state_after (remove_policy secret_cfg ''pol'' None)
     (state_after (create_policy secret_cfg plain_policy [''e1''] None) gate_world))"
proof -
  let ?v = "state_after (create_policy secret_cfg plain_policy [''e1''] None) gate_world"
  let ?t = "state_after (remove_policy secret_cfg ''pol'' None) ?v"
  have "policy_step secret_cfg gate_world ?v" by (rule policy_step.policy_created [OF run_any])
  moreover have "policy_step secret_cfg ?v ?t" by (rule policy_step.policy_removed [OF run_any])
  ultimately have "(policy_step secret_cfg)\<^sup>*\<^sup>* gate_world ?t" by (meson converse_rtranclp_into_rtranclp rtranclp.rtrancl_refl)
  then show ?thesis by (rule policies_stay_well_formed [OF _ gate_policies_ok])
qed

section \<open>The password sign-in\<close>






section \<open>Passkeys\<close>

definition passkey_world :: world where
  "passkey_world = sample_world
     \<lparr>passkey_challenges := [\<lparr>pc_id = ''pc'', pc_user_id = None, pc_challenge = ''ch'', pc_kind = Authentication, pc_expires_at = far\<rparr>],
      user_passkeys := [\<lparr>pk_id = ''pk'', pk_user_id = ''s1'', pk_credential_id = ''cred'', pk_public_key = ''key'', pk_counter = 0,
         pk_device_type = ''singleDevice'', pk_backed_up = False, pk_transports = None, pk_name = None, pk_last_used_at = None,
         pk_created_at = far\<rparr>],
      passkey_exchange_tokens := [\<lparr>ex_id = ''ex'', ex_user_id = ''s1'', ex_expires_at = far, ex_used_at = None\<rparr>]\<rparr>"

lemma passkey_world_fields [simp]:
  "passkey_challenges passkey_world = [\<lparr>pc_id = ''pc'', pc_user_id = None, pc_challenge = ''ch'', pc_kind = Authentication, pc_expires_at = far\<rparr>]"
  "user_passkeys passkey_world = [\<lparr>pk_id = ''pk'', pk_user_id = ''s1'', pk_credential_id = ''cred'', pk_public_key = ''key'', pk_counter = 0,
         pk_device_type = ''singleDevice'', pk_backed_up = False, pk_transports = None, pk_name = None, pk_last_used_at = None,
         pk_created_at = far\<rparr>]"
  "passkey_exchange_tokens passkey_world = [\<lparr>ex_id = ''ex'', ex_user_id = ''s1'', ex_expires_at = far, ex_used_at = None\<rparr>]"
  "users passkey_world = [sample_user]" "site_settings passkey_world = None" "ticks passkey_world = 0" "draws passkey_world = 0"
  by (simp_all add: passkey_world_def sample_world_def)

abbreviation signed_answer :: passkey_answer where
  "signed_answer \<equiv> \<lparr>an_id = ''cred'', an_transports = None, an_body = []\<rparr>"

lemma sample_assertion:
  "\<exists>x t. verifyAuthentication secret_cfg ''pc'' signed_answer passkey_world = (Inr x, t)"
proof -
  have url: "resolveIssuerBaseUrl secret_cfg = ''https://auth.progression-ai.com''" by code_simp
  have host: "parse_url secret_cfg ''https://auth.progression-ai.com'' = Some \<lparr>url_protocol = ''https:'', url_hostname = ''h'', url_hash = []\<rparr>"
    by code_simp
  have live: "\<not> far \<le> ''1970-01-01T00:00:00.000Z''" by code_simp
  have rp: "\<exists>rp. getRpDetails secret_cfg (passkey_world\<lparr>ticks := 1\<rparr>) = (Inr rp, passkey_world\<lparr>ticks := 1\<rparr>)"
    by (simp add: getRpDetails_def url rpIdFromOrigin_def host outcome_def run_seq Let_def)
  have ok: "verify_assertion secret_cfg e c a = Webauthn_verified (Suc (pk_counter c))" for e c a
    by (simp add: secret_cfg_def sample_cfg_def)
  from rp show ?thesis
    by (auto simp: verifyAuthentication_def run_seq getChallengeById_def check_passkey_expiry_def live findCredentialById_def
        accept_assertion_def verified_or_def ok updateCredentialCounter_def deleteChallenge_def insertExchangeToken_def guarded_def
        exchange_violated_def sample_user_def)
qed

lemma passkey_assertion_sound_witness:
  "\<exists>token userId t credential. verifyAuthentication secret_cfg ''pc'' signed_answer passkey_world = (Inr (token, userId), t)
     \<and> findCredentialById ''cred'' passkey_world = Some credential \<and> pk_user_id credential = userId"
proof -
  obtain token userId t where run: "verifyAuthentication secret_cfg ''pc'' signed_answer passkey_world = (Inr (token, userId), t)"
    using sample_assertion by fastforce
  from passkey_assertion_sound [OF this] run show ?thesis by auto
qed

lemma sample_passkey_session: "\<exists>session t. authorize_passkey secret_cfg (Some ''ex'') passkey_world = (Inr (Some session), t)"
proof -
  have "js_trim ''ex'' = ''ex''" "''1970-01-01T00:00:00.000Z'' < far" by code_simp+
  then show ?thesis
    by (simp add: authorize_passkey_def trimmed_or_empty_def Let_def consumeExchangeToken_def redeem_exchange_def redeemable_def run_seq
        user_by_id_def sample_user_def rowToUser_def isEmailMfaGloballyEnabled_def)
qed

lemma passkey_sign_in_once_witness:
  "\<exists>session t. authorize_passkey secret_cfg (Some ''ex'') passkey_world = (Inr (Some session), t)
     \<and> fst (authorize_passkey secret_cfg (Some ''ex'') t) = Inr None"
proof -
  obtain session t where run: "authorize_passkey secret_cfg (Some ''ex'') passkey_world = (Inr (Some session), t)"
    using sample_passkey_session by blast
  have "exchange_ids passkey_world" by (simp add: exchange_ids_def)
  from passkey_sign_in_once [OF run this] have "fst (authorize_passkey secret_cfg (Some ''ex'') t) = Inr None"
    using history.start [of redeemed "\<lambda>a b. False" t] by fast
  with run show ?thesis by blast
qed

end
