(* ===== verification/Spec2Isabelle.thy ===== *)
theory Spec2Isabelle
  imports CodeStore RefreshStore Params ClientAuth ClientClaims CodeGrant RefreshGrant Introspect
    AuditLog Consent Authorize Flow ApiKeyProofs Totp UserStore AuthSecrets TotpEnrollment Challenges
    PasswordReset StagedUpload Users UserRules UserInvariant ResetLinks ClientAdmin Setup Dcr DcrClient SetupRules Refinement
    PasswordPolicy PolicyService SiteSettings PolicyRules Passkeys PasskeyRules PendingCookie SignIn SignInActions SignInRules
    Witnesses WitnessesB WitnessesC WitnessesD
begin

text \<open>
  A model of the authorization server \<open>apps/auth\<close>: its token service, authorization endpoint,
  consent, API keys, client authentication, users, clients, environments and scopes, dynamic
  registration, one-time codes, password resets, authenticator apps, passkeys, password policies,
  site settings and the sign-in that issues a session, and the repositories below them, with the
  properties that make them correct.

  The model follows the layers of the code. A repository (\<open>lib/repositories/*.d1.ts\<close>) is a
  group of statements on tables; a service (\<open>lib/services\<close>) composes them. Both are methods
  of type \<open>'a m\<close> (theory \<open>Schema\<close>): functions from the state of the server (record
  \<open>world\<close>: the tables as lists of rows, and how often the clock and the random source were
  read) to a result, which is an error (\<open>Inl\<close>, the thrown value) or a value (\<open>Inr\<close>), and
  the state left behind. A throw keeps the writes made before it, because every statement
  of the database commits on its own; the batches the code uses are \<open>transaction\<close>s.
  What the code calls and does not define is the record \<open>cfg\<close>: the clock, randomness,
  SHA-256, HMAC, MD5, the Argon2 service, JWT signing and verification, URL, date and JSON
  parsing, environment variables, the object store, the mailer and the WebAuthn library.

  \<^item> \<open>Prelude\<close>: methods and the calculus for them. \<open>evolves R m\<close> says how a method may
    change the state (the locale \<open>evolution\<close> gives its rules for every reflexive and
    transitive \<open>R\<close>), \<open>raises P m\<close> what it may throw; the locale \<open>single_winner\<close> is the contract of
    a single-use credential, and \<open>one_shot\<close> extends it where only being spent makes an attempt lose.
  \<^item> \<open>IsoTime\<close>: \<open>Date.prototype.toISOString\<close>, and that its strings up to the year 9999
    compare as the instants do, which the SQL comparisons rely on.
  \<^item> \<open>Schema\<close>: rows, errors, state, platform.
  \<^item> \<open>Clients\<close>, \<open>TokenStore\<close>, \<open>CodeStore\<close>, \<open>RefreshStore\<close>: the repositories of clients,
    users and scope grants, access tokens, authorization codes and refresh tokens.
  \<^item> \<open>Params\<close>, \<open>ClientAuth\<close>, \<open>ClientClaims\<close>: request parameters, client secrets, the
    custom claims of a client.
  \<^item> \<open>Issue\<close>, \<open>Exchange\<close>, \<open>CodeGrant\<close>, \<open>RefreshGrant\<close>, \<open>Introspect\<close>:
    \<open>oauth-token.service.ts\<close>; issuing tokens, the grants, what they guarantee, and
    validation, revocation and cleanup.
  \<^item> \<open>AuditLog\<close>, \<open>Consent\<close>, \<open>Authorize\<close>, \<open>Flow\<close>: the audit log, consent, the authorization
    endpoint, and properties from one endpoint to the next (a code spent at one stays spent at all).
  \<^item> \<open>PasswordHash\<close>, \<open>ApiKeyFormat\<close>, \<open>ApiKeys\<close>, \<open>ApiKeyProofs\<close>: hashing policy and
    long-lived API keys.
  \<^item> \<open>UserStore\<close>, \<open>StagedUpload\<close>, \<open>Users\<close>: \<open>admin.repository.d1.ts\<close>, \<open>uploads/staged-upload.ts\<close> and
    \<open>user.service.ts\<close>; \<open>UserRules\<close>, \<open>UserInvariant\<close>: what every operation on users keeps, as the
    invariant of a transition system.
  \<^item> \<open>AuthSecrets\<close>, \<open>Totp\<close>, \<open>TotpEnrollment\<close>: \<open>auth-secret.ts\<close>, \<open>secret-box.ts\<close>, \<open>totp.ts\<close> (with
    JavaScript's bit operations on \<open>32 word\<close>) and \<open>totp.service.ts\<close>.
  \<^item> \<open>Challenges\<close>, \<open>PasswordReset\<close>: \<open>user-challenge.service.ts\<close>, its repository, the sender of
    \<open>transactional-email.service.ts\<close> and \<open>password-reset-jwt.ts\<close>; \<open>ResetLinks\<close>: a dead link stays dead
    under every operation on users, codes and resets.
  \<^item> \<open>ClientAdmin\<close>, \<open>Setup\<close>: \<open>client.service.ts\<close>, \<open>environment.service.ts\<close>, \<open>scope.service.ts\<close> and
    their repositories with the cascades of the schema; \<open>Dcr\<close>, \<open>DcrClient\<close>: \<open>app/api/register\<close>,
    \<open>dcr.service.ts\<close>, the rate limit, and what a registration adds; \<open>SetupRules\<close>: referential
    integrity as the invariant of all of these.
  \<^item> \<open>PasswordPolicy\<close>, \<open>PolicyService\<close>, \<open>SiteSettings\<close>: \<open>password-policy-validation.ts\<close>,
    \<open>password-policy.service.ts\<close>, \<open>site-settings.service.ts\<close> and their repositories; \<open>PolicyRules\<close>:
    the invariant of the policies and the settings, and the check at sign-in in terms of the rules.
  \<^item> \<open>Passkeys\<close>, \<open>PasskeyRules\<close>: \<open>passkey.service.ts\<close> and its repository; what an assertion and a
    redeemed exchange token show (\<open>single_winner\<close> interpreted on the redeeming \<open>UPDATE\<close>).
  \<^item> \<open>PendingCookie\<close>: \<open>oauth-pending-cookie.ts\<close> and \<open>pending-client.ts\<close>.
  \<^item> \<open>SignIn\<close>, \<open>SignInActions\<close>, \<open>SignInRules\<close>: the providers and callbacks of \<open>auth.ts\<close>,
    \<open>session-admin-refresh.ts\<close>, the server actions \<open>mfa-actions.ts\<close> and \<open>user-settings-actions.ts\<close>,
    and what stands behind a session (a history of its requests is an inductive relation).
  \<^item> \<open>Refinement\<close>: the consent service as a map, and the family search as the loop it is.
  \<^item> \<open>Samples\<close>, \<open>Witnesses\<close>, \<open>WitnessesB\<close>, \<open>WitnessesC\<close>, \<open>WitnessesD\<close>: a concrete platform and database on
    which every property with hypotheses is applied.

  Fuel is not needed anywhere: the recursive functions terminate, the search over a rotation
  family because each round drops an id or visits a new one of finitely many.

  Not modelled: the checks of WebAuthn itself and the signing of the session token (the libraries
  do both), the token activity log, mail rendering, the admin pages and the HTTP plumbing of the
  routes other than registration, and the OpenAPI document, which is constant data. Requests are
  interleaved between operations, not inside them: what two overlapping requests can do to each
  other is stated only where the code relies on a conditional update (\<open>single_winner\<close>). The bound of
  the database on the parameters of one statement is not modelled (the \<open>IN\<close> list that expires the
  access tokens of a family), and the salt of the Argon2 service is part of its answer: the model
  asks only that the service verifies what it hashed.
\<close>

end
